(* ===== verification/Prelude.thy ===== *)
theory Prelude
  imports Main "HOL-Library.Word" "HOL-Library.Multiset" "HOL-Library.List_Lexorder"
    "HOL-Library.Char_ord"
begin

text \<open>
  Shared vocabulary of the development: machine integers and their saturating
  operations, results of fallible code, ordered string maps (the \<open>BTreeMap\<close> and
  \<open>HashMap\<close> fields of the protocol types), time stamps, and the generic list
  lemmas that the component theories use.
\<close>

section \<open>Collections of facts\<close>

named_theorems model_defs "definitions that most proofs about a component unfold"
named_theorems sat_simps "arithmetic of saturating machine integers"

section \<open>Machine integers\<close>

type_synonym u8 = "8 word"
type_synonym u16 = "16 word"
type_synonym u32 = "32 word"
type_synonym u64 = "64 word"
type_synonym uuid = "128 word"

text \<open>\<open>Uuid::nil()\<close>, which is also \<open>Uuid::default()\<close>.\<close>

definition nil_uuid :: uuid where "nil_uuid = 0"

definition u64_max :: nat where "u64_max = 2 ^ 64 - 1"

text \<open>\<open>u64::saturating_add\<close>, and \<open>usize -> u64\<close> with \<open>unwrap_or(u64::MAX)\<close>.\<close>

definition saturating_add :: "u64 \<Rightarrow> u64 \<Rightarrow> u64" where
  "saturating_add a b = (if unat a + unat b \<le> u64_max then a + b else of_nat u64_max)"

definition clamp_u64 :: "nat \<Rightarrow> u64" where
  "clamp_u64 n = (if n \<le> u64_max then of_nat n else of_nat u64_max)"

lemma unat_le_u64_max: "unat (a :: u64) \<le> u64_max"
  using unsigned_less [of a, where 'a = nat] by (simp add: u64_max_def)

lemma unat_of_nat_u64: "n \<le> u64_max \<Longrightarrow> unat (of_nat n :: u64) = n"
  by (simp add: unsigned_of_nat take_bit_eq_mod u64_max_def)

lemma unat_clamp_u64 [sat_simps]: "unat (clamp_u64 n) = min u64_max n"
  by (simp add: clamp_u64_def unat_of_nat_u64 min_def)

lemma clamp_u64_unat [simp]: "clamp_u64 (unat a) = a"
  by (simp add: clamp_u64_def unat_le_u64_max)

lemma u64_eqI: "unat (a :: u64) = unat b \<Longrightarrow> a = b"
  by (simp add: word_unat_eq_iff)

lemma unat_saturating_add [sat_simps]:
  "unat (saturating_add a b) = min u64_max (unat a + unat b)"
  by (auto simp: saturating_add_def unat_of_nat_u64 min_def unat_word_ariths u64_max_def)

lemma saturating_add_clamp [sat_simps]:
  "saturating_add (clamp_u64 m) (clamp_u64 n) = clamp_u64 (m + n)"
  by (rule u64_eqI) (simp add: unat_saturating_add unat_clamp_u64)

lemma clamp_u64_0 [simp]: "clamp_u64 0 = 0"
  by (simp add: clamp_u64_def)

text \<open>A loop that adds clamped quantities is the clamp of the exact sum.\<close>

lemma fold_saturating_add_clamp [sat_simps]:
  "foldl (\<lambda>s x. saturating_add s (clamp_u64 (f x))) (clamp_u64 n) xs
     = clamp_u64 (n + sum_list (map f xs))"
  by (induction xs arbitrary: n) (simp_all add: saturating_add_clamp add.assoc)

section \<open>Results\<close>

text \<open>\<open>Result<T, E>\<close> is \<open>'e + 't\<close>: \<open>Inl\<close> the error, \<open>Inr\<close> the value.\<close>

definition result_bind :: "'e + 'a \<Rightarrow> ('a \<Rightarrow> 'e + 'b) \<Rightarrow> 'e + 'b" where
  "result_bind r f = (case r of Inl e \<Rightarrow> Inl e | Inr a \<Rightarrow> f a)"

lemma result_bind_simps [simp]:
  "result_bind (Inl e) f = Inl e" "result_bind (Inr a) f = f a"
  by (simp_all add: result_bind_def)

definition is_ok :: "'e + 'a \<Rightarrow> bool" where
  "is_ok r = (case r of Inl _ \<Rightarrow> False | Inr _ \<Rightarrow> True)"

section \<open>String-keyed maps\<close>

text \<open>
  \<open>BTreeMap<String, V>\<close> as its in-order list of entries. \<open>HashMap\<close>s of the scope use
  the same type: the code only extends other maps with them, where the order does not
  matter.
\<close>

type_synonym 'v smap = "(string \<times> 'v) list"

fun sm_insert :: "string \<Rightarrow> 'v \<Rightarrow> 'v smap \<Rightarrow> 'v smap" where
  "sm_insert k v [] = [(k, v)]"
| "sm_insert k v ((k', v') # m) =
     (if k = k' then (k, v) # m
      else if k < k' then (k, v) # (k', v') # m
      else (k', v') # sm_insert k v m)"

definition sm_remove :: "string \<Rightarrow> 'v smap \<Rightarrow> 'v smap" where
  "sm_remove k m = filter (\<lambda>(k', _). k' \<noteq> k) m"

definition sm_has :: "string \<Rightarrow> 'v smap \<Rightarrow> bool" where
  "sm_has k m = (map_of m k \<noteq> None)"

text \<open>\<open>entry(k).or_insert(v)\<close> and \<open>extend\<close>.\<close>

definition sm_or_insert :: "string \<Rightarrow> 'v \<Rightarrow> 'v smap \<Rightarrow> 'v smap" where
  "sm_or_insert k v m = (if sm_has k m then m else sm_insert k v m)"

definition sm_extend :: "'v smap \<Rightarrow> 'v smap \<Rightarrow> 'v smap" where
  "sm_extend m kvs = fold (\<lambda>(k, v). sm_insert k v) kvs m"

definition sm_sorted :: "'v smap \<Rightarrow> bool" where
  "sm_sorted m = sorted_wrt (<) (map fst m)"

lemma map_of_sm_insert [simp]: "map_of (sm_insert k v m) = (map_of m)(k \<mapsto> v)"
  by (induction m rule: sm_insert.induct) auto

lemma map_of_sm_remove [simp]: "map_of (sm_remove k m) = (map_of m)(k := None)"
  by (induction m) (auto simp: sm_remove_def fun_eq_iff)

lemma map_of_sm_or_insert:
  "map_of (sm_or_insert k v m) k' =
     (if k' = k then Some (case map_of m k of None \<Rightarrow> v | Some w \<Rightarrow> w) else map_of m k')"
  by (auto simp: sm_or_insert_def sm_has_def split: option.splits)

lemma map_of_sm_extend: "map_of (sm_extend m kvs) = map_of m ++ map_of (rev kvs)"
  unfolding sm_extend_def
proof (induction kvs arbitrary: m)
  case (Cons a kvs)
  then show ?case
    by (cases a) (simp add: map_add_def fun_eq_iff split: option.splits)
qed simp

lemma set_sm_insert_keys: "fst ` set (sm_insert k v m) = insert k (fst ` set m)"
  by (induction m rule: sm_insert.induct) auto

lemma sm_sorted_insert [simp, intro]: "sm_sorted m \<Longrightarrow> sm_sorted (sm_insert k v m)"
proof (induction m rule: sm_insert.induct)
  case (2 k v k' v' m)
  have "set (map fst (sm_insert k v m)) = insert k (fst ` set m)"
    by (simp add: set_sm_insert_keys)
  with 2 show ?case by (auto simp: sm_sorted_def)
qed (simp add: sm_sorted_def)

lemma sm_sorted_remove [simp, intro]: "sm_sorted m \<Longrightarrow> sm_sorted (sm_remove k m)"
  by (induction m) (auto simp: sm_sorted_def sm_remove_def)

lemma sm_sorted_Nil [simp]: "sm_sorted []" by (simp add: sm_sorted_def)

lemma sm_sorted_extend [simp, intro]: "sm_sorted m \<Longrightarrow> sm_sorted (sm_extend m kvs)"
  unfolding sm_extend_def by (induction kvs arbitrary: m) auto

lemma map_of_rev_distinct: "distinct (map fst xs) \<Longrightarrow> map_of (rev xs) = map_of xs"
proof (induction xs)
  case (Cons a xs)
  then have "map_of xs (fst a) = None" by (simp add: map_of_eq_None_iff)
  with Cons show ?case
    by (cases a) (auto simp: map_add_def fun_eq_iff split: option.splits)
qed simp

lemma sm_sorted_map_of_rev: "sm_sorted m \<Longrightarrow> map_of (rev m) = map_of m"
  by (simp add: sm_sorted_def strict_sorted_iff distinct_map map_of_rev_distinct)

text \<open>Extending with an ordered map: the entries of the right-hand map win.\<close>

lemma map_of_sm_extend_sorted:
  "sm_sorted n \<Longrightarrow> map_of (sm_extend m n) = map_of m ++ map_of n"
  by (simp add: map_of_sm_extend sm_sorted_map_of_rev)

section \<open>Time\<close>

text \<open>
  A \<open>SystemTime\<close> counts nanoseconds from the Unix epoch (negative before it); its seconds
  are an \<open>i64\<close>. A \<open>Duration\<close> is a non-negative number of nanoseconds. The clock is an
  input: the functions take the readings that \<open>SystemTime::now()\<close> returns.
\<close>

type_synonym systime = int
type_synonym duration = int

definition nanos_per_sec :: int where "nanos_per_sec = 1000000000"

definition from_secs :: "int \<Rightarrow> duration" where "from_secs s = s * nanos_per_sec"

definition systime_checked_add :: "systime \<Rightarrow> duration \<Rightarrow> systime option" where
  "systime_checked_add t d =
     (let t' = t + d in if t' div nanos_per_sec < 2 ^ 63 then Some t' else None)"

text \<open>\<open>later.duration_since(earlier).ok()\<close>\<close>

definition duration_since :: "systime \<Rightarrow> systime \<Rightarrow> duration option" where
  "duration_since later earlier = (if earlier \<le> later then Some (later - earlier) else None)"

section \<open>Lists\<close>

lemma map_filter_append: "List.map_filter f (xs @ ys) = List.map_filter f xs @ List.map_filter f ys"
  by (simp add: List.map_filter_def)

lemma foldl_snoc_eq_append: "foldl (\<lambda>acc x. acc @ [f x]) acc xs = acc @ map f xs"
  by (induction xs arbitrary: acc) simp_all

lemma nth_concat_map_const:
  assumes "i < length xs" and "j < n" and "\<And>x. length (f x) = n"
  shows "concat (map f xs) ! (i * n + j) = f (xs ! i) ! j"
  using assms(1)
proof (induction xs arbitrary: i)
  case (Cons x xs)
  show ?case
  proof (cases i)
    case 0
    with assms show ?thesis by (simp add: nth_append)
  next
    case (Suc k)
    with Cons assms show ?thesis by (simp add: nth_append add.assoc)
  qed
qed simp

lemma length_concat_map_const:
  "(\<And>x. length (f x) = n) \<Longrightarrow> length (concat (map f xs)) = length xs * n"
  by (induction xs) simp_all

lemma pair_index_bound:
  assumes "(i :: nat) < m" and "j < n" shows "i * n + j < m * n"
proof -
  have "i * n + j < Suc i * n" using assms(2) by simp
  also have "\<dots> \<le> m * n" using assms(1) by (intro mult_le_mono1) simp
  finally show ?thesis .
qed

end
