(* ===== verification/ClientReport.thy ===== *)
theory ClientReport
  imports Prelude
begin

text \<open>
  Client reports: the indexed enumerations \<open>Reason\<close> and \<open>Category\<close>
  (\<open>protocol/client_report/mod.rs\<close>, macro \<open>indexed_enum!\<close>), the list of discarded items
  with its order-insensitive equality (\<open>list.rs\<close>), and the counter array that aggregates
  losses (\<open>client/client_reports/inner.rs\<close>), with the contract of an indexed enumeration
  as a locale and an abstract counter map that the array implements.
\<close>

section \<open>Indexed enumerations\<close>

datatype reason =
    SendError | InternalSdkError | NetworkError | RatelimitBackoff | QueueOverflow
  | BufferOverflow | EventProcessor | BeforeSend | SampleRate

datatype category =
    CatError | CatSession | CatTransaction | CatSpan | CatAttachment | CatMonitor
  | CatLogItem | CatLogByte | CatTraceMetric | CatTraceMetricByte

definition reason_variants :: "reason list" where
  "reason_variants =
     [SendError, InternalSdkError, NetworkError, RatelimitBackoff, QueueOverflow,
      BufferOverflow, EventProcessor, BeforeSend, SampleRate]"

fun reason_as_index :: "reason \<Rightarrow> nat" where
  "reason_as_index SendError = 0"
| "reason_as_index InternalSdkError = 1"
| "reason_as_index NetworkError = 2"
| "reason_as_index RatelimitBackoff = 3"
| "reason_as_index QueueOverflow = 4"
| "reason_as_index BufferOverflow = 5"
| "reason_as_index EventProcessor = 6"
| "reason_as_index BeforeSend = 7"
| "reason_as_index SampleRate = 8"

definition category_variants :: "category list" where
  "category_variants =
     [CatError, CatSession, CatTransaction, CatSpan, CatAttachment, CatMonitor,
      CatLogItem, CatLogByte, CatTraceMetric, CatTraceMetricByte]"

fun category_as_index :: "category \<Rightarrow> nat" where
  "category_as_index CatError = 0"
| "category_as_index CatSession = 1"
| "category_as_index CatTransaction = 2"
| "category_as_index CatSpan = 3"
| "category_as_index CatAttachment = 4"
| "category_as_index CatMonitor = 5"
| "category_as_index CatLogItem = 6"
| "category_as_index CatLogByte = 7"
| "category_as_index CatTraceMetric = 8"
| "category_as_index CatTraceMetricByte = 9"

text \<open>The contract of the trait \<open>IndexedEnum\<close>.\<close>

locale indexed_enum =
  fixes variants :: "'a list" and as_index :: "'a \<Rightarrow> nat"
  assumes as_index_bound: "as_index v < length variants"
    and nth_as_index: "variants ! as_index v = v"
    and distinct_variants: "distinct variants"
begin

lemma as_index_inject: "as_index v = as_index w \<longleftrightarrow> v = w"
  by (metis nth_as_index)

lemma as_index_nth: "i < length variants \<Longrightarrow> as_index (variants ! i) = i"
  using distinct_variants as_index_bound nth_as_index by (metis nth_eq_iff_index_eq)

lemma variants_exhaustive: "v \<in> set variants"
  by (metis as_index_bound nth_as_index nth_mem)

end

text \<open>
  Two enumerations index the cells of one array: row by row, the way \<open>index\<close> and
  \<open>iter_reason_categories\<close> do it.
\<close>

locale enum_pair = row: indexed_enum rows row_index + col: indexed_enum cols col_index
  for rows :: "'r list" and row_index and cols :: "'c list" and col_index
begin

lemma cell_bound: "row_index r * length cols + col_index c < length rows * length cols"
  by (rule pair_index_bound [OF row.as_index_bound col.as_index_bound])

lemma nth_cell:
  "concat (map (\<lambda>r. map (Pair r) cols) rows) ! (row_index r * length cols + col_index c) = (r, c)"
  using row.as_index_bound [of r] col.as_index_bound [of c]
  by (subst nth_concat_map_const) (simp_all add: row.nth_as_index col.nth_as_index)

lemma cell_inject:
  "row_index r * length cols + col_index c = row_index r' * length cols + col_index c'
     \<longleftrightarrow> r = r' \<and> c = c'"
  by (metis nth_cell prod.inject)

lemma distinct_cells: "distinct (concat (map (\<lambda>r. map (Pair r) cols) rows))"
  using row.distinct_variants col.distinct_variants
  by (induction rows) (auto simp: distinct_map inj_on_def)

lemma cell_surj:
  assumes "i < length rows * length cols"
  shows "\<exists>r c. i = row_index r * length cols + col_index c"
proof -
  have pos: "0 < length cols" using assms by (cases cols) simp_all
  have "i div length cols < length rows"
    using assms pos by (simp add: less_mult_imp_div_less)
  moreover have "i mod length cols < length cols" using pos by simp
  ultimately have "i = row_index (rows ! (i div length cols)) * length cols
      + col_index (cols ! (i mod length cols))"
    by (simp add: row.as_index_nth col.as_index_nth)
  then show ?thesis by blast
qed

end

interpretation reasons: indexed_enum reason_variants reason_as_index
proof
  fix v show "reason_as_index v < length reason_variants"
    by (cases v) (simp_all add: reason_variants_def)
next
  fix v show "reason_variants ! reason_as_index v = v"
    by (cases v) (simp_all add: reason_variants_def)
qed (simp add: reason_variants_def)

interpretation categories: indexed_enum category_variants category_as_index
proof
  fix v show "category_as_index v < length category_variants"
    by (cases v) (simp_all add: category_variants_def)
next
  fix v show "category_variants ! category_as_index v = v"
    by (cases v) (simp_all add: category_variants_def)
qed (simp add: category_variants_def)

interpretation cells: enum_pair category_variants category_as_index
    reason_variants reason_as_index
  by unfold_locales

section \<open>Reports\<close>

record item =
  it_category :: category
  it_reason :: reason
  it_quantity :: u64

record report =
  rep_timestamp :: systime
  rep_discarded_events :: "item list"

definition report_new :: "systime \<Rightarrow> item list \<Rightarrow> report" where
  "report_new now items = \<lparr>rep_timestamp = now, rep_discarded_events = items\<rparr>"

definition possible_category_reasons :: nat where
  "possible_category_reasons = length category_variants * length reason_variants"

definition aggregate_index :: "category \<Rightarrow> reason \<Rightarrow> nat" where
  "aggregate_index c r = category_as_index c * length reason_variants + reason_as_index r"

definition aggregate_step :: "u64 list \<Rightarrow> item \<Rightarrow> u64 list" where
  "aggregate_step counts it =
     (let i = aggregate_index (it_category it) (it_reason it)
      in counts[i := saturating_add (counts ! i) (it_quantity it)])"

definition aggregate :: "item list \<Rightarrow> u64 list" where
  "aggregate items = foldl aggregate_step (replicate possible_category_reasons 0) items"

text \<open>\<open>PartialEq for ClientReportList\<close>: equal when the per-cell totals agree.\<close>

definition report_list_eq :: "item list \<Rightarrow> item list \<Rightarrow> bool" where
  "report_list_eq xs ys = (aggregate xs = aggregate ys)"

section \<open>The aggregator\<close>

record aggregator =
  agg_counts :: "u64 list"
  agg_has_reports :: bool

definition array_size :: nat where
  "array_size = length reason_variants * length category_variants"

definition aggregator_new :: aggregator where
  "aggregator_new = \<lparr>agg_counts = replicate array_size 0, agg_has_reports = False\<rparr>"

definition agg_index :: "category \<Rightarrow> reason \<Rightarrow> nat" where
  "agg_index c r = category_as_index c * length reason_variants + reason_as_index r"

definition iter_reason_categories :: "(category \<times> reason) list" where
  "iter_reason_categories = concat (map (\<lambda>c. map (Pair c) reason_variants) category_variants)"

text \<open>\<open>fetch_add\<close> wraps around on overflow, as atomics do.\<close>

definition record_loss :: "category \<Rightarrow> reason \<Rightarrow> u64 \<Rightarrow> aggregator \<Rightarrow> aggregator" where
  "record_loss c r q a =
     (if q > 0
      then a\<lparr>agg_counts := (agg_counts a)[agg_index c r := agg_counts a ! agg_index c r + q],
             agg_has_reports := True\<rparr>
      else a)"

definition take_pending_report_vec :: "aggregator \<Rightarrow> item list \<times> aggregator" where
  "take_pending_report_vec a =
     (if \<not> agg_has_reports a then ([], a\<lparr>agg_has_reports := False\<rparr>)
      else
       (map (\<lambda>((c, r), q). \<lparr>it_category = c, it_reason = r, it_quantity = q\<rparr>)
          (filter (\<lambda>(_, q). q > 0) (zip iter_reason_categories (agg_counts a))),
        a\<lparr>agg_counts := map (\<lambda>_. 0) (agg_counts a), agg_has_reports := False\<rparr>))"

definition take_pending_report :: "systime \<Rightarrow> aggregator \<Rightarrow> report option \<times> aggregator" where
  "take_pending_report now a =
     (case take_pending_report_vec a of
        ([], a') \<Rightarrow> (None, a')
      | (items, a') \<Rightarrow> (Some (report_new now items), a'))"

text \<open>The losses of a dropped item (\<open>ItemLoss\<close>) and recording a sequence of them.\<close>

record loss =
  loss_category :: category
  loss_quantity :: u64
  loss_reason :: "reason option"

definition record_one :: "reason \<Rightarrow> aggregator \<Rightarrow> loss \<Rightarrow> aggregator" where
  "record_one rsn a l =
     record_loss (loss_category l)
       (case loss_reason l of None \<Rightarrow> rsn | Some r \<Rightarrow> r) (loss_quantity l) a"

definition record_lost_data :: "loss list \<Rightarrow> reason \<Rightarrow> aggregator \<Rightarrow> aggregator" where
  "record_lost_data losses rsn a = foldl (record_one rsn) a losses"

text \<open>
  A \<open>Recorder\<close> is the weak handle of a transport: recording does nothing once the aggregator
  is gone, which is \<open>None\<close> here.
\<close>

datatype transport_loss_reason =
    TlrSendError | TlrInternalError | TlrNetworkError | TlrRatelimitBackoff | TlrQueueOverflow

fun into_reason :: "transport_loss_reason \<Rightarrow> reason" where
  "into_reason TlrSendError = SendError"
| "into_reason TlrInternalError = InternalSdkError"
| "into_reason TlrNetworkError = NetworkError"
| "into_reason TlrRatelimitBackoff = RatelimitBackoff"
| "into_reason TlrQueueOverflow = QueueOverflow"

type_synonym recorder = "aggregator option"

definition recorder_record_lost_data ::
  "loss list \<Rightarrow> transport_loss_reason \<Rightarrow> recorder \<Rightarrow> recorder" where
  "recorder_record_lost_data losses rsn rec =
     (case rec of Some agg \<Rightarrow> Some (record_lost_data losses (into_reason rsn) agg) | None \<Rightarrow> None)"

section \<open>What the aggregator promises\<close>

text \<open>
  Abstractly the aggregator is a map from cells to counters; the flag is only a hint that
  some counter may be nonzero.
\<close>

definition agg_abs :: "aggregator \<Rightarrow> category \<Rightarrow> reason \<Rightarrow> u64" where
  "agg_abs a c r = agg_counts a ! agg_index c r"

definition agg_inv :: "aggregator \<Rightarrow> bool" where
  "agg_inv a \<longleftrightarrow> length (agg_counts a) = array_size
     \<and> (\<not> agg_has_reports a \<longrightarrow> agg_counts a = replicate array_size 0)"

lemma array_size_cells: "array_size = length category_variants * length reason_variants"
  by (simp add: array_size_def)

lemma agg_index_bound [simp, intro]: "agg_index c r < array_size"
  using cells.cell_bound by (simp add: agg_index_def array_size_cells)

lemma agg_index_inject [simp]: "agg_index c r = agg_index c' r' \<longleftrightarrow> c = c' \<and> r = r'"
  using cells.cell_inject by (simp add: agg_index_def)

lemma agg_index_surj: "i < array_size \<Longrightarrow> \<exists>c r. i = agg_index c r"
  using cells.cell_surj by (simp add: agg_index_def array_size_cells)

lemma nth_iter [simp]: "iter_reason_categories ! agg_index c r = (c, r)"
  using cells.nth_cell by (simp add: iter_reason_categories_def agg_index_def)

lemma length_iter [simp]: "length iter_reason_categories = array_size"
  unfolding iter_reason_categories_def array_size_cells
  by (rule length_concat_map_const) simp

lemma distinct_iter: "distinct iter_reason_categories"
  using cells.distinct_cells by (simp add: iter_reason_categories_def)

lemma agg_inv_new [simp]: "agg_inv aggregator_new"
  by (simp add: agg_inv_def aggregator_new_def)

lemma agg_abs_new [simp]: "agg_abs aggregator_new c r = 0"
  by (simp add: agg_abs_def aggregator_new_def)

lemma agg_inv_length [simp]: "agg_inv a \<Longrightarrow> length (agg_counts a) = array_size"
  by (simp add: agg_inv_def)

lemma agg_inv_record_loss [simp, intro]: "agg_inv a \<Longrightarrow> agg_inv (record_loss c r q a)"
  by (simp add: agg_inv_def record_loss_def)

lemma agg_abs_record_loss [simp]:
  "agg_inv a \<Longrightarrow>
   agg_abs (record_loss c r q a) c' r' = agg_abs a c' r' + (if c' = c \<and> r' = r then q else 0)"
  by (auto simp: agg_abs_def record_loss_def nth_list_update word_gt_0)

lemma agg_inv_record_lost_data [simp, intro]:
  "agg_inv a \<Longrightarrow> agg_inv (record_lost_data ls rsn a)"
  unfolding record_lost_data_def
  by (induction ls arbitrary: a) (simp_all add: record_one_def)

text \<open>The quantity that a list of losses adds to one cell.\<close>

definition loss_in :: "reason \<Rightarrow> category \<Rightarrow> reason \<Rightarrow> loss \<Rightarrow> u64" where
  "loss_in rsn c r l =
     (if loss_category l = c \<and> (case loss_reason l of None \<Rightarrow> rsn | Some r' \<Rightarrow> r') = r
      then loss_quantity l else 0)"

lemma agg_abs_record_lost_data:
  "agg_inv a \<Longrightarrow>
   agg_abs (record_lost_data ls rsn a) c r = agg_abs a c r + sum_list (map (loss_in rsn c r) ls)"
  unfolding record_lost_data_def
proof (induction ls arbitrary: a)
  case (Cons l ls)
  then show ?case
    by (auto simp: record_one_def loss_in_def add.assoc)
qed simp

lemma record_lost_data_append:
  "record_lost_data (xs @ ys) rsn a = record_lost_data ys rsn (record_lost_data xs rsn a)"
  by (simp add: record_lost_data_def)

lemma take_vec_agg:
  assumes "agg_inv a" and "take_pending_report_vec a = (items, a')"
  shows "agg_inv a'" and "agg_abs a' c r = 0" and "\<not> agg_has_reports a'"
  using assms
  by (auto simp: take_pending_report_vec_def agg_inv_def agg_abs_def map_replicate_const
      split: if_splits)

lemma take_vec_items:
  assumes "agg_inv a" and "take_pending_report_vec a = (items, a')"
  shows "it \<in> set items \<longleftrightarrow>
     it_quantity it = agg_abs a (it_category it) (it_reason it) \<and> it_quantity it \<noteq> 0"
proof (cases "agg_has_reports a")
  case False
  with assms show ?thesis
    by (auto simp: take_pending_report_vec_def agg_inv_def agg_abs_def)
next
  case True
  have "((c, r), q) \<in> set (zip iter_reason_categories (agg_counts a)) \<longleftrightarrow> q = agg_abs a c r"
    for c r q
  proof
    assume "((c, r), q) \<in> set (zip iter_reason_categories (agg_counts a))"
    then obtain i where i: "i < array_size" "iter_reason_categories ! i = (c, r)"
        "agg_counts a ! i = q"
      using assms(1) by (auto simp: set_zip)
    from agg_index_surj [OF i(1)] obtain c' r' where "i = agg_index c' r'" by blast
    with i show "q = agg_abs a c r" by (simp add: agg_abs_def)
  next
    assume "q = agg_abs a c r"
    then show "((c, r), q) \<in> set (zip iter_reason_categories (agg_counts a))"
      using assms(1) by (auto simp: set_zip agg_abs_def intro!: exI [of _ "agg_index c r"])
  qed
  with True assms(2) show ?thesis
    by (cases it)
      (force simp: take_pending_report_vec_def word_gt_0 image_iff)
qed

lemma take_vec_distinct:
  assumes "agg_inv a" and "take_pending_report_vec a = (items, a')"
  shows "distinct (map (\<lambda>it. (it_category it, it_reason it)) items)"
proof (cases "agg_has_reports a")
  case False
  with assms show ?thesis by (simp add: take_pending_report_vec_def)
next
  case True
  let ?z = "filter (\<lambda>(_, q). q > 0) (zip iter_reason_categories (agg_counts a))"
  have "distinct (map fst (zip iter_reason_categories (agg_counts a)))"
    using assms(1) distinct_iter by simp
  then have "distinct (map fst ?z)" by (rule distinct_map_filter)
  moreover have "map (\<lambda>it. (it_category it, it_reason it)) items = map fst ?z"
    using True assms(2) by (auto simp: take_pending_report_vec_def)
  ultimately show ?thesis by simp
qed

lemma agg_inv_take [simp, intro]: "agg_inv a \<Longrightarrow> agg_inv (snd (take_pending_report now a))"
  by (cases "take_pending_report_vec a")
    (auto simp: take_pending_report_def dest: take_vec_agg(1) split: list.splits)

section \<open>Properties\<close>

lemma take_vec_empty_iff:
  assumes "agg_inv a" and "take_pending_report_vec a = (items, a')"
  shows "items = [] \<longleftrightarrow> (\<forall>c r. agg_abs a c r = 0)"
proof -
  have "items = [] \<longleftrightarrow> (\<forall>it. it \<notin> set items)" by (cases items) auto
  also have "\<dots> \<longleftrightarrow> (\<forall>c r. agg_abs a c r = 0)"
  proof
    assume none: "\<forall>it. it \<notin> set items"
    show "\<forall>c r. agg_abs a c r = 0"
    proof (intro allI)
      fix c r
      show "agg_abs a c r = 0"
        using none [rule_format, of "\<lparr>it_category = c, it_reason = r, it_quantity = agg_abs a c r\<rparr>"]
        by (simp add: take_vec_items [OF assms])
    qed
  qed (simp add: take_vec_items [OF assms])
  finally show ?thesis .
qed

lemma take_report_cases:
  assumes "take_pending_report_vec a = (items, a')"
  shows "take_pending_report now a =
    (if items = [] then None else Some (report_new now items), a')"
  using assms by (simp add: take_pending_report_def split: list.split)

text \<open>
  C5: Draining the client-report aggregator after a sequence of losses returns one item for
  each (category, reason) cell whose total is nonzero, with exactly that total (modulo
  \<open>2^64\<close>, as the atomic counters wrap), and no report when every total is zero; afterwards
  every counter is zero. A loss that carries its own reason counts under that one.
\<close>

theorem take_report_exact:
  assumes "agg_inv a"
    and "take_pending_report now (record_lost_data losses rsn a) = (r, a')"
  shows "(case r of
      None \<Rightarrow> \<forall>c s. agg_abs a c s + sum_list (map (loss_in rsn c s) losses) = 0
    | Some rep \<Rightarrow> rep_timestamp rep = now \<and> rep_discarded_events rep \<noteq> [] \<and>
        distinct (map (\<lambda>it. (it_category it, it_reason it)) (rep_discarded_events rep)) \<and>
        (\<forall>c s q. \<lparr>it_category = c, it_reason = s, it_quantity = q\<rparr> \<in> set (rep_discarded_events rep)
           \<longleftrightarrow> q = agg_abs a c s + sum_list (map (loss_in rsn c s) losses) \<and> q \<noteq> 0))
    \<and> agg_inv a' \<and> (\<forall>c s. agg_abs a' c s = 0)"
proof -
  let ?a = "record_lost_data losses rsn a"
  have inv: "agg_inv ?a" using assms(1) by simp
  obtain items b where vec: "take_pending_report_vec ?a = (items, b)"
    by (cases "take_pending_report_vec ?a")
  have r: "r = (if items = [] then None else Some (report_new now items))" and b: "b = a'"
    using assms(2) take_report_cases [OF vec, of now] by auto
  note abs = agg_abs_record_lost_data [OF assms(1), of losses rsn]
  show ?thesis
    using take_vec_agg [OF inv vec] take_vec_distinct [OF inv vec] take_vec_items [OF inv vec]
      take_vec_empty_iff [OF inv vec] abs
    by (simp add: r b report_new_def)
qed

lemma take_report_exact_witness:
  "agg_inv aggregator_new \<and>
   (case fst (take_pending_report 5 (record_lost_data
       [\<lparr>loss_category = CatError, loss_quantity = 2, loss_reason = None\<rparr>] BeforeSend aggregator_new)) of
      None \<Rightarrow> \<forall>c s. agg_abs aggregator_new c s + sum_list (map (loss_in BeforeSend c s)
        [\<lparr>loss_category = CatError, loss_quantity = 2, loss_reason = None\<rparr>]) = 0
    | Some rep \<Rightarrow> rep_timestamp rep = 5)"
  using take_report_exact [of aggregator_new 5
      "[\<lparr>loss_category = CatError, loss_quantity = 2, loss_reason = None\<rparr>]" BeforeSend
      "fst (take_pending_report 5 (record_lost_data
        [\<lparr>loss_category = CatError, loss_quantity = 2, loss_reason = None\<rparr>] BeforeSend aggregator_new))"
      "snd (take_pending_report 5 (record_lost_data
        [\<lparr>loss_category = CatError, loss_quantity = 2, loss_reason = None\<rparr>] BeforeSend aggregator_new))"]
  by (simp split: option.splits)

text \<open>
  The index of a (category, reason) pair is in the bounds of the aggregator's array, no two
  pairs share one, every array position belongs to a pair, and the pair that
  \<open>iter_reason_categories\<close> yields at that position is the pair itself: recording and draining
  agree on where each pair is counted.
\<close>

theorem cell_layout:
  "bij_betw (\<lambda>(c, r). agg_index c r) UNIV {0..<array_size} \<and>
   (\<forall>c r. agg_index c r = aggregate_index c r \<and>
      iter_reason_categories ! agg_index c r = (c, r))"
proof -
  have "bij_betw (\<lambda>(c, r). agg_index c r) UNIV {0..<array_size}"
    unfolding bij_betw_def inj_def
    using agg_index_surj by (auto simp: image_iff)
  then show ?thesis by (simp add: agg_index_def aggregate_index_def flip: agg_index_def)
qed

lemma aggregate_step_commute:
  "aggregate_step (aggregate_step counts x) y = aggregate_step (aggregate_step counts y) x"
proof -
  have comm: "saturating_add (saturating_add u v) w = saturating_add (saturating_add u w) v" for u v w :: u64
    by (rule u64_eqI) (simp add: unat_saturating_add)
  let ?i = "aggregate_index (it_category x) (it_reason x)"
  let ?j = "aggregate_index (it_category y) (it_reason y)"
  show ?thesis
  proof (cases "?i = ?j")
    case True
    then show ?thesis
      by (cases "?i < length counts") (simp_all add: aggregate_step_def Let_def comm list_update_beyond)
  next
    case False
    then show ?thesis
      by (simp add: aggregate_step_def Let_def list_update_swap [OF False])
  qed
qed

text \<open>
  The comparison of two client reports ignores the order of their items: two reports that
  hold the same items with the same multiplicities are equal.
\<close>

theorem report_eq_order_insensitive:
  "mset xs = mset ys \<Longrightarrow> report_list_eq xs ys"
  unfolding report_list_eq_def aggregate_def foldl_conv_fold
  by (rule fold_multiset_equiv [THEN fun_cong]) (auto simp: fun_eq_iff aggregate_step_commute)

end
