(* ===== verification/ReportRace.thy ===== *)
theory ReportRace
  imports ClientReport
begin

text \<open>
  The aggregator under concurrency. \<open>record_loss\<close> and \<open>take_pending_report_vec\<close> of
  \<open>client/client_reports/inner.rs\<close> run on any number of threads; each is a sequence of
  atomic operations, which may interleave. A step of the relation below is one atomic
  operation of one thread. Atomics are read as sequentially consistent; the weaker
  \<open>Relaxed\<close> accesses of the counters are not distinguished.
\<close>

section \<open>The machine\<close>

text \<open>
  Besides the shared counters and the flag, the state holds where each thread is:
  \<open>rs_storing\<close> counts the recorders between their \<open>fetch_add\<close> and their store of the flag,
  \<open>rs_takers\<close> is the multiset of cells that the takers in progress will swap next. Two ghost
  fields sum up, per cell, what was recorded and what was handed out.
\<close>

record race =
  rs_counts :: "u64 list"
  rs_flag :: bool
  rs_storing :: nat
  rs_takers :: "nat multiset"
  rs_recorded :: "nat \<Rightarrow> u64"
  rs_drained :: "nat \<Rightarrow> u64"

definition race_init :: race where
  "race_init = \<lparr>rs_counts = replicate array_size 0, rs_flag = False, rs_storing = 0,
     rs_takers = {#}, rs_recorded = (\<lambda>_. 0), rs_drained = (\<lambda>_. 0)\<rparr>"

inductive race_step :: "race \<Rightarrow> race \<Rightarrow> bool" where
  fetch_add: "q > 0 \<Longrightarrow> i = agg_index c r \<Longrightarrow>
    race_step s (s\<lparr>rs_counts := (rs_counts s)[i := rs_counts s ! i + q],
      rs_storing := Suc (rs_storing s),
      rs_recorded := (rs_recorded s)(i := rs_recorded s i + q)\<rparr>)"
| store_flag: "rs_storing s = Suc n \<Longrightarrow>
    race_step s (s\<lparr>rs_flag := True, rs_storing := n\<rparr>)"
| swap_flag_unset: "\<not> rs_flag s \<Longrightarrow> race_step s (s\<lparr>rs_flag := False\<rparr>)"
| swap_flag_set: "rs_flag s \<Longrightarrow>
    race_step s (s\<lparr>rs_flag := False, rs_takers := add_mset 0 (rs_takers s)\<rparr>)"
| swap_counter: "p \<in># rs_takers s \<Longrightarrow> p < array_size \<Longrightarrow>
    race_step s (s\<lparr>rs_counts := (rs_counts s)[p := 0],
      rs_takers := add_mset (Suc p) (rs_takers s - {#p#}),
      rs_drained := (rs_drained s)(p := rs_drained s p + rs_counts s ! p)\<rparr>)"
| take_done: "p \<in># rs_takers s \<Longrightarrow> \<not> p < array_size \<Longrightarrow>
    race_step s (s\<lparr>rs_takers := rs_takers s - {#p#}\<rparr>)"

inductive race_reachable :: "race \<Rightarrow> bool" where
  init: "race_reachable race_init"
| step: "race_reachable s \<Longrightarrow> race_step s t \<Longrightarrow> race_reachable t"

section \<open>Nothing is lost, nothing is stranded\<close>

text \<open>
  Conservation: a recorded quantity is still in its counter or was handed out. No stranded
  counter: a nonzero counter is announced by the flag, or by a recorder that has yet to
  set it, or it lies ahead of a taker that will still visit it.
\<close>

definition race_inv :: "race \<Rightarrow> bool" where
  "race_inv s \<longleftrightarrow> length (rs_counts s) = array_size
     \<and> (\<forall>i < array_size. rs_recorded s i = rs_drained s i + rs_counts s ! i)
     \<and> (\<forall>i < array_size. rs_counts s ! i \<noteq> 0 \<longrightarrow>
           rs_flag s \<or> rs_storing s > 0 \<or> (\<exists>p \<in># rs_takers s. p \<le> i))"

lemma race_invI:
  assumes "length (rs_counts s) = array_size"
    and "\<And>i. i < array_size \<Longrightarrow> rs_recorded s i = rs_drained s i + rs_counts s ! i"
    and "\<And>i. i < array_size \<Longrightarrow> rs_counts s ! i \<noteq> 0 \<Longrightarrow>
           rs_flag s \<or> rs_storing s > 0 \<or> (\<exists>p \<in># rs_takers s. p \<le> i)"
  shows "race_inv s"
  using assms by (simp add: race_inv_def)

lemma race_invD:
  assumes "race_inv s" and "i < array_size"
  shows "rs_recorded s i = rs_drained s i + rs_counts s ! i"
    and "rs_counts s ! i \<noteq> 0 \<Longrightarrow>
           rs_flag s \<or> rs_storing s > 0 \<or> (\<exists>p \<in># rs_takers s. p \<le> i)"
  using assms by (simp_all add: race_inv_def)

lemma race_inv_length [simp]: "race_inv s \<Longrightarrow> length (rs_counts s) = array_size"
  by (simp add: race_inv_def)

lemma race_inv_init: "race_inv race_init"
  by (simp add: race_inv_def race_init_def)

text \<open>A taker that moves on from cell \<open>p\<close> still covers the cells after \<open>p\<close>.\<close>

lemma taker_moves_on:
  assumes "\<exists>q \<in># M. q \<le> i" and "i \<noteq> p"
  shows "\<exists>q \<in># add_mset (Suc p) (M - {#p#}). q \<le> i"
proof -
  from assms(1) obtain q where q: "q \<in># M" "q \<le> i" by blast
  show ?thesis
  proof (cases "q = p")
    case True
    with q assms(2) show ?thesis by simp
  next
    case False
    with q show ?thesis by (auto simp: in_diff_count)
  qed
qed

lemma race_step_inv: "race_step s t \<Longrightarrow> race_inv s \<Longrightarrow> race_inv t"
proof (induction rule: race_step.induct)
  case (fetch_add q i c r s)
  then have "i < array_size" by simp
  with fetch_add.prems show ?case
    by (intro race_invI) (auto simp: nth_list_update race_invD(1) add.assoc)
next
  case (store_flag s n)
  then show ?case by (intro race_invI) (auto simp: race_invD(1))
next
  case (swap_flag_unset s)
  then show ?case by (simp add: race_inv_def)
next
  case (swap_flag_set s)
  then show ?case by (intro race_invI) (auto simp: race_invD(1))
next
  case (swap_counter p s)
  show ?case
  proof (rule race_invI)
    fix i assume i: "i < array_size"
      and nz: "rs_counts (s\<lparr>rs_counts := (rs_counts s)[p := 0],
        rs_takers := add_mset (Suc p) (rs_takers s - {#p#}),
        rs_drained := (rs_drained s)(p := rs_drained s p + rs_counts s ! p)\<rparr>) ! i \<noteq> 0"
    have ne: "i \<noteq> p" using nz swap_counter by auto
    with nz have "rs_counts s ! i \<noteq> 0" by simp
    with race_invD(2) [OF swap_counter.prems i]
    have "rs_flag s \<or> rs_storing s > 0 \<or> (\<exists>q \<in># rs_takers s. q \<le> i)" by blast
    with taker_moves_on [of "rs_takers s" i p] ne
    show "rs_flag (s\<lparr>rs_counts := (rs_counts s)[p := 0],
        rs_takers := add_mset (Suc p) (rs_takers s - {#p#}),
        rs_drained := (rs_drained s)(p := rs_drained s p + rs_counts s ! p)\<rparr>) \<or>
      rs_storing (s\<lparr>rs_counts := (rs_counts s)[p := 0],
        rs_takers := add_mset (Suc p) (rs_takers s - {#p#}),
        rs_drained := (rs_drained s)(p := rs_drained s p + rs_counts s ! p)\<rparr>) > 0 \<or>
      (\<exists>q \<in># rs_takers (s\<lparr>rs_counts := (rs_counts s)[p := 0],
        rs_takers := add_mset (Suc p) (rs_takers s - {#p#}),
        rs_drained := (rs_drained s)(p := rs_drained s p + rs_counts s ! p)\<rparr>). q \<le> i)"
      by auto
  qed (use swap_counter in \<open>auto simp: nth_list_update race_invD(1)\<close>)
next
  case (take_done p s)
  show ?case
  proof (rule race_invI)
    fix i assume i: "i < array_size"
      and nz: "rs_counts (s\<lparr>rs_takers := rs_takers s - {#p#}\<rparr>) ! i \<noteq> 0"
    then have "rs_flag s \<or> rs_storing s > 0 \<or> (\<exists>q \<in># rs_takers s. q \<le> i)"
      using race_invD(2) [OF take_done.prems i] by simp
    moreover have "q \<in># rs_takers s - {#p#}" if "q \<in># rs_takers s" "q \<le> i" for q
      using that i take_done by (auto simp: in_diff_count)
    ultimately show "rs_flag (s\<lparr>rs_takers := rs_takers s - {#p#}\<rparr>) \<or>
        rs_storing (s\<lparr>rs_takers := rs_takers s - {#p#}\<rparr>) > 0 \<or>
        (\<exists>q \<in># rs_takers (s\<lparr>rs_takers := rs_takers s - {#p#}\<rparr>). q \<le> i)"
      by auto
  qed (use take_done in \<open>auto simp: race_invD(1)\<close>)
qed

lemma race_reachable_inv: "race_reachable s \<Longrightarrow> race_inv s"
  by (induction rule: race_reachable.induct) (auto intro: race_inv_init race_step_inv)

section \<open>The sequential operations are runs of the machine\<close>

text \<open>The shared part of a state, as the sequential model has it.\<close>

definition race_shared :: "race \<Rightarrow> aggregator" where
  "race_shared s = \<lparr>agg_counts = rs_counts s, agg_has_reports = rs_flag s\<rparr>"

lemma race_record_loss:
  "\<exists>t. race_step\<^sup>*\<^sup>* s t \<and> race_shared t = record_loss c r q (race_shared s)
      \<and> rs_storing t = rs_storing s \<and> rs_takers t = rs_takers s"
proof (cases "q > 0")
  case False
  then show ?thesis by (intro exI [of _ s]) (simp add: record_loss_def)
next
  case True
  let ?i = "agg_index c r"
  let ?u = "s\<lparr>rs_counts := (rs_counts s)[?i := rs_counts s ! ?i + q],
      rs_storing := Suc (rs_storing s),
      rs_recorded := (rs_recorded s)(?i := rs_recorded s ?i + q)\<rparr>"
  have "race_step s ?u" by (rule race_step.fetch_add [OF True refl])
  moreover have "race_step ?u (?u\<lparr>rs_flag := True, rs_storing := rs_storing s\<rparr>)"
    by (rule race_step.store_flag) simp
  ultimately show ?thesis
    using True
    by (intro exI [of _ "?u\<lparr>rs_flag := True, rs_storing := rs_storing s\<rparr>"])
      (auto simp: race_shared_def record_loss_def)
qed

text \<open>A taker alone zeroes the counters from its cell to the end.\<close>

lemma race_drain:
  assumes "rs_takers s = add_mset p M" and "p \<le> array_size"
    and "length (rs_counts s) = array_size"
  shows "\<exists>t. race_step\<^sup>*\<^sup>* s t \<and> rs_flag t = rs_flag s \<and> rs_storing t = rs_storing s
     \<and> rs_takers t = M \<and> rs_counts t = take p (rs_counts s) @ replicate (array_size - p) 0"
  using assms
proof (induction "array_size - p" arbitrary: p s)
  case 0
  then have "p = array_size" by simp
  with 0 have "race_step s (s\<lparr>rs_takers := rs_takers s - {#p#}\<rparr>)"
    by (intro race_step.take_done) simp_all
  with 0 \<open>p = array_size\<close> show ?case
    by (intro exI [of _ "s\<lparr>rs_takers := rs_takers s - {#p#}\<rparr>"]) auto
next
  case (Suc n)
  let ?u = "s\<lparr>rs_counts := (rs_counts s)[p := 0],
      rs_takers := add_mset (Suc p) (rs_takers s - {#p#}),
      rs_drained := (rs_drained s)(p := rs_drained s p + rs_counts s ! p)\<rparr>"
  from Suc have p: "p < array_size" by simp
  with Suc have st: "race_step s ?u" by (intro race_step.swap_counter) simp_all
  have "\<exists>t. race_step\<^sup>*\<^sup>* ?u t \<and> rs_flag t = rs_flag ?u \<and> rs_storing t = rs_storing ?u
     \<and> rs_takers t = M \<and> rs_counts t = take (Suc p) (rs_counts ?u) @ replicate (array_size - Suc p) 0"
    using Suc p by (intro Suc.hyps(1)) simp_all
  moreover have "take (Suc p) (rs_counts ?u) @ replicate (array_size - Suc p) 0
      = take p (rs_counts s) @ replicate (array_size - p) 0"
  proof -
    have "take (Suc p) ((rs_counts s)[p := 0]) = take p (rs_counts s) @ [0]"
      using p Suc.prems by (simp add: take_Suc_conv_app_nth)
    moreover have "replicate (array_size - p) (0 :: u64) = 0 # replicate (array_size - Suc p) 0"
      using p by (metis Suc_diff_Suc replicate_Suc)
    ultimately show ?thesis by simp
  qed
  ultimately show ?case using st
    by (auto intro: converse_rtranclp_into_rtranclp)
qed

lemma race_take:
  assumes "race_inv s"
  shows "\<exists>t. race_step\<^sup>*\<^sup>* s t \<and> race_shared t = snd (take_pending_report_vec (race_shared s))
      \<and> rs_storing t = rs_storing s \<and> rs_takers t = rs_takers s"
proof (cases "rs_flag s")
  case False
  then show ?thesis
    by (intro exI [of _ s]) (simp add: take_pending_report_vec_def race_shared_def)
next
  case True
  let ?u = "s\<lparr>rs_flag := False, rs_takers := add_mset 0 (rs_takers s)\<rparr>"
  have "race_step s ?u" using True by (rule race_step.swap_flag_set)
  moreover obtain t where "race_step\<^sup>*\<^sup>* ?u t" "rs_flag t = rs_flag ?u"
      "rs_storing t = rs_storing ?u" "rs_takers t = rs_takers s"
      "rs_counts t = take 0 (rs_counts ?u) @ replicate (array_size - 0) 0"
    using race_drain [of ?u 0 "rs_takers s"] assms by auto
  ultimately show ?thesis using True assms
    by (intro exI [of _ t])
      (auto simp: take_pending_report_vec_def race_shared_def map_replicate_const
        intro: converse_rtranclp_into_rtranclp)
qed

section \<open>Properties\<close>

text \<open>
  C2: However recorders and drains of any number of threads interleave, nothing is lost and
  nothing is counted twice: for every cell the quantity recorded is the quantity handed out
  plus the quantity still in the counter. And when no thread is in the middle of an
  operation, a nonzero counter implies that the flag is set, so that the next drain finds it.
\<close>

theorem race_conserves:
  assumes "race_reachable s" and "i < array_size"
  shows "rs_recorded s i = rs_drained s i + rs_counts s ! i \<and>
    (rs_storing s = 0 \<and> rs_takers s = {#} \<and> rs_counts s ! i \<noteq> 0 \<longrightarrow> rs_flag s)"
  using race_invD [OF race_reachable_inv [OF assms(1)] assms(2)] by auto

lemma race_conserves_witness:
  "rs_recorded (race_init\<lparr>rs_counts := (rs_counts race_init)[0 := rs_counts race_init ! 0 + 7],
      rs_storing := Suc (rs_storing race_init),
      rs_recorded := (rs_recorded race_init)(0 := rs_recorded race_init 0 + 7)\<rparr>) 0 = 7"
proof -
  have "race_reachable (race_init\<lparr>rs_counts := (rs_counts race_init)[0 := rs_counts race_init ! 0 + 7],
      rs_storing := Suc (rs_storing race_init),
      rs_recorded := (rs_recorded race_init)(0 := rs_recorded race_init 0 + 7)\<rparr>)"
    by (rule race_reachable.step [OF race_reachable.init
        race_step.fetch_add [of 7 0 CatError SendError]]) (simp_all add: agg_index_def)
  from race_conserves [OF this, of 0] show ?thesis
    by (simp add: race_init_def array_size_def reason_variants_def category_variants_def)
qed

text \<open>
  C6: \<open>record_loss\<close> and \<open>take_pending_report_vec\<close>, run by one thread alone, are runs of the
  interleaving machine: from any reachable state it reaches a state whose counters and flag
  are the ones the sequential operation computes, with no other thread moved.
\<close>

theorem race_refines:
  assumes "race_reachable s"
  shows "(\<exists>t. race_step\<^sup>*\<^sup>* s t \<and> race_shared t = record_loss c r q (race_shared s) \<and>
            rs_storing t = rs_storing s \<and> rs_takers t = rs_takers s) \<and>
         (\<exists>t. race_step\<^sup>*\<^sup>* s t \<and> race_shared t = snd (take_pending_report_vec (race_shared s)) \<and>
            rs_storing t = rs_storing s \<and> rs_takers t = rs_takers s)"
  using race_record_loss [of s c r q] race_take [OF race_reachable_inv [OF assms]] by blast

lemma race_refines_witness:
  "\<exists>t. race_step\<^sup>*\<^sup>* race_init t \<and>
     race_shared t = record_loss CatError SendError 1 (race_shared race_init)"
  using race_refines [OF race_reachable.init] by blast

end
