(* ===== verification/RustStr.thy ===== *)
theory RustStr
  imports Complex_Main Prelude
begin

text \<open>
  The string and number operations of Rust's standard library that the code calls:
  \<open>split\<close>, \<open>splitn\<close>, \<open>rsplitn\<close>, \<open>split_once\<close>, \<open>trim\<close>,
  \<open>eq_ignore_ascii_case\<close>, \<open>strip_prefix\<close>, \<open>parse\<close> for unsigned integers and
  for \<open>f64\<close>, and their display. A \<open>string\<close> is the list of the bytes of a UTF-8 string.
\<close>

section \<open>Splitting\<close>

text \<open>\<open>str::split(char)\<close>: never empty, empty pieces kept.\<close>

fun split_on :: "char \<Rightarrow> string \<Rightarrow> string list" where
  "split_on c [] = [[]]"
| "split_on c (x # xs) =
     (if x = c then [] # split_on c xs
      else case split_on c xs of [] \<Rightarrow> [[x]] | p # ps \<Rightarrow> (x # p) # ps)"

text \<open>\<open>str::split_once(char)\<close>: at the first occurrence.\<close>

fun split_once :: "char \<Rightarrow> string \<Rightarrow> (string \<times> string) option" where
  "split_once c [] = None"
| "split_once c (x # xs) =
     (if x = c then Some ([], xs)
      else case split_once c xs of None \<Rightarrow> None | Some (a, b) \<Rightarrow> Some (x # a, b))"

text \<open>\<open>str::splitn(n, char)\<close>: at most \<open>n\<close> pieces, the last one takes the rest.\<close>

fun splitn :: "nat \<Rightarrow> char \<Rightarrow> string \<Rightarrow> string list" where
  "splitn 0 c s = []"
| "splitn (Suc 0) c s = [s]"
| "splitn (Suc (Suc n)) c s =
     (case split_once c s of None \<Rightarrow> [s] | Some (a, b) \<Rightarrow> a # splitn (Suc n) c b)"

text \<open>\<open>rsplitn(2, char)\<close>: the piece after the last occurrence comes first.\<close>

definition rsplitn2 :: "char \<Rightarrow> string \<Rightarrow> string list" where
  "rsplitn2 c s =
     (case split_once c (rev s) of None \<Rightarrow> [s] | Some (a, b) \<Rightarrow> [rev a, rev b])"

lemma split_on_ne [simp]: "split_on c s \<noteq> []"
  by (induction s) (auto split: list.splits)

lemma split_on_none [simp]: "c \<notin> set s \<Longrightarrow> split_on c s = [s]"
  by (induction s) auto

lemma split_on_append:
  "c \<notin> set a \<Longrightarrow> split_on c (a @ c # b) = a # split_on c b"
  by (induction a) auto

lemma split_once_none [simp]: "c \<notin> set s \<Longrightarrow> split_once c s = None"
  by (induction s) auto

lemma split_once_None_iff: "split_once c s = None \<longleftrightarrow> c \<notin> set s"
  by (induction s) (auto split: option.splits)

lemma split_once_append:
  "c \<notin> set a \<Longrightarrow> split_once c (a @ c # b) = Some (a, b)"
  by (induction a) auto

lemma split_once_Some: "split_once c s = Some (a, b) \<Longrightarrow> s = a @ c # b \<and> c \<notin> set a"
  by (induction s arbitrary: a b) (auto split: if_splits option.splits)

lemma splitn_append:
  "c \<notin> set a \<Longrightarrow> splitn (Suc (Suc n)) c (a @ c # b) = a # splitn (Suc n) c b"
  by (simp add: split_once_append)

lemma splitn_none [simp]: "c \<notin> set s \<Longrightarrow> splitn (Suc n) c s = [s]"
  by (cases n) simp_all

lemma rsplitn2_append:
  assumes "c \<notin> set b" shows "rsplitn2 c (a @ c # b) = [b, a]"
proof -
  have "split_once c (rev b @ c # rev a) = Some (rev b, rev a)"
    by (rule split_once_append) (use assms in simp)
  then show ?thesis by (simp add: rsplitn2_def)
qed

lemma rsplitn2_none [simp]: "c \<notin> set s \<Longrightarrow> rsplitn2 c s = [s]"
  by (simp add: rsplitn2_def)

section \<open>Trimming\<close>

text \<open>The UTF-8 encodings of the characters with the Unicode property White_Space.\<close>

definition ws_seqs :: "string list" where
  "ws_seqs =
     [[CHR 0x20], [CHR 0x09], [CHR 0x0A], [CHR 0x0B], [CHR 0x0C], [CHR 0x0D],
      [CHR 0xC2, CHR 0x85], [CHR 0xC2, CHR 0xA0], [CHR 0xE1, CHR 0x9A, CHR 0x80],
      [CHR 0xE2, CHR 0x80, CHR 0x80], [CHR 0xE2, CHR 0x80, CHR 0x81],
      [CHR 0xE2, CHR 0x80, CHR 0x82], [CHR 0xE2, CHR 0x80, CHR 0x83],
      [CHR 0xE2, CHR 0x80, CHR 0x84], [CHR 0xE2, CHR 0x80, CHR 0x85],
      [CHR 0xE2, CHR 0x80, CHR 0x86], [CHR 0xE2, CHR 0x80, CHR 0x87],
      [CHR 0xE2, CHR 0x80, CHR 0x88], [CHR 0xE2, CHR 0x80, CHR 0x89],
      [CHR 0xE2, CHR 0x80, CHR 0x8A], [CHR 0xE2, CHR 0x80, CHR 0xA8],
      [CHR 0xE2, CHR 0x80, CHR 0xA9], [CHR 0xE2, CHR 0x80, CHR 0xAF],
      [CHR 0xE2, CHR 0x81, CHR 0x9F], [CHR 0xE3, CHR 0x80, CHR 0x80]]"

function strip_seqs :: "string list \<Rightarrow> string \<Rightarrow> string" where
  "strip_seqs ws s =
     (case find (\<lambda>w. w \<noteq> [] \<and> take (length w) s = w) ws of
        None \<Rightarrow> s | Some w \<Rightarrow> strip_seqs ws (drop (length w) s))"
  by pat_completeness auto
termination
proof (relation "measure (\<lambda>(_, s). length s)")
  fix ws s w
  assume "find (\<lambda>w. w \<noteq> [] \<and> take (length w) s = w) ws = Some w"
  then have "w \<noteq> []" and "take (length w) s = w" by (auto simp: find_Some_iff)
  then have "s \<noteq> []" by (cases s) simp_all
  with \<open>w \<noteq> []\<close> show "((ws, drop (length w) s), ws, s) \<in> measure (\<lambda>(_, s). length s)"
    by (simp add: length_greater_0_conv [symmetric] del: length_greater_0_conv)
qed simp

declare strip_seqs.simps [simp del]

definition trim_start :: "string \<Rightarrow> string" where
  "trim_start s = strip_seqs ws_seqs s"

definition trim_end :: "string \<Rightarrow> string" where
  "trim_end s = rev (strip_seqs (map rev ws_seqs) (rev s))"

definition trim :: "string \<Rightarrow> string" where
  "trim s = trim_end (trim_start s)"

text \<open>\<open>trim_matches(char)\<close>\<close>

definition trim_matches :: "char \<Rightarrow> string \<Rightarrow> string" where
  "trim_matches c s = rev (dropWhile (\<lambda>x. x = c) (rev (dropWhile (\<lambda>x. x = c) s)))"

lemma dropWhile_hd: "xs = [] \<or> hd xs \<noteq> c \<Longrightarrow> dropWhile (\<lambda>x. x = c) xs = xs"
  by (cases xs) auto

definition graphic :: "char \<Rightarrow> bool" where
  "graphic c = (33 \<le> (of_char c :: nat) \<and> (of_char c :: nat) \<le> 126)"

lemma strip_seqs_stop:
  assumes "\<forall>w \<in> set ws. w \<noteq> [] \<longrightarrow> \<not> graphic (hd w)" and "s = [] \<or> graphic (hd s)"
  shows "strip_seqs ws s = s"
proof -
  have "find (\<lambda>w. w \<noteq> [] \<and> take (length w) s = w) ws = None"
    using assms
    by (auto simp: find_None_iff) (metis hd_take length_greater_0_conv list.size(3) take_Nil)
  then show ?thesis by (subst strip_seqs.simps) simp
qed

lemma ws_seqs_not_graphic:
  "\<forall>w \<in> set ws_seqs. \<not> graphic (hd w)" "\<forall>w \<in> set (map rev ws_seqs). \<not> graphic (hd w)"
  by (simp_all add: ws_seqs_def graphic_def)

text \<open>Trimming keeps a string that starts and ends with a printable ASCII character.\<close>

lemma trim_graphic:
  assumes "s \<noteq> []" and "graphic (hd s)" and "graphic (last s)"
  shows "trim s = s"
proof -
  have "trim_start s = s"
    unfolding trim_start_def using ws_seqs_not_graphic(1) assms by (intro strip_seqs_stop) auto
  moreover have "strip_seqs (map rev ws_seqs) (rev s) = rev s"
    using ws_seqs_not_graphic(2) assms by (intro strip_seqs_stop) (auto simp: hd_rev)
  ultimately show ?thesis by (simp add: trim_def trim_end_def)
qed

lemma trim_Nil [simp]: "trim [] = []"
proof -
  have "strip_seqs ws [] = []" if "\<forall>w \<in> set ws. w \<noteq> [] \<longrightarrow> \<not> graphic (hd w)" for ws
    using that by (intro strip_seqs_stop) simp_all
  then show ?thesis
    using ws_seqs_not_graphic by (simp add: trim_def trim_start_def trim_end_def)
qed

section \<open>ASCII case, prefixes\<close>

definition to_ascii_lower :: "char \<Rightarrow> char" where
  "to_ascii_lower c =
     (let n = of_char c :: nat in if 65 \<le> n \<and> n \<le> 90 then char_of (n + 32) else c)"

definition eq_ignore_ascii_case :: "string \<Rightarrow> string \<Rightarrow> bool" where
  "eq_ignore_ascii_case a b = (map to_ascii_lower a = map to_ascii_lower b)"

lemma eq_ignore_ascii_case_refl [simp]: "eq_ignore_ascii_case s s"
  by (simp add: eq_ignore_ascii_case_def)

definition strip_prefix_char :: "char \<Rightarrow> string \<Rightarrow> string option" where
  "strip_prefix_char c s = (case s of [] \<Rightarrow> None | x # xs \<Rightarrow> if x = c then Some xs else None)"

lemma strip_prefix_char_Some [simp]: "strip_prefix_char c s = Some t \<longleftrightarrow> s = c # t"
  by (auto simp: strip_prefix_char_def split: list.splits if_splits)

section \<open>Integers\<close>

definition is_digit :: "char \<Rightarrow> bool" where
  "is_digit c = (48 \<le> (of_char c :: nat) \<and> (of_char c :: nat) \<le> 57)"

definition digit_val :: "char \<Rightarrow> int" where
  "digit_val c = int (of_char c) - 48"

definition digits_val :: "string \<Rightarrow> int" where
  "digits_val s = foldl (\<lambda>n c. 10 * n + digit_val c) 0 s"

text \<open>\<open>uN::from_str\<close>: an optional \<open>+\<close>, then digits; overflow is an error.\<close>

definition parse_uint :: "int \<Rightarrow> string \<Rightarrow> int option" where
  "parse_uint maxv s =
     (let ds = (case s of [] \<Rightarrow> [] | x # xs \<Rightarrow> if x = CHR ''+'' then xs else s)
      in if ds \<noteq> [] \<and> list_all is_digit ds \<and> digits_val ds \<le> maxv
         then Some (digits_val ds) else None)"

fun show_nat :: "nat \<Rightarrow> string" where
  "show_nat n =
     (if n < 10 then [char_of (48 + n)] else show_nat (n div 10) @ [char_of (48 + n mod 10)])"

declare show_nat.simps [simp del]

lemma digit_val_char_of: "(n :: nat) < 10 \<Longrightarrow> digit_val (char_of (48 + n)) = int n"
  by (simp add: digit_val_def)

lemma is_digit_char_of: "(n :: nat) < 10 \<Longrightarrow> is_digit (char_of (48 + n))"
  by (simp add: is_digit_def)

lemma show_nat_digits: "list_all is_digit (show_nat n) \<and> show_nat n \<noteq> []"
proof (induction n rule: show_nat.induct)
  case (1 n)
  then show ?case by (subst (1 2) show_nat.simps) (auto simp: is_digit_char_of)
qed

lemma digits_val_snoc: "digits_val (s @ [c]) = 10 * digits_val s + digit_val c"
  by (simp add: digits_val_def)

lemma digits_val_show_nat: "digits_val (show_nat n) = int n"
proof (induction n rule: show_nat.induct)
  case (1 n)
  show ?case
  proof (cases "n < 10")
    case True
    then show ?thesis by (subst show_nat.simps) (simp add: digits_val_def digit_val_char_of)
  next
    case False
    with 1 show ?thesis
      by (subst show_nat.simps) (simp add: digits_val_snoc digit_val_char_of zdiv_int zmod_int)
  qed
qed

lemma is_digit_plus: "\<not> is_digit (CHR ''+'')" by (simp add: is_digit_def)

lemma show_nat_hd: "is_digit (hd (show_nat n))" "is_digit (last (show_nat n))"
  using show_nat_digits [of n] by (auto simp: list_all_iff)

lemma parse_uint_show_nat: "int n \<le> maxv \<Longrightarrow> parse_uint maxv (show_nat n) = Some (int n)"
  using show_nat_digits [of n] show_nat_hd(1) [of n] is_digit_plus digits_val_show_nat [of n]
  by (auto simp: parse_uint_def Let_def split: list.splits)

lemma parse_uint_digits:
  "list_all is_digit s \<Longrightarrow>
   parse_uint maxv s = (if s \<noteq> [] \<and> digits_val s \<le> maxv then Some (digits_val s) else None)"
  using is_digit_plus by (cases s) (auto simp: parse_uint_def Let_def)

lemma parse_uint_bound: "parse_uint maxv s = Some n \<Longrightarrow> n \<le> maxv"
  by (auto simp: parse_uint_def Let_def split: if_splits)

lemma digit_graphic: "is_digit c \<Longrightarrow> graphic c"
  by (simp add: is_digit_def graphic_def)

section \<open>Floating point\<close>

text \<open>
  The values of \<open>f32\<close> and \<open>f64\<close>: finite ones as the rational they denote (the sign
  of zero is not kept: nothing here depends on it).
\<close>

datatype flt = NaN | NegInf | PosInf | Fin rat

fun flt_less :: "flt \<Rightarrow> flt \<Rightarrow> bool" where
  "flt_less (Fin a) (Fin b) = (a < b)"
| "flt_less NegInf (Fin _) = True"
| "flt_less NegInf PosInf = True"
| "flt_less (Fin _) PosInf = True"
| "flt_less _ _ = False"

definition flt_le :: "flt \<Rightarrow> flt \<Rightarrow> bool" where
  "flt_le a b = (flt_less a b \<or> (a = b \<and> a \<noteq> NaN))"

text \<open>Nearest \<open>f64\<close> to \<open>num / den\<close>, ties to even.\<close>

function ilog2 :: "int \<Rightarrow> int" where
  "ilog2 n = (if n \<le> 1 then 0 else 1 + ilog2 (n div 2))"
  by pat_completeness auto
termination by (relation "measure nat") auto

declare ilog2.simps [simp del]

definition floor_log2 :: "int \<Rightarrow> int \<Rightarrow> int" where
  "floor_log2 num den =
     (let k = ilog2 num - ilog2 den;
          ge = (if k \<ge> 0 then den * 2 ^ nat k \<le> num else den \<le> num * 2 ^ nat (- k))
      in if ge then k else k - 1)"

definition round_half_even :: "int \<Rightarrow> int \<Rightarrow> int" where
  "round_half_even n d =
     (let m = n div d; r = n mod d in if 2 * r > d \<or> (2 * r = d \<and> odd m) then m + 1 else m)"

definition round_f64 :: "bool \<Rightarrow> int \<Rightarrow> int \<Rightarrow> flt" where
  "round_f64 neg num den =
     (if num = 0 then Fin 0
      else
       let q = max (floor_log2 num den - 52) (-1074);
           m = (if q \<ge> 0 then round_half_even num (den * 2 ^ nat q)
                else round_half_even (num * 2 ^ nat (- q)) den);
           too_big = (if q \<ge> 0 then m * 2 ^ nat q \<ge> 2 ^ 1024 else False);
           v = (if q \<ge> 0 then of_int (m * 2 ^ nat q) else of_int m / 2 ^ nat (- q))
       in if too_big then (if neg then NegInf else PosInf)
          else Fin (if neg then - v else v))"

definition split_sign :: "string \<Rightarrow> bool \<times> string" where
  "split_sign s =
     (case s of [] \<Rightarrow> (False, s)
      | x # xs \<Rightarrow> if x = CHR ''-'' then (True, xs)
                  else if x = CHR ''+'' then (False, xs) else (False, s))"

definition decimal :: "bool \<Rightarrow> int \<Rightarrow> int \<Rightarrow> flt" where
  "decimal neg n e =
     (if e \<ge> 0 then round_f64 neg (n * 10 ^ nat e) 1 else round_f64 neg n (10 ^ nat (- e)))"

definition parse_f64 :: "string \<Rightarrow> flt option" where
  "parse_f64 s =
     (let (neg, r) = split_sign s;
          w = map to_ascii_lower r;
          ip = takeWhile is_digit r;
          r1 = dropWhile is_digit r;
          (fp, r2) = (case r1 of [] \<Rightarrow> ([], r1)
            | x # xs \<Rightarrow> if x = CHR ''.'' then (takeWhile is_digit xs, dropWhile is_digit xs)
                        else ([], r1));
          mant = digits_val (ip @ fp)
      in if w = ''inf'' \<or> w = ''infinity'' then Some (if neg then NegInf else PosInf)
         else if w = ''nan'' then Some NaN
         else if ip = [] \<and> fp = [] then None
         else (case r2 of [] \<Rightarrow> Some (decimal neg mant (- int (length fp)))
           | x # xs \<Rightarrow>
               if x = CHR ''e'' \<or> x = CHR ''E'' then
                 (let (eneg, ds) = split_sign xs
                  in if ds \<noteq> [] \<and> list_all is_digit ds
                     then Some (decimal neg mant
                       ((if eneg then - digits_val ds else digits_val ds)
                         - int (length fp)))
                     else None)
               else None))"

text \<open>\<open>value.ceil() as u64\<close>: the cast saturates and sends NaN to 0.\<close>

fun ceil_as_u64 :: "flt \<Rightarrow> int" where
  "ceil_as_u64 NaN = 0"
| "ceil_as_u64 NegInf = 0"
| "ceil_as_u64 PosInf = 2 ^ 64 - 1"
| "ceil_as_u64 (Fin x) = (if x \<le> 0 then 0 else min (2 ^ 64 - 1) \<lceil>x\<rceil>)"

lemma ceil_as_u64_bound: "0 \<le> ceil_as_u64 f \<and> ceil_as_u64 f \<le> 2 ^ 64 - 1"
  by (cases f) (auto simp: le_ceiling_iff)

end
