(* ===== verification/Protocol.thy ===== *)
theory Protocol
  imports ClientReport Dsn
begin

text \<open>
  The data of the protocol (\<open>sentry-types/src/protocol/v7.rs\<close>, \<open>session.rs\<close>,
  \<open>attachment.rs\<close>, \<open>envelope.rs\<close>): every type the modelled code reads or writes, with its
  fields. Parts of a payload that no modelled operation looks at are kept together in one
  opaque \<open>json\<close> field (\<open>..._rest\<close>).
\<close>

section \<open>JSON values\<close>

text \<open>\<open>serde_json::Value\<close>; a number is kept as its text.\<close>

datatype json =
    JNull | JBool bool | JNumber string | JString string
  | JArray "json list" | JObject "(string \<times> json) list"

section \<open>Enumerations\<close>

datatype level = Debug | Info | Warning | Error | Fatal

fun level_rank :: "level \<Rightarrow> nat" where
  "level_rank Debug = 0"
| "level_rank Info = 1"
| "level_rank Warning = 2"
| "level_rank Error = 3"
| "level_rank Fatal = 4"

lemma level_rank_inject [simp]: "level_rank a = level_rank b \<longleftrightarrow> a = b"
  by (cases a; cases b) simp_all

text \<open>The derived order of \<open>Level\<close> is the order of its variants.\<close>

instantiation level :: linorder
begin

definition less_eq_level :: "level \<Rightarrow> level \<Rightarrow> bool" where
  "less_eq_level a b = (level_rank a \<le> level_rank b)"

definition less_level :: "level \<Rightarrow> level \<Rightarrow> bool" where
  "less_level a b = (level_rank a < level_rank b)"

instance
  by standard (auto simp: less_eq_level_def less_level_def)

end

fun level_from_str :: "string \<Rightarrow> level option" where
  "level_from_str s =
     (if s = ''debug'' then Some Debug
      else if s = ''info'' \<or> s = ''log'' then Some Info
      else if s = ''warning'' then Some Warning
      else if s = ''error'' then Some Error
      else if s = ''fatal'' then Some Fatal
      else None)"

fun level_display :: "level \<Rightarrow> string" where
  "level_display Debug = ''debug''"
| "level_display Info = ''info''"
| "level_display Warning = ''warning''"
| "level_display Error = ''error''"
| "level_display Fatal = ''fatal''"

datatype session_status = StOk | StExited | StCrashed | StAbnormal

fun session_status_from_str :: "string \<Rightarrow> session_status option" where
  "session_status_from_str s =
     (if s = ''ok'' then Some StOk
      else if s = ''crashed'' then Some StCrashed
      else if s = ''abnormal'' then Some StAbnormal
      else if s = ''exited'' then Some StExited
      else None)"

fun session_status_display :: "session_status \<Rightarrow> string" where
  "session_status_display StOk = ''ok''"
| "session_status_display StCrashed = ''crashed''"
| "session_status_display StAbnormal = ''abnormal''"
| "session_status_display StExited = ''exited''"

datatype span_status =
    SpOk | DeadlineExceeded | Unauthenticated | PermissionDenied | NotFound
  | ResourceExhausted | InvalidArgument | Unimplemented | Unavailable | InternalError
  | UnknownError | Cancelled | AlreadyExists | FailedPrecondition | Aborted | OutOfRange
  | DataLoss

fun span_status_display :: "span_status \<Rightarrow> string" where
  "span_status_display SpOk = ''ok''"
| "span_status_display DeadlineExceeded = ''deadline_exceeded''"
| "span_status_display Unauthenticated = ''unauthenticated''"
| "span_status_display PermissionDenied = ''permission_denied''"
| "span_status_display NotFound = ''not_found''"
| "span_status_display ResourceExhausted = ''resource_exhausted''"
| "span_status_display InvalidArgument = ''invalid_argument''"
| "span_status_display Unimplemented = ''unimplemented''"
| "span_status_display Unavailable = ''unavailable''"
| "span_status_display InternalError = ''internal_error''"
| "span_status_display UnknownError = ''unknown_error''"
| "span_status_display Cancelled = ''cancelled''"
| "span_status_display AlreadyExists = ''already_exists''"
| "span_status_display FailedPrecondition = ''failed_precondition''"
| "span_status_display Aborted = ''aborted''"
| "span_status_display OutOfRange = ''out_of_range''"
| "span_status_display DataLoss = ''data_loss''"

definition span_status_table :: "(string \<times> span_status) list" where
  "span_status_table =
     [(''ok'', SpOk), (''deadline_exceeded'', DeadlineExceeded),
      (''unauthenticated'', Unauthenticated), (''permission_denied'', PermissionDenied),
      (''not_found'', NotFound), (''resource_exhausted'', ResourceExhausted),
      (''invalid_argument'', InvalidArgument), (''unimplemented'', Unimplemented),
      (''unavailable'', Unavailable), (''internal_error'', InternalError),
      (''unknown_error'', UnknownError), (''cancelled'', Cancelled),
      (''already_exists'', AlreadyExists), (''failed_precondition'', FailedPrecondition),
      (''aborted'', Aborted), (''out_of_range'', OutOfRange), (''data_loss'', DataLoss)]"

text \<open>\<open>SpanStatus::from_str\<close>: the match arms, in order.\<close>

definition span_status_from_str :: "string \<Rightarrow> span_status option" where
  "span_status_from_str s = map_of span_status_table s"

lemma span_status_roundtrip: "span_status_from_str (span_status_display s) = Some s"
  by (cases s) (simp_all add: span_status_from_str_def span_status_table_def)

lemma level_roundtrip: "level_from_str (level_display l) = Some l"
  by (cases l) simp_all

lemma session_status_roundtrip: "session_status_from_str (session_status_display s) = Some s"
  by (cases s) simp_all

section \<open>Identifiers and trace contexts\<close>

text \<open>\<open>TraceId([u8; 16])\<close> and \<open>SpanId([u8; 8])\<close> as their bytes.\<close>

type_synonym trace_id = "u8 list"
type_synonym span_id = "u8 list"
type_synonym organization_id = u64

record trace_context =
  tc_span_id :: span_id
  tc_trace_id :: trace_id
  tc_parent_span_id :: "span_id option"
  tc_op :: "string option"
  tc_description :: "string option"
  tc_status :: "span_status option"
  tc_origin :: "string option"
  tc_data :: "json smap"

record os_context =
  os_name :: "string option"
  os_version :: "string option"
  os_build :: "string option"
  os_kernel_version :: "string option"
  os_rooted :: "bool option"
  os_other :: "json smap"

text \<open>\<open>f32\<close> values are rationals like \<open>f64\<close>s.\<close>

datatype orientation = Portrait | Landscape

record device_context =
  dc_name :: "string option"
  dc_family :: "string option"
  dc_model :: "string option"
  dc_model_id :: "string option"
  dc_arch :: "string option"
  dc_battery_level :: "flt option"
  dc_orientation :: "orientation option"
  dc_simulator :: "bool option"
  dc_memory_size :: "u64 option"
  dc_free_memory :: "u64 option"
  dc_usable_memory :: "u64 option"
  dc_storage_size :: "u64 option"
  dc_free_storage :: "u64 option"
  dc_external_storage_size :: "u64 option"
  dc_external_free_storage :: "u64 option"
  dc_boot_time :: "systime option"
  dc_timezone :: "string option"
  dc_other :: "json smap"

record runtime_context =
  rc_name :: "string option"
  rc_version :: "string option"
  rc_other :: "json smap"

record app_context =
  ac_app_start_time :: "systime option"
  ac_device_app_hash :: "string option"
  ac_build_type :: "string option"
  ac_app_identifier :: "string option"
  ac_app_name :: "string option"
  ac_app_version :: "string option"
  ac_app_build :: "string option"
  ac_other :: "json smap"

record browser_context =
  wc_name :: "string option"
  wc_version :: "string option"
  wc_other :: "json smap"

record gpu_context =
  gc_name :: string
  gc_version :: "string option"
  gc_driver_version :: "string option"
  gc_id :: "string option"
  gc_vendor_id :: "string option"
  gc_vendor_name :: "string option"
  gc_memory_size :: "u32 option"
  gc_api_type :: "string option"
  gc_multi_threaded_rendering :: "bool option"
  gc_npot_support :: "bool option"
  gc_max_texture_size :: "u32 option"
  gc_graphics_shader_level :: "string option"
  gc_supports_draw_call_instancing :: "bool option"
  gc_supports_ray_tracing :: "bool option"
  gc_supports_compute_shaders :: "bool option"
  gc_supports_geometry_shaders :: "bool option"
  gc_other :: "json smap"

record otel_resource =
  oc_attributes :: "json smap"
  oc_resource :: "json smap"
  oc_other :: "json smap"

record response_context =
  rp_cookies :: "string option"
  rp_headers :: "string smap"
  rp_status_code :: "u64 option"
  rp_body_size :: "u64 option"
  rp_data :: "json option"

datatype ctx =
    CtxDevice device_context | CtxOs os_context | CtxRuntime runtime_context | CtxApp app_context
  | CtxBrowser browser_context | CtxTrace trace_context | CtxGpu gpu_context | CtxOtel otel_resource
  | CtxResponse response_context | CtxOther "json smap"

text \<open>\<open>Context::type_name\<close>\<close>

fun ctx_type_name :: "ctx \<Rightarrow> string" where
  "ctx_type_name (CtxDevice _) = ''device''"
| "ctx_type_name (CtxOs _) = ''os''"
| "ctx_type_name (CtxRuntime _) = ''runtime''"
| "ctx_type_name (CtxApp _) = ''app''"
| "ctx_type_name (CtxBrowser _) = ''browser''"
| "ctx_type_name (CtxTrace _) = ''trace''"
| "ctx_type_name (CtxGpu _) = ''gpu''"
| "ctx_type_name (CtxOtel _) = ''otel''"
| "ctx_type_name (CtxResponse _) = ''response''"
| "ctx_type_name (CtxOther _) = ''unknown''"

section \<open>Debug images\<close>

text \<open>A \<open>DebugId\<close> is a uuid with an appendix; a \<open>CodeId\<close> is its text.\<close>

record debug_id =
  di_uuid :: uuid
  di_appendix :: u32

record system_sdk_info =
  ssi_sdk_name :: string
  ssi_version_major :: u32
  ssi_version_minor :: u32
  ssi_version_patchlevel :: u32

record apple_debug_image =
  adi_name :: string
  adi_arch :: "string option"
  adi_cpu_type :: "u32 option"
  adi_cpu_subtype :: "u32 option"
  adi_image_addr :: u64
  adi_image_size :: u64
  adi_image_vmaddr :: u64
  adi_uuid :: uuid

record symbolic_debug_image =
  sdi_name :: string
  sdi_arch :: "string option"
  sdi_image_addr :: u64
  sdi_image_size :: u64
  sdi_image_vmaddr :: u64
  sdi_id :: debug_id
  sdi_code_id :: "string option"
  sdi_debug_file :: "string option"

record proguard_debug_image =
  pdi_uuid :: uuid

record wasm_debug_image =
  wdi_name :: string
  wdi_debug_id :: uuid
  wdi_debug_file :: "string option"
  wdi_code_id :: "string option"
  wdi_code_file :: string

datatype debug_image =
    ImgApple apple_debug_image | ImgSymbolic symbolic_debug_image
  | ImgProguard proguard_debug_image | ImgWasm wasm_debug_image

fun debug_image_type_name :: "debug_image \<Rightarrow> string" where
  "debug_image_type_name (ImgApple _) = ''apple''"
| "debug_image_type_name (ImgSymbolic _) = ''symbolic''"
| "debug_image_type_name (ImgProguard _) = ''proguard''"
| "debug_image_type_name (ImgWasm _) = ''wasm''"

record debug_meta =
  dm_sdk_info :: "system_sdk_info option"
  dm_images :: "debug_image list"

definition debug_meta_is_empty :: "debug_meta \<Rightarrow> bool" where
  "debug_meta_is_empty m = (dm_sdk_info m = None \<and> dm_images m = [])"

section \<open>Events\<close>

text \<open>Addresses by their bits; \<open>Auto\<close> is to be inferred by the server.\<close>

datatype ip_addr = IpV4 u32 | IpV6 "128 word"

datatype ip_address = IpAuto | IpExact ip_addr

record user =
  user_id :: "string option"
  user_email :: "string option"
  user_ip_address :: "ip_address option"
  user_username :: "string option"
  user_other :: "json smap"

record request =
  req_url :: "string option"
  req_method :: "string option"
  req_data :: "string option"
  req_query_string :: "string option"
  req_cookies :: "string option"
  req_headers :: "string smap"
  req_env :: "string smap"

record breadcrumb =
  bc_timestamp :: systime
  bc_ty :: string
  bc_category :: "string option"
  bc_level :: level
  bc_message :: "string option"
  bc_data :: "json smap"

record log_entry =
  le_message :: string
  le_params :: "json list"

record frame =
  fr_function :: "string option"
  fr_symbol :: "string option"
  fr_module :: "string option"
  fr_package :: "string option"
  fr_filename :: "string option"
  fr_abs_path :: "string option"
  fr_lineno :: "u64 option"
  fr_colno :: "u64 option"
  fr_pre_context :: "string list"
  fr_context_line :: "string option"
  fr_post_context :: "string list"
  fr_in_app :: "bool option"
  fr_vars :: "json smap"
  fr_image_addr :: "u64 option"
  fr_instruction_addr :: "u64 option"
  fr_symbol_addr :: "u64 option"
  fr_addr_mode :: "string option"

record template_info =
  ti_filename :: "string option"
  ti_abs_path :: "string option"
  ti_lineno :: "u64 option"
  ti_colno :: "u64 option"
  ti_pre_context :: "string list"
  ti_context_line :: "string option"
  ti_post_context :: "string list"

record stacktrace =
  st_frames :: "frame list"
  st_frames_omitted :: "(u64 \<times> u64) option"
  st_registers :: "u64 smap"

definition from_frames_reversed :: "frame list \<Rightarrow> stacktrace option" where
  "from_frames_reversed frames =
     (if frames = [] then None
      else Some \<lparr>st_frames = rev frames, st_frames_omitted = None, st_registers = []\<rparr>)"

datatype thread_id = ThreadInt u64 | ThreadString string

text \<open>\<open>as u64\<close> extends the sign of an \<open>i32\<close>.\<close>

definition thread_id_from_i32 :: "32 word \<Rightarrow> thread_id" where
  "thread_id_from_i32 n = ThreadInt (word_of_int (sint n))"

definition thread_id_from_u32 :: "u32 \<Rightarrow> thread_id" where
  "thread_id_from_u32 n = ThreadInt (of_nat (unat n))"

fun thread_id_display :: "thread_id \<Rightarrow> string" where
  "thread_id_display (ThreadInt i) = show_nat (unat i)"
| "thread_id_display (ThreadString s) = s"

record sthread =
  th_id :: "thread_id option"
  th_name :: "string option"
  th_stacktrace :: "stacktrace option"
  th_raw_stacktrace :: "stacktrace option"
  th_crashed :: bool
  th_current :: bool

record c_error =
  ce_number :: "32 word"
  ce_name :: "string option"

record posix_signal =
  ps_number :: "32 word"
  ps_code :: "32 word option"
  ps_name :: "string option"
  ps_code_name :: "string option"

record mach_exception =
  me_exception :: "32 word"
  me_code :: u64
  me_subcode :: u64
  me_name :: "string option"

record mechanism_meta =
  mm_errno :: "c_error option"
  mm_signal :: "posix_signal option"
  mm_mach_exception :: "mach_exception option"

record mechanism =
  mech_ty :: string
  mech_description :: "string option"
  mech_help_link :: "string option"
  mech_handled :: "bool option"
  mech_synthetic :: "bool option"
  mech_data :: "json smap"
  mech_meta :: mechanism_meta

record exception =
  exc_ty :: string
  exc_value :: "string option"
  exc_module :: "string option"
  exc_stacktrace :: "stacktrace option"
  exc_raw_stacktrace :: "stacktrace option"
  exc_thread_id :: "thread_id option"
  exc_mechanism :: "mechanism option"

record sdk_info =
  sdk_name :: string
  sdk_version :: string
  sdk_integrations :: "string list"
  sdk_packages :: "(string \<times> string) list"

record event =
  ev_event_id :: uuid
  ev_level :: level
  ev_fingerprint :: "string list"
  ev_culprit :: "string option"
  ev_transaction :: "string option"
  ev_message :: "string option"
  ev_logentry :: "log_entry option"
  ev_logger :: "string option"
  ev_modules :: "string smap"
  ev_platform :: string
  ev_timestamp :: systime
  ev_server_name :: "string option"
  ev_release :: "string option"
  ev_dist :: "string option"
  ev_environment :: "string option"
  ev_user :: "user option"
  ev_request :: "request option"
  ev_contexts :: "ctx smap"
  ev_breadcrumbs :: "breadcrumb list"
  ev_exception :: "exception list"
  ev_stacktrace :: "stacktrace option"
  ev_template :: "template_info option"
  ev_threads :: "sthread list"
  ev_tags :: "string smap"
  ev_extra :: "json smap"
  ev_debug_meta :: debug_meta
  ev_sdk :: "sdk_info option"

text \<open>\<open>Event::default()\<close>: the fresh id and the clock reading are inputs.\<close>

definition event_default :: "uuid \<Rightarrow> systime \<Rightarrow> event" where
  "event_default fresh now =
     \<lparr>ev_event_id = fresh, ev_level = Error, ev_fingerprint = [''{{ default }}''],
      ev_culprit = None, ev_transaction = None, ev_message = None, ev_logentry = None,
      ev_logger = None, ev_modules = [], ev_platform = ''other'', ev_timestamp = now,
      ev_server_name = None, ev_release = None, ev_dist = None, ev_environment = None,
      ev_user = None, ev_request = None, ev_contexts = [], ev_breadcrumbs = [],
      ev_exception = [], ev_stacktrace = None, ev_template = None, ev_threads = [],
      ev_tags = [], ev_extra = [], ev_debug_meta = \<lparr>dm_sdk_info = None, dm_images = []\<rparr>, ev_sdk = None\<rparr>"

definition breadcrumb_default :: "systime \<Rightarrow> breadcrumb" where
  "breadcrumb_default now =
     \<lparr>bc_timestamp = now, bc_ty = ''default'', bc_category = None, bc_level = Info,
      bc_message = None, bc_data = []\<rparr>"

definition is_default_fingerprint :: "string list \<Rightarrow> bool" where
  "is_default_fingerprint fp =
     (length fp = 1 \<and> (fp ! 0 = ''{{ default }}'' \<or> fp ! 0 = ''{{default}}''))"

section \<open>Spans and transactions\<close>

record pspan =
  sp_span_id :: span_id
  sp_trace_id :: trace_id
  sp_parent_span_id :: "span_id option"
  sp_same_process_as_parent :: "bool option"
  sp_op :: "string option"
  sp_description :: "string option"
  sp_timestamp :: "systime option"
  sp_start_timestamp :: systime
  sp_status :: "span_status option"
  sp_tags :: "string smap"
  sp_data :: "json smap"

definition pspan_default :: "span_id \<Rightarrow> trace_id \<Rightarrow> systime \<Rightarrow> pspan" where
  "pspan_default sid tid now =
     \<lparr>sp_span_id = sid, sp_trace_id = tid, sp_parent_span_id = None,
      sp_same_process_as_parent = None, sp_op = None, sp_description = None,
      sp_timestamp = None, sp_start_timestamp = now, sp_status = None, sp_tags = [],
      sp_data = []\<rparr>"

definition pspan_finish_with_timestamp :: "systime \<Rightarrow> pspan \<Rightarrow> pspan" where
  "pspan_finish_with_timestamp t s = s\<lparr>sp_timestamp := Some t\<rparr>"

record ptransaction =
  tx_event_id :: uuid
  tx_name :: "string option"
  tx_release :: "string option"
  tx_environment :: "string option"
  tx_user :: "user option"
  tx_tags :: "string smap"
  tx_extra :: "json smap"
  tx_sdk :: "sdk_info option"
  tx_platform :: string
  tx_timestamp :: "systime option"
  tx_start_timestamp :: systime
  tx_spans :: "pspan list"
  tx_contexts :: "ctx smap"
  tx_request :: "request option"
  tx_server_name :: "string option"

definition ptransaction_default :: "uuid \<Rightarrow> systime \<Rightarrow> ptransaction" where
  "ptransaction_default fresh now =
     \<lparr>tx_event_id = fresh, tx_name = None, tx_release = None, tx_environment = None,
      tx_user = None, tx_tags = [], tx_extra = [], tx_sdk = None, tx_platform = ''other'',
      tx_timestamp = None, tx_start_timestamp = now, tx_spans = [], tx_contexts = [],
      tx_request = None, tx_server_name = None\<rparr>"

definition ptransaction_finish_with_timestamp :: "systime \<Rightarrow> ptransaction \<Rightarrow> ptransaction" where
  "ptransaction_finish_with_timestamp t tx = tx\<lparr>tx_timestamp := Some t\<rparr>"

section \<open>Logs and metrics\<close>

datatype log_level = LTrace | LDebug | LInfo | LWarn | LError | LFatal

record log =
  log_level :: log_level
  log_body :: string
  log_trace_id :: "trace_id option"
  log_timestamp :: systime
  log_severity_number :: "u8 option"
  log_attributes :: "json smap"

datatype metric_type = Counter | Gauge | Distribution

record metric =
  met_type :: metric_type
  met_name :: string
  met_value :: flt
  met_timestamp :: systime
  met_trace_id :: trace_id
  met_span_id :: "span_id option"
  met_unit :: "string option"
  met_attributes :: "json smap"

section \<open>Sessions\<close>

record session_attributes =
  sa_release :: string
  sa_environment :: "string option"
  sa_ip_address :: "ip_addr option"
  sa_user_agent :: "string option"

record session_update =
  su_session_id :: uuid
  su_distinct_id :: "string option"
  su_sequence :: "u64 option"
  su_timestamp :: "systime option"
  su_started :: systime
  su_init :: bool
  su_duration :: "duration option"
  su_status :: session_status
  su_errors :: u64
  su_attributes :: session_attributes

record session_aggregate_item =
  sai_started :: systime
  sai_distinct_id :: "string option"
  sai_exited :: u32
  sai_errored :: u32
  sai_abnormal :: u32
  sai_crashed :: u32

record session_aggregates =
  sag_aggregates :: "session_aggregate_item list"
  sag_attributes :: session_attributes

section \<open>Attachments, check-ins\<close>

datatype attachment_type =
    AttAttachment | AttMinidump | AttAppleCrashReport | AttUnrealContext | AttUnrealLogs
  | AttCustom string

fun attachment_type_as_str :: "attachment_type \<Rightarrow> string" where
  "attachment_type_as_str AttAttachment = ''event.attachment''"
| "attachment_type_as_str AttMinidump = ''event.minidump''"
| "attachment_type_as_str AttAppleCrashReport = ''event.applecrashreport''"
| "attachment_type_as_str AttUnrealContext = ''unreal.context''"
| "attachment_type_as_str AttUnrealLogs = ''unreal.logs''"
| "attachment_type_as_str (AttCustom s) = s"

record attachment =
  att_buffer :: string
  att_filename :: string
  att_content_type :: "string option"
  att_ty :: "attachment_type option"

record monitor_check_in =
  mci_check_in_id :: uuid
  mci_rest :: json

section \<open>Dynamic sampling context\<close>

text \<open>\<open>SampleRand\<close>: a float of the half-open interval from 0 to 1.\<close>

datatype sample_rand_error = InvalidFloat | OutOfRange

definition sample_rand_try_from :: "flt \<Rightarrow> sample_rand_error + flt" where
  "sample_rand_try_from value =
     (if \<not> (flt_le (Fin 0) value \<and> flt_less value (Fin 1)) then Inl OutOfRange else Inr value)"

definition sample_rand_from_str :: "string \<Rightarrow> sample_rand_error + flt" where
  "sample_rand_from_str s =
     (case parse_f64 s of None \<Rightarrow> Inl InvalidFloat | Some x \<Rightarrow> sample_rand_try_from x)"

text \<open>
  \<open>Display\<close> prints six decimals, rounding half to even, and caps what would print as 1.
  A valid \<open>SampleRand\<close> is a finite float; \<open>show_nat\<close> pads the six digits.
\<close>

definition six_digits :: "nat \<Rightarrow> string" where
  "six_digits n = replicate (6 - length (show_nat n)) (CHR ''0'') @ show_nat n"

definition sample_rand_display :: "rat \<Rightarrow> string" where
  "sample_rand_display q =
     (if q \<ge> 9999995 / 10000000 then ''0.999999''
      else ''0.'' @ six_digits (nat (case quotient_of (q * 1000000) of
             (a, b) \<Rightarrow> round_half_even a b)))"

record dynamic_sampling_context =
  dsc_trace_id :: "trace_id option"
  dsc_public_key :: "string option"
  dsc_sample_rate :: "flt option"
  dsc_sample_rand :: "flt option"
  dsc_sampled :: "bool option"
  dsc_release :: "string option"
  dsc_environment :: "string option"
  dsc_transaction :: "string option"
  dsc_org_id :: "organization_id option"

definition dsc_new :: dynamic_sampling_context where
  "dsc_new =
     \<lparr>dsc_trace_id = None, dsc_public_key = None, dsc_sample_rate = None,
      dsc_sample_rand = None, dsc_sampled = None, dsc_release = None,
      dsc_environment = None, dsc_transaction = None, dsc_org_id = None\<rparr>"

definition dsc_with_trace_id :: "trace_id \<Rightarrow> dynamic_sampling_context \<Rightarrow> dynamic_sampling_context" where
  "dsc_with_trace_id t d = d\<lparr>dsc_trace_id := Some t\<rparr>"

definition dsc_with_public_key :: "string \<Rightarrow> dynamic_sampling_context \<Rightarrow> dynamic_sampling_context" where
  "dsc_with_public_key k d = d\<lparr>dsc_public_key := Some k\<rparr>"

definition dsc_with_sample_rate :: "flt \<Rightarrow> dynamic_sampling_context \<Rightarrow> dynamic_sampling_context" where
  "dsc_with_sample_rate r d = d\<lparr>dsc_sample_rate := Some r\<rparr>"

definition dsc_with_sample_rand :: "flt \<Rightarrow> dynamic_sampling_context \<Rightarrow> dynamic_sampling_context" where
  "dsc_with_sample_rand r d = d\<lparr>dsc_sample_rand := Some r\<rparr>"

definition dsc_with_release :: "string \<Rightarrow> dynamic_sampling_context \<Rightarrow> dynamic_sampling_context" where
  "dsc_with_release r d = d\<lparr>dsc_release := Some r\<rparr>"

definition dsc_with_environment :: "string \<Rightarrow> dynamic_sampling_context \<Rightarrow> dynamic_sampling_context" where
  "dsc_with_environment e d = d\<lparr>dsc_environment := Some e\<rparr>"

definition dsc_with_transaction :: "string \<Rightarrow> dynamic_sampling_context \<Rightarrow> dynamic_sampling_context" where
  "dsc_with_transaction n d = d\<lparr>dsc_transaction := Some n\<rparr>"

definition dsc_with_org_id :: "organization_id \<Rightarrow> dynamic_sampling_context \<Rightarrow> dynamic_sampling_context" where
  "dsc_with_org_id i d = d\<lparr>dsc_org_id := Some i\<rparr>"

definition dsc_with_sampled :: "bool \<Rightarrow> dynamic_sampling_context \<Rightarrow> dynamic_sampling_context" where
  "dsc_with_sampled b d = d\<lparr>dsc_sampled := Some b\<rparr>"

section \<open>Envelope items\<close>

datatype item_container = Logs "log list" | Metrics "metric list"

datatype envelope_item =
    IEvent event
  | ISessionUpdate session_update
  | ISessionAggregates session_aggregates
  | ITransaction ptransaction
  | IAttachment attachment
  | IMonitorCheckIn monitor_check_in
  | IClientReport report
  | IItemContainer item_container
  | IRaw

fun container_len :: "item_container \<Rightarrow> nat" where
  "container_len (Logs logs) = length logs"
| "container_len (Metrics metrics) = length metrics"

fun container_ty :: "item_container \<Rightarrow> string" where
  "container_ty (Logs _) = ''log''"
| "container_ty (Metrics _) = ''trace_metric''"

fun container_content_type :: "item_container \<Rightarrow> string" where
  "container_content_type (Logs _) = ''application/vnd.sentry.items.log+json''"
| "container_content_type (Metrics _) = ''application/vnd.sentry.items.trace-metric+json''"

datatype envelope_item_type =
    TyEvent | TySessionUpdate | TySessionAggregates | TyTransaction | TyAttachment
  | TyMonitorCheckIn | TyLogsContainer | TyMetricsContainer | TyClientReport

fun container_item_type :: "item_container \<Rightarrow> envelope_item_type" where
  "container_item_type (Logs _) = TyLogsContainer"
| "container_item_type (Metrics _) = TyMetricsContainer"

fun item_type :: "envelope_item \<Rightarrow> envelope_item_type option" where
  "item_type (IEvent _) = Some TyEvent"
| "item_type (ISessionUpdate _) = Some TySessionUpdate"
| "item_type (ISessionAggregates _) = Some TySessionAggregates"
| "item_type (ITransaction _) = Some TyTransaction"
| "item_type (IAttachment _) = Some TyAttachment"
| "item_type (IMonitorCheckIn _) = Some TyMonitorCheckIn"
| "item_type (IClientReport _) = Some TyClientReport"
| "item_type (IItemContainer c) = Some (container_item_type c)"
| "item_type IRaw = None"

text \<open>The \<open>serde(rename)\<close> of each item type.\<close>

fun item_type_name :: "envelope_item_type \<Rightarrow> string" where
  "item_type_name TyEvent = ''event''"
| "item_type_name TySessionUpdate = ''session''"
| "item_type_name TySessionAggregates = ''sessions''"
| "item_type_name TyTransaction = ''transaction''"
| "item_type_name TyAttachment = ''attachment''"
| "item_type_name TyMonitorCheckIn = ''check_in''"
| "item_type_name TyLogsContainer = ''log''"
| "item_type_name TyMetricsContainer = ''trace_metric''"
| "item_type_name TyClientReport = ''client_report''"

end
