(* ===== verification/Losses.thy ===== *)
theory Losses
  imports Protocol
begin

text \<open>
  What dropping a payload costs: the byte sizes of \<open>client_report/relay_size.rs\<close> and the
  losses of every envelope item (\<open>client_report/envelope_losses.rs\<close>). The sizes saturate
  at \<open>u64::MAX\<close>; they are shown to be the clamped value of an exact reference size.
\<close>

section \<open>Sizes as the code computes them\<close>

definition usize_to_u64 :: "nat \<Rightarrow> u64" where
  "usize_to_u64 n = clamp_u64 n"

fun value_byte_size :: "json \<Rightarrow> u64" where
  "value_byte_size JNull = 0"
| "value_byte_size (JBool _) = 1"
| "value_byte_size (JNumber _) = 8"
| "value_byte_size (JString s) = usize_to_u64 (length s)"
| "value_byte_size (JArray vs) =
     foldl saturating_add 0 (map value_byte_size vs)"
| "value_byte_size (JObject kvs) =
     foldl (\<lambda>size (k, sz). saturating_add (saturating_add size (usize_to_u64 k)) sz) 0
       (map (\<lambda>(k, v). (length k, value_byte_size v)) kvs)"

definition log_attribute_byte_size :: "json \<Rightarrow> u64" where
  "log_attribute_byte_size v = value_byte_size v"

definition log_attribute_map_byte_size :: "json smap \<Rightarrow> u64" where
  "log_attribute_map_byte_size attrs =
     foldl (\<lambda>size (k, a). saturating_add (saturating_add size (usize_to_u64 (length k)))
        (log_attribute_byte_size a)) 0 attrs"

definition log_byte_size :: "log \<Rightarrow> u64" where
  "log_byte_size l =
     max (saturating_add (usize_to_u64 (length (log_body l)))
       (log_attribute_map_byte_size (log_attributes l))) 1"

definition metric_byte_size :: "metric \<Rightarrow> u64" where
  "metric_byte_size m =
     max (saturating_add (saturating_add (usize_to_u64 (length (met_name m))) 8)
       (log_attribute_map_byte_size (met_attributes m))) 1"

section \<open>Losses\<close>

definition loss_new :: "category \<Rightarrow> u64 \<Rightarrow> loss" where
  "loss_new c q = \<lparr>loss_category = c, loss_quantity = q, loss_reason = None\<rparr>"

definition loss_with_reason :: "reason \<Rightarrow> loss \<Rightarrow> loss" where
  "loss_with_reason r l = l\<lparr>loss_reason := Some r\<rparr>"

definition loss_from_item :: "item \<Rightarrow> loss" where
  "loss_from_item it = loss_with_reason (it_reason it) (loss_new (it_category it) (it_quantity it))"

definition event_losses :: "event \<Rightarrow> loss list" where
  "event_losses _ = [loss_new CatError 1]"

definition session_update_losses :: "session_update \<Rightarrow> loss list" where
  "session_update_losses _ = [loss_new CatSession 1]"

text \<open>\<open>reduce\<close> of the widened bucket counts; an empty aggregate counts 0.\<close>

definition session_aggregate_counts :: "session_aggregates \<Rightarrow> u64 list" where
  "session_aggregate_counts s =
     concat (map (\<lambda>i. [ucast (sai_exited i), ucast (sai_errored i),
        ucast (sai_abnormal i), ucast (sai_crashed i)]) (sag_aggregates s))"

definition session_aggregate_losses :: "session_aggregates \<Rightarrow> loss list" where
  "session_aggregate_losses s =
     [loss_new CatSession
        (case session_aggregate_counts s of [] \<Rightarrow> 0 | q # qs \<Rightarrow> foldl saturating_add q qs)]"

definition transaction_losses :: "ptransaction \<Rightarrow> loss list" where
  "transaction_losses t =
     [loss_new CatTransaction 1,
      loss_new CatSpan (saturating_add (clamp_u64 (length (tx_spans t))) 1)]"

definition attachment_losses :: "attachment \<Rightarrow> loss list" where
  "attachment_losses a = [loss_new CatAttachment (clamp_u64 (length (att_buffer a)))]"

definition monitor_check_in_losses :: "monitor_check_in \<Rightarrow> loss list" where
  "monitor_check_in_losses _ = [loss_new CatMonitor 1]"

definition client_report_losses :: "report \<Rightarrow> loss list" where
  "client_report_losses r = map loss_from_item (rep_discarded_events r)"

definition span_losses :: "pspan \<Rightarrow> loss list" where
  "span_losses _ = [loss_new CatSpan 1]"

definition one_log_losses :: "log \<Rightarrow> loss list" where
  "one_log_losses l = [loss_new CatLogItem 1, loss_new CatLogByte (log_byte_size l)]"

definition one_metric_losses :: "metric \<Rightarrow> loss list" where
  "one_metric_losses m =
     [loss_new CatTraceMetric 1, loss_new CatTraceMetricByte (metric_byte_size m)]"

definition log_losses :: "log list \<Rightarrow> loss list" where
  "log_losses logs =
     [loss_new CatLogItem (clamp_u64 (length logs)),
      loss_new CatLogByte (foldl (\<lambda>s l. saturating_add s (log_byte_size l)) 0 logs)]"

definition metric_losses :: "metric list \<Rightarrow> loss list" where
  "metric_losses ms =
     [loss_new CatTraceMetric (clamp_u64 (length ms)),
      loss_new CatTraceMetricByte (foldl (\<lambda>s m. saturating_add s (metric_byte_size m)) 0 ms)]"

fun item_container_losses :: "item_container \<Rightarrow> loss list" where
  "item_container_losses (Logs logs) = log_losses logs"
| "item_container_losses (Metrics ms) = metric_losses ms"

fun envelope_item_losses :: "envelope_item \<Rightarrow> loss list" where
  "envelope_item_losses (IEvent e) = event_losses e"
| "envelope_item_losses (ISessionUpdate u) = session_update_losses u"
| "envelope_item_losses (ISessionAggregates a) = session_aggregate_losses a"
| "envelope_item_losses (ITransaction t) = transaction_losses t"
| "envelope_item_losses (IAttachment a) = attachment_losses a"
| "envelope_item_losses (IMonitorCheckIn c) = monitor_check_in_losses c"
| "envelope_item_losses (IClientReport r) = client_report_losses r"
| "envelope_item_losses (IItemContainer c) = item_container_losses c"
| "envelope_item_losses IRaw = []"

section \<open>The exact sizes\<close>

fun value_size :: "json \<Rightarrow> nat" where
  "value_size JNull = 0"
| "value_size (JBool _) = 1"
| "value_size (JNumber _) = 8"
| "value_size (JString s) = length s"
| "value_size (JArray vs) = sum_list (map value_size vs)"
| "value_size (JObject kvs) = sum_list (map (\<lambda>(k, v). length k + value_size v) kvs)"

definition attrs_size :: "json smap \<Rightarrow> nat" where
  "attrs_size attrs = sum_list (map (\<lambda>(k, v). length k + value_size v) attrs)"

lemma clamp_u64_1: "clamp_u64 1 = 1" by (simp add: clamp_u64_def u64_max_def)
lemma clamp_u64_Suc_0: "clamp_u64 (Suc 0) = 1" by (simp add: clamp_u64_def u64_max_def)
lemma clamp_u64_8: "clamp_u64 8 = 8" by (simp add: clamp_u64_def u64_max_def)

lemma foldl_saturating_add_map:
  assumes "\<And>x. x \<in> set xs \<Longrightarrow> f x = clamp_u64 (g x)"
  shows "foldl saturating_add (clamp_u64 n) (map f xs) = clamp_u64 (n + sum_list (map g xs))"
  using assms
  by (induction xs arbitrary: n) (simp_all add: saturating_add_clamp add.assoc)

lemma foldl_entry_sizes:
  assumes "\<And>k v. (k, v) \<in> set kvs \<Longrightarrow> f v = clamp_u64 (g v)"
  shows "foldl (\<lambda>size (k, sz). saturating_add (saturating_add size (usize_to_u64 k)) sz)
           (clamp_u64 n) (map (\<lambda>(k, v). (length k, f v)) kvs)
       = clamp_u64 (n + sum_list (map (\<lambda>(k, v). length k + g v) kvs))"
  using assms
proof (induction kvs arbitrary: n)
  case (Cons kv kvs)
  obtain k v where kv: "kv = (k, v)" by (cases kv)
  have "f v = clamp_u64 (g v)" using Cons.prems kv by auto
  moreover have "f w = clamp_u64 (g w)" if "(u, w) \<in> set kvs" for u w
    by (rule Cons.prems [of u]) (simp add: that)
  ultimately show ?case
    using Cons.IH [of "n + length k + g v"]
    by (simp add: kv usize_to_u64_def saturating_add_clamp add.assoc)
qed simp

theorem value_byte_size_eq: "value_byte_size v = clamp_u64 (value_size v)"
proof (induction v rule: value_byte_size.induct)
  case (5 vs)
  then show ?case
    using foldl_saturating_add_map [of vs value_byte_size value_size 0] by simp
next
  case (6 kvs)
  then have "\<And>k v. (k, v) \<in> set kvs \<Longrightarrow> value_byte_size v = clamp_u64 (value_size v)" by auto
  then have "foldl (\<lambda>size (k, sz). saturating_add (saturating_add size (usize_to_u64 k)) sz)
      (clamp_u64 0) (map (\<lambda>(k, v). (length k, value_byte_size v)) kvs)
      = clamp_u64 (0 + sum_list (map (\<lambda>(k, v). length k + value_size v) kvs))"
    by (rule foldl_entry_sizes)
  then show ?case by simp
qed (simp_all add: usize_to_u64_def clamp_u64_Suc_0 clamp_u64_8)

lemma foldl_attribute_sizes:
  "foldl (\<lambda>size (k, a). saturating_add (saturating_add size (usize_to_u64 (length k)))
     (log_attribute_byte_size a)) (clamp_u64 n) attrs = clamp_u64 (n + attrs_size attrs)"
  by (induction attrs arbitrary: n)
    (auto simp: usize_to_u64_def saturating_add_clamp log_attribute_byte_size_def
      value_byte_size_eq attrs_size_def add.assoc)

lemma log_attribute_map_byte_size_eq:
  "log_attribute_map_byte_size attrs = clamp_u64 (attrs_size attrs)"
  using foldl_attribute_sizes [of 0 attrs] by (simp add: log_attribute_map_byte_size_def)

lemma max_clamp_1: "max (clamp_u64 n) 1 = clamp_u64 (max n 1)"
proof (cases "n = 0")
  case False
  then have "1 \<le> unat (clamp_u64 n)" by (simp add: unat_clamp_u64 u64_max_def)
  then have "1 \<le> clamp_u64 n" by (simp add: word_le_nat_alt)
  moreover have "max n 1 = n" using False by simp
  ultimately show ?thesis by (simp only: max_absorb1)
qed (simp add: clamp_u64_Suc_0)

lemma log_byte_size_eq:
  "log_byte_size l = clamp_u64 (max (length (log_body l) + attrs_size (log_attributes l)) 1)"
  by (simp add: log_byte_size_def usize_to_u64_def log_attribute_map_byte_size_eq
      saturating_add_clamp max_clamp_1)

lemma metric_byte_size_eq:
  "metric_byte_size m = clamp_u64 (length (met_name m) + 8 + attrs_size (met_attributes m))"
  by (simp add: metric_byte_size_def usize_to_u64_def log_attribute_map_byte_size_eq
      saturating_add_clamp max_clamp_1 clamp_u64_8 [symmetric] del: clamp_u64_8)

lemma log_losses_eq:
  "log_losses logs =
     [loss_new CatLogItem (clamp_u64 (length logs)),
      loss_new CatLogByte (clamp_u64 (sum_list (map
        (\<lambda>l. max (length (log_body l) + attrs_size (log_attributes l)) 1) logs)))]"
  using fold_saturating_add_clamp [of _ 0 logs]
  by (simp add: log_losses_def log_byte_size_eq)

lemma metric_losses_eq:
  "metric_losses ms =
     [loss_new CatTraceMetric (clamp_u64 (length ms)),
      loss_new CatTraceMetricByte (clamp_u64 (sum_list (map
        (\<lambda>m. length (met_name m) + 8 + attrs_size (met_attributes m)) ms)))]"
  using fold_saturating_add_clamp [of _ 0 ms]
  by (simp add: metric_losses_def metric_byte_size_eq)

text \<open>Sessions in an aggregate: the exact number of counted sessions.\<close>

definition aggregate_sessions :: "session_aggregates \<Rightarrow> nat" where
  "aggregate_sessions s = sum_list (map (\<lambda>i. unat (sai_exited i) + unat (sai_errored i)
      + unat (sai_abnormal i) + unat (sai_crashed i)) (sag_aggregates s))"

lemma foldl_saturating_add_clamp: 
  "foldl saturating_add q qs = clamp_u64 (unat q + sum_list (map unat qs))"
  using foldl_saturating_add_map [of qs "\<lambda>x. x" unat "unat q"] by simp

lemma session_aggregate_counts_sum:
  "sum_list (map unat (session_aggregate_counts s)) = aggregate_sessions s"
proof -
  have ucast: "unat (ucast (x :: u32) :: u64) = unat x" for x
    by (simp add: unsigned_ucast_eq take_bit_nat_eq_self_iff unsigned_less
        order_less_le_trans [OF unsigned_less])
  have "sum_list (map unat (concat (map (\<lambda>i. [ucast (sai_exited i), ucast (sai_errored i),
        ucast (sai_abnormal i), ucast (sai_crashed i) :: u64]) xs)))
      = sum_list (map (\<lambda>i. unat (sai_exited i) + unat (sai_errored i)
        + unat (sai_abnormal i) + unat (sai_crashed i)) xs)" for xs
    by (induction xs) (simp_all add: ucast)
  then show ?thesis
    by (simp add: session_aggregate_counts_def aggregate_sessions_def)
qed

lemma session_aggregate_losses_eq:
  "session_aggregate_losses s = [loss_new CatSession (clamp_u64 (aggregate_sessions s))]"
  using session_aggregate_counts_sum [of s]
  by (cases "session_aggregate_counts s")
    (auto simp: session_aggregate_losses_def foldl_saturating_add_clamp add.commute)

section \<open>Properties\<close>

text \<open>
  C32: The byte sizes reported for a dropped log and a dropped trace metric are the exact
  Relay sizes (body or name bytes, 8 for the metric's value, key and value bytes of the
  attributes, nested values included, at least 1), clamped to \<open>u64::MAX\<close>: saturating at
  every step of the recursion loses nothing below that bound.
\<close>

theorem byte_sizes_exact:
  "unat (log_byte_size l) =
     min (max (length (log_body l) + attrs_size (log_attributes l)) 1) u64_max \<and>
   unat (metric_byte_size m) =
     min (length (met_name m) + 8 + attrs_size (met_attributes m)) u64_max"
  by (simp add: log_byte_size_eq metric_byte_size_eq unat_clamp_u64 min.commute)

text \<open>
  The losses of an envelope item as Relay counts them: per category the exact quantity.
\<close>

definition exact_losses :: "envelope_item \<Rightarrow> (category \<times> nat) list" where
  "exact_losses it =
     (case it of
        IEvent _ \<Rightarrow> [(CatError, 1)]
      | ISessionUpdate _ \<Rightarrow> [(CatSession, 1)]
      | ISessionAggregates s \<Rightarrow> [(CatSession, aggregate_sessions s)]
      | ITransaction t \<Rightarrow> [(CatTransaction, 1), (CatSpan, length (tx_spans t) + 1)]
      | IAttachment a \<Rightarrow> [(CatAttachment, length (att_buffer a))]
      | IMonitorCheckIn _ \<Rightarrow> [(CatMonitor, 1)]
      | IClientReport r \<Rightarrow> map (\<lambda>i. (it_category i, unat (it_quantity i))) (rep_discarded_events r)
      | IItemContainer (Logs ls) \<Rightarrow>
          [(CatLogItem, length ls),
           (CatLogByte, sum_list (map (\<lambda>l. max (length (log_body l) + attrs_size (log_attributes l)) 1) ls))]
      | IItemContainer (Metrics ms) \<Rightarrow>
          [(CatTraceMetric, length ms),
           (CatTraceMetricByte,
            sum_list (map (\<lambda>m. length (met_name m) + 8 + attrs_size (met_attributes m)) ms))]
      | IRaw \<Rightarrow> [])"

lemma clamp_u64_plus_1: "saturating_add (clamp_u64 n) 1 = clamp_u64 (n + 1)"
  using saturating_add_clamp [of n 1] by (simp add: clamp_u64_Suc_0)

text \<open>
  Dropping an envelope item loses, category by category, the exact quantity of the
  reference table \<open>exact_losses\<close> clamped to \<open>u64::MAX\<close>; only the items of a dropped client
  report keep a reason of their own, and a raw item loses nothing.
\<close>

theorem envelope_item_losses_exact:
  "map (\<lambda>l. (loss_category l, loss_quantity l)) (envelope_item_losses it) =
     map (\<lambda>(c, n). (c, clamp_u64 n)) (exact_losses it) \<and>
   map loss_reason (envelope_item_losses it) =
     (case it of IClientReport r \<Rightarrow> map (\<lambda>i. Some (it_reason i)) (rep_discarded_events r)
      | _ \<Rightarrow> map (\<lambda>_. None) (exact_losses it))"
proof (cases it)
  case (IClientReport r)
  then show ?thesis
    by (simp add: exact_losses_def client_report_losses_def loss_from_item_def loss_with_reason_def
        loss_new_def clamp_u64_unat)
next
  case (IItemContainer c)
  then show ?thesis
    by (cases c) (simp_all add: exact_losses_def log_losses_eq metric_losses_eq loss_new_def)
qed (simp_all add: exact_losses_def event_losses_def session_update_losses_def
    session_aggregate_losses_eq transaction_losses_def attachment_losses_def
    monitor_check_in_losses_def loss_new_def clamp_u64_1 clamp_u64_Suc_0 clamp_u64_plus_1 [simplified])

end
