(* ===== verification/Envelope.thy ===== *)
theory Envelope
  imports Losses
begin

text \<open>
  \<open>Envelope\<close> of \<open>sentry-types/src/protocol/envelope.rs\<close> without its wire format (see
  \<open>EnvelopeCodec\<close>): headers, items, \<open>add_item\<close>, the accessors, \<open>filter\<close>, and
  \<open>losses\<close>. The interface of the trait \<open>EnvelopeFilter\<close> is the locale
  \<open>item_filter\<close>: what \<open>Envelope::filter\<close> guarantees to every implementation is proved once
  inside it.
\<close>

section \<open>Data\<close>

record envelope_headers =
  eh_event_id :: "uuid option"
  eh_dsn :: "dsn option"
  eh_sdk :: "sdk_info option"
  eh_sent_at :: "systime option"
  eh_trace :: "dynamic_sampling_context option"

definition headers_new :: envelope_headers where
  "headers_new =
     \<lparr>eh_event_id = None, eh_dsn = None, eh_sdk = None, eh_sent_at = None, eh_trace = None\<rparr>"

definition with_event_id :: "uuid \<Rightarrow> envelope_headers \<Rightarrow> envelope_headers" where
  "with_event_id i h = h\<lparr>eh_event_id := Some i\<rparr>"

definition with_trace :: "dynamic_sampling_context \<Rightarrow> envelope_headers \<Rightarrow> envelope_headers" where
  "with_trace t h = h\<lparr>eh_trace := Some t\<rparr>"

datatype items = EnvelopeItems "envelope_item list" | RawBytes string

fun items_is_empty :: "items \<Rightarrow> bool" where
  "items_is_empty (EnvelopeItems its) = (its = [])"
| "items_is_empty (RawBytes bytes) = (bytes = [])"

record envelope =
  env_headers :: envelope_headers
  env_items :: items

definition envelope_new :: envelope where
  "envelope_new = \<lparr>env_headers = headers_new, env_items = EnvelopeItems []\<rparr>"

definition with_headers :: "envelope_headers \<Rightarrow> envelope \<Rightarrow> envelope" where
  "with_headers h env = env\<lparr>env_headers := h\<rparr>"

definition envelope_uuid :: "envelope \<Rightarrow> uuid option" where
  "envelope_uuid env = eh_event_id (env_headers env)"

definition from_bytes_raw :: "string \<Rightarrow> envelope" where
  "from_bytes_raw bytes = envelope_new\<lparr>env_items := RawBytes bytes\<rparr>"

text \<open>\<open>items()\<close> and \<open>into_items()\<close>.\<close>

definition items_of :: "envelope \<Rightarrow> envelope_item list" where
  "items_of env = (case env_items env of EnvelopeItems its \<Rightarrow> its | RawBytes _ \<Rightarrow> [])"

definition envelope_event :: "envelope \<Rightarrow> event option" where
  "envelope_event env =
     (case env_items env of
        RawBytes _ \<Rightarrow> None
      | EnvelopeItems its \<Rightarrow>
          (case List.find (\<lambda>it. case it of IEvent _ \<Rightarrow> True | _ \<Rightarrow> False) its of
             Some (IEvent e) \<Rightarrow> Some e
           | _ \<Rightarrow> None))"

section \<open>Adding an item\<close>

text \<open>The id the headers take from an event or a transaction when they have none yet.\<close>

fun id_of_item :: "envelope_item \<Rightarrow> uuid option" where
  "id_of_item (IEvent e) = Some (ev_event_id e)"
| "id_of_item (ITransaction t) = Some (tx_event_id t)"
| "id_of_item _ = None"

definition add_item :: "envelope_item \<Rightarrow> envelope \<Rightarrow> envelope" where
  "add_item item env =
     (case env_items env of
        RawBytes _ \<Rightarrow> env
      | EnvelopeItems its \<Rightarrow>
          (let h = env_headers env;
               h' = (if eh_event_id h = None then
                       (case id_of_item item of Some i \<Rightarrow> h\<lparr>eh_event_id := Some i\<rparr> | None \<Rightarrow> h)
                     else h)
           in \<lparr>env_headers = h', env_items = EnvelopeItems (its @ [item])\<rparr>))"

text \<open>\<open>From<T> for Envelope\<close>.\<close>

definition envelope_of_item :: "envelope_item \<Rightarrow> envelope" where
  "envelope_of_item item = add_item item envelope_new"

text \<open>\<open>LossSource for Envelope\<close>: the losses of its items, none for a raw envelope.\<close>

definition envelope_losses :: "envelope \<Rightarrow> loss list" where
  "envelope_losses env = concat (map envelope_item_losses (items_of env))"

section \<open>Filtering\<close>

text \<open>
  A filter is a state \<open>'s\<close> with the two methods of \<open>EnvelopeFilter\<close>: \<open>accept\<close> is
  \<open>filter(&mut self, item)\<close>, \<open>on_filtered\<close> the callback. \<open>item\<close>s are visited in order.
\<close>

fun filter_items ::
  "('s \<Rightarrow> envelope_item \<Rightarrow> 's \<times> bool) \<Rightarrow> ('s \<Rightarrow> envelope_item \<Rightarrow> 's) \<Rightarrow> 's \<Rightarrow>
   envelope_item list \<Rightarrow> envelope \<Rightarrow> 's \<times> envelope" where
  "filter_items accept on_filtered s [] filtered = (s, filtered)"
| "filter_items accept on_filtered s (item # items) filtered =
     (case accept s item of
        (s', True) \<Rightarrow> filter_items accept on_filtered s' items (add_item item filtered)
      | (s', False) \<Rightarrow> filter_items accept on_filtered (on_filtered s' item) items filtered)"

fun is_attachment :: "envelope_item \<Rightarrow> bool" where
  "is_attachment (IAttachment _) = True"
| "is_attachment _ = False"

text \<open>The second pass: the \<open>filter_map\<close> that drops the attachments.\<close>

fun drop_attachments ::
  "('s \<Rightarrow> envelope_item \<Rightarrow> 's) \<Rightarrow> 's \<Rightarrow> envelope_item list \<Rightarrow> 's \<times> envelope_item list" where
  "drop_attachments on_filtered s [] = (s, [])"
| "drop_attachments on_filtered s (item # items) =
     (if is_attachment item then drop_attachments on_filtered (on_filtered s item) items
      else (let (s', kept) = drop_attachments on_filtered s items in (s', item # kept)))"

definition filter_envelope ::
  "('s \<Rightarrow> envelope_item \<Rightarrow> 's \<times> bool) \<Rightarrow> ('s \<Rightarrow> envelope_item \<Rightarrow> 's) \<Rightarrow> 's \<Rightarrow> envelope \<Rightarrow>
   's \<times> envelope option" where
  "filter_envelope accept on_filtered s env =
     (case env_items env of
        RawBytes _ \<Rightarrow>
          (case accept s IRaw of
             (s', True) \<Rightarrow> (s', Some env)
           | (s', False) \<Rightarrow> (on_filtered s' IRaw, None))
      | EnvelopeItems its \<Rightarrow>
          (case filter_items accept on_filtered s its envelope_new of
             (s1, filtered) \<Rightarrow>
               (case (if envelope_uuid filtered = None then
                        (case env_items filtered of
                           EnvelopeItems kept \<Rightarrow>
                             (case drop_attachments on_filtered s1 kept of
                                (s2, kept') \<Rightarrow>
                                  (s2, filtered\<lparr>env_items := EnvelopeItems kept'\<rparr>))
                         | RawBytes _ \<Rightarrow> (s1, filtered))
                      else (s1, filtered)) of
                  (s3, result) \<Rightarrow>
                    (s3, if items_is_empty (env_items result) then None else Some result))))"

section \<open>Lemmas: adding items\<close>

definition env_wf :: "envelope \<Rightarrow> bool" where
  "env_wf env =
     (eh_event_id (env_headers env) = None \<longrightarrow> (\<forall>it \<in> set (items_of env). id_of_item it = None))"

lemma env_wf_new [simp]: "env_wf envelope_new"
  by (simp add: env_wf_def envelope_new_def items_of_def)

lemma items_of_new [simp]: "items_of envelope_new = []"
  by (simp add: envelope_new_def items_of_def)

lemma items_of_add_item:
  "env_items env = EnvelopeItems its \<Longrightarrow> items_of (add_item item env) = its @ [item]"
  by (simp add: add_item_def items_of_def Let_def)

lemma env_items_add_item:
  "env_items env = EnvelopeItems its \<Longrightarrow> env_items (add_item item env) = EnvelopeItems (its @ [item])"
  by (simp add: add_item_def Let_def)

lemma env_wf_add_item: "env_wf env \<Longrightarrow> env_wf (add_item item env)"
  by (auto simp: env_wf_def add_item_def items_of_def Let_def split: items.splits option.splits
      if_splits)

text \<open>The id of an envelope built by \<open>add_item\<close> is the one of its first event or transaction.\<close>

definition first_id :: "envelope_item list \<Rightarrow> uuid option" where
  "first_id items =
     (case List.find (\<lambda>it. id_of_item it \<noteq> None) items of None \<Rightarrow> None | Some it \<Rightarrow> id_of_item it)"

lemma first_id_Nil [simp]: "first_id [] = None"
  by (simp add: first_id_def)

lemma first_id_Cons: 
  "first_id (it # items) = (case id_of_item it of None \<Rightarrow> first_id items | Some i \<Rightarrow> Some i)"
  by (simp add: first_id_def split: option.split)

lemma first_id_None_iff: "first_id items = None \<longleftrightarrow> (\<forall>it \<in> set items. id_of_item it = None)"
  by (induction items) (auto simp: first_id_Cons split: option.splits)

definition add_items :: "envelope_item list \<Rightarrow> envelope \<Rightarrow> envelope" where
  "add_items items env = foldl (\<lambda>e it. add_item it e) env items"

lemma add_items_Nil [simp]: "add_items [] env = env"
  by (simp add: add_items_def)

lemma add_items_Cons: "add_items (it # items) env = add_items items (add_item it env)"
  by (simp add: add_items_def)

lemma add_items_eq:
  assumes "env_items env = EnvelopeItems its"
  shows "add_items items env =
    \<lparr>env_headers = (if eh_event_id (env_headers env) = None
       then (env_headers env)\<lparr>eh_event_id := first_id items\<rparr> else env_headers env),
     env_items = EnvelopeItems (its @ items)\<rparr>"
  using assms
proof (induction items arbitrary: env its)
  case Nil
  then show ?case by (cases env; cases "env_headers env") auto
next
  case (Cons it items)
  show ?case
    using Cons.IH [OF env_items_add_item [OF Cons.prems]]
    by (auto simp: add_items_Cons add_item_def Cons.prems Let_def first_id_Cons
        split: option.splits)
qed

lemma env_wf_add_items: "env_wf env \<Longrightarrow> env_wf (add_items items env)"
  by (induction items arbitrary: env) (simp_all add: add_items_Cons env_wf_add_item)

lemma add_items_new:
  "add_items items envelope_new =
    \<lparr>env_headers = headers_new\<lparr>eh_event_id := first_id items\<rparr>, env_items = EnvelopeItems items\<rparr>"
  by (simp add: add_items_eq [of _ "[]"] envelope_new_def headers_new_def)

lemma items_of_add_items [simp]: "items_of (add_items items envelope_new) = items"
  by (simp add: add_items_new items_of_def)

section \<open>How a filter runs\<close>

lemma filter_items_add_items:
  "filter_items accept on_filtered s its env = (s', env') \<Longrightarrow>
   \<exists>kept. env' = add_items kept env \<and> set kept \<subseteq> set its"
proof (induction its arbitrary: s env)
  case Nil
  then show ?case by (intro exI [of _ "[]"]) simp
next
  case (Cons item its)
  obtain s1 b where acc: "accept s item = (s1, b)" by (cases "accept s item")
  show ?case
  proof (cases b)
    case True
    then have "filter_items accept on_filtered s1 its (add_item item env) = (s', env')"
      using Cons.prems acc by simp
    from Cons.IH [OF this] obtain kept
      where "env' = add_items kept (add_item item env)" "set kept \<subseteq> set its" by blast
    then show ?thesis by (intro exI [of _ "item # kept"]) (auto simp: add_items_Cons)
  next
    case False
    then have "filter_items accept on_filtered (on_filtered s1 item) its env = (s', env')"
      using Cons.prems acc by simp
    from Cons.IH [OF this] show ?thesis by auto
  qed
qed

lemma drop_attachments_kept:
  "snd (drop_attachments on_filtered s its) = filter (\<lambda>it. \<not> is_attachment it) its"
  by (induction its arbitrary: s) (auto simp: case_prod_unfold Let_def)

lemma filter_envelope_run:
  assumes "env_items env = EnvelopeItems its"
    and "filter_items accept on_filtered s its envelope_new = (s1, add_items kept envelope_new)"
  shows "filter_envelope accept on_filtered s env =
    (case (if first_id kept = None then drop_attachments on_filtered s1 kept else (s1, kept)) of
       (s2, kept') \<Rightarrow> (s2, if kept' = [] then None else Some (add_items kept' envelope_new)))"
proof (cases "first_id kept")
  case None
  obtain s2 kept' where drop: "drop_attachments on_filtered s1 kept = (s2, kept')"
    by (cases "drop_attachments on_filtered s1 kept")
  have "kept' = filter (\<lambda>it. \<not> is_attachment it) kept"
    using drop_attachments_kept [of on_filtered s1 kept] drop by simp
  then have "first_id kept' = None" using None by (simp add: first_id_None_iff)
  then show ?thesis
    using None by (simp add: filter_envelope_def assms add_items_new envelope_uuid_def drop)
next
  case (Some i)
  then show ?thesis by (simp add: filter_envelope_def assms add_items_new envelope_uuid_def)
qed

section \<open>The contract of a filter\<close>

text \<open>
  \<open>view\<close> is what the outside observes of the filter's state, \<open>sink\<close> how it changes when an
  item is reported as dropped. A law-abiding filter changes its view only in \<open>on_filtered\<close>.
\<close>

locale item_filter =
  fixes accept :: "'s \<Rightarrow> envelope_item \<Rightarrow> 's \<times> bool"
    and on_filtered :: "'s \<Rightarrow> envelope_item \<Rightarrow> 's"
    and view :: "'s \<Rightarrow> 'v"
    and sink :: "'v \<Rightarrow> envelope_item \<Rightarrow> 'v"
  assumes view_accept: "view (fst (accept s item)) = view s"
    and view_on_filtered: "view (on_filtered s item) = sink (view s) item"
begin

lemma filter_items_account:
  "\<lbrakk>filter_items accept on_filtered s its env = (s', env');
    env_items env = EnvelopeItems old\<rbrakk> \<Longrightarrow>
   \<exists>kept dropped. env' = add_items kept env \<and>
     view s' = foldl sink (view s) dropped \<and> mset kept + mset dropped = mset its"
proof (induction its arbitrary: s env old)
  case Nil
  then show ?case by (intro exI [of _ "[]"]) simp
next
  case (Cons item its)
  obtain s1 b where acc: "accept s item = (s1, b)" by (cases "accept s item")
  have vs: "view s1 = view s" using view_accept [of s item] acc by simp
  show ?case
  proof (cases b)
    case True
    then have "filter_items accept on_filtered s1 its (add_item item env) = (s', env')"
      using Cons.prems(1) acc by simp
    from Cons.IH [OF this env_items_add_item [OF Cons.prems(2)]]
    obtain kept dropped where "env' = add_items kept (add_item item env)"
      "view s' = foldl sink (view s1) dropped" "mset kept + mset dropped = mset its"
      by blast
    then show ?thesis
      by (intro exI [of _ "item # kept"] exI [of _ dropped]) (simp add: add_items_Cons vs)
  next
    case False
    then have "filter_items accept on_filtered (on_filtered s1 item) its env = (s', env')"
      using Cons.prems(1) acc by simp
    from Cons.IH [OF this Cons.prems(2)]
    obtain kept dropped where "env' = add_items kept env"
      "view s' = foldl sink (view (on_filtered s1 item)) dropped"
      "mset kept + mset dropped = mset its"
      by blast
    then show ?thesis
      by (intro exI [of _ kept] exI [of _ "item # dropped"]) (simp add: vs view_on_filtered)
  qed
qed

lemma drop_attachments_account:
  "drop_attachments on_filtered s its = (s', kept) \<Longrightarrow>
   kept = filter (\<lambda>it. \<not> is_attachment it) its \<and>
   view s' = foldl sink (view s) (filter is_attachment its)"
proof (induction its arbitrary: s kept)
  case (Cons item its)
  then show ?case
    by (cases "is_attachment item") (auto simp: view_on_filtered Let_def split: prod.splits)
qed simp

text \<open>Every item is either in the result or was reported, exactly once.\<close>

lemma filter_envelope_account:
  assumes res: "filter_envelope accept on_filtered s env = (s', result)"
    and its: "env_items env = EnvelopeItems its"
  shows "\<exists>dropped. view s' = foldl sink (view s) dropped \<and>
     mset (case result of None \<Rightarrow> [] | Some e \<Rightarrow> items_of e) + mset dropped = mset its"
proof -
  obtain s1 filtered where run: "filter_items accept on_filtered s its envelope_new = (s1, filtered)"
    by (cases "filter_items accept on_filtered s its envelope_new")
  obtain kept dropped where kept: "filtered = add_items kept envelope_new"
    and view: "view s1 = foldl sink (view s) dropped" and ms: "mset kept + mset dropped = mset its"
    using filter_items_account [OF run, of "[]"] by (auto simp: envelope_new_def)
  note filt = filter_envelope_run [OF its run [unfolded kept]]
  show ?thesis
  proof (cases "first_id kept")
    case None
    obtain s2 kept' where drop: "drop_attachments on_filtered s1 kept = (s2, kept')"
      by (cases "drop_attachments on_filtered s1 kept")
    note acct = drop_attachments_account [OF drop]
    have "mset kept' + mset (dropped @ filter is_attachment kept) = mset its"
      using acct ms multiset_partition [of "mset kept" is_attachment]
      by (simp add: ac_simps flip: ms)
    moreover have "view s2 = foldl sink (view s) (dropped @ filter is_attachment kept)"
      using acct view by simp
    moreover have "s' = s2 \<and> result = (if kept' = [] then None else Some (add_items kept' envelope_new))"
      using res unfolding filt None drop by simp
    ultimately show ?thesis
      by (intro exI [of _ "dropped @ filter is_attachment kept"]) auto
  next
    case (Some i)
    have "s' = s1 \<and> result = (if kept = [] then None else Some (add_items kept envelope_new))"
      using res unfolding filt Some by simp
    then show ?thesis using view ms by (intro exI [of _ dropped]) auto
  qed
qed

end

section \<open>The shape of a filtered envelope\<close>

text \<open>These hold for every filter, whatever it does with its state.\<close>

lemma filter_envelope_shape:
  assumes res: "filter_envelope accept on_filtered s env = (s', Some e)"
    and its: "env_items env = EnvelopeItems its"
  shows "\<exists>kept. e = add_items kept envelope_new \<and> kept \<noteq> [] \<and> set kept \<subseteq> set its \<and>
     (first_id kept = None \<longrightarrow> (\<forall>it \<in> set kept. \<not> is_attachment it))"
proof -
  obtain s1 filtered where run: "filter_items accept on_filtered s its envelope_new = (s1, filtered)"
    by (cases "filter_items accept on_filtered s its envelope_new")
  obtain kept where kept: "filtered = add_items kept envelope_new" and sub: "set kept \<subseteq> set its"
    using filter_items_add_items [OF run] by auto
  note filt = filter_envelope_run [OF its run [unfolded kept]]
  show ?thesis
  proof (cases "first_id kept")
    case None
    obtain s2 kept' where drop: "drop_attachments on_filtered s1 kept = (s2, kept')"
      by (cases "drop_attachments on_filtered s1 kept")
    have kept': "kept' = filter (\<lambda>it. \<not> is_attachment it) kept"
      using drop_attachments_kept [of on_filtered s1 kept] drop by simp
    have "e = add_items kept' envelope_new \<and> kept' \<noteq> []"
      using res filt None drop by (cases "kept' = []") simp_all
    then show ?thesis using sub by (intro exI [of _ kept']) (auto simp: kept')
  next
    case (Some i)
    then have "e = add_items kept envelope_new \<and> kept \<noteq> []"
      using res filt by (cases "kept = []") simp_all
    then show ?thesis using sub Some by (intro exI [of _ kept]) auto
  qed
qed

lemma drop_attachments_none:
  "\<forall>it \<in> set its. \<not> is_attachment it \<Longrightarrow> drop_attachments on_filtered s its = (s, its)"
  by (induction its) auto

text \<open>A filter that keeps everything still rebuilds the envelope.\<close>

lemma filter_items_keep_all:
  "(\<And>s it. snd (accept s it)) \<Longrightarrow>
   \<exists>s'. filter_items accept on_filtered s its env = (s', add_items its env)"
proof (induction its arbitrary: s env)
  case (Cons it its)
  obtain s1 where "accept s it = (s1, True)"
    using Cons.prems [of s it] by (cases "accept s it") auto
  then show ?case using Cons.IH [OF Cons.prems, of s1 "add_item it env"]
    by (simp add: add_items_Cons)
qed simp

section \<open>Properties\<close>

lemma first_id_Some: "first_id items = Some i \<Longrightarrow> \<exists>it \<in> set items. id_of_item it = Some i"
  by (induction items) (auto simp: first_id_Cons split: option.splits)

text \<open>
  C29: Whatever the filter decides, an envelope that \<open>Envelope::filter\<close> makes of an envelope of items (raw ones have no parsed items)
  is not empty, holds only items of the original, and holds an attachment only together with an event or
  transaction, whose id is the id of the envelope.
\<close>

theorem filter_keeps_related_attachments:
  assumes "filter_envelope accept on_filtered s env = (s', Some e)"
    and "env_items env = EnvelopeItems its"
  shows "items_of e \<noteq> [] \<and> set (items_of e) \<subseteq> set its \<and>
    (\<forall>it \<in> set (items_of e). is_attachment it \<longrightarrow>
       (\<exists>parent \<in> set (items_of e). id_of_item parent \<noteq> None \<and>
          id_of_item parent = envelope_uuid e))"
proof -
  obtain kept where kept: "e = add_items kept envelope_new" "kept \<noteq> []" "set kept \<subseteq> set its"
    "first_id kept = None \<longrightarrow> (\<forall>it \<in> set kept. \<not> is_attachment it)"
    using filter_envelope_shape [OF assms] by (elim exE conjE) (rule that)
  have "\<exists>parent \<in> set kept. id_of_item parent \<noteq> None \<and> id_of_item parent = envelope_uuid e"
    if "it \<in> set kept" "is_attachment it" for it
  proof -
    have "first_id kept \<noteq> None"
    proof
      assume "first_id kept = None"
      with kept(4) have "\<forall>it \<in> set kept. \<not> is_attachment it" by blast
      with that show False by blast
    qed
    then obtain i where "first_id kept = Some i" by blast
    then show ?thesis
      using first_id_Some [of kept i] by (force simp: kept(1) add_items_new envelope_uuid_def)
  qed
  then show ?thesis using kept by simp
qed

definition sample_attachment :: envelope_item where
  "sample_attachment = IAttachment \<lparr>att_buffer = ''x'', att_filename = ''f'',
     att_content_type = None, att_ty = None\<rparr>"

definition sample_envelope :: envelope where
  "sample_envelope = add_items [IEvent (event_default 9 0), sample_attachment]
     (with_headers (with_trace dsc_new headers_new) envelope_new)"

lemma sample_envelope_items:
  "env_items sample_envelope = EnvelopeItems [IEvent (event_default 9 0), sample_attachment]"
  unfolding sample_envelope_def
  by (subst add_items_eq [of _ "[]"]) (simp_all add: with_headers_def envelope_new_def)

lemma sample_envelope_headers:
  "env_headers sample_envelope = headers_new\<lparr>eh_event_id := Some 9, eh_trace := Some dsc_new\<rparr>"
  unfolding sample_envelope_def
  by (subst add_items_eq [of _ "[]"])
    (simp_all add: with_headers_def envelope_new_def with_trace_def headers_new_def first_id_Cons
      event_default_def)

lemma sample_filter:
  "filter_envelope (\<lambda>s it. (s, True)) (\<lambda>s it. s) () sample_envelope =
     ((), Some (add_items [IEvent (event_default 9 0), sample_attachment] envelope_new))"
proof -
  have "filter_items (\<lambda>s it. (s, True)) (\<lambda>s it. s) () [IEvent (event_default 9 0), sample_attachment]
      envelope_new = ((), add_items [IEvent (event_default 9 0), sample_attachment] envelope_new)"
    by (simp add: add_items_Cons)
  from filter_envelope_run [OF sample_envelope_items this] show ?thesis
    by (simp add: first_id_Cons)
qed

lemma filter_keeps_related_attachments_witness:
  "items_of (add_items [IEvent (event_default 9 0), sample_attachment] envelope_new) \<noteq> []"
  using filter_keeps_related_attachments [OF sample_filter sample_envelope_items] by simp

text \<open>
  \<open>Envelope::filter\<close> rebuilds an envelope of items instead of editing it: the result has
  the id of its first event or transaction and none of the other headers. So even a filter
  that removes nothing loses the trace header (the dynamic sampling context), the DSN, the
  SDK information and the send time that the original carried.
\<close>

theorem filter_drops_headers:
  assumes "filter_envelope accept on_filtered s env = (s', Some e)"
    and "env_items env = EnvelopeItems its"
  shows "env_headers e = headers_new\<lparr>eh_event_id := first_id (items_of e)\<rparr> \<and>
    eh_trace (env_headers e) = None \<and> eh_dsn (env_headers e) = None \<and>
    eh_sdk (env_headers e) = None \<and> eh_sent_at (env_headers e) = None"
proof -
  obtain kept where "e = add_items kept envelope_new"
    using filter_envelope_shape [OF assms] by (elim exE conjE) (rule that)
  then show ?thesis by (simp add: add_items_new items_of_def headers_new_def)
qed

end
