(* ===== verification/EnvelopeCodec.thy ===== *)
theory EnvelopeCodec
  imports Envelope
begin

text \<open>
  The wire format of envelopes: \<open>Envelope::to_writer\<close>, \<open>from_slice\<close> and the parser behind it
  (\<open>sentry-types/src/protocol/envelope.rs\<close>), and \<open>Attachment::to_writer\<close>
  (\<open>attachment.rs\<close>). The JSON (de)serialisers of \<open>serde_json\<close> are a parameter, the record
  \<open>codec\<close>. Bytes are \<open>char\<close>s. Every index computation keeps its checks: a input out of
  range or an overflow that the code \<open>unwrap\<close>s or \<open>expect\<close>s is the failure \<open>Panicked\<close>, which
  is proved unreachable.
\<close>

section \<open>The JSON parameter\<close>

record attachment_header =
  ah_length :: nat
  ah_filename :: string
  ah_attachment_type :: attachment_type
  ah_content_type :: string

record item_header =
  ih_type :: envelope_item_type
  ih_length :: "nat option"
  ih_content_type :: "string option"
  ih_filename :: "string option"
  ih_attachment_type :: "attachment_type option"

text \<open>
  The first value of a \<open>StreamDeserializer\<close>: nothing left, an error, or a value and the byte
  offset after it.
\<close>

datatype 'a stream_next = StreamEnd | StreamErr | StreamOk 'a nat

record codec =
  ser_headers :: "envelope_headers \<Rightarrow> string option"
  ser_event :: "event \<Rightarrow> string option"
  ser_session :: "session_update \<Rightarrow> string option"
  ser_aggregates :: "session_aggregates \<Rightarrow> string option"
  ser_transaction :: "ptransaction \<Rightarrow> string option"
  ser_check_in :: "monitor_check_in \<Rightarrow> string option"
  ser_client_report :: "report \<Rightarrow> string option"
  ser_logs :: "log list \<Rightarrow> string option"
  ser_metrics :: "metric list \<Rightarrow> string option"
  ser_item_type :: "envelope_item_type \<Rightarrow> string option"
  ser_attachment_header :: "attachment_header \<Rightarrow> string option"
  de_headers :: "string \<Rightarrow> envelope_headers option"
  de_item_header :: "string \<Rightarrow> item_header stream_next"
  de_event :: "string \<Rightarrow> event option"
  de_session :: "string \<Rightarrow> session_update option"
  de_aggregates :: "string \<Rightarrow> session_aggregates option"
  de_transaction :: "string \<Rightarrow> ptransaction option"
  de_check_in :: "string \<Rightarrow> monitor_check_in option"
  de_client_report :: "string \<Rightarrow> report option"
  de_logs :: "string \<Rightarrow> log list option"
  de_metrics :: "string \<Rightarrow> metric list option"

section \<open>Writing\<close>

abbreviation newline :: char where
  "newline \<equiv> CHR 0x0A"

definition attachment_header_of :: "attachment \<Rightarrow> attachment_header" where
  "attachment_header_of a =
     \<lparr>ah_length = length (att_buffer a), ah_filename = att_filename a,
      ah_attachment_type = (case att_ty a of Some ty \<Rightarrow> ty | None \<Rightarrow> AttAttachment),
      ah_content_type =
        (case att_content_type a of Some ct \<Rightarrow> ct | None \<Rightarrow> ''application/octet-stream'')\<rparr>"

definition attachment_to_writer :: "codec \<Rightarrow> attachment \<Rightarrow> string option" where
  "attachment_to_writer c a =
     (case ser_attachment_header c (attachment_header_of a) of
        None \<Rightarrow> None
      | Some header \<Rightarrow> Some (header @ [newline] @ att_buffer a))"

text \<open>What the loop writes into \<open>item_buf\<close>.\<close>

fun item_body :: "codec \<Rightarrow> envelope_item \<Rightarrow> string option" where
  "item_body c (IEvent e) = ser_event c e"
| "item_body c (ISessionUpdate s) = ser_session c s"
| "item_body c (ISessionAggregates s) = ser_aggregates c s"
| "item_body c (ITransaction t) = ser_transaction c t"
| "item_body c (IAttachment a) = None"
| "item_body c (IMonitorCheckIn m) = ser_check_in c m"
| "item_body c (IClientReport r) = ser_client_report c r"
| "item_body c (IItemContainer (Logs ls)) = ser_logs c ls"
| "item_body c (IItemContainer (Metrics ms)) = ser_metrics c ms"
| "item_body c IRaw = None"

text \<open>The header line of an item that is not an attachment.\<close>

definition item_line :: "envelope_item \<Rightarrow> string \<Rightarrow> string \<Rightarrow> string" where
  "item_line item type_json buf =
     (case item of
        IItemContainer container \<Rightarrow>
          ''{\"type\":'' @ type_json @ '',\"item_count\":'' @ show_nat (container_len container)
          @ '',\"content_type\":\"'' @ container_content_type container @ ''\"}''
      | _ \<Rightarrow> ''{\"type\":'' @ type_json @ '',\"length\":'' @ show_nat (length buf) @ ''}'')"

text \<open>The bytes one round of the loop appends; \<open>None\<close> is the \<open>?\<close> of a serialisation error.\<close>

fun write_item :: "codec \<Rightarrow> envelope_item \<Rightarrow> string option" where
  "write_item c (IAttachment a) = map_option (\<lambda>s. s @ [newline]) (attachment_to_writer c a)"
| "write_item c IRaw = Some []"
| "write_item c item =
     (case item_body c item of None \<Rightarrow> None
      | Some buf \<Rightarrow>
        (case item_type item of None \<Rightarrow> None
         | Some ty \<Rightarrow>
           (case ser_item_type c ty of None \<Rightarrow> None
            | Some type_json \<Rightarrow>
                Some (item_line item type_json buf @ [newline] @ buf @ [newline]))))"

fun write_items :: "codec \<Rightarrow> envelope_item list \<Rightarrow> string option" where
  "write_items c [] = Some []"
| "write_items c (item # items) =
     (case write_item c item of None \<Rightarrow> None
      | Some bytes \<Rightarrow> map_option (\<lambda>rest. bytes @ rest) (write_items c items))"

definition to_writer :: "codec \<Rightarrow> envelope \<Rightarrow> string option" where
  "to_writer c env =
     (case env_items env of
        RawBytes bytes \<Rightarrow> Some bytes
      | EnvelopeItems items \<Rightarrow>
          (case ser_headers c (env_headers env) of None \<Rightarrow> None
           | Some headers \<Rightarrow> map_option (\<lambda>body. headers @ [newline] @ body) (write_items c items)))"

section \<open>Parsing\<close>

datatype envelope_error =
    UnexpectedEof | MissingHeader | MissingItemHeader | MissingNewline
  | InvalidHeader | InvalidItemHeader | InvalidItemPayload

datatype failure = Failed envelope_error | Panicked

definition usize_max :: nat where
  "usize_max = u64_max"

definition isize_max :: nat where
  "isize_max = 2 ^ 63 - 1"

definition expect_add :: "nat \<Rightarrow> nat \<Rightarrow> failure + nat" where
  "expect_add a b = (if a + b \<le> usize_max then Inr (a + b) else Inl Panicked)"

text \<open>\<open>slice.get(a..)\<close>, \<open>slice.get(a..b)\<close>, \<open>iter().position(..)\<close>.\<close>

definition get_from :: "string \<Rightarrow> nat \<Rightarrow> string option" where
  "get_from s a = (if a \<le> length s then Some (drop a s) else None)"

definition get_range :: "string \<Rightarrow> nat \<Rightarrow> nat \<Rightarrow> string option" where
  "get_range s a b = (if a \<le> b \<and> b \<le> length s then Some (take (b - a) (drop a s)) else None)"

fun position :: "char \<Rightarrow> string \<Rightarrow> nat option" where
  "position ch [] = None"
| "position ch (x # xs) = (if x = ch then Some 0 else map_option Suc (position ch xs))"

definition require_termination :: "string \<Rightarrow> nat \<Rightarrow> failure + unit" where
  "require_termination input offset =
     (if offset < length input \<and> input ! offset \<noteq> newline then Inl (Failed MissingNewline)
      else Inr ())"

definition parse_headers :: "codec \<Rightarrow> string \<Rightarrow> failure + (envelope_headers \<times> nat)" where
  "parse_headers c input =
     (let first_line = hd (split_on newline input) in
      case de_headers c first_line of
        None \<Rightarrow> Inl (Failed InvalidHeader)
      | Some headers \<Rightarrow>
          result_bind (require_termination input (length first_line)) (\<lambda>_.
          result_bind (expect_add (length first_line) 1) (\<lambda>after.
          Inr (headers, after))))"

text \<open>Where the payload ends, given where it starts.\<close>

definition find_payload_end :: "string \<Rightarrow> item_header \<Rightarrow> nat \<Rightarrow> failure + nat" where
  "find_payload_end input header start =
     (case ih_length header of
        Some len \<Rightarrow>
          (let stop = min (start + len) usize_max in
           if length input < stop then Inl (Failed UnexpectedEof)
           else result_bind (require_termination input stop) (\<lambda>_. Inr stop))
      | None \<Rightarrow>
          (case get_from input start of
             None \<Rightarrow> Inr (length input)
           | Some rest \<Rightarrow>
               (case position newline rest of
                  None \<Rightarrow> Inr (length input)
                | Some relative \<Rightarrow> expect_add start relative)))"

fun decode_payload :: "codec \<Rightarrow> item_header \<Rightarrow> string \<Rightarrow> envelope_item option" where
  "decode_payload c header payload =
     (case ih_type header of
        TyEvent \<Rightarrow> map_option IEvent (de_event c payload)
      | TyTransaction \<Rightarrow> map_option ITransaction (de_transaction c payload)
      | TySessionUpdate \<Rightarrow> map_option ISessionUpdate (de_session c payload)
      | TySessionAggregates \<Rightarrow> map_option ISessionAggregates (de_aggregates c payload)
      | TyAttachment \<Rightarrow>
          Some (IAttachment \<lparr>att_buffer = payload,
            att_filename = (case ih_filename header of None \<Rightarrow> [] | Some f \<Rightarrow> f),
            att_content_type = ih_content_type header, att_ty = ih_attachment_type header\<rparr>)
      | TyMonitorCheckIn \<Rightarrow> map_option IMonitorCheckIn (de_check_in c payload)
      | TyClientReport \<Rightarrow> map_option IClientReport (de_client_report c payload)
      | TyLogsContainer \<Rightarrow> map_option (\<lambda>x. IItemContainer (Logs x)) (de_logs c payload)
      | TyMetricsContainer \<Rightarrow> map_option (\<lambda>x. IItemContainer (Metrics x)) (de_metrics c payload))"

definition parse_item :: "codec \<Rightarrow> string \<Rightarrow> failure + (envelope_item \<times> nat)" where
  "parse_item c input =
     (case de_item_header c input of
        StreamEnd \<Rightarrow> Inl (Failed UnexpectedEof)
      | StreamErr \<Rightarrow> Inl (Failed InvalidItemHeader)
      | StreamOk header header_end \<Rightarrow>
          result_bind (require_termination input header_end) (\<lambda>_.
          result_bind (expect_add (min header_end (length input - 1)) 1) (\<lambda>start.
          result_bind (find_payload_end input header start) (\<lambda>stop.
          case get_range input start stop of
            None \<Rightarrow> Inl Panicked
          | Some payload \<Rightarrow>
              (case decode_payload c header payload of
                 None \<Rightarrow> Inl (Failed InvalidItemPayload)
               | Some item \<Rightarrow>
                   result_bind (expect_add stop 1) (\<lambda>after. Inr (item, after)))))))"

lemma expect_add_Inr: "expect_add a b = Inr n \<longleftrightarrow> n = a + b \<and> a + b \<le> usize_max"
  by (auto simp: expect_add_def)

lemma result_bind_Inr: "result_bind r f = Inr b \<longleftrightarrow> (\<exists>a. r = Inr a \<and> f a = Inr b)"
  by (cases r) auto

lemma parse_item_advances: "parse_item c input = Inr (item, n) \<Longrightarrow> 0 < n"
  by (auto simp: parse_item_def result_bind_Inr expect_add_Inr split: stream_next.splits option.splits)

text \<open>The loop of \<open>parse_items\<close>; it ends because every item advances the offset.\<close>

function parse_items :: "codec \<Rightarrow> string \<Rightarrow> nat \<Rightarrow> failure + envelope_item list" where
  "parse_items c input offset =
     (if offset < length input then
        (case get_from input offset of
           None \<Rightarrow> Inl (Failed MissingItemHeader)
         | Some bytes \<Rightarrow>
             (case parse_item c bytes of
                Inl e \<Rightarrow> Inl e
              | Inr (item, item_offset) \<Rightarrow>
                  (case expect_add offset item_offset of
                     Inl e \<Rightarrow> Inl e
                   | Inr next \<Rightarrow>
                       result_bind (parse_items c input next) (\<lambda>items. Inr (item # items)))))
      else Inr [])"
  by pat_completeness auto
termination
  by (relation "measure (\<lambda>(c, input, offset). length input - offset)")
    (auto simp: expect_add_Inr dest: parse_item_advances)

declare parse_items.simps [simp del]

definition from_slice :: "codec \<Rightarrow> string \<Rightarrow> failure + envelope" where
  "from_slice c input =
     result_bind (parse_headers c input) (\<lambda>(headers, offset).
     result_bind (parse_items c input offset) (\<lambda>items.
     Inr (foldl (\<lambda>env item. add_item item env) \<lparr>env_headers = headers, env_items = EnvelopeItems []\<rparr>
       items)))"

section \<open>Bounds\<close>

lemma position_Some: "position ch s = Some n \<Longrightarrow> n < length s"
  by (induction s arbitrary: n) (auto split: if_splits)

lemma position_append: "ch \<notin> set s \<Longrightarrow> position ch (s @ ch # t) = Some (length s)"
  by (induction s) auto

lemma isize_usize: "n \<le> isize_max \<Longrightarrow> n + 1 \<le> usize_max"
  by (simp add: isize_max_def usize_max_def u64_max_def)

lemma find_payload_end_ok:
  assumes "start \<le> length input" and "length input \<le> isize_max"
  shows "(\<exists>e. find_payload_end input header start = Inl (Failed e)) \<or>
    (\<exists>stop. find_payload_end input header start = Inr stop \<and> start \<le> stop \<and> stop \<le> length input)"
proof (cases "ih_length header")
  case None
  show ?thesis
  proof (cases "position newline (drop start input)")
    case None': None
    with None assms show ?thesis by (simp add: find_payload_end_def get_from_def)
  next
    case (Some k)
    then have "start + k < length input" using position_Some [OF Some] by simp
    with None Some assms isize_usize [OF assms(2)] show ?thesis
      by (simp add: find_payload_end_def get_from_def expect_add_def)
  qed
next
  case (Some len)
  have "start \<le> min (start + len) usize_max"
    using assms isize_usize [OF assms(2)] by simp
  then show ?thesis
    using Some by (auto simp: find_payload_end_def Let_def require_termination_def)
qed

lemma parse_item_bounds:
  assumes eof: "\<And>h n. de_item_header c [] \<noteq> StreamOk h n"
    and len: "length input \<le> isize_max"
  shows "parse_item c input \<noteq> Inl Panicked \<and>
    (parse_item c input = Inr (item, n) \<longrightarrow> 1 \<le> n \<and> n \<le> length input + 1)"
proof (cases "de_item_header c input")
  case (StreamOk header header_end)
  have ne: "input \<noteq> []" using StreamOk eof by auto
  let ?start = "min header_end (length input - 1) + 1"
  have start: "?start \<le> length input" using ne by (cases input) simp_all
  have add1: "expect_add (min header_end (length input - 1)) 1 = Inr ?start"
    using start isize_usize [OF len] by (simp add: expect_add_def)
  show ?thesis
  proof (cases "require_termination input header_end")
    case (Inl e)
    then show ?thesis
      using StreamOk by (auto simp: parse_item_def require_termination_def split: if_splits)
  next
    case (Inr u)
    from find_payload_end_ok [OF start len, of header]
    show ?thesis
    proof (elim disjE exE conjE)
      fix e assume "find_payload_end input header ?start = Inl (Failed e)"
      then show ?thesis using StreamOk Inr by (simp add: parse_item_def add1 [simplified])
    next
      fix stop assume fin: "find_payload_end input header ?start = Inr stop"
        and st: "?start \<le> stop" "stop \<le> length input"
      have range: "get_range input ?start stop = Some (take (stop - ?start) (drop ?start input))"
        using st by (simp add: get_range_def)
      have add2: "expect_add stop 1 = Inr (stop + 1)"
        using st isize_usize [OF len] by (simp add: expect_add_def)
      show ?thesis
        using StreamOk Inr fin range add2 add1 st
        by (simp add: parse_item_def split: option.splits)
    qed
  qed
qed (simp_all add: parse_item_def)

lemma parse_items_no_panic:
  assumes eof: "\<And>h n. de_item_header c [] \<noteq> StreamOk h n"
    and len: "length input \<le> isize_max"
  shows "parse_items c input offset \<noteq> Inl Panicked"
proof (induction c \<equiv> c input \<equiv> input offset rule: parse_items.induct)
  case (1 offset)
  show ?case
  proof (cases "offset < length input")
    case True
    then have get: "get_from input offset = Some (drop offset input)" by (simp add: get_from_def)
    have len': "length (drop offset input) \<le> isize_max" using len by simp
    note bounds = parse_item_bounds [OF eof len']
    show ?thesis
    proof (cases "parse_item c (drop offset input)")
      case (Inl e)
      then show ?thesis using bounds True get by (subst parse_items.simps) simp
    next
      case (Inr r)
      obtain item k where r: "r = (item, k)" by (cases r)
      have "offset + k \<le> length input + 1" using bounds [of item k] Inr r True by (simp, arith)
      then have add: "expect_add offset k = Inr (offset + k)"
        using isize_usize [OF len] by (simp add: expect_add_def)
      have "parse_items c input (offset + k) \<noteq> Inl Panicked"
        using "1.hyps" [OF True get Inr [unfolded r] refl add] .
      then show ?thesis
        using True get Inr r add
        by (subst parse_items.simps) (auto simp: result_bind_def split: sum.splits)
    qed
  qed (subst parse_items.simps, simp)
qed

lemma hd_split_on: "hd (split_on ch s) = takeWhile (\<lambda>x. x \<noteq> ch) s"
  by (induction s) (auto split: list.splits)

lemma from_slice_no_panic:
  assumes eof: "\<And>h n. de_item_header c [] \<noteq> StreamOk h n"
    and len: "length input \<le> isize_max"
  shows "from_slice c input \<noteq> Inl Panicked"
proof -
  let ?line = "takeWhile (\<lambda>x. x \<noteq> newline) input"
  have "length ?line \<le> length input" by (rule length_takeWhile_le)
  then have "expect_add (length ?line) 1 = Inr (length ?line + 1)"
    using isize_usize [of "length ?line"] len by (simp add: expect_add_def)
  then have "parse_headers c input \<noteq> Inl Panicked"
    by (auto simp: parse_headers_def hd_split_on Let_def require_termination_def split: option.splits)
  moreover have "parse_items c input offset \<noteq> Inl Panicked" for offset
    by (rule parse_items_no_panic [OF eof len])
  ultimately show ?thesis
    by (auto simp: from_slice_def result_bind_def split: sum.splits)
qed

section \<open>Round trip\<close>

text \<open>
  The attachment that is read back has the default content type and attachment type written
  out, since the header on the wire always names them.
\<close>

definition norm_attachment :: "attachment \<Rightarrow> attachment" where
  "norm_attachment a =
     a\<lparr>att_content_type := Some (case att_content_type a of Some ct \<Rightarrow> ct | None \<Rightarrow> ''application/octet-stream''),
       att_ty := Some (case att_ty a of Some ty \<Rightarrow> ty | None \<Rightarrow> AttAttachment)\<rparr>"

fun norm_item :: "envelope_item \<Rightarrow> envelope_item" where
  "norm_item (IAttachment a) = IAttachment (norm_attachment a)"
| "norm_item it = it"

text \<open>
  What is assumed of the JSON library. The first part is about JSON, not about what the program
  writes: an object is spelled here member by member, a number is any decimal text with a value and
  without a leading zero, a string any quoted text of characters that need no escape. Read
  as an item header, the text of such an object gives the values of its members and ends at its
  closing brace, whatever follows the line. An attachment header that the library wrote itself is read back
  as the values that it was written from.
\<close>

definition quote :: "string \<Rightarrow> string" where
  "quote s = CHR 0x22 # s @ [CHR 0x22]"

fun json_members :: "(string \<times> string) list \<Rightarrow> string" where
  "json_members [] = []"
| "json_members ((k, v) # ms) = quote k @ '':'' @ v @ (case ms of [] \<Rightarrow> [] | _ \<Rightarrow> '','' @ json_members ms)"

definition json_object :: "(string \<times> string) list \<Rightarrow> string" where
  "json_object ms = ''{'' @ json_members ms @ ''}''"

definition json_number :: "string \<Rightarrow> nat \<Rightarrow> bool" where
  "json_number ds n \<longleftrightarrow> ds \<noteq> [] \<and> list_all is_digit ds \<and> digits_val ds = int n \<and> (hd ds = CHR ''0'' \<longrightarrow> ds = ''0'')"

definition json_plain :: "string \<Rightarrow> bool" where
  "json_plain s \<longleftrightarrow> list_all (\<lambda>ch. graphic ch \<and> ch \<noteq> CHR 0x22 \<and> ch \<noteq> CHR 0x5C) s"

text \<open>A custom attachment type that spells one of the known ones is read as that one.\<close>

fun attachment_type_kept :: "attachment_type \<Rightarrow> bool" where
  "attachment_type_kept (AttCustom s) = (s \<notin> {''event.attachment'', ''event.minidump'',
     ''event.applecrashreport'', ''unreal.context'', ''unreal.logs''})"
| "attachment_type_kept _ = True"

definition reads_header :: "codec \<Rightarrow> string \<Rightarrow> item_header \<Rightarrow> bool" where
  "reads_header c line h \<longleftrightarrow>
     (\<forall>rest. de_item_header c (line @ newline # rest) = StreamOk h (length line))"

definition reads_json :: "codec \<Rightarrow> bool" where
  "reads_json c \<longleftrightarrow>
     (\<forall>ty tj ds n. ser_item_type c ty = Some tj \<and> json_number ds n \<and> n \<le> usize_max \<longrightarrow>
        reads_header c (json_object [(''type'', tj), (''length'', ds)])
          \<lparr>ih_type = ty, ih_length = Some n, ih_content_type = None, ih_filename = None,
           ih_attachment_type = None\<rparr>) \<and>
     (\<forall>ty tj ds n ct. ty \<in> {TyLogsContainer, TyMetricsContainer} \<and> ser_item_type c ty = Some tj \<and>
          json_number ds n \<and> json_plain ct \<longrightarrow>
        reads_header c (json_object [(''type'', tj), (''item_count'', ds), (''content_type'', quote ct)])
          \<lparr>ih_type = ty, ih_length = None, ih_content_type = Some ct, ih_filename = None,
           ih_attachment_type = None\<rparr>) \<and>
     (\<forall>len f ty ct line. ser_attachment_header c \<lparr>ah_length = len, ah_filename = f, ah_attachment_type = ty,
            ah_content_type = ct\<rparr> = Some line \<and> len \<le> usize_max \<and> attachment_type_kept ty \<longrightarrow>
        reads_header c line
          \<lparr>ih_type = TyAttachment, ih_length = Some len, ih_content_type = Some ct, ih_filename = Some f,
           ih_attachment_type = Some ty\<rparr>)"

text \<open>
  The second part is about the values at hand: each survives its own JSON, and the JSON of a container
  and of the envelope headers has no raw newline.
\<close>

fun payload_ok :: "codec \<Rightarrow> envelope_item \<Rightarrow> bool" where
  "payload_ok c (IEvent e) = (\<forall>s. ser_event c e = Some s \<longrightarrow> de_event c s = Some e)"
| "payload_ok c (ISessionUpdate u) = (\<forall>s. ser_session c u = Some s \<longrightarrow> de_session c s = Some u)"
| "payload_ok c (ISessionAggregates u) = (\<forall>s. ser_aggregates c u = Some s \<longrightarrow> de_aggregates c s = Some u)"
| "payload_ok c (ITransaction t) = (\<forall>s. ser_transaction c t = Some s \<longrightarrow> de_transaction c s = Some t)"
| "payload_ok c (IAttachment a) = (case att_ty a of None \<Rightarrow> True | Some ty \<Rightarrow> attachment_type_kept ty)"
| "payload_ok c (IMonitorCheckIn m) = (\<forall>s. ser_check_in c m = Some s \<longrightarrow> de_check_in c s = Some m)"
| "payload_ok c (IClientReport r) = (\<forall>s. ser_client_report c r = Some s \<longrightarrow> de_client_report c s = Some r)"
| "payload_ok c (IItemContainer (Logs ls)) =
     (\<forall>s. ser_logs c ls = Some s \<longrightarrow> de_logs c s = Some ls \<and> newline \<notin> set s)"
| "payload_ok c (IItemContainer (Metrics ms)) =
     (\<forall>s. ser_metrics c ms = Some s \<longrightarrow> de_metrics c s = Some ms \<and> newline \<notin> set s)"
| "payload_ok c IRaw = True"

definition codec_ok :: "codec \<Rightarrow> envelope \<Rightarrow> bool" where
  "codec_ok c env \<longleftrightarrow> reads_json c \<and>
     (\<forall>line. ser_headers c (env_headers env) = Some line \<longrightarrow>
        newline \<notin> set line \<and> de_headers c line = Some (env_headers env)) \<and>
     (\<forall>it \<in> set (items_of env). payload_ok c it)"

lemma show_nat_zero: "hd (show_nat n) = CHR ''0'' \<Longrightarrow> show_nat n = ''0''"
proof (induction n rule: show_nat.induct)
  case (1 n)
  show ?case
  proof (cases "n < 10")
    case True
    then have s: "show_nat n = [char_of (48 + n)]" by (simp add: show_nat.simps)
    then have "char_of (48 + n) = CHR ''0''" using 1(2) by simp
    with s show ?thesis by simp
  next
    case False
    then have s: "show_nat n = show_nat (n div 10) @ [char_of (48 + n mod 10)]" by (subst show_nat.simps) simp
    then have "show_nat (n div 10) = ''0''" using 1 False show_nat_digits [of "n div 10"] by (simp add: hd_append)
    then have "int (n div 10) = digits_val ''0''" using digits_val_show_nat [of "n div 10"] by simp
    then have "n div 10 = 0" by (simp add: digits_val_def digit_val_def)
    with False show ?thesis by simp
  qed
qed

lemma json_number_show_nat: "json_number (show_nat n) n"
  using show_nat_digits [of n] show_nat_zero [of n] by (simp add: json_number_def digits_val_show_nat)

text \<open>The lines that the program formats are such objects.\<close>

lemma item_line_object:
  "\<nexists>k. it = IItemContainer k \<Longrightarrow>
     item_line it tj buf = json_object [(''type'', tj), (''length'', show_nat (length buf))]"
  "item_line (IItemContainer k) tj buf =
     json_object [(''type'', tj), (''item_count'', show_nat (container_len k)),
       (''content_type'', quote (container_content_type k))]"
  by (cases it) (simp_all add: item_line_def json_object_def quote_def)

lemma json_plain_content_type: "json_plain (container_content_type k)"
  by (cases k) (simp_all add: json_plain_def graphic_def)

text \<open>One framed item: header line, payload, and the newlines after each.\<close>

lemma parse_item_frame:
  assumes hdr: "reads_header c line h"
    and len: "ih_length h = Some (length p) \<or> (ih_length h = None \<and> newline \<notin> set p)"
    and dec: "decode_payload c h p = Some it"
    and size: "length line + length p + 2 + length rest \<le> isize_max"
  shows "parse_item c (line @ newline # p @ newline # rest) = Inr (it, length line + length p + 2)"
proof -
  let ?in = "line @ newline # p @ newline # rest"
  let ?start = "length line + 1" and ?stop = "length line + 1 + length p"
  have wire: "de_item_header c ?in = StreamOk h (length line)"
    using hdr by (simp add: reads_header_def)
  have ends: "require_termination ?in (length line) = Inr ()"
    by (simp add: require_termination_def)
  have le: "?stop + 1 \<le> usize_max"
    using size isize_usize [of "length line + length p + 1"] by simp
  then have start: "expect_add (min (length line) (length ?in - 1)) 1 = Inr ?start"
    by (simp add: expect_add_def)
  have drop: "drop ?start ?in = p @ newline # rest" by simp
  have stop: "find_payload_end ?in h ?start = Inr ?stop"
    using len
  proof
    assume "ih_length h = Some (length p)"
    moreover have "?in ! ?stop = newline" by (simp add: nth_append)
    moreover have "min (?start + length p) usize_max = ?stop" using le by simp
    ultimately show ?thesis
      by (simp add: find_payload_end_def require_termination_def Let_def)
  next
    assume "ih_length h = None \<and> newline \<notin> set p"
    then show ?thesis
      using le drop by (simp add: find_payload_end_def get_from_def position_append expect_add_def)
  qed
  have range: "get_range ?in ?start ?stop = Some p" by (simp add: get_range_def)
  have last: "expect_add ?stop 1 = Inr (?stop + 1)" using le by (simp add: expect_add_def)
  show ?thesis
    unfolding parse_item_def wire stream_next.case ends result_bind_simps start stop range
      option.case dec last
    by simp
qed

lemma reads_container:
  assumes "reads_json c" and "ser_item_type c (container_item_type k) = Some tj"
  shows "reads_header c (item_line (IItemContainer k) tj buf)
    \<lparr>ih_type = container_item_type k, ih_length = None, ih_content_type = Some (container_content_type k),
     ih_filename = None, ih_attachment_type = None\<rparr>"
proof -
  have "container_item_type k \<in> {TyLogsContainer, TyMetricsContainer}" by (cases k) simp_all
  with assms json_number_show_nat [of "container_len k"] json_plain_content_type [of k]
  show ?thesis unfolding item_line_object(2) reads_json_def by simp
qed

lemma write_item_frame:
  assumes "write_item c it = Some bytes" and "it \<noteq> IRaw" and "payload_ok c it" and rd: "reads_json c"
    and size: "length bytes \<le> usize_max"
  shows "\<exists>line p h. bytes = line @ newline # p @ [newline] \<and> reads_header c line h \<and>
     (ih_length h = Some (length p) \<or> (ih_length h = None \<and> newline \<notin> set p)) \<and>
     decode_payload c h p = Some (norm_item it)"
proof -
  consider (att) a where "it = IAttachment a" | (box) k where "it = IItemContainer k"
    | (plain) "\<nexists>a. it = IAttachment a" "\<nexists>k. it = IItemContainer k" by blast
  then show ?thesis
  proof cases
    case att
    with assms(1) obtain line where l: "ser_attachment_header c (attachment_header_of a) = Some line"
      "bytes = line @ newline # att_buffer a @ [newline]"
      by (auto simp: attachment_to_writer_def split: option.splits)
    let ?h = "\<lparr>ih_type = TyAttachment, ih_length = Some (length (att_buffer a)),
        ih_content_type = att_content_type (norm_attachment a), ih_filename = Some (att_filename a),
        ih_attachment_type = att_ty (norm_attachment a)\<rparr>"
    have "reads_header c line ?h"
      using rd l size assms(3) att
      by (auto simp: reads_json_def attachment_header_of_def norm_attachment_def split: option.splits)
    then show ?thesis
      using l(2) att by (intro exI [of _ line] exI [of _ "att_buffer a"] exI [of _ ?h])
        (simp add: norm_attachment_def)
  next
    case box
    with assms(1) obtain buf tj where w: "item_body c it = Some buf"
      "ser_item_type c (container_item_type k) = Some tj" "bytes = item_line it tj buf @ newline # buf @ [newline]"
      by (cases k) (auto split: option.splits)
    let ?h = "\<lparr>ih_type = container_item_type k, ih_length = None,
        ih_content_type = Some (container_content_type k), ih_filename = None, ih_attachment_type = None\<rparr>"
    have "reads_header c (item_line it tj buf) ?h" using reads_container [OF rd w(2)] box by simp
    moreover have "decode_payload c ?h buf = Some it \<and> newline \<notin> set buf"
      using assms(3) w(1) box by (cases k) simp_all
    ultimately show ?thesis
      using w(3) box by (intro exI [of _ "item_line it tj buf"] exI [of _ buf] exI [of _ ?h]) simp
  next
    case plain
    with assms(1,2) obtain buf ty tj where w: "item_body c it = Some buf" "item_type it = Some ty"
      "ser_item_type c ty = Some tj" "bytes = item_line it tj buf @ newline # buf @ [newline]"
      by (cases it) (auto split: option.splits)
    let ?h = "\<lparr>ih_type = ty, ih_length = Some (length buf), ih_content_type = None, ih_filename = None,
        ih_attachment_type = None\<rparr>"
    have "length buf \<le> usize_max" using size w(4) by simp
    then have "reads_header c (item_line it tj buf) ?h"
      using rd w(3) json_number_show_nat [of "length buf"]
      unfolding item_line_object(1) [OF plain(2)] reads_json_def by simp
    moreover have "decode_payload c ?h buf = Some (norm_item it)"
      using assms(2,3) w(1,2) plain by (cases it) simp_all
    ultimately show ?thesis
      using w(4) by (intro exI [of _ "item_line it tj buf"] exI [of _ buf] exI [of _ ?h]) simp
  qed
qed

lemma parse_items_written:
  assumes "write_items c items = Some bytes" and "\<forall>it \<in> set items. payload_ok c it" and "reads_json c"
    and "length pre + length bytes \<le> isize_max"
  shows "parse_items c (pre @ bytes) (length pre)
    = Inr (map norm_item (filter (\<lambda>it. it \<noteq> IRaw) items))"
  using assms
proof (induction items arbitrary: pre bytes)
  case Nil
  then show ?case by (subst parse_items.simps) simp
next
  case (Cons it items)
  obtain b bs where w: "write_item c it = Some b" "write_items c items = Some bs" "bytes = b @ bs"
    using Cons.prems(1) by (auto split: option.splits)
  show ?case
  proof (cases "it = IRaw")
    case True
    then show ?thesis using Cons.IH [of bs pre] Cons.prems w by simp
  next
    case False
    have size: "length pre + length b + length bs \<le> isize_max"
      using Cons.prems(4) w by simp
    obtain line p h where f: "b = line @ newline # p @ [newline]" "reads_header c line h"
      "ih_length h = Some (length p) \<or> (ih_length h = None \<and> newline \<notin> set p)"
      "decode_payload c h p = Some (norm_item it)"
      using write_item_frame [OF w(1) False _ Cons.prems(3)] Cons.prems(2) size isize_usize [of "length b"] by auto
    have parse: "parse_item c (b @ bs) = Inr (norm_item it, length b)"
      using parse_item_frame [OF f(2,3,4), of bs] size by (simp add: f(1))
    have add: "expect_add (length pre) (length b) = Inr (length (pre @ b))"
      using size isize_usize [of "length pre + length b"] by (simp add: expect_add_def)
    have "parse_items c ((pre @ b) @ bs) (length (pre @ b))
        = Inr (map norm_item (filter (\<lambda>it. it \<noteq> IRaw) items))"
      using Cons.IH [OF w(2), of "pre @ b"] Cons.prems(2,3) size by simp
    moreover have "length pre < length (pre @ bytes)" using w(3) f(1) by simp
    ultimately show ?thesis
      using w(3) False parse add
      by (subst parse_items.simps) (simp add: get_from_def)
  qed
qed

lemma id_of_norm_item [simp]: "id_of_item (norm_item it) = id_of_item it"
  by (cases it) simp_all

lemma first_id_norm:
  "(\<forall>it \<in> set items. id_of_item it = None) \<Longrightarrow>
   first_id (map norm_item (filter P items)) = None"
  by (simp add: first_id_None_iff)

lemma from_slice_written:
  assumes wf: "env_wf env" and ok: "codec_ok c env"
    and its: "env_items env = EnvelopeItems items"
    and out: "to_writer c env = Some bytes" and size: "length bytes \<le> isize_max"
  shows "from_slice c bytes =
    Inr (env\<lparr>env_items := EnvelopeItems (map norm_item (filter (\<lambda>it. it \<noteq> IRaw) items))\<rparr>)"
proof -
  obtain line body where w: "ser_headers c (env_headers env) = Some line"
    "write_items c items = Some body" "bytes = line @ newline # body"
    using out its by (auto simp: to_writer_def split: option.splits)
  have l: "newline \<notin> set line" "de_headers c line = Some (env_headers env)"
    using ok w(1) by (auto simp: codec_ok_def)
  have hd: "takeWhile (\<lambda>x. x \<noteq> newline) bytes = line"
    using l(1) w(3) by (auto simp: takeWhile_append)
  have add: "expect_add (length line) 1 = Inr (length line + 1)"
    using size w(3) isize_usize [of "length line"] by (simp add: expect_add_def)
  have headers: "parse_headers c bytes = Inr (env_headers env, length (line @ [newline]))"
    using l(2) add w(3) by (simp add: parse_headers_def hd_split_on hd [unfolded w(3)] Let_def require_termination_def)
  have items: "parse_items c bytes (length (line @ [newline]))
      = Inr (map norm_item (filter (\<lambda>it. it \<noteq> IRaw) items))"
    using parse_items_written [OF w(2), of "line @ [newline]"] ok size its w(3)
    by (simp add: codec_ok_def items_of_def)
  have id: "eh_event_id (env_headers env) = None \<Longrightarrow>
      first_id (map norm_item (filter (\<lambda>it. it \<noteq> IRaw) items)) = None"
    using wf its by (intro first_id_norm) (simp add: env_wf_def items_of_def)
  show ?thesis
    unfolding from_slice_def headers items result_bind_simps prod.case
    using add_items_eq [of "\<lparr>env_headers = env_headers env, env_items = EnvelopeItems []\<rparr>" "[]"] id
    by (cases env; cases "env_headers env") (auto simp: add_items_def)
qed

section \<open>Properties\<close>

text \<open>
  C30: Parsing an envelope never panics, whatever the bytes and whatever the JSON deserialiser
  answers, as long as it finds no value in an empty input: no index computation overflows, no
  slice is taken out of range, the loop over the items ends, and the offset that
  \<open>parse_item\<close> returns lies between 1 and one past the end of its input.
\<close>

theorem parsing_is_safe:
  assumes "\<And>h n. de_item_header c [] \<noteq> StreamOk h n" and "length input \<le> isize_max"
  shows "from_slice c input \<noteq> Inl Panicked \<and> parse_item c input \<noteq> Inl Panicked \<and>
    (\<forall>item n. parse_item c input = Inr (item, n) \<longrightarrow> 1 \<le> n \<and> n \<le> length input + 1)"
  using from_slice_no_panic [OF assms] parse_item_bounds [OF assms] by blast

definition sample_event :: event where
  "sample_event = event_default 9 0"

text \<open>A codec that knows the items of one envelope, and reads the length of an event from its header.\<close>

definition event_line_start :: string where
  "event_line_start = ''{\"type\":\"event\",\"length\":''"

definition read_event_line :: "string \<Rightarrow> item_header stream_next" where
  "read_event_line s =
     (let n = length event_line_start; ds = takeWhile is_digit (drop n s) in
      if take n s = event_line_start \<and> ds \<noteq> [] \<and> take 1 (drop (n + length ds) s) = ''}''
      then StreamOk \<lparr>ih_type = TyEvent, ih_length = Some (nat (digits_val ds)), ih_content_type = None,
        ih_filename = None, ih_attachment_type = None\<rparr> (n + length ds + 1)
      else StreamErr)"

definition sample_codec :: codec where
  "sample_codec =
     \<lparr>ser_headers = (\<lambda>_. Some ''H''), ser_event = (\<lambda>_. Some ''E''), ser_session = (\<lambda>_. None),
      ser_aggregates = (\<lambda>_. None), ser_transaction = (\<lambda>_. None), ser_check_in = (\<lambda>_. None),
      ser_client_report = (\<lambda>_. None), ser_logs = (\<lambda>_. None), ser_metrics = (\<lambda>_. None),
      ser_item_type = (\<lambda>ty. if ty = TyEvent then Some (quote ''event'') else None),
      ser_attachment_header = (\<lambda>h. if h = \<lparr>ah_length = 1, ah_filename = ''f'', ah_attachment_type = AttAttachment,
        ah_content_type = ''application/octet-stream''\<rparr> then Some ''A'' else None),
      de_headers = (\<lambda>_. Some (env_headers sample_envelope)),
      de_item_header = (\<lambda>s. case s of [] \<Rightarrow> StreamEnd
        | x # _ \<Rightarrow> if x = CHR ''A'' then StreamOk \<lparr>ih_type = TyAttachment, ih_length = Some 1,
                    ih_content_type = Some ''application/octet-stream'', ih_filename = Some ''f'',
                    ih_attachment_type = Some AttAttachment\<rparr> 1
                  else read_event_line s),
      de_event = (\<lambda>_. Some sample_event), de_session = (\<lambda>_. None), de_aggregates = (\<lambda>_. None),
      de_transaction = (\<lambda>_. None), de_check_in = (\<lambda>_. None), de_client_report = (\<lambda>_. None),
      de_logs = (\<lambda>_. None), de_metrics = (\<lambda>_. None)\<rparr>"

lemma parsing_is_safe_witness:
  "from_slice sample_codec ''garbage'' \<noteq> Inl Panicked"
  using parsing_is_safe [of sample_codec "''garbage''"]
  by (simp add: sample_codec_def isize_max_def)

text \<open>
  C14: Round trip of the wire format: the bytes that \<open>to_writer\<close> produces for an item envelope
  parse back to that envelope, without its raw sentinel items and with the defaults of the
  attachment headers written out. The envelope was built with \<open>add_item\<close> (it has an id if it has an
  event or transaction), and its bytes fit a slice. Of the JSON library it is
  assumed that header objects spelled member by member are read for their members' values, that an attachment header
  is read back as written, and that the values at hand survive their own JSON, with no
  raw newline in containers and headers; a custom attachment type that spells a known one is excluded.
\<close>

theorem envelope_roundtrip:
  assumes "env_wf env" and "codec_ok c env" and "env_items env = EnvelopeItems items"
    and "to_writer c env = Some bytes" and "length bytes \<le> isize_max"
  shows "from_slice c bytes =
    Inr (env\<lparr>env_items := EnvelopeItems (map norm_item (filter (\<lambda>it. it \<noteq> IRaw) items))\<rparr>)"
  using assms by (rule from_slice_written)

lemma sample_reads_json: "reads_json sample_codec"
proof -
  have line: "de_item_header sample_codec (json_object [(''type'', quote ''event''), (''length'', ds)] @ newline # rest) =
      StreamOk \<lparr>ih_type = TyEvent, ih_length = Some n, ih_content_type = None, ih_filename = None,
        ih_attachment_type = None\<rparr> (length (json_object [(''type'', quote ''event''), (''length'', ds)]))"
    if ds: "json_number ds n" for ds n rest
  proof -
    have o: "json_object [(''type'', quote ''event''), (''length'', ds)] @ newline # rest =
        event_line_start @ ds @ CHR ''}'' # newline # rest"
      by (simp add: json_object_def quote_def event_line_start_def)
    have d: "takeWhile is_digit (ds @ CHR ''}'' # newline # rest) = ds"
      using ds by (simp add: json_number_def list_all_iff takeWhile_append2 is_digit_def)
    have "de_item_header sample_codec (event_line_start @ ds @ CHR ''}'' # newline # rest) =
        read_event_line (event_line_start @ ds @ CHR ''}'' # newline # rest)"
      by (simp add: sample_codec_def event_line_start_def)
    then show ?thesis
      using ds d unfolding o by (simp add: read_event_line_def Let_def json_number_def)
        (simp add: json_object_def quote_def event_line_start_def)
  qed
  show ?thesis
    using line unfolding reads_json_def reads_header_def
    by (auto simp: sample_codec_def split: if_splits)
qed

lemma sample_codec_fields:
  "ser_headers sample_codec h = Some ''H''" "ser_event sample_codec e = Some ''E''"
  "ser_item_type sample_codec TyEvent = Some (quote ''event'')"
  "ser_attachment_header sample_codec \<lparr>ah_length = Suc 0, ah_filename = ''f'', ah_attachment_type = AttAttachment,
     ah_content_type = ''application/octet-stream''\<rparr> = Some ''A''"
  "de_headers sample_codec l = Some (env_headers sample_envelope)" "de_event sample_codec l = Some sample_event"
  by (simp_all add: sample_codec_def)

lemma sample_codec_ok: "codec_ok sample_codec sample_envelope"
proof -
  have "\<forall>it \<in> set (items_of sample_envelope). payload_ok sample_codec it"
    by (simp add: items_of_def sample_envelope_items sample_attachment_def sample_codec_fields sample_event_def)
  moreover have "newline \<notin> set ''H''" by simp
  ultimately show ?thesis using sample_reads_json unfolding codec_ok_def sample_codec_fields by blast
qed

lemma sample_wf: "env_wf sample_envelope"
  by (simp add: env_wf_def sample_envelope_headers)

definition sample_bytes :: string where
  "sample_bytes = ''H'' @ [newline] @ item_line (IEvent sample_event) (quote ''event'') ''E'' @ [newline]
     @ ''E'' @ [newline] @ ''A'' @ [newline] @ ''x'' @ [newline]"

lemma sample_written: "to_writer sample_codec sample_envelope = Some sample_bytes"
  by (simp add: to_writer_def sample_envelope_items sample_attachment_def attachment_to_writer_def
      attachment_header_of_def sample_bytes_def sample_event_def sample_codec_fields)

lemma envelope_roundtrip_witness:
  "from_slice sample_codec sample_bytes =
     Inr (sample_envelope\<lparr>env_items := EnvelopeItems
       (map norm_item [IEvent sample_event, sample_attachment])\<rparr>)"
proof -
  have "length sample_bytes \<le> isize_max"
    by (simp add: sample_bytes_def item_line_def quote_def show_nat.simps isize_max_def)
  from envelope_roundtrip [OF sample_wf sample_codec_ok sample_envelope_items sample_written this]
  show ?thesis by (simp add: sample_event_def sample_attachment_def)
qed

end
