(* ===== verification/RateLimit.thy ===== *)
theory RateLimit
  imports Envelope
begin

text \<open>
  \<open>RateLimiter\<close> (\<open>sentry/src/transports/ratelimit.rs\<close>): the deadlines per category, the two
  headers and the 429 status that set them, the queries, and the envelope filter. Clock
  readings are inputs: single readings where the number of calls is fixed, a sequence
  \<open>nat \<Rightarrow> systime\<close> where it depends on the data. The HTTP date parser (crate \<open>httpdate\<close>) is
  a parameter.
\<close>

section \<open>The limiter\<close>

record rate_limiter =
  rl_global :: "systime option"
  rl_error :: "systime option"
  rl_session :: "systime option"
  rl_transaction :: "systime option"
  rl_attachment :: "systime option"
  rl_log_item :: "systime option"
  rl_trace_metric :: "systime option"

definition rate_limiter_new :: rate_limiter where
  "rate_limiter_new =
     \<lparr>rl_global = None, rl_error = None, rl_session = None, rl_transaction = None,
      rl_attachment = None, rl_log_item = None, rl_trace_metric = None\<rparr>"

datatype rl_category = RlAny | RlError | RlSession | RlTransaction | RlAttachment | RlLogItem
  | RlTraceMetric

definition time_after_default_delay :: "systime \<Rightarrow> systime" where
  "time_after_default_delay now =
     (case systime_checked_add now (from_secs 60) of Some t \<Rightarrow> t | None \<Rightarrow> now)"

text \<open>The second reading is the one of the fallback.\<close>

definition time_after :: "systime \<Rightarrow> systime \<Rightarrow> duration \<Rightarrow> systime" where
  "time_after now now' d =
     (case systime_checked_add now d of Some t \<Rightarrow> t | None \<Rightarrow> time_after_default_delay now')"

definition update_from_retry_after ::
  "(string \<Rightarrow> systime option) \<Rightarrow> systime \<Rightarrow> systime \<Rightarrow> string \<Rightarrow> rate_limiter \<Rightarrow> rate_limiter" where
  "update_from_retry_after parse_http_date now now' header rl =
     (let new_time =
        (case parse_f64 header of
           Some value \<Rightarrow> time_after now now' (from_secs (ceil_as_u64 value))
         | None \<Rightarrow>
             (case parse_http_date header of
                Some value \<Rightarrow> value
              | None \<Rightarrow> time_after_default_delay now))
      in rl\<lparr>rl_global := Some new_time\<rparr>)"

definition set_category :: "systime \<Rightarrow> rate_limiter \<Rightarrow> string \<Rightarrow> rate_limiter" where
  "set_category t rl category =
     (if category = ''error'' then rl\<lparr>rl_error := Some t\<rparr>
      else if category = ''session'' then rl\<lparr>rl_session := Some t\<rparr>
      else if category = ''transaction'' then rl\<lparr>rl_transaction := Some t\<rparr>
      else if category = ''attachment'' then rl\<lparr>rl_attachment := Some t\<rparr>
      else if category = ''log_item'' then rl\<lparr>rl_log_item := Some t\<rparr>
      else if category = ''trace_metric'' then rl\<lparr>rl_trace_metric := Some t\<rparr>
      else rl)"

text \<open>One grp; a grp that does not parse leaves the limiter as it is.\<close>

definition parse_group :: "systime \<Rightarrow> systime \<Rightarrow> string \<Rightarrow> rate_limiter \<Rightarrow> rate_limiter" where
  "parse_group now now' grp rl =
     (case split_on (CHR '':'') grp of
        secs # categories # scope # _ \<Rightarrow>
          (case parse_f64 secs of
             None \<Rightarrow> rl
           | Some seconds \<Rightarrow>
               (let new_time = time_after now now' (from_secs (ceil_as_u64 seconds));
                    rl' = (if categories = [] then rl\<lparr>rl_global := Some new_time\<rparr> else rl)
                in foldl (set_category new_time) rl' (split_on (CHR '';'') categories)))
      | _ \<Rightarrow> rl)"

fun parse_groups :: "(nat \<Rightarrow> systime) \<Rightarrow> nat \<Rightarrow> string list \<Rightarrow> rate_limiter \<Rightarrow> rate_limiter" where
  "parse_groups clock i [] rl = rl"
| "parse_groups clock i (grp # groups) rl =
     parse_groups clock (Suc i) groups
       (parse_group (clock (2 * i)) (clock (2 * i + 1)) (trim grp) rl)"

definition update_from_sentry_header ::
  "(nat \<Rightarrow> systime) \<Rightarrow> string \<Rightarrow> rate_limiter \<Rightarrow> rate_limiter" where
  "update_from_sentry_header clock header rl =
     parse_groups clock 0 (split_on (CHR '','') header) rl"

definition update_from_429 :: "systime \<Rightarrow> rate_limiter \<Rightarrow> rate_limiter" where
  "update_from_429 now rl = rl\<lparr>rl_global := Some (time_after_default_delay now)\<rparr>"

fun rl_field :: "rl_category \<Rightarrow> rate_limiter \<Rightarrow> systime option" where
  "rl_field RlAny rl = rl_global rl"
| "rl_field RlError rl = rl_error rl"
| "rl_field RlSession rl = rl_session rl"
| "rl_field RlTransaction rl = rl_transaction rl"
| "rl_field RlAttachment rl = rl_attachment rl"
| "rl_field RlLogItem rl = rl_log_item rl"
| "rl_field RlTraceMetric rl = rl_trace_metric rl"

definition is_disabled :: "rate_limiter \<Rightarrow> rl_category \<Rightarrow> systime \<Rightarrow> systime \<Rightarrow> duration option" where
  "is_disabled rl category now now' =
     (case (case rl_global rl of Some ts \<Rightarrow> duration_since ts now | None \<Rightarrow> None) of
        Some left \<Rightarrow> Some left
      | None \<Rightarrow>
          (case rl_field category rl of
             None \<Rightarrow> None
           | Some ts \<Rightarrow> duration_since ts now'))"

definition is_enabled :: "rate_limiter \<Rightarrow> rl_category \<Rightarrow> systime \<Rightarrow> systime \<Rightarrow> bool" where
  "is_enabled rl category now now' = (is_disabled rl category now now' = None)"

section \<open>Filtering envelopes\<close>

fun item_rl_category :: "envelope_item \<Rightarrow> rl_category" where
  "item_rl_category (IEvent _) = RlError"
| "item_rl_category (ISessionUpdate _) = RlSession"
| "item_rl_category (ISessionAggregates _) = RlSession"
| "item_rl_category (ITransaction _) = RlTransaction"
| "item_rl_category (IAttachment _) = RlAttachment"
| "item_rl_category (IItemContainer (Logs _)) = RlLogItem"
| "item_rl_category (IItemContainer (Metrics _)) = RlTraceMetric"
| "item_rl_category _ = RlAny"

text \<open>
  The two closures share the state of the filter: how many clock readings were used, and the
  recorder. An item takes the next two readings.
\<close>

type_synonym rl_state = "nat \<times> recorder"

definition rl_accept ::
  "rate_limiter \<Rightarrow> (nat \<Rightarrow> systime) \<Rightarrow> rl_state \<Rightarrow> envelope_item \<Rightarrow> rl_state \<times> bool" where
  "rl_accept rl clock s item =
     ((fst s + 2, snd s),
      is_enabled rl (item_rl_category item) (clock (fst s)) (clock (fst s + 1)))"

definition rl_on_filtered :: "rl_state \<Rightarrow> envelope_item \<Rightarrow> rl_state" where
  "rl_on_filtered s item =
     (fst s, recorder_record_lost_data (envelope_item_losses item) TlrRatelimitBackoff (snd s))"

definition rl_filter ::
  "rate_limiter \<Rightarrow> (nat \<Rightarrow> systime) \<Rightarrow> recorder \<Rightarrow> envelope \<Rightarrow> recorder \<times> envelope option" where
  "rl_filter rl clock rec env =
     (case filter_envelope (rl_accept rl clock) rl_on_filtered (0, rec) env of
        (s, result) \<Rightarrow> (snd s, result))"

definition rl_sink :: "recorder \<Rightarrow> envelope_item \<Rightarrow> recorder" where
  "rl_sink rec item = recorder_record_lost_data (envelope_item_losses item) TlrRatelimitBackoff rec"

text \<open>The rate limiter is a law-abiding filter whose visible state is the recorder.\<close>

interpretation rlf: item_filter "rl_accept rl clock" rl_on_filtered snd rl_sink for rl clock
  by unfold_locales (simp_all add: rl_accept_def rl_on_filtered_def rl_sink_def)

lemma foldl_rl_sink:
  "foldl rl_sink rec items =
     recorder_record_lost_data (concat (map envelope_item_losses items)) TlrRatelimitBackoff rec"
proof (induction items arbitrary: rec)
  case (Cons it items)
  then show ?case
    by (cases rec) (simp_all add: rl_sink_def recorder_record_lost_data_def record_lost_data_append)
qed (simp add: recorder_record_lost_data_def record_lost_data_def split: option.split)

lemma filter_items_rl:
  "\<exists>k rec'. filter_items (rl_accept rl (\<lambda>_. now)) rl_on_filtered (i, rec) its env =
     ((k, rec'), add_items
        (filter (\<lambda>it. is_enabled rl (item_rl_category it) now now) its) env)"
proof (induction its arbitrary: i rec env)
  case (Cons it its)
  show ?case
    using Cons.IH [of "i + 2" rec "add_item it env"]
      Cons.IH [of "i + 2" "rl_sink rec it" env]
    by (auto simp: rl_accept_def rl_on_filtered_def rl_sink_def add_items_Cons)
qed simp

section \<open>Header semantics\<close>

text \<open>
  What one grp of the header says: a number of seconds and a list of category names, where
  no name stands for every category.
\<close>

definition group_limit :: "string \<Rightarrow> (int \<times> string list) option" where
  "group_limit grp =
     (case split_on (CHR '':'') (trim grp) of
        secs # categories # scope # _ \<Rightarrow>
          map_option (\<lambda>v. (ceil_as_u64 v, if categories = [] then [] else split_on (CHR '';'') categories))
            (parse_f64 secs)
      | _ \<Rightarrow> None)"

fun rl_name :: "rl_category \<Rightarrow> string option" where
  "rl_name RlAny = None"
| "rl_name RlError = Some ''error''"
| "rl_name RlSession = Some ''session''"
| "rl_name RlTransaction = Some ''transaction''"
| "rl_name RlAttachment = Some ''attachment''"
| "rl_name RlLogItem = Some ''log_item''"
| "rl_name RlTraceMetric = Some ''trace_metric''"

definition names_category :: "rl_category \<Rightarrow> string list \<Rightarrow> bool" where
  "names_category cat names =
     (case rl_name cat of None \<Rightarrow> names = [] | Some n \<Rightarrow> n \<in> set names)"

text \<open>The deadline that a grp sets for a category, if it names it.\<close>

definition group_deadline ::
  "rl_category \<Rightarrow> systime \<Rightarrow> systime \<Rightarrow> string \<Rightarrow> systime option" where
  "group_deadline cat now now' grp =
     (case group_limit grp of
        Some (secs, names) \<Rightarrow>
          if names_category cat names then Some (time_after now now' (from_secs secs)) else None
      | None \<Rightarrow> None)"

lemma rl_field_set_category:
  "rl_field cat (set_category t rl name) =
     (if rl_name cat = Some name then Some t else rl_field cat rl)"
  by (cases cat) (auto simp: set_category_def)

lemma rl_field_foldl:
  "rl_field cat (foldl (set_category t) rl names) =
     (if \<exists>n \<in> set names. rl_name cat = Some n then Some t else rl_field cat rl)"
  by (induction names arbitrary: rl) (auto simp: rl_field_set_category)

lemma rl_field_global: "rl_field cat (rl\<lparr>rl_global := t\<rparr>) = (if cat = RlAny then t else rl_field cat rl)"
  by (cases cat) simp_all

lemma rl_name_Nil: "rl_name cat \<noteq> Some []"
  by (cases cat) simp_all

lemma rl_name_None_iff: "rl_name cat = None \<longleftrightarrow> cat = RlAny"
  by (cases cat) simp_all

lemma parse_group_field:
  "rl_field cat (parse_group now now' (trim grp) rl) =
     (case group_deadline cat now now' grp of None \<Rightarrow> rl_field cat rl | Some t \<Rightarrow> Some t)"
proof (cases "\<exists>secs cats scope more. split_on (CHR '':'') (trim grp) = secs # cats # scope # more")
  case False
  then show ?thesis
    by (auto simp: parse_group_def group_deadline_def group_limit_def split: list.splits)
next
  case True
  then obtain secs cats scope more
    where sp: "split_on (CHR '':'') (trim grp) = secs # cats # scope # more" by blast
  show ?thesis
  proof (cases "parse_f64 secs")
    case None
    with sp show ?thesis by (simp add: parse_group_def group_deadline_def group_limit_def)
  next
    case (Some v)
    with sp split_on_ne [of "CHR '';''" cats] show ?thesis
      by (auto simp: parse_group_def group_deadline_def group_limit_def rl_field_foldl
          rl_field_global names_category_def rl_name_Nil rl_name_None_iff Let_def
          split: option.splits)
  qed
qed

fun deadlines ::
  "rl_category \<Rightarrow> (nat \<Rightarrow> systime) \<Rightarrow> nat \<Rightarrow> string list \<Rightarrow> systime list" where
  "deadlines cat clock i [] = []"
| "deadlines cat clock i (grp # groups) =
     (case group_deadline cat (clock (2 * i)) (clock (2 * i + 1)) grp of
        None \<Rightarrow> deadlines cat clock (Suc i) groups
      | Some t \<Rightarrow> t # deadlines cat clock (Suc i) groups)"

lemma parse_groups_field:
  "rl_field cat (parse_groups clock i groups rl) =
     (case deadlines cat clock i groups of [] \<Rightarrow> rl_field cat rl | ts \<Rightarrow> Some (last ts))"
proof (induction groups arbitrary: i rl)
  case (Cons g groups)
  show ?case
    by (simp add: Cons.IH parse_group_field split: option.splits list.splits)
qed simp

section \<open>Properties\<close>

text \<open>
  After an \<open>X-Sentry-Rate-Limits\<close> header, the deadline of every category (and the global
  one, for groups without categories) is the one set by the last well-formed group of the
  header that names it, and is unchanged when no such group does; malformed groups and
  unknown categories have no effect.
\<close>

theorem sentry_header_last_group_wins:
  "rl_field cat (update_from_sentry_header clock header rl) =
     (case deadlines cat clock 0 (split_on (CHR '','') header) of
        [] \<Rightarrow> rl_field cat rl | ts \<Rightarrow> Some (last ts))"
  by (simp add: update_from_sentry_header_def parse_groups_field)

lemma is_enabled_eq:
  "is_enabled rl cat now now' \<longleftrightarrow>
     (case rl_global rl of None \<Rightarrow> True | Some t \<Rightarrow> t < now) \<and>
     (case rl_field cat rl of None \<Rightarrow> True | Some t \<Rightarrow> t < now')"
  by (auto simp: is_enabled_def is_disabled_def duration_since_def split: option.splits if_splits)

text \<open>
  A category may be sent exactly when both the global deadline, read against the first
  clock reading, and its own deadline, read against the second, have passed; while one of them
  has not, \<open>is_disabled\<close> reports the time left, the global one first.
\<close>

theorem is_disabled_spec:
  "(is_enabled rl cat now now' \<longleftrightarrow>
     (case rl_global rl of None \<Rightarrow> True | Some t \<Rightarrow> t < now) \<and>
     (case rl_field cat rl of None \<Rightarrow> True | Some t \<Rightarrow> t < now')) \<and>
   is_disabled rl cat now now' =
     (case rl_global rl of
        Some t \<Rightarrow> if now \<le> t then Some (t - now)
          else (case rl_field cat rl of None \<Rightarrow> None
            | Some u \<Rightarrow> if now' \<le> u then Some (u - now') else None)
      | None \<Rightarrow> (case rl_field cat rl of None \<Rightarrow> None
            | Some u \<Rightarrow> if now' \<le> u then Some (u - now') else None))"
  by (simp add: is_enabled_eq is_disabled_def duration_since_def split: option.split)

text \<open>
  A 429 answer disables every category for the next 60 seconds and then enables again every
  category without a deadline of its own, unless the clock is so close to the end of
  \<open>SystemTime\<close> that 60 seconds cannot be added.
\<close>

theorem status_429_backs_off:
  assumes "systime_checked_add now (from_secs 60) = Some deadline"
  shows "(t \<le> deadline \<longrightarrow>
      is_disabled (update_from_429 now rl) cat t t' = Some (deadline - t)) \<and>
    (deadline < t \<and> cat \<noteq> RlAny \<and> rl_field cat rl = None \<longrightarrow>
      is_enabled (update_from_429 now rl) cat t t')"
  using assms
  by (auto simp: is_disabled_def is_enabled_eq update_from_429_def time_after_default_delay_def
      duration_since_def rl_field_global)

text \<open>
  C8: Filtering an envelope of items through the rate limiter loses nothing silently: every item of the
  envelope is either in the envelope that is sent or is recorded as lost to
  \<open>ratelimit_backoff\<close>, exactly once, attachments of a dropped event included. (A raw envelope has no parsed items.)
\<close>

theorem rate_limit_accounts:
  assumes "rl_filter rl clock rec env = (rec', result)" and "env_items env = EnvelopeItems its"
  shows "\<exists>dropped.
     rec' = recorder_record_lost_data (concat (map envelope_item_losses dropped))
       TlrRatelimitBackoff rec \<and>
     mset (case result of None \<Rightarrow> [] | Some e \<Rightarrow> items_of e) + mset dropped = mset its"
proof -
  obtain s where run: "filter_envelope (rl_accept rl clock) rl_on_filtered (0, rec) env = (s, result)"
    and rec': "rec' = snd s"
    using assms(1) by (auto simp: rl_filter_def split: prod.splits)
  from rlf.filter_envelope_account [OF run assms(2)] show ?thesis
    by (simp add: foldl_rl_sink rec')
qed

text \<open>
  With a clock that stands still, the items sent are the ones whose category is enabled, in
  their order, without the attachments when no event or transaction is left; an envelope
  with nothing left is not sent at all.
\<close>

theorem rate_limit_sends_enabled:
  assumes "env_items env = EnvelopeItems its"
  shows "snd (rl_filter rl (\<lambda>_. now) rec env) =
     (let kept = filter (\<lambda>it. is_enabled rl (item_rl_category it) now now) its;
          sent = (if first_id kept = None then filter (\<lambda>it. \<not> is_attachment it) kept else kept)
      in if sent = [] then None else Some (add_items sent envelope_new))"
proof -
  let ?kept = "filter (\<lambda>it. is_enabled rl (item_rl_category it) now now) its"
  obtain k rec' where run: "filter_items (rl_accept rl (\<lambda>_. now)) rl_on_filtered (0, rec) its
      envelope_new = ((k, rec'), add_items ?kept envelope_new)"
    using filter_items_rl by blast
  show ?thesis
    using drop_attachments_kept [of rl_on_filtered "(k, rec')" ?kept]
    by (cases "drop_attachments rl_on_filtered (k, rec') ?kept")
      (simp add: rl_filter_def filter_envelope_run [OF assms run] Let_def)
qed

definition errors_blocked :: rate_limiter where
  "errors_blocked = rate_limiter_new\<lparr>rl_error := Some 10\<rparr>"

lemma rate_limit_sends_enabled_witness:
  "snd (rl_filter errors_blocked (\<lambda>_. 5) None sample_envelope) = None"
  using rate_limit_sends_enabled [OF sample_envelope_items, of errors_blocked 5 None]
  by (simp add: errors_blocked_def rate_limiter_new_def is_enabled_eq sample_attachment_def
      first_id_Cons)

lemma rate_limit_accounts_witness:
  "\<exists>dropped. mset dropped = mset [IEvent (event_default 9 0), sample_attachment] \<and>
     fst (rl_filter errors_blocked (\<lambda>_. 5) (Some aggregator_new) sample_envelope) =
     recorder_record_lost_data (concat (map envelope_item_losses dropped)) TlrRatelimitBackoff
       (Some aggregator_new)"
proof -
  have "snd (rl_filter errors_blocked (\<lambda>_. 5) (Some aggregator_new) sample_envelope) = None"
    by (simp add: rl_filter_def filter_envelope_def sample_envelope_items rl_accept_def
        errors_blocked_def rate_limiter_new_def is_enabled_eq sample_attachment_def
        envelope_uuid_def envelope_new_def headers_new_def add_item_def Let_def)
  then have "rl_filter errors_blocked (\<lambda>_. 5) (Some aggregator_new) sample_envelope =
      (fst (rl_filter errors_blocked (\<lambda>_. 5) (Some aggregator_new) sample_envelope), None)"
    by (metis prod.collapse)
  from rate_limit_accounts [OF this sample_envelope_items] show ?thesis by auto
qed

end
