(* ===== verification/TransportThread.thy ===== *)
theory TransportThread
  imports RateLimit
begin

text \<open>
  The background thread of the HTTP transports (\<open>sentry/src/transports/thread.rs\<close>): a bounded
  channel of tasks, a worker that takes them in order under the rate limits, the handle that
  submits, flushes and is dropped. Each definition is one atomic action of a caller or of the
  worker; \<open>None\<close> is an action that has to wait. Runs are arbitrary interleavings of them.
\<close>

section \<open>The state\<close>

text \<open>A flush task holds the sender of its own answer channel, here a number.\<close>

datatype task = SendEnvelope envelope | FlushTask nat | ShutdownTask

definition channel_capacity :: nat where
  "channel_capacity = 30"

text \<open>
  \<open>tt_alive\<close>: the worker still holds the receiver. \<open>tt_current\<close> is the task the worker took
  and has not handled yet; \<open>tt_checked\<close>: for this task it has already found the shutdown flag unset. \<open>tt_sent\<close> are the calls of the send function so far, \<open>tt_acks\<close> the flushes
  that were answered.
\<close>

record pipe =
  tt_queue :: "task list"
  tt_current :: "task option"
  tt_checked :: bool
  tt_shutdown :: bool
  tt_alive :: bool
  tt_rl :: rate_limiter
  tt_rec :: recorder
  tt_sent :: "envelope list"
  tt_acks :: "nat set"

text \<open>
  The send function is a \<open>FnMut\<close> of the transport: what it does may depend on all its earlier
  calls. It changes the limiter, and, through the recorder it captured, may record its envelope as lost
  for one reason.
\<close>

type_synonym send_fn =
  "envelope list \<Rightarrow> envelope \<Rightarrow> rate_limiter \<Rightarrow> rate_limiter \<times> transport_loss_reason option"

section \<open>The handle\<close>

text \<open>When the thread cannot be spawned, its receiver is gone at once.\<close>

definition transport_thread_new :: "bool \<Rightarrow> recorder \<Rightarrow> pipe" where
  "transport_thread_new spawned rec =
     \<lparr>tt_queue = [], tt_current = None, tt_checked = False, tt_shutdown = False, tt_alive = spawned,
      tt_rl = rate_limiter_new, tt_rec = rec, tt_sent = [], tt_acks = {}\<rparr>"

definition record_lost_envelope :: "envelope \<Rightarrow> transport_loss_reason \<Rightarrow> pipe \<Rightarrow> pipe" where
  "record_lost_envelope envelope rsn p =
     p\<lparr>tt_rec := recorder_record_lost_data (envelope_losses envelope) rsn (tt_rec p)\<rparr>"

text \<open>\<open>try_send\<close>: a dropped envelope is recorded with the error's reason.\<close>

definition thread_send :: "envelope \<Rightarrow> pipe \<Rightarrow> pipe" where
  "thread_send envelope p =
     (if \<not> tt_alive p then record_lost_envelope envelope TlrInternalError p
      else if length (tt_queue p) \<ge> channel_capacity then record_lost_envelope envelope TlrQueueOverflow p
      else p\<lparr>tt_queue := tt_queue p @ [SendEnvelope envelope]\<rparr>)"

text \<open>The blocking \<open>send\<close>, whose error is ignored.\<close>

definition blocking_send :: "task \<Rightarrow> pipe \<Rightarrow> pipe option" where
  "blocking_send task p =
     (if \<not> tt_alive p then Some p
      else if length (tt_queue p) \<ge> channel_capacity then None
      else Some (p\<lparr>tt_queue := tt_queue p @ [task]\<rparr>))"

definition thread_flush :: "nat \<Rightarrow> pipe \<Rightarrow> pipe option" where
  "thread_flush answer p = blocking_send (FlushTask answer) p"

text \<open>Dropping the handle: the flag, then the task; joining waits for \<open>\<not> tt_alive\<close>.\<close>

definition drop_store_flag :: "pipe \<Rightarrow> pipe" where
  "drop_store_flag p = p\<lparr>tt_shutdown := True\<rparr>"

definition drop_send_task :: "pipe \<Rightarrow> pipe option" where
  "drop_send_task p = (if tt_shutdown p then blocking_send ShutdownTask p else None)"

section \<open>The worker\<close>

text \<open>Returning drops the receiver with what is still queued.\<close>

definition worker_exit :: "pipe \<Rightarrow> pipe" where
  "worker_exit p = p\<lparr>tt_alive := False, tt_queue := [], tt_current := None, tt_checked := False\<rparr>"

definition worker_recv :: "pipe \<Rightarrow> pipe option" where
  "worker_recv p =
     (if tt_alive p \<and> tt_current p = None then
        (case tt_queue p of [] \<Rightarrow> None
         | task # rest \<Rightarrow> Some (p\<lparr>tt_current := Some task, tt_queue := rest\<rparr>))
      else None)"

definition worker_send :: "send_fn \<Rightarrow> (nat \<Rightarrow> systime) \<Rightarrow> envelope \<Rightarrow> pipe \<Rightarrow> pipe" where
  "worker_send send clock envelope p =
     (case is_disabled (tt_rl p) RlAny (clock 0) (clock 1) of
        Some time_left \<Rightarrow> record_lost_envelope envelope TlrRatelimitBackoff p
      | None \<Rightarrow>
          (case rl_filter (tt_rl p) (\<lambda>i. clock (i + 2)) (tt_rec p) envelope of
             (rec, None) \<Rightarrow> p\<lparr>tt_rec := rec\<rparr>
           | (rec, Some envelope') \<Rightarrow>
               (case send (tt_sent p) envelope' (tt_rl p) of
                  (rl, loss) \<Rightarrow>
                    (let p' = p\<lparr>tt_rec := rec, tt_rl := rl, tt_sent := tt_sent p @ [envelope']\<rparr> in
                     case loss of None \<Rightarrow> p' | Some rsn \<Rightarrow> record_lost_envelope envelope' rsn p'))))"

text \<open>
  The loop body, once a task was taken: the flag is loaded, and the task handled if it was unset. Callers act
  in between; a flag that is stored after the load does not stop the task.
\<close>

definition worker_load :: "pipe \<Rightarrow> pipe option" where
  "worker_load p =
     (if tt_current p \<noteq> None \<and> \<not> tt_checked p
      then Some (if tt_shutdown p then worker_exit p else p\<lparr>tt_checked := True\<rparr>)
      else None)"

definition worker_handle :: "send_fn \<Rightarrow> (nat \<Rightarrow> systime) \<Rightarrow> pipe \<Rightarrow> pipe option" where
  "worker_handle send clock p =
     (if tt_checked p then
        (case tt_current p of
           None \<Rightarrow> None
         | Some task \<Rightarrow>
             (let p' = p\<lparr>tt_current := None, tt_checked := False\<rparr> in
              Some (case task of
                      SendEnvelope envelope \<Rightarrow> worker_send send clock envelope p'
                    | FlushTask answer \<Rightarrow> p'\<lparr>tt_acks := insert answer (tt_acks p)\<rparr>
                    | ShutdownTask \<Rightarrow> worker_exit p')))
      else None)"

section \<open>Runs\<close>

datatype pipe_op =
    Submit envelope
  | Flush nat
  | StoreFlag
  | SendShutdown
  | Recv
  | Load
  | Handle "nat \<Rightarrow> systime"

fun pipe_do :: "send_fn \<Rightarrow> pipe_op \<Rightarrow> pipe \<Rightarrow> pipe option" where
  "pipe_do send (Submit envelope) p = Some (thread_send envelope p)"
| "pipe_do send (Flush answer) p = thread_flush answer p"
| "pipe_do send StoreFlag p = Some (drop_store_flag p)"
| "pipe_do send SendShutdown p = drop_send_task p"
| "pipe_do send Recv p = worker_recv p"
| "pipe_do send Load p = worker_load p"
| "pipe_do send (Handle clock) p = worker_handle send clock p"

fun is_worker :: "pipe_op \<Rightarrow> bool" where
  "is_worker Recv = True"
| "is_worker Load = True"
| "is_worker (Handle _) = True"
| "is_worker _ = False"

inductive pipe_steps :: "send_fn \<Rightarrow> pipe \<Rightarrow> pipe_op list \<Rightarrow> pipe \<Rightarrow> bool"
  for send p where
  nil: "pipe_steps send p [] p"
| snoc: "pipe_steps send p ops q \<Longrightarrow> pipe_do send op q = Some r \<Longrightarrow> pipe_steps send p (ops @ [op]) r"

inductive_cases pipe_steps_nilE: "pipe_steps send p [] q"
inductive_cases pipe_steps_snocE: "pipe_steps send p (ops @ [op]) r"

section \<open>Accounting\<close>

text \<open>What the thread, or its send function, records: items dropped, or an envelope sent in vain.\<close>

datatype fate = Dropped "envelope_item list" transport_loss_reason
  | Rejected envelope transport_loss_reason

fun record_fate :: "recorder \<Rightarrow> fate \<Rightarrow> recorder" where
  "record_fate rec (Dropped its rsn) =
     recorder_record_lost_data (concat (map envelope_item_losses its)) rsn rec"
| "record_fate rec (Rejected env rsn) = recorder_record_lost_data (envelope_losses env) rsn rec"

fun dropped_items :: "fate \<Rightarrow> envelope_item multiset" where
  "dropped_items (Dropped its rsn) = mset its"
| "dropped_items (Rejected env rsn) = {#}"

fun rejected_of :: "fate \<Rightarrow> envelope option" where
  "rejected_of (Dropped its rsn) = None"
| "rejected_of (Rejected env rsn) = Some env"

fun task_items :: "task \<Rightarrow> envelope_item multiset" where
  "task_items (SendEnvelope env) = mset (items_of env)"
| "task_items (FlushTask answer) = {#}"
| "task_items ShutdownTask = {#}"

definition pending_items :: "pipe \<Rightarrow> envelope_item multiset" where
  "pending_items p = sum_list (map task_items (tt_queue p)) +
     (case tt_current p of None \<Rightarrow> {#} | Some task \<Rightarrow> task_items task)"

definition sent_items :: "envelope list \<Rightarrow> envelope_item multiset" where
  "sent_items es = sum_list (map (\<lambda>e. mset (items_of e)) es)"

fun submitted :: "pipe_op \<Rightarrow> envelope_item multiset" where
  "submitted (Submit env) = mset (items_of env)"
| "submitted _ = {#}"

lemma sent_items_append [simp]: "sent_items (es @ fs) = sent_items es + sent_items fs"
  by (simp add: sent_items_def)

lemma sent_items_simps [simp]: "sent_items [] = {#}" "sent_items [e] = mset (items_of e)"
  by (simp_all add: sent_items_def)

lemma rl_filter_items:
  assumes "rl_filter rl clock rec env = (rec', result)"
  shows "\<exists>dropped. rec' = record_fate rec (Dropped dropped TlrRatelimitBackoff) \<and>
     mset (case result of None \<Rightarrow> [] | Some e \<Rightarrow> items_of e) + mset dropped = mset (items_of env)"
proof (cases "env_items env")
  case (EnvelopeItems its)
  obtain s where run: "filter_envelope (rl_accept rl clock) rl_on_filtered (0, rec) env = (s, result)"
    and rec': "rec' = snd s"
    using assms by (auto simp: rl_filter_def split: prod.splits)
  from rlf.filter_envelope_account [OF run EnvelopeItems] show ?thesis
    by (simp add: foldl_rl_sink rec' items_of_def EnvelopeItems)
next
  case (RawBytes bytes)
  then have "rec' = record_fate rec (Dropped [] TlrRatelimitBackoff) \<and>
      mset (case result of None \<Rightarrow> [] | Some e \<Rightarrow> items_of e) = {#}"
    using assms foldl_rl_sink [of rec "[]"]
    by (auto simp: rl_filter_def filter_envelope_def rl_accept_def rl_on_filtered_def items_of_def
        split: if_splits bool.splits)
  moreover have "items_of env = []" by (simp add: items_of_def RawBytes)
  ultimately show ?thesis by (intro exI [of _ "[]"]) simp
qed

text \<open>What handling an envelope does: some items are sent, the others recorded as dropped.\<close>

lemma worker_send_fate:
  "\<exists>fates es. tt_rec (worker_send send clock env p) = foldl record_fate (tt_rec p) fates \<and>
     tt_sent (worker_send send clock env p) = tt_sent p @ es \<and>
     mset (items_of env) = sent_items es + sum_list (map dropped_items fates) \<and>
     set (List.map_filter rejected_of fates) \<subseteq> set es"
proof (cases "is_disabled (tt_rl p) RlAny (clock 0) (clock 1)")
  case (Some left)
  then show ?thesis
    by (intro exI [of _ "[Dropped (items_of env) TlrRatelimitBackoff]"] exI [of _ "[]"])
      (simp add: worker_send_def record_lost_envelope_def envelope_losses_def List.map_filter_simps)
next
  case None
  obtain rec result where filt: "rl_filter (tt_rl p) (\<lambda>i. clock (i + 2)) (tt_rec p) env = (rec, result)"
    by fastforce
  from rl_filter_items [OF this] obtain dropped where
    rec: "rec = record_fate (tt_rec p) (Dropped dropped TlrRatelimitBackoff)" and
    ms: "mset (case result of None \<Rightarrow> [] | Some e \<Rightarrow> items_of e) + mset dropped = mset (items_of env)"
    by blast
  show ?thesis
  proof (cases result)
    case None
    with \<open>is_disabled _ _ _ _ = None\<close> filt rec ms show ?thesis
      by (intro exI [of _ "[Dropped dropped TlrRatelimitBackoff]"] exI [of _ "[]"])
        (simp add: worker_send_def List.map_filter_simps)
  next
    case (Some e)
    obtain rl loss where send: "send (tt_sent p) e (tt_rl p) = (rl, loss)" by fastforce
    let ?fates = "Dropped dropped TlrRatelimitBackoff #
      (case loss of None \<Rightarrow> [] | Some rsn \<Rightarrow> [Rejected e rsn])"
    from \<open>is_disabled _ _ _ _ = None\<close> filt rec ms Some send show ?thesis
      by (intro exI [of _ ?fates] exI [of _ "[e]"])
        (simp add: worker_send_def record_lost_envelope_def List.map_filter_simps Let_def
          split: option.split)
  qed
qed

lemma worker_send_rest [simp]:
  "tt_queue (worker_send send clock env p) = tt_queue p"
  "tt_current (worker_send send clock env p) = tt_current p"
  "tt_checked (worker_send send clock env p) = tt_checked p"
  "tt_shutdown (worker_send send clock env p) = tt_shutdown p"
  "tt_alive (worker_send send clock env p) = tt_alive p"
  "tt_acks (worker_send send clock env p) = tt_acks p"
  by (simp_all add: worker_send_def record_lost_envelope_def Let_def split: option.split prod.split)

definition pipe_accounts :: "recorder \<Rightarrow> envelope_item multiset \<Rightarrow> pipe \<Rightarrow> bool" where
  "pipe_accounts rec0 given p \<longleftrightarrow> (\<exists>fates abandoned.
     tt_rec p = foldl record_fate rec0 fates \<and>
     given = pending_items p + sent_items (tt_sent p) + sum_list (map dropped_items fates) + abandoned \<and>
     set (List.map_filter rejected_of fates) \<subseteq> set (tt_sent p) \<and>
     (abandoned \<noteq> {#} \<longrightarrow> tt_shutdown p))"

text \<open>One action: what it records, sends and abandons accounts for what it takes out.\<close>

lemma pipe_accounts_step:
  assumes "pipe_accounts rec0 given p"
    and "tt_rec q = foldl record_fate (tt_rec p) fates" and "tt_sent q = tt_sent p @ es"
    and "extra + pending_items p = pending_items q + sent_items es + sum_list (map dropped_items fates) + abandoned"
    and "set (List.map_filter rejected_of fates) \<subseteq> set es"
    and "abandoned \<noteq> {#} \<Longrightarrow> tt_shutdown q" and "tt_shutdown p \<Longrightarrow> tt_shutdown q"
  shows "pipe_accounts rec0 (given + extra) q"
proof -
  from assms(1) obtain fates0 abandoned0 where p: "tt_rec p = foldl record_fate rec0 fates0"
    "given = pending_items p + sent_items (tt_sent p) + sum_list (map dropped_items fates0) + abandoned0"
    "set (List.map_filter rejected_of fates0) \<subseteq> set (tt_sent p)" "abandoned0 \<noteq> {#} \<longrightarrow> tt_shutdown p"
    unfolding pipe_accounts_def by blast
  have "given + extra = (extra + pending_items p) + sent_items (tt_sent p)
      + sum_list (map dropped_items fates0) + abandoned0"
    by (simp add: p(2))
  also have "\<dots> = pending_items q + sent_items (tt_sent q) + sum_list (map dropped_items (fates0 @ fates))
      + (abandoned0 + abandoned)"
    unfolding assms(4) by (simp add: assms(3))
  finally show ?thesis
    unfolding pipe_accounts_def using p(1,3,4) assms(2,3,5-7)
    by (intro exI [of _ "fates0 @ fates"] exI [of _ "abandoned0 + abandoned"]) (auto simp: map_filter_append)
qed

definition pipe_inv :: "pipe \<Rightarrow> bool" where
  "pipe_inv p \<longleftrightarrow> length (tt_queue p) \<le> channel_capacity \<and>
     (\<not> tt_shutdown p \<longrightarrow> ShutdownTask \<notin> set (tt_queue p) \<and> tt_current p \<noteq> Some ShutdownTask) \<and>
     (\<not> tt_alive p \<longrightarrow> tt_queue p = [] \<and> tt_current p = None) \<and>
     (tt_checked p \<longrightarrow> tt_current p \<noteq> None)"

lemma pipe_inv_new [simp]: "pipe_inv (transport_thread_new spawned rec)"
  by (simp add: pipe_inv_def transport_thread_new_def)

lemmas pipe_ops = thread_send_def record_lost_envelope_def thread_flush_def blocking_send_def
  drop_store_flag_def drop_send_task_def worker_recv_def worker_exit_def

lemma worker_handle_SomeE:
  assumes "worker_handle send clock p = Some q"
  obtains task where "tt_current p = Some task" "tt_checked p"
    and "q = (case task of
          SendEnvelope env \<Rightarrow> worker_send send clock env (p\<lparr>tt_current := None, tt_checked := False\<rparr>)
        | FlushTask answer \<Rightarrow> p\<lparr>tt_current := None, tt_checked := False, tt_acks := insert answer (tt_acks p)\<rparr>
        | ShutdownTask \<Rightarrow> worker_exit p)"
  using assms by (auto simp: worker_handle_def worker_exit_def Let_def split: if_splits option.splits task.splits)

lemma worker_load_SomeE:
  assumes "worker_load p = Some q"
  obtains task where "tt_current p = Some task" "\<not> tt_checked p"
    and "q = (if tt_shutdown p then worker_exit p else p\<lparr>tt_checked := True\<rparr>)"
  using assms by (auto simp: worker_load_def split: if_splits)

lemma worker_recv_SomeE:
  assumes "worker_recv p = Some q"
  obtains task rest where "tt_alive p" "tt_current p = None" "tt_queue p = task # rest"
    "q = p\<lparr>tt_current := Some task, tt_queue := rest\<rparr>"
  using assms by (auto simp: worker_recv_def split: if_splits list.splits)

lemma blocking_send_SomeE:
  assumes "blocking_send task p = Some q"
  obtains "\<not> tt_alive p" "q = p"
  | "tt_alive p" "length (tt_queue p) < channel_capacity" "q = p\<lparr>tt_queue := tt_queue p @ [task]\<rparr>"
  using assms by (auto simp: blocking_send_def split: if_splits)

lemma thread_send_cases:
  obtains rsn where "thread_send env p = record_lost_envelope env rsn p"
  | "tt_alive p" "length (tt_queue p) < channel_capacity"
    "thread_send env p = p\<lparr>tt_queue := tt_queue p @ [SendEnvelope env]\<rparr>"
proof (cases "tt_alive p \<and> length (tt_queue p) < channel_capacity")
  case True
  with that(2) show thesis by (simp add: thread_send_def)
next
  case False
  then have "thread_send env p =
      record_lost_envelope env (if tt_alive p then TlrQueueOverflow else TlrInternalError) p"
    by (auto simp: thread_send_def)
  then show thesis by (rule that(1))
qed

lemma pipe_inv_step:
  assumes "pipe_do send op p = Some q" and "pipe_inv p"
  shows "pipe_inv q" and "tt_shutdown p \<Longrightarrow> tt_shutdown q"
proof -
  have "pipe_inv q \<and> (tt_shutdown p \<longrightarrow> tt_shutdown q)"
  proof (cases op)
    case (Submit env)
    then have "q = thread_send env p" using assms(1) by simp
    then show ?thesis
      by (cases rule: thread_send_cases [of env p])
        (use assms(2) in \<open>auto simp: pipe_inv_def record_lost_envelope_def\<close>)
  next
    case (Flush answer)
    with assms(1) have "blocking_send (FlushTask answer) p = Some q" by (simp add: thread_flush_def)
    then show ?thesis by (rule blocking_send_SomeE) (use assms(2) in \<open>auto simp: pipe_inv_def\<close>)
  next
    case StoreFlag
    then show ?thesis using assms by (auto simp: pipe_inv_def drop_store_flag_def)
  next
    case SendShutdown
    with assms(1) have "blocking_send ShutdownTask p = Some q" "tt_shutdown p"
      by (auto simp: drop_send_task_def split: if_splits)
    then show ?thesis by (elim blocking_send_SomeE) (use assms(2) in \<open>auto simp: pipe_inv_def\<close>)
  next
    case Recv
    with assms(1) have "worker_recv p = Some q" by simp
    then show ?thesis by (rule worker_recv_SomeE) (use assms(2) in \<open>auto simp: pipe_inv_def\<close>)
  next
    case Load
    with assms(1) have "worker_load p = Some q" by simp
    then show ?thesis
      by (rule worker_load_SomeE) (use assms(2) in \<open>auto simp: pipe_inv_def worker_exit_def\<close>)
  next
    case (Handle clock)
    with assms(1) have "worker_handle send clock p = Some q" by simp
    then show ?thesis
      by (rule worker_handle_SomeE)
        (use assms(2) in \<open>auto simp: pipe_inv_def worker_exit_def split: task.splits\<close>)
  qed
  then show "pipe_inv q" "tt_shutdown p \<Longrightarrow> tt_shutdown q" by blast+
qed

lemma pending_items_simps [simp]:
  "pending_items (p\<lparr>tt_queue := ts, tt_current := c\<rparr>) =
     sum_list (map task_items ts) + (case c of None \<Rightarrow> {#} | Some task \<Rightarrow> task_items task)"
  by (simp add: pending_items_def)

lemma exit_accounts:
  assumes "pipe_accounts rec0 given p" and "tt_shutdown p"
  shows "pipe_accounts rec0 given (worker_exit p)"
proof -
  have "pipe_accounts rec0 (given + {#}) (worker_exit p)"
    using assms(2)
    by (intro pipe_accounts_step [OF assms(1), where fates = "[]" and es = "[]" and abandoned = "pending_items p"])
      (simp_all add: worker_exit_def pending_items_def List.map_filter_simps)
  then show ?thesis by simp
qed

lemma handle_accounts:
  assumes "worker_handle send clock p = Some q" and "pipe_inv p" and "pipe_accounts rec0 given p"
  shows "pipe_accounts rec0 given q"
proof -
  let ?p = "p\<lparr>tt_current := None, tt_checked := False\<rparr>"
  from assms(1) obtain task where cur: "tt_current p = Some task"
    and q: "q = (case task of SendEnvelope env \<Rightarrow> worker_send send clock env ?p
        | FlushTask answer \<Rightarrow> p\<lparr>tt_current := None, tt_checked := False, tt_acks := insert answer (tt_acks p)\<rparr>
        | ShutdownTask \<Rightarrow> worker_exit p)"
    by (rule worker_handle_SomeE)
  show ?thesis
  proof (cases task)
    case ShutdownTask
    then show ?thesis using assms(2,3) cur q exit_accounts by (auto simp: pipe_inv_def)
  next
    case (SendEnvelope env)
    obtain fates es where "tt_rec (worker_send send clock env ?p) = foldl record_fate (tt_rec ?p) fates"
      "tt_sent (worker_send send clock env ?p) = tt_sent ?p @ es"
      "mset (items_of env) = sent_items es + sum_list (map dropped_items fates)"
      "set (List.map_filter rejected_of fates) \<subseteq> set es"
      using worker_send_fate by metis
    then have "pipe_accounts rec0 (given + {#}) q" using SendEnvelope cur q
      by (intro pipe_accounts_step [OF assms(3), where fates = fates and es = es and abandoned = "{#}"])
        (simp_all add: pending_items_def)
    then show ?thesis by simp
  next
    case (FlushTask answer)
    then have "pipe_accounts rec0 (given + {#}) q" using cur q
      by (intro pipe_accounts_step [OF assms(3), where fates = "[]" and es = "[]" and abandoned = "{#}"])
        (simp_all add: pending_items_def List.map_filter_simps)
    then show ?thesis by simp
  qed
qed

lemma load_accounts:
  assumes "worker_load p = Some q" and "pipe_accounts rec0 given p"
  shows "pipe_accounts rec0 given q"
  using assms(1)
proof (rule worker_load_SomeE)
  assume "q = (if tt_shutdown p then worker_exit p else p\<lparr>tt_checked := True\<rparr>)"
  moreover have "pipe_accounts rec0 given (p\<lparr>tt_checked := True\<rparr>)"
    using assms(2) by (simp add: pipe_accounts_def pending_items_def)
  ultimately show ?thesis using exit_accounts [OF assms(2)] by simp
qed

lemma pipe_accounts_do:
  assumes "pipe_do send op p = Some q" and "pipe_inv p" and "pipe_accounts rec0 given p"
  shows "pipe_accounts rec0 (given + submitted op) q"
proof -
  note keep = pipe_accounts_step [OF assms(3), where fates = "[]" and es = "[]" and abandoned = "{#}"]
  note lost_step = pipe_accounts_step [OF assms(3), where es = "[]" and abandoned = "{#}"]
  show ?thesis
  proof (cases op)
    case (Submit env)
    then have q: "q = thread_send env p" using assms(1) by simp
    show ?thesis
    proof (cases rule: thread_send_cases [of env p, case_names lost queued])
      case (lost rsn)
      with q show ?thesis
        by (intro lost_step [where fates = "[Dropped (items_of env) rsn]"])
          (simp_all add: Submit record_lost_envelope_def envelope_losses_def pending_items_def
            List.map_filter_simps)
    next
      case queued
      with q show ?thesis by (intro keep) (simp_all add: Submit pending_items_def List.map_filter_simps)
    qed
  next
    case (Flush answer)
    with assms(1) have "blocking_send (FlushTask answer) p = Some q" by (simp add: thread_flush_def)
    then show ?thesis
      by (elim blocking_send_SomeE)
        (intro keep; simp add: Flush pending_items_def List.map_filter_simps)+
  next
    case StoreFlag
    then have "q = drop_store_flag p" using assms(1) by simp
    then show ?thesis
      by (intro keep) (simp_all add: StoreFlag drop_store_flag_def pending_items_def List.map_filter_simps)
  next
    case SendShutdown
    with assms(1) have "blocking_send ShutdownTask p = Some q" by (auto simp: drop_send_task_def split: if_splits)
    then show ?thesis
      by (elim blocking_send_SomeE)
        (intro keep; simp add: SendShutdown pending_items_def List.map_filter_simps)+
  next
    case Recv
    with assms(1) have "worker_recv p = Some q" by simp
    then show ?thesis
      by (elim worker_recv_SomeE)
        (intro keep; simp add: Recv pending_items_def List.map_filter_simps ac_simps)
  next
    case Load
    then show ?thesis using assms load_accounts by simp
  next
    case (Handle clock)
    then show ?thesis using assms handle_accounts by simp
  qed
qed

lemma pipe_steps_inv:
  "pipe_steps send p ops q \<Longrightarrow> pipe_inv p \<Longrightarrow> pipe_accounts rec0 given p \<Longrightarrow>
   pipe_inv q \<and> pipe_accounts rec0 (given + sum_list (map submitted ops)) q"
  by (induction rule: pipe_steps.induct)
    (auto simp: add.assoc [symmetric] dest: pipe_inv_step(1) pipe_accounts_do)

section \<open>Flushing and dropping\<close>

text \<open>No envelope of a set \<open>old\<close> is queued, or in the worker's hand.\<close>

definition none_queued :: "(envelope \<Rightarrow> bool) \<Rightarrow> task list \<Rightarrow> bool" where
  "none_queued old ts \<longleftrightarrow> (\<forall>task \<in> set ts. case task of SendEnvelope env \<Rightarrow> \<not> old env | _ \<Rightarrow> True)"

definition handled :: "(envelope \<Rightarrow> bool) \<Rightarrow> pipe \<Rightarrow> bool" where
  "handled old p \<longleftrightarrow> none_queued old (tt_queue p) \<and>
     none_queued old (case tt_current p of None \<Rightarrow> [] | Some task \<Rightarrow> [task])"

lemma none_queued_simps [simp]:
  "none_queued old []" "none_queued old (FlushTask answer # ts) = none_queued old ts"
  "none_queued old (ShutdownTask # ts) = none_queued old ts"
  "none_queued old (SendEnvelope env # ts) \<longleftrightarrow> \<not> old env \<and> none_queued old ts"
  "none_queued old (ts @ us) \<longleftrightarrow> none_queued old ts \<and> none_queued old us"
  by (auto simp: none_queued_def)

lemma none_queued_Cons: "none_queued old (t # ts) \<longleftrightarrow> none_queued old [t] \<and> none_queued old ts"
  using none_queued_simps(5) [of old "[t]" ts] by simp

text \<open>The worker actions that the task in its hand takes.\<close>

definition in_hand :: "pipe \<Rightarrow> nat" where
  "in_hand p = (if tt_current p = None then 0 else if tt_checked p then 1 else 2)"

lemma in_hand_simps [simp]:
  "in_hand (p\<lparr>tt_queue := ts\<rparr>) = in_hand p" "in_hand (p\<lparr>tt_rec := r\<rparr>) = in_hand p"
  "tt_current p = None \<Longrightarrow> in_hand p = 0"
  "tt_current p = Some t \<Longrightarrow> tt_checked p \<Longrightarrow> in_hand p = 1"
  "tt_current p = Some t \<Longrightarrow> \<not> tt_checked p \<Longrightarrow> in_hand p = 2"
  by (simp_all add: in_hand_def)

lemma in_hand_le: "in_hand p \<le> 2"
  by (simp add: in_hand_def)

text \<open>At most \<open>k\<close> more worker actions until the flush is answered, with all of \<open>old\<close> before it.\<close>

definition flush_within :: "nat \<Rightarrow> (envelope \<Rightarrow> bool) \<Rightarrow> nat \<Rightarrow> pipe \<Rightarrow> bool" where
  "flush_within answer old k p \<longleftrightarrow> (answer \<in> tt_acks p \<and> handled old p) \<or>
     (in_hand p \<le> k \<and> tt_current p = Some (FlushTask answer) \<and> none_queued old (tt_queue p)) \<or>
     (\<exists>pre post. tt_queue p = pre @ FlushTask answer # post \<and> none_queued old post \<and>
        3 * length pre + 3 + in_hand p \<le> k)"

lemma flush_within_cases:
  assumes "flush_within answer old k p"
  obtains (acked) "answer \<in> tt_acks p" "handled old p"
  | (taken) "in_hand p \<le> k" "tt_current p = Some (FlushTask answer)" "none_queued old (tt_queue p)"
  | (queued) pre post where "tt_queue p = pre @ FlushTask answer # post" "none_queued old post"
      "3 * length pre + 3 + in_hand p \<le> k"
  using assms unfolding flush_within_def by blast

lemma flush_within_queuedI:
  assumes "tt_queue p = pre @ FlushTask answer # post" and "none_queued old post"
    and "3 * length pre + 3 + in_hand p \<le> k"
  shows "flush_within answer old k p"
  using assms unfolding flush_within_def by blast

lemma flush_within_enqueue:
  assumes "flush_within answer old k p" and "none_queued old [task]"
  shows "flush_within answer old k (p\<lparr>tt_queue := tt_queue p @ [task]\<rparr>)"
  using assms(1)
proof (cases rule: flush_within_cases)
  case (queued pre post)
  then show ?thesis using assms(2)
    by (intro flush_within_queuedI [of _ pre _ "post @ [task]"]) simp_all
qed (use assms(2) in \<open>auto simp: flush_within_def handled_def\<close>)

lemma flush_within_recv:
  assumes "worker_recv p = Some q" and "pipe_inv p" and "flush_within answer old k p"
  shows "flush_within answer old (k - 1) q"
proof -
  from assms(1) obtain task rest where p: "tt_current p = None" "tt_queue p = task # rest"
    "q = p\<lparr>tt_current := Some task, tt_queue := rest\<rparr>" by (rule worker_recv_SomeE)
  have "\<not> tt_checked q" using assms(2) p by (auto simp: pipe_inv_def)
  from assms(3) show ?thesis
  proof (cases rule: flush_within_cases)
    case (queued pre post)
    show ?thesis
    proof (cases pre)
      case Nil
      with queued p \<open>\<not> tt_checked q\<close> show ?thesis by (auto simp: flush_within_def)
    next
      case (Cons first pre')
      with queued p \<open>\<not> tt_checked q\<close> show ?thesis by (intro flush_within_queuedI [of _ pre' _ post]) simp_all
    qed
  qed (use p none_queued_Cons [of old task rest] in \<open>auto simp: flush_within_def handled_def\<close>)
qed

lemma flush_within_load:
  assumes "worker_load p = Some q" and "\<not> tt_shutdown p" and "flush_within answer old k p"
  shows "flush_within answer old (k - 1) q"
proof -
  from assms(1) obtain task where p: "tt_current p = Some task" "\<not> tt_checked p" "q = p\<lparr>tt_checked := True\<rparr>"
    by (rule worker_load_SomeE) (use assms(2) in auto)
  from assms(3) show ?thesis
  proof (cases rule: flush_within_cases)
    case (queued pre post)
    then show ?thesis using p by (intro flush_within_queuedI [of _ pre _ post]) simp_all
  qed (use p in \<open>auto simp: flush_within_def handled_def\<close>)
qed

lemma worker_handle_open:
  assumes "worker_handle send clock p = Some q" and "pipe_inv p" and "\<not> tt_shutdown p"
  obtains task where "tt_current p = Some task" "tt_checked p" "tt_current q = None" "tt_queue q = tt_queue p"
    "tt_alive q = tt_alive p" "\<not> tt_shutdown q"
    "tt_acks q = tt_acks p \<union> (case task of FlushTask answer \<Rightarrow> {answer} | _ \<Rightarrow> {})"
proof -
  let ?p = "p\<lparr>tt_current := None, tt_checked := False\<rparr>"
  from assms(1) obtain task where cur: "tt_current p = Some task" "tt_checked p"
    and q: "q = (case task of SendEnvelope env \<Rightarrow> worker_send send clock env ?p
        | FlushTask answer \<Rightarrow> p\<lparr>tt_current := None, tt_checked := False, tt_acks := insert answer (tt_acks p)\<rparr>
        | ShutdownTask \<Rightarrow> worker_exit p)"
    by (rule worker_handle_SomeE)
  have "task \<noteq> ShutdownTask" using assms(2,3) cur by (auto simp: pipe_inv_def)
  then show thesis using that [of task] cur q assms(3) by (cases task) simp_all
qed

lemma flush_within_handle:
  assumes "worker_handle send clock p = Some q" and "pipe_inv p" and "\<not> tt_shutdown p"
    and "flush_within answer old k p"
  shows "flush_within answer old (k - 1) q"
proof -
  from assms(1-3) obtain task where task: "tt_current p = Some task" "tt_checked p" "tt_current q = None"
    "tt_queue q = tt_queue p"
    "tt_acks q = tt_acks p \<union> (case task of FlushTask answer \<Rightarrow> {answer} | _ \<Rightarrow> {})"
    by (rule worker_handle_open)
  from assms(4) show ?thesis
  proof (cases rule: flush_within_cases)
    case (queued pre post)
    then show ?thesis using task by (intro flush_within_queuedI [of _ pre _ post]) simp_all
  qed (use task in \<open>auto simp: flush_within_def handled_def\<close>)
qed

lemma flush_within_step:
  assumes "pipe_do send op p = Some q" and "pipe_inv p" and "\<not> tt_shutdown p"
    and "op \<noteq> StoreFlag" and "\<And>env. op = Submit env \<Longrightarrow> \<not> old env" and "flush_within answer old k p"
  shows "flush_within answer old (if is_worker op then k - 1 else k) q" and "\<not> tt_shutdown q"
proof -
  have "flush_within answer old (if is_worker op then k - 1 else k) q \<and> \<not> tt_shutdown q"
  proof (cases op)
    case (Submit other)
    then have q: "q = thread_send other p" using assms(1) by simp
    show ?thesis
    proof (cases rule: thread_send_cases [of other p, case_names lost queued])
      case (lost rsn)
      with q assms(3,6) Submit show ?thesis
        by (simp add: record_lost_envelope_def flush_within_def handled_def)
    next
      case queued
      with q assms(3,5,6) Submit flush_within_enqueue show ?thesis by auto
    qed
  next
    case (Flush other)
    with assms(1) have "blocking_send (FlushTask other) p = Some q" by (simp add: thread_flush_def)
    then show ?thesis
      by (rule blocking_send_SomeE) (use assms(3,6) Flush flush_within_enqueue in auto)
  next
    case Recv
    with assms(1) have "worker_recv p = Some q" by simp
    with flush_within_recv [OF this assms(2,6)] assms(3) Recv show ?thesis
      by (auto elim: worker_recv_SomeE)
  next
    case Load
    with assms(1) have "worker_load p = Some q" by simp
    with flush_within_load [OF this assms(3,6)] assms(3) Load show ?thesis
      by (auto elim: worker_load_SomeE)
  next
    case (Handle clock)
    with assms(1) have "worker_handle send clock p = Some q" by simp
    with flush_within_handle [OF this assms(2,3,6)] assms(2,3) Handle show ?thesis
      by (auto elim: worker_handle_open)
  qed (use assms(1,3,4) in \<open>auto simp: drop_send_task_def\<close>)
  then show "flush_within answer old (if is_worker op then k - 1 else k) q" "\<not> tt_shutdown q" by auto
qed

lemma flush_within_steps:
  assumes "pipe_steps send p ops q" and "pipe_inv p" and "\<not> tt_shutdown p"
    and "StoreFlag \<notin> set ops" and "\<And>env. Submit env \<in> set ops \<Longrightarrow> \<not> old env" and "flush_within answer old k p"
  shows "flush_within answer old (k - length (filter is_worker ops)) q \<and> pipe_inv q \<and> \<not> tt_shutdown q"
  using assms
proof (induction rule: pipe_steps.induct)
  case (snoc ops q op r)
  then have IH: "flush_within answer old (k - length (filter is_worker ops)) q" "pipe_inv q" "\<not> tt_shutdown q"
    by simp_all
  have "op \<noteq> StoreFlag" "\<And>env. op = Submit env \<Longrightarrow> \<not> old env" using snoc.prems by auto
  from flush_within_step [OF snoc.hyps(2) IH(2,3) this IH(1)] pipe_inv_step(1) [OF snoc.hyps(2) IH(2)]
  show ?case by (cases "is_worker op") simp_all
qed simp

text \<open>A worker with something to do can always go on.\<close>

lemma worker_progress:
  assumes "pipe_inv p" and "tt_queue p \<noteq> [] \<or> tt_current p \<noteq> None"
  shows "\<exists>op. is_worker op \<and> pipe_do send op p \<noteq> None"
proof (cases "tt_current p")
  case None
  then have "worker_recv p \<noteq> None"
    using assms by (auto simp: worker_recv_def pipe_inv_def split: list.split)
  then show ?thesis by (intro exI [of _ Recv]) simp
next
  case (Some task)
  show ?thesis
  proof (cases "tt_checked p")
    case True
    then show ?thesis using Some by (intro exI [of _ "Handle (\<lambda>_. 0)"]) (simp add: worker_handle_def Let_def)
  next
    case False
    then show ?thesis using Some by (intro exI [of _ Load]) (simp add: worker_load_def)
  qed
qed



text \<open>What the worker may still send and record: nothing but the envelope that passed the check.\<close>

definition only_passed :: "task option \<Rightarrow> envelope list \<Rightarrow> fate list \<Rightarrow> bool" where
  "only_passed passed' es fates \<longleftrightarrow> es = [] \<and> fates = [] \<or>
     (\<exists>env. passed' = Some (SendEnvelope env) \<and> length es \<le> 1 \<and>
        mset (items_of env) = sent_items es + sum_list (map dropped_items fates))"




lemma only_passed_None [simp]: "only_passed None es fates \<longleftrightarrow> es = [] \<and> fates = []"
  by (simp add: only_passed_def)


lemma pipe_reach:
  assumes "pipe_steps send (transport_thread_new spawned rec) ops p"
  shows "pipe_inv p" and "pipe_accounts rec (sum_list (map submitted ops)) p"
proof -
  have "pipe_accounts rec {#} (transport_thread_new spawned rec)"
    unfolding pipe_accounts_def
    by (intro exI [of _ "[]"] exI [of _ "{#}"])
      (simp add: transport_thread_new_def pending_items_def List.map_filter_simps)
  from pipe_steps_inv [OF assms pipe_inv_new this]
  show "pipe_inv p" "pipe_accounts rec (sum_list (map submitted ops)) p" by simp_all
qed

section \<open>Properties\<close>

text \<open>
  C3: Nothing that is given to the transport thread vanishes. However its callers and its worker
  interleave, at most 30 tasks are queued, and every item of every envelope submitted is exactly one of:
  still queued or in the worker's hand, handed to the send function, or recorded as lost; the recorder holds
  these losses and those of the envelopes sent in vain, nothing else. Items are abandoned
  without a record only once the handle is being dropped.
\<close>

theorem transport_thread_accounts:
  assumes "pipe_steps send (transport_thread_new spawned rec) ops p"
  shows "length (tt_queue p) \<le> 30 \<and> (\<exists>fates abandoned.
     tt_rec p = foldl record_fate rec fates \<and>
     sum_list (map submitted ops) =
       pending_items p + sent_items (tt_sent p) + sum_list (map dropped_items fates) + abandoned \<and>
     set (List.map_filter rejected_of fates) \<subseteq> set (tt_sent p) \<and>
     (abandoned \<noteq> {#} \<longrightarrow> tt_shutdown p))"
  using pipe_reach [OF assms] unfolding pipe_inv_def pipe_accounts_def channel_capacity_def by blast

text \<open>
  C9: A flush ends. Once its task is in the channel of a running thread that is not being dropped, the
  flush is answered after at most 92 actions of the worker (taking a task, loading the shutdown flag and
  handling the task are three), whatever others do in between, and
  by then every envelope queued before it has been handled; until it is answered, the worker
  can always act.
\<close>

theorem flush_is_answered:
  assumes "pipe_steps send (transport_thread_new spawned rec) ops p" and "\<not> tt_shutdown p"
    and "tt_alive p" and "thread_flush answer p = Some q"
    and "pipe_steps send q ops' r" and "StoreFlag \<notin> set ops'"
  shows "(92 \<le> length (filter is_worker ops') \<longrightarrow> answer \<in> tt_acks r \<and>
      handled (\<lambda>env. Submit env \<notin> set ops') r) \<and>
    (answer \<in> tt_acks r \<or> (\<exists>op. is_worker op \<and> pipe_do send op r \<noteq> None))"
proof -
  have inv: "pipe_inv p" by (rule pipe_reach(1) [OF assms(1)])
  have q: "q = p\<lparr>tt_queue := tt_queue p @ [FlushTask answer]\<rparr>" "length (tt_queue p) \<le> 29"
    using assms(3,4) by (auto simp: thread_flush_def blocking_send_def channel_capacity_def split: if_splits)
  have q_inv: "pipe_inv q" "\<not> tt_shutdown q"
    using pipe_inv_step(1) [of send "Flush answer" p q] assms(2,4) inv q(1) by simp_all
  define old where "old = (\<lambda>env. Submit env \<notin> set ops')"
  have q_within: "flush_within answer old 92 q"
    using q in_hand_le [of p] by (intro flush_within_queuedI [of _ "tt_queue p" _ "[]"]) auto
  have r: "flush_within answer old (92 - length (filter is_worker ops')) r" "pipe_inv r"
    using flush_within_steps [OF assms(5) q_inv assms(6) _ q_within] by (auto simp: old_def)
  have "answer \<in> tt_acks r \<and> handled old r" if "92 \<le> length (filter is_worker ops')"
    using r(1) that by (auto simp: flush_within_def in_hand_def split: if_splits)
  moreover have "answer \<in> tt_acks r \<or> tt_queue r \<noteq> [] \<or> tt_current r \<noteq> None"
    using r(1) by (auto simp: flush_within_def)
  ultimately show ?thesis using worker_progress [OF r(2), of send] unfolding old_def by blast
qed

lemma flush_is_answered_witness:
  "\<exists>r. pipe_steps (\<lambda>_ _ rl. (rl, None)) (the (thread_flush 7 (transport_thread_new True None))) [] r \<and>
     (7 \<in> tt_acks r \<or> (\<exists>op. is_worker op \<and> pipe_do (\<lambda>_ _ rl. (rl, None)) op r \<noteq> None))"
proof -
  let ?p = "transport_thread_new True None"
  have "\<not> tt_shutdown ?p" "tt_alive ?p" "thread_flush 7 ?p \<noteq> None"
    by (simp_all add: transport_thread_new_def thread_flush_def blocking_send_def channel_capacity_def)
  then show ?thesis
    using flush_is_answered [OF pipe_steps.nil [of "\<lambda>_ _ rl. (rl, None)"], where spawned = True and rec = None
        and answer = 7 and q = "the (thread_flush 7 ?p)" and ops' = "[]"
        and r = "the (thread_flush 7 ?p)", OF _ _ _ pipe_steps.nil] pipe_steps.nil
    by auto
qed



lemma transport_thread_accounts_witness:
  "\<exists>p. pipe_steps (\<lambda>_ _ rl. (rl, None)) (transport_thread_new True None) [Submit envelope_new] p \<and>
     length (tt_queue p) \<le> 30"
proof -
  have steps: "pipe_steps (\<lambda>_ _ rl. (rl, None)) (transport_thread_new True None) ([] @ [Submit envelope_new])
      (thread_send envelope_new (transport_thread_new True None))"
    by (rule pipe_steps.snoc [OF pipe_steps.nil]) simp
  with transport_thread_accounts [OF steps] show ?thesis by auto
qed

end
