(* ===== verification/TraceHeaders.thy ===== *)
theory TraceHeaders
  imports Protocol
begin

text \<open>
  Trace propagation headers (\<open>sentry-core/src/performance/headers.rs\<close>): writing and parsing
  \<open>sentry-trace\<close>, and the organization id of the \<open>baggage\<close> header. The hexadecimal
  encoder (crate \<open>hex\<close>) is a parameter.
\<close>

section \<open>Identifiers\<close>

record hex_codec =
  hex_encode :: "u8 list \<Rightarrow> string"
  hex_decode :: "nat \<Rightarrow> string \<Rightarrow> u8 list option"

definition trace_id_display :: "hex_codec \<Rightarrow> trace_id \<Rightarrow> string" where
  "trace_id_display hx t = hex_encode hx t"

definition span_id_display :: "hex_codec \<Rightarrow> span_id \<Rightarrow> string" where
  "span_id_display hx s = hex_encode hx s"

text \<open>\<open>decode_to_slice\<close> into 16 and 8 bytes.\<close>

definition trace_id_from_str :: "hex_codec \<Rightarrow> string \<Rightarrow> trace_id option" where
  "trace_id_from_str hx input = hex_decode hx 16 input"

definition span_id_from_str :: "hex_codec \<Rightarrow> string \<Rightarrow> span_id option" where
  "span_id_from_str hx input = hex_decode hx 8 input"

section \<open>The propagation context\<close>

record propagation =
  pc_trace_id :: trace_id
  pc_span_id :: span_id
  pc_sampled :: "bool option"
  pc_org_id :: "organization_id option"

datatype header_parse_error = Missing | Invalid

definition propagation_new :: "trace_id \<Rightarrow> span_id \<Rightarrow> propagation" where
  "propagation_new t s =
     \<lparr>pc_trace_id = t, pc_span_id = s, pc_sampled = None, pc_org_id = None\<rparr>"

definition with_sampled :: "bool \<Rightarrow> propagation \<Rightarrow> propagation" where
  "with_sampled b p = p\<lparr>pc_sampled := Some b\<rparr>"

definition sentry_trace_header :: "hex_codec \<Rightarrow> propagation \<Rightarrow> string" where
  "sentry_trace_header hx p =
     trace_id_display hx (pc_trace_id p) @ ''-'' @ span_id_display hx (pc_span_id p)
     @ (case pc_sampled p of None \<Rightarrow> []
        | Some sampled \<Rightarrow> ''-'' @ (if sampled then ''1'' else ''0''))"

definition from_sentry_trace :: "hex_codec \<Rightarrow> string \<Rightarrow> propagation option" where
  "from_sentry_trace hx header =
     (case splitn 3 (CHR ''-'') (trim header) of
        t # s # rest \<Rightarrow>
          (case trace_id_from_str hx t of None \<Rightarrow> None
           | Some trace_id \<Rightarrow>
             (case span_id_from_str hx s of None \<Rightarrow> None
              | Some span_id \<Rightarrow>
                  Some \<lparr>pc_trace_id = trace_id, pc_span_id = span_id,
                    pc_sampled = (case rest of [] \<Rightarrow> None
                      | sampled # _ \<Rightarrow> if sampled = ''1'' then Some True
                                      else if sampled = ''0'' then Some False else None),
                    pc_org_id = None\<rparr>))
      | _ \<Rightarrow> None)"

section \<open>Baggage\<close>

definition update_from_value ::
  "organization_id option \<Rightarrow> string \<times> string \<Rightarrow> organization_id option" where
  "update_from_value org_id kv =
     (if fst kv = ''sentry-org_id'' then
        (case organization_id_from_str (snd kv) of Some v \<Rightarrow> Some v | None \<Rightarrow> org_id)
      else org_id)"

text \<open>The key-value pairs of a baggage header, optional properties discarded.\<close>

definition baggage_entries :: "string \<Rightarrow> (string \<times> string) list" where
  "baggage_entries value =
     map (\<lambda>(k, v). (trim k, trim (case split_once (CHR '';'') v of None \<Rightarrow> v | Some (a, _) \<Rightarrow> a)))
       (List.map_filter (split_once (CHR ''='')) (split_on (CHR '','') value))"

definition update_from_header :: "string \<Rightarrow> organization_id option \<Rightarrow> organization_id option" where
  "update_from_header value org_id = foldl update_from_value org_id (baggage_entries value)"

section \<open>Parsing a list of headers\<close>

definition headers_step ::
  "hex_codec \<Rightarrow> (header_parse_error + propagation) \<times> organization_id option \<Rightarrow> string \<times> string \<Rightarrow>
   (header_parse_error + propagation) \<times> organization_id option" where
  "headers_step hx st header =
     (if eq_ignore_ascii_case (fst header) ''sentry-trace'' then
        (case from_sentry_trace hx (snd header) of
           Some p \<Rightarrow> (Inr p, snd st)
         | None \<Rightarrow> (case fst st of Inr p \<Rightarrow> (Inr p, snd st) | Inl _ \<Rightarrow> (Inl Invalid, snd st)))
      else if eq_ignore_ascii_case (fst header) ''baggage'' then
        (fst st, update_from_header (snd header) (snd st))
      else st)"

definition try_from_headers ::
  "hex_codec \<Rightarrow> (string \<times> string) list \<Rightarrow> header_parse_error + propagation" where
  "try_from_headers hx headers =
     (case foldl (headers_step hx) (Inl Missing, None) headers of
        (Inl e, _) \<Rightarrow> Inl e
      | (Inr context, org_id) \<Rightarrow> Inr (context\<lparr>pc_org_id := org_id\<rparr>))"

section \<open>What the headers say\<close>

definition trace_values :: "(string \<times> string) list \<Rightarrow> string list" where
  "trace_values headers =
     map snd (filter (\<lambda>h. eq_ignore_ascii_case (fst h) ''sentry-trace'') headers)"

definition baggage_values :: "(string \<times> string) list \<Rightarrow> string list" where
  "baggage_values headers =
     map snd (filter (\<lambda>h. eq_ignore_ascii_case (fst h) ''baggage'') headers)"

text \<open>The valid organization ids in baggage headers, in order.\<close>

definition org_ids :: "string list \<Rightarrow> organization_id list" where
  "org_ids values =
     List.map_filter (\<lambda>(k, v). if k = ''sentry-org_id'' then organization_id_from_str v else None)
       (concat (map baggage_entries values))"

definition last_opt :: "'a option \<Rightarrow> 'a list \<Rightarrow> 'a option" where
  "last_opt d xs = (if xs = [] then d else Some (last xs))"

lemma last_opt_simps [simp]:
  "last_opt d [] = d" "last_opt d (x # xs) = last_opt (Some x) xs"
  by (simp_all add: last_opt_def)

lemma last_opt_append: "last_opt d (xs @ ys) = last_opt (last_opt d xs) ys"
  by (simp add: last_opt_def)

definition valid_traces :: "hex_codec \<Rightarrow> string list \<Rightarrow> propagation list" where
  "valid_traces hx values = List.map_filter (from_sentry_trace hx) values"

lemma foldl_update_from_value:
  "foldl update_from_value d kvs =
     last_opt d (List.map_filter
       (\<lambda>(k, v). if k = ''sentry-org_id'' then organization_id_from_str v else None) kvs)"
  by (induction kvs arbitrary: d)
    (auto simp: update_from_value_def List.map_filter_simps split: option.splits if_splits)

lemma not_both: "eq_ignore_ascii_case h ''sentry-trace'' \<Longrightarrow> \<not> eq_ignore_ascii_case h ''baggage''"
  by (auto simp: eq_ignore_ascii_case_def dest: map_eq_imp_length_eq)

lemma trace_values_Cons:
  "trace_values (h # hs) =
     (if eq_ignore_ascii_case (fst h) ''sentry-trace'' then [snd h] else []) @ trace_values hs"
  by (simp add: trace_values_def)

lemma baggage_values_Cons:
  "baggage_values (h # hs) =
     (if eq_ignore_ascii_case (fst h) ''baggage'' then [snd h] else []) @ baggage_values hs"
  by (simp add: baggage_values_def)

lemma org_ids_Cons:
  "last_opt d (org_ids (v # vs)) = last_opt (update_from_header v d) (org_ids vs)"
  by (simp add: org_ids_def update_from_header_def foldl_update_from_value last_opt_append
      map_filter_append)

lemma valid_traces_Nil [simp]: "valid_traces hx [] = []"
  by (simp add: valid_traces_def List.map_filter_simps)

lemma org_ids_Nil [simp]: "org_ids [] = []"
  by (simp add: org_ids_def List.map_filter_simps)

lemma valid_traces_Cons:
  "valid_traces hx (v # vs) =
     (case from_sentry_trace hx v of Some p \<Rightarrow> [p] | None \<Rightarrow> []) @ valid_traces hx vs"
  by (simp add: valid_traces_def List.map_filter_simps split: option.split)

lemma foldl_headers_step:
  "foldl (headers_step hx) (r, d) headers =
     ((case last_opt (case r of Inr p \<Rightarrow> Some p | Inl _ \<Rightarrow> None) (valid_traces hx (trace_values headers)) of
         Some p \<Rightarrow> Inr p
       | None \<Rightarrow> if trace_values headers = [] then r else Inl Invalid),
      last_opt d (org_ids (baggage_values headers)))"
proof (induction headers arbitrary: r d)
  case Nil
  then show ?case
    by (simp add: trace_values_def valid_traces_def baggage_values_def org_ids_def
        List.map_filter_simps split: sum.split)
next
  case (Cons h headers)
  show ?case
  proof (cases "eq_ignore_ascii_case (fst h) ''sentry-trace''")
    case True
    have step: "headers_step hx (r', d) h =
        (case from_sentry_trace hx (snd h) of Some p \<Rightarrow> (Inr p, d)
         | None \<Rightarrow> (case r' of Inr p \<Rightarrow> (Inr p, d) | Inl _ \<Rightarrow> (Inl Invalid, d)))" for r'
      using True by (simp add: headers_step_def split: option.split sum.split)
    show ?thesis
      using True not_both [OF True]
      by (cases "from_sentry_trace hx (snd h)"; cases r)
        (simp_all add: step Cons.IH trace_values_Cons valid_traces_Cons baggage_values_Cons
          split: option.split)
  next
    case False
    have step: "headers_step hx (r, d) h =
        (r, if eq_ignore_ascii_case (fst h) ''baggage'' then update_from_header (snd h) d else d)"
      using False by (simp add: headers_step_def)
    show ?thesis
      using False by (simp add: step Cons.IH trace_values_Cons baggage_values_Cons org_ids_Cons)
  qed
qed

section \<open>Round trip\<close>

text \<open>What is assumed of the hexadecimal codec, at the ids at hand.\<close>

definition hex_ok :: "hex_codec \<Rightarrow> nat \<Rightarrow> u8 list \<Rightarrow> bool" where
  "hex_ok hx n bs \<longleftrightarrow> hex_decode hx n (hex_encode hx bs) = Some bs \<and> hex_encode hx bs \<noteq> [] \<and>
     (\<forall>c \<in> set (hex_encode hx bs). graphic c \<and> c \<noteq> CHR ''-'')"

lemma from_sentry_trace_header:
  assumes "hex_ok hx 16 (pc_trace_id p)" and "hex_ok hx 8 (pc_span_id p)"
  shows "from_sentry_trace hx (sentry_trace_header hx p) = Some (p\<lparr>pc_org_id := None\<rparr>)"
proof -
  let ?t = "hex_encode hx (pc_trace_id p)" and ?s = "hex_encode hx (pc_span_id p)"
  let ?x = "case pc_sampled p of None \<Rightarrow> [] | Some b \<Rightarrow> ''-'' @ (if b then ''1'' else ''0'')"
  have hdr: "sentry_trace_header hx p = ?t @ CHR ''-'' # (?s @ ?x)"
    by (simp add: sentry_trace_header_def trace_id_display_def span_id_display_def)
  have t: "?t \<noteq> []" "CHR ''-'' \<notin> set ?t" "graphic (hd ?t)"
    and s: "?s \<noteq> []" "CHR ''-'' \<notin> set ?s" "graphic (last ?s)"
    using assms by (auto simp: hex_ok_def)
  have last: "graphic (last (?s @ ?x))"
    using s by (auto simp: graphic_def split: option.split)
  have "trim (?t @ CHR ''-'' # (?s @ ?x)) = ?t @ CHR ''-'' # (?s @ ?x)"
    using t s last by (intro trim_graphic) auto
  moreover have "splitn 3 (CHR ''-'') (?t @ CHR ''-'' # (?s @ ?x)) =
      ?t # ?s # (case pc_sampled p of None \<Rightarrow> [] | Some b \<Rightarrow> [if b then ''1'' else ''0''])"
  proof -
    have "splitn (Suc (Suc (Suc 0))) (CHR ''-'') (?t @ CHR ''-'' # (?s @ ?x)) =
        ?t # splitn (Suc (Suc 0)) (CHR ''-'') (?s @ ?x)"
      by (rule splitn_append [OF t(2)])
    moreover have "splitn (Suc (Suc 0)) (CHR ''-'') (?s @ ?x) =
        ?s # (case pc_sampled p of None \<Rightarrow> [] | Some b \<Rightarrow> [if b then ''1'' else ''0''])"
    proof (cases "pc_sampled p")
      case None
      then show ?thesis using splitn_none [OF s(2), of "Suc 0"] by (simp only: option.case append_Nil2)
    next
      case (Some b)
      have "splitn (Suc (Suc 0)) (CHR ''-'') (?s @ CHR ''-'' # (if b then ''1'' else ''0'')) =
          ?s # splitn (Suc 0) (CHR ''-'') (if b then ''1'' else ''0'')"
        by (rule splitn_append [OF s(2)])
      then show ?thesis using Some by (simp only: option.case append_Cons append_Nil splitn.simps)
    qed
    ultimately show ?thesis by (simp only: numeral_3_eq_3)
  qed
  moreover have "hex_decode hx 16 ?t = Some (pc_trace_id p)" "hex_decode hx 8 ?s = Some (pc_span_id p)"
    using assms by (simp_all add: hex_ok_def)
  ultimately show ?thesis
    by (cases "pc_sampled p")
      (simp_all only: from_sentry_trace_def hdr trace_id_from_str_def span_id_from_str_def
        option.case list.case, cases p, simp, cases p, simp)
qed

lemma trace_values_append: "trace_values (xs @ ys) = trace_values xs @ trace_values ys"
  by (simp add: trace_values_def)

lemma baggage_values_append: "baggage_values (xs @ ys) = baggage_values xs @ baggage_values ys"
  by (simp add: baggage_values_def)

lemma valid_traces_append: "valid_traces hx (xs @ ys) = valid_traces hx xs @ valid_traces hx ys"
  by (simp add: valid_traces_def map_filter_append)

lemma no_valid_traces:
  "(\<And>n v. (n, v) \<in> set hs \<Longrightarrow> eq_ignore_ascii_case n ''sentry-trace'' \<Longrightarrow> from_sentry_trace hx v = None) \<Longrightarrow>
   valid_traces hx (trace_values hs) = []"
  by (induction hs) (force simp: trace_values_Cons valid_traces_Cons trace_values_def)+

text \<open>The written header among others, when no valid one comes after it.\<close>

lemma header_among:
  assumes "hex_ok hx 16 (pc_trace_id p)" and "hex_ok hx 8 (pc_span_id p)"
    and "eq_ignore_ascii_case name ''sentry-trace''"
    and "\<And>n v. (n, v) \<in> set after \<Longrightarrow> eq_ignore_ascii_case n ''sentry-trace'' \<Longrightarrow> from_sentry_trace hx v = None"
  shows "try_from_headers hx (before @ (name, sentry_trace_header hx p) # after) =
    Inr (p\<lparr>pc_org_id := last_opt None (org_ids (baggage_values (before @ after)))\<rparr>)"
proof -
  have trace: "valid_traces hx (trace_values (before @ (name, sentry_trace_header hx p) # after)) =
      valid_traces hx (trace_values before) @ [p\<lparr>pc_org_id := None\<rparr>]"
    using assms(3) no_valid_traces [OF assms(4)] from_sentry_trace_header [OF assms(1,2)]
    by (simp add: trace_values_append trace_values_Cons valid_traces_append valid_traces_Cons)
  have bag: "baggage_values (before @ (name, sentry_trace_header hx p) # after) = baggage_values (before @ after)"
    using not_both [OF assms(3)] by (simp add: baggage_values_append baggage_values_Cons)
  show ?thesis
    by (simp only: try_from_headers_def foldl_headers_step trace bag) (simp add: last_opt_append)
qed

lemma header_roundtrip:
  assumes "hex_ok hx 16 (pc_trace_id p)" and "hex_ok hx 8 (pc_span_id p)"
    and "eq_ignore_ascii_case name ''sentry-trace''"
    and "trace_values (before @ after) = []" and "baggage_values (before @ after) = []"
  shows "try_from_headers hx (before @ (name, sentry_trace_header hx p) # after) =
    Inr (p\<lparr>pc_org_id := None\<rparr>)"
proof -
  have "\<not> eq_ignore_ascii_case n ''sentry-trace''" if "(n, v) \<in> set after" for n v
    using assms(4) that by (auto simp: trace_values_def filter_empty_conv)
  with header_among [OF assms(1-3), of after before] assms(5) show ?thesis by auto
qed

section \<open>Properties\<close>

text \<open>
  Parsing a list of headers succeeds exactly when some \<open>sentry-trace\<close> header (in any letter
  case) is valid, and then the last valid one gives ids and sampling decision; otherwise the
  error tells an invalid header from a missing one. The organization id is the last valid one
  in any baggage header, wherever the baggage stands among the headers.
\<close>

theorem headers_last_valid_wins:
  "try_from_headers hx headers =
     (if valid_traces hx (trace_values headers) \<noteq> [] then
        Inr ((last (valid_traces hx (trace_values headers)))
               \<lparr>pc_org_id := last_opt None (org_ids (baggage_values headers))\<rparr>)
      else Inl (if trace_values headers = [] then Missing else Invalid))"
  by (simp add: try_from_headers_def foldl_headers_step last_opt_def)

text \<open>
  Round trip: the \<open>sentry-trace\<close> header written for a propagation context, under any
  capitalisation of its name and among any headers that are neither \<open>sentry-trace\<close> nor
  \<open>baggage\<close>, parses back to that context without its organization id (which travels in the
  baggage), provided the hexadecimal codec decodes the two ids it encoded.
\<close>

theorem sentry_trace_roundtrip:
  assumes "hex_ok hx 16 (pc_trace_id p)" and "hex_ok hx 8 (pc_span_id p)"
    and "eq_ignore_ascii_case name ''sentry-trace''"
    and "trace_values (before @ after) = []" and "baggage_values (before @ after) = []"
  shows "try_from_headers hx (before @ (name, sentry_trace_header hx p) # after) =
    Inr (p\<lparr>pc_org_id := None\<rparr>)"
  by (rule header_roundtrip [OF assms])

definition sample_hex :: hex_codec where
  "sample_hex = \<lparr>hex_encode = (\<lambda>bs. if length bs = 16 then ''aa'' else ''bb''),
     hex_decode = (\<lambda>n s. if s = ''aa'' then Some (replicate 16 1) else Some (replicate 8 2))\<rparr>"

lemma sample_hex_ok:
  "hex_ok sample_hex 16 (replicate 16 1)" "hex_ok sample_hex 8 (replicate 8 2)"
  by (simp_all add: hex_ok_def sample_hex_def graphic_def)

end
