(* ===== verification/Tracing.thy ===== *)
theory Tracing
  imports TraceHeaders
begin

text \<open>
  Performance monitoring (\<open>sentry-core/src/performance/mod.rs\<close>), the part that needs no
  client: transaction contexts and their builder, the sampling rate, trace continuation, and
  running transactions and spans. Handles to a running transaction or span are
  \<open>Arc<Mutex<..>>\<close>: clones and child spans share the value behind them, so the values live
  in a heap and a handle holds an address. Random ids and clock readings are inputs.
\<close>

section \<open>Transaction contexts\<close>

record transaction_context =
  tcx_name :: string
  tcx_op :: string
  tcx_trace_id :: trace_id
  tcx_parent_span_id :: "span_id option"
  tcx_span_id :: span_id
  tcx_sampled :: "bool option"
  tcx_incoming_trace :: "organization_id option option"
  tcx_custom :: "json smap option"

definition tcx_new_with_trace_id :: "span_id \<Rightarrow> string \<Rightarrow> string \<Rightarrow> trace_id \<Rightarrow> transaction_context" where
  "tcx_new_with_trace_id fresh_span name op t =
     \<lparr>tcx_name = name, tcx_op = op, tcx_trace_id = t, tcx_parent_span_id = None,
      tcx_span_id = fresh_span, tcx_sampled = None, tcx_incoming_trace = None,
      tcx_custom = None\<rparr>"

definition tcx_new :: "trace_id \<Rightarrow> span_id \<Rightarrow> string \<Rightarrow> string \<Rightarrow> transaction_context" where
  "tcx_new fresh_trace fresh_span name op = tcx_new_with_trace_id fresh_span name op fresh_trace"

definition tcx_new_with_details ::
  "span_id \<Rightarrow> string \<Rightarrow> string \<Rightarrow> trace_id \<Rightarrow> span_id option \<Rightarrow> span_id option \<Rightarrow> transaction_context" where
  "tcx_new_with_details fresh_span name op t sid parent =
     (let slf = tcx_new_with_trace_id fresh_span name op t;
          slf' = (case sid of Some s \<Rightarrow> slf\<lparr>tcx_span_id := s\<rparr> | None \<Rightarrow> slf)
      in slf'\<lparr>tcx_parent_span_id := parent\<rparr>)"

definition continue_from_propagation ::
  "span_id \<Rightarrow> string \<Rightarrow> string \<Rightarrow> propagation \<Rightarrow> span_id option \<Rightarrow> transaction_context" where
  "continue_from_propagation fresh_span name op p sid =
     \<lparr>tcx_name = name, tcx_op = op, tcx_trace_id = pc_trace_id p,
      tcx_parent_span_id = Some (pc_span_id p),
      tcx_span_id = (case sid of Some s \<Rightarrow> s | None \<Rightarrow> fresh_span),
      tcx_sampled = pc_sampled p, tcx_incoming_trace = Some (pc_org_id p), tcx_custom = None\<rparr>"

definition continue_from_headers ::
  "hex_codec \<Rightarrow> trace_id \<Rightarrow> span_id \<Rightarrow> string \<Rightarrow> string \<Rightarrow> (string \<times> string) list \<Rightarrow>
   transaction_context" where
  "continue_from_headers hx fresh_trace fresh_span name op headers =
     (case try_from_headers hx headers of
        Inr context \<Rightarrow> continue_from_propagation fresh_span name op context None
      | Inl _ \<Rightarrow>
          \<lparr>tcx_name = name, tcx_op = op, tcx_trace_id = fresh_trace, tcx_parent_span_id = None,
           tcx_span_id = fresh_span, tcx_sampled = None, tcx_incoming_trace = None,
           tcx_custom = None\<rparr>)"

definition tcx_set_sampled :: "bool option \<Rightarrow> transaction_context \<Rightarrow> transaction_context" where
  "tcx_set_sampled b c = c\<lparr>tcx_sampled := b\<rparr>"

text \<open>The map is taken out, defaulted, extended and put back; the old value is returned.\<close>

definition custom_insert ::
  "string \<Rightarrow> json \<Rightarrow> transaction_context \<Rightarrow> json option \<times> transaction_context" where
  "custom_insert key value c =
     (let custom = (case tcx_custom c of Some m \<Rightarrow> m | None \<Rightarrow> []) in
      (map_of custom key, c\<lparr>tcx_custom := Some (sm_insert key value custom)\<rparr>))"

text \<open>The four fields take their defaults; the default trace id is a random one.\<close>

definition reject_incoming_trace :: "trace_id \<Rightarrow> transaction_context \<Rightarrow> transaction_context" where
  "reject_incoming_trace fresh_trace c =
     c\<lparr>tcx_trace_id := fresh_trace, tcx_parent_span_id := None, tcx_sampled := None,
       tcx_incoming_trace := None\<rparr>"

text \<open>The builder wraps a context; its setters and \<open>finish\<close>.\<close>

definition tcx_builder :: "trace_id \<Rightarrow> span_id \<Rightarrow> string \<Rightarrow> string \<Rightarrow> transaction_context" where
  "tcx_builder fresh_trace fresh_span name op = tcx_new fresh_trace fresh_span name op"

definition tcx_with_name :: "string \<Rightarrow> transaction_context \<Rightarrow> transaction_context" where
  "tcx_with_name n c = c\<lparr>tcx_name := n\<rparr>"

definition tcx_with_op :: "string \<Rightarrow> transaction_context \<Rightarrow> transaction_context" where
  "tcx_with_op n c = c\<lparr>tcx_op := n\<rparr>"

definition tcx_with_trace_id :: "trace_id \<Rightarrow> transaction_context \<Rightarrow> transaction_context" where
  "tcx_with_trace_id t c = c\<lparr>tcx_trace_id := t\<rparr>"

definition tcx_with_parent_span_id :: "span_id option \<Rightarrow> transaction_context \<Rightarrow> transaction_context" where
  "tcx_with_parent_span_id s c = c\<lparr>tcx_parent_span_id := s\<rparr>"

definition tcx_with_span_id :: "span_id \<Rightarrow> transaction_context \<Rightarrow> transaction_context" where
  "tcx_with_span_id s c = c\<lparr>tcx_span_id := s\<rparr>"

definition tcx_with_sampled :: "bool option \<Rightarrow> transaction_context \<Rightarrow> transaction_context" where
  "tcx_with_sampled b c = c\<lparr>tcx_sampled := b\<rparr>"

definition tcx_with_custom :: "string \<Rightarrow> json \<Rightarrow> transaction_context \<Rightarrow> transaction_context" where
  "tcx_with_custom key value c = snd (custom_insert key value c)"

section \<open>Sampling and trace continuation\<close>

datatype traces_sampling_strategy =
    TracesFixedRate flt | TracesFunction "transaction_context \<Rightarrow> flt" | TracesDisabled

definition flt_of_bool :: "bool \<Rightarrow> flt" where
  "flt_of_bool b = (if b then Fin 1 else Fin 0)"

definition transaction_sample_rate :: "traces_sampling_strategy \<Rightarrow> transaction_context \<Rightarrow> flt" where
  "transaction_sample_rate strategy c =
     (case strategy of
        TracesFixedRate rate \<Rightarrow> (case tcx_sampled c of None \<Rightarrow> rate | Some b \<Rightarrow> flt_of_bool b)
      | TracesFunction traces_sampler \<Rightarrow> traces_sampler c
      | TracesDisabled \<Rightarrow> Fin 0)"

fun should_continue_trace ::
  "organization_id option \<Rightarrow> organization_id option \<Rightarrow> bool \<Rightarrow> bool" where
  "should_continue_trace (Some incoming) (Some sdk) strict = (incoming = sdk)"
| "should_continue_trace (Some _) None strict = (\<not> strict)"
| "should_continue_trace None (Some _) strict = (\<not> strict)"
| "should_continue_trace None None strict = True"

section \<open>Running transactions and spans\<close>

text \<open>\<open>TransactionInner\<close>: the client is the address of an \<open>Arc<Client>\<close>.\<close>

record transaction_inner =
  in_client :: "nat option"
  in_sampled :: bool
  in_context :: trace_context
  in_transaction :: "ptransaction option"

record heap =
  hp_txns :: "nat \<Rightarrow> transaction_inner"
  hp_spans :: "nat \<Rightarrow> pspan"
  hp_next :: nat

record transaction_handle =
  th_inner :: nat
  th_sample_rate :: flt

record span_handle =
  sh_transaction :: nat
  sh_sampled :: bool
  sh_span :: nat

datatype transaction_or_span = TxHandle transaction_handle | SpHandle span_handle

definition upd_txn :: "nat \<Rightarrow> (transaction_inner \<Rightarrow> transaction_inner) \<Rightarrow> heap \<Rightarrow> heap" where
  "upd_txn r f h = h\<lparr>hp_txns := (hp_txns h)(r := f (hp_txns h r))\<rparr>"

definition upd_span :: "nat \<Rightarrow> (pspan \<Rightarrow> pspan) \<Rightarrow> heap \<Rightarrow> heap" where
  "upd_span r f h = h\<lparr>hp_spans := (hp_spans h)(r := f (hp_spans h r))\<rparr>"

definition alloc_span :: "pspan \<Rightarrow> heap \<Rightarrow> nat \<times> heap" where
  "alloc_span s h = (hp_next h, h\<lparr>hp_spans := (hp_spans h)(hp_next h := s), hp_next := Suc (hp_next h)\<rparr>)"

definition alloc_txn :: "transaction_inner \<Rightarrow> heap \<Rightarrow> nat \<times> heap" where
  "alloc_txn t h = (hp_next h, h\<lparr>hp_txns := (hp_txns h)(hp_next h := t), hp_next := Suc (hp_next h)\<rparr>)"

definition trace_context_default :: "span_id \<Rightarrow> trace_id \<Rightarrow> trace_context" where
  "trace_context_default s t =
     \<lparr>tc_span_id = s, tc_trace_id = t, tc_parent_span_id = None, tc_op = None,
      tc_description = None, tc_status = None, tc_origin = None, tc_data = []\<rparr>"

definition upd_ptx :: "(ptransaction \<Rightarrow> ptransaction) \<Rightarrow> transaction_inner \<Rightarrow> transaction_inner" where
  "upd_ptx f i = i\<lparr>in_transaction := map_option f (in_transaction i)\<rparr>"

definition upd_ctx :: "(trace_context \<Rightarrow> trace_context) \<Rightarrow> transaction_inner \<Rightarrow> transaction_inner" where
  "upd_ctx f i = i\<lparr>in_context := f (in_context i)\<rparr>"

subsection \<open>Transaction\<close>

definition txn_set_data :: "string \<Rightarrow> json \<Rightarrow> transaction_handle \<Rightarrow> heap \<Rightarrow> heap" where
  "txn_set_data key value t =
     upd_txn (th_inner t) (\<lambda>inner. if in_transaction inner \<noteq> None
       then upd_ctx (\<lambda>c. c\<lparr>tc_data := sm_insert key value (tc_data c)\<rparr>) inner else inner)"

definition txn_set_extra :: "string \<Rightarrow> json \<Rightarrow> transaction_handle \<Rightarrow> heap \<Rightarrow> heap" where
  "txn_set_extra key value t =
     upd_txn (th_inner t) (upd_ptx (\<lambda>p. p\<lparr>tx_extra := sm_insert key value (tx_extra p)\<rparr>))"

definition txn_set_tag :: "string \<Rightarrow> string \<Rightarrow> transaction_handle \<Rightarrow> heap \<Rightarrow> heap" where
  "txn_set_tag key value t =
     upd_txn (th_inner t) (upd_ptx (\<lambda>p. p\<lparr>tx_tags := sm_insert key value (tx_tags p)\<rparr>))"

definition txn_data_iter :: "transaction_handle \<Rightarrow> heap \<Rightarrow> json smap" where
  "txn_data_iter t h =
     (let inner = hp_txns h (th_inner t) in
      if in_transaction inner \<noteq> None then tc_data (in_context inner) else [])"

definition txn_get_trace_context :: "transaction_handle \<Rightarrow> heap \<Rightarrow> trace_context" where
  "txn_get_trace_context t h = in_context (hp_txns h (th_inner t))"

definition txn_get_status :: "transaction_handle \<Rightarrow> heap \<Rightarrow> span_status option" where
  "txn_get_status t h = tc_status (in_context (hp_txns h (th_inner t)))"

definition txn_set_status :: "span_status \<Rightarrow> transaction_handle \<Rightarrow> heap \<Rightarrow> heap" where
  "txn_set_status s t = upd_txn (th_inner t) (upd_ctx (\<lambda>c. c\<lparr>tc_status := Some s\<rparr>))"

definition txn_set_op :: "string \<Rightarrow> transaction_handle \<Rightarrow> heap \<Rightarrow> heap" where
  "txn_set_op op t = upd_txn (th_inner t) (upd_ctx (\<lambda>c. c\<lparr>tc_op := Some op\<rparr>))"

definition txn_set_name :: "string \<Rightarrow> transaction_handle \<Rightarrow> heap \<Rightarrow> heap" where
  "txn_set_name name t = upd_txn (th_inner t) (upd_ptx (\<lambda>p. p\<lparr>tx_name := Some name\<rparr>))"

definition txn_set_request :: "request \<Rightarrow> transaction_handle \<Rightarrow> heap \<Rightarrow> heap" where
  "txn_set_request r t = upd_txn (th_inner t) (upd_ptx (\<lambda>p. p\<lparr>tx_request := Some r\<rparr>))"

definition txn_set_origin :: "string \<Rightarrow> transaction_handle \<Rightarrow> heap \<Rightarrow> heap" where
  "txn_set_origin origin t = upd_txn (th_inner t) (upd_ctx (\<lambda>c. c\<lparr>tc_origin := Some origin\<rparr>))"

definition txn_iter_headers :: "hex_codec \<Rightarrow> transaction_handle \<Rightarrow> heap \<Rightarrow> (string \<times> string) list" where
  "txn_iter_headers hx t h =
     (let inner = hp_txns h (th_inner t) in
      [(''sentry-trace'', sentry_trace_header hx (with_sampled (in_sampled inner)
          (propagation_new (tc_trace_id (in_context inner)) (tc_span_id (in_context inner)))))])"

definition txn_is_sampled :: "transaction_handle \<Rightarrow> heap \<Rightarrow> bool" where
  "txn_is_sampled t h = in_sampled (hp_txns h (th_inner t))"

text \<open>A new span under a parent: \<open>now\<close> and the two random ids feed the defaults.\<close>

definition child_span ::
  "span_id \<Rightarrow> trace_id \<Rightarrow> systime \<Rightarrow> trace_id \<Rightarrow> span_id \<Rightarrow> string \<Rightarrow> string \<Rightarrow> pspan" where
  "child_span fresh_span fresh_trace now t parent op description =
     (pspan_default fresh_span fresh_trace now)
       \<lparr>sp_trace_id := t, sp_parent_span_id := Some parent, sp_op := Some op,
        sp_description := (if description = [] then None else Some description)\<rparr>"

definition txn_start_child ::
  "span_id \<Rightarrow> trace_id \<Rightarrow> systime \<Rightarrow> string \<Rightarrow> string \<Rightarrow> transaction_handle \<Rightarrow> heap \<Rightarrow>
   span_handle \<times> heap" where
  "txn_start_child fresh_span fresh_trace now op description t h =
     (let inner = hp_txns h (th_inner t);
          (r, h') = alloc_span (child_span fresh_span fresh_trace now
            (tc_trace_id (in_context inner)) (tc_span_id (in_context inner)) op description) h
      in (\<lparr>sh_transaction = th_inner t, sh_sampled = in_sampled inner, sh_span = r\<rparr>, h'))"

definition txn_start_child_with_details ::
  "span_id \<Rightarrow> trace_id \<Rightarrow> systime \<Rightarrow> string \<Rightarrow> string \<Rightarrow> span_id \<Rightarrow> systime \<Rightarrow> transaction_handle \<Rightarrow>
   heap \<Rightarrow> span_handle \<times> heap" where
  "txn_start_child_with_details fresh_span fresh_trace now op description sid timestamp t h =
     (let inner = hp_txns h (th_inner t);
          span = child_span fresh_span fresh_trace now
            (tc_trace_id (in_context inner)) (tc_span_id (in_context inner)) op description;
          (r, h') = alloc_span (span\<lparr>sp_span_id := sid, sp_start_timestamp := timestamp\<rparr>) h
      in (\<lparr>sh_transaction = th_inner t, sh_sampled = in_sampled inner, sh_span = r\<rparr>, h'))"

subsection \<open>Span\<close>

definition span_set_data :: "string \<Rightarrow> json \<Rightarrow> span_handle \<Rightarrow> heap \<Rightarrow> heap" where
  "span_set_data key value s =
     upd_span (sh_span s) (\<lambda>p. p\<lparr>sp_data := sm_insert key value (sp_data p)\<rparr>)"

definition span_set_tag :: "string \<Rightarrow> string \<Rightarrow> span_handle \<Rightarrow> heap \<Rightarrow> heap" where
  "span_set_tag key value s =
     upd_span (sh_span s) (\<lambda>p. p\<lparr>sp_tags := sm_insert key value (sp_tags p)\<rparr>)"

text \<open>The trace context of a span is that of its transaction.\<close>

definition span_get_trace_context :: "span_handle \<Rightarrow> heap \<Rightarrow> trace_context" where
  "span_get_trace_context s h = in_context (hp_txns h (sh_transaction s))"

definition span_get_span_id :: "span_handle \<Rightarrow> heap \<Rightarrow> span_id" where
  "span_get_span_id s h = sp_span_id (hp_spans h (sh_span s))"

definition span_get_status :: "span_handle \<Rightarrow> heap \<Rightarrow> span_status option" where
  "span_get_status s h = sp_status (hp_spans h (sh_span s))"

definition span_set_status :: "span_status \<Rightarrow> span_handle \<Rightarrow> heap \<Rightarrow> heap" where
  "span_set_status st s = upd_span (sh_span s) (\<lambda>p. p\<lparr>sp_status := Some st\<rparr>)"

definition span_set_op :: "string \<Rightarrow> span_handle \<Rightarrow> heap \<Rightarrow> heap" where
  "span_set_op op s = upd_span (sh_span s) (\<lambda>p. p\<lparr>sp_op := Some op\<rparr>)"

definition span_set_name :: "string \<Rightarrow> span_handle \<Rightarrow> heap \<Rightarrow> heap" where
  "span_set_name name s = upd_span (sh_span s) (\<lambda>p. p\<lparr>sp_description := Some name\<rparr>)"

text \<open>
  The parts of the request become data of the span; \<open>parse_json\<close> is \<open>serde_json::from_str\<close>.
  Serialising a map of strings cannot fail. A URL is kept as its text.
\<close>

definition string_map_value :: "string smap \<Rightarrow> json" where
  "string_map_value m = JObject (map (\<lambda>(k, v). (k, JString v)) m)"

definition insert_opt :: "string \<Rightarrow> json option \<Rightarrow> json smap \<Rightarrow> json smap" where
  "insert_opt key v m = (case v of Some x \<Rightarrow> sm_insert key x m | None \<Rightarrow> m)"

definition request_data :: "(string \<Rightarrow> json option) \<Rightarrow> request \<Rightarrow> json smap \<Rightarrow> json smap" where
  "request_data parse_json r m =
     (let m1 = insert_opt ''method'' (map_option JString (req_method r)) m;
          m2 = insert_opt ''url'' (map_option JString (req_url r)) m1;
          m3 = insert_opt ''data'' (map_option
                 (\<lambda>data. case parse_json data of Some v \<Rightarrow> v | None \<Rightarrow> JString data) (req_data r)) m2;
          m4 = insert_opt ''query_string'' (map_option JString (req_query_string r)) m3;
          m5 = insert_opt ''cookies'' (map_option JString (req_cookies r)) m4;
          m6 = (if req_headers r \<noteq> [] then sm_insert ''headers'' (string_map_value (req_headers r)) m5
                else m5)
      in if req_env r \<noteq> [] then sm_insert ''env'' (string_map_value (req_env r)) m6 else m6)"

definition span_set_request :: "(string \<Rightarrow> json option) \<Rightarrow> request \<Rightarrow> span_handle \<Rightarrow> heap \<Rightarrow> heap" where
  "span_set_request parse_json r s =
     upd_span (sh_span s) (\<lambda>p. p\<lparr>sp_data := request_data parse_json r (sp_data p)\<rparr>)"

definition span_iter_headers :: "hex_codec \<Rightarrow> span_handle \<Rightarrow> heap \<Rightarrow> (string \<times> string) list" where
  "span_iter_headers hx s h =
     (let span = hp_spans h (sh_span s) in
      [(''sentry-trace'', sentry_trace_header hx (with_sampled (sh_sampled s)
          (propagation_new (sp_trace_id span) (sp_span_id span))))])"

definition span_start_child ::
  "span_id \<Rightarrow> trace_id \<Rightarrow> systime \<Rightarrow> string \<Rightarrow> string \<Rightarrow> span_handle \<Rightarrow> heap \<Rightarrow> span_handle \<times> heap" where
  "span_start_child fresh_span fresh_trace now op description s h =
     (let span = hp_spans h (sh_span s);
          (r, h') = alloc_span (child_span fresh_span fresh_trace now
            (sp_trace_id span) (sp_span_id span) op description) h
      in (s\<lparr>sh_span := r\<rparr>, h'))"

definition span_start_child_with_details ::
  "span_id \<Rightarrow> trace_id \<Rightarrow> systime \<Rightarrow> string \<Rightarrow> string \<Rightarrow> span_id \<Rightarrow> systime \<Rightarrow> span_handle \<Rightarrow>
   heap \<Rightarrow> span_handle \<times> heap" where
  "span_start_child_with_details fresh_span fresh_trace now op description sid timestamp s h =
     (let span = hp_spans h (sh_span s);
          child = child_span fresh_span fresh_trace now (sp_trace_id span) (sp_span_id span) op description;
          (r, h') = alloc_span (child\<lparr>sp_span_id := sid, sp_start_timestamp := timestamp\<rparr>) h
      in (s\<lparr>sh_span := r\<rparr>, h'))"

subsection \<open>Transaction or span\<close>

fun ts_set_data :: "string \<Rightarrow> json \<Rightarrow> transaction_or_span \<Rightarrow> heap \<Rightarrow> heap" where
  "ts_set_data key value (TxHandle t) = txn_set_data key value t"
| "ts_set_data key value (SpHandle s) = span_set_data key value s"

fun ts_set_tag :: "string \<Rightarrow> string \<Rightarrow> transaction_or_span \<Rightarrow> heap \<Rightarrow> heap" where
  "ts_set_tag key value (TxHandle t) = txn_set_tag key value t"
| "ts_set_tag key value (SpHandle s) = span_set_tag key value s"

fun ts_get_trace_context :: "transaction_or_span \<Rightarrow> heap \<Rightarrow> trace_context" where
  "ts_get_trace_context (TxHandle t) h = txn_get_trace_context t h"
| "ts_get_trace_context (SpHandle s) h = span_get_trace_context s h"

fun ts_get_status :: "transaction_or_span \<Rightarrow> heap \<Rightarrow> span_status option" where
  "ts_get_status (TxHandle t) h = txn_get_status t h"
| "ts_get_status (SpHandle s) h = span_get_status s h"

fun ts_set_status :: "span_status \<Rightarrow> transaction_or_span \<Rightarrow> heap \<Rightarrow> heap" where
  "ts_set_status st (TxHandle t) = txn_set_status st t"
| "ts_set_status st (SpHandle s) = span_set_status st s"

fun ts_set_op :: "string \<Rightarrow> transaction_or_span \<Rightarrow> heap \<Rightarrow> heap" where
  "ts_set_op op (TxHandle t) = txn_set_op op t"
| "ts_set_op op (SpHandle s) = span_set_op op s"

fun ts_set_name :: "string \<Rightarrow> transaction_or_span \<Rightarrow> heap \<Rightarrow> heap" where
  "ts_set_name name (TxHandle t) = txn_set_name name t"
| "ts_set_name name (SpHandle s) = span_set_name name s"

fun ts_set_request ::
  "(string \<Rightarrow> json option) \<Rightarrow> request \<Rightarrow> transaction_or_span \<Rightarrow> heap \<Rightarrow> heap" where
  "ts_set_request parse_json r (TxHandle t) = txn_set_request r t"
| "ts_set_request parse_json r (SpHandle s) = span_set_request parse_json r s"

fun ts_iter_headers :: "hex_codec \<Rightarrow> transaction_or_span \<Rightarrow> heap \<Rightarrow> (string \<times> string) list" where
  "ts_iter_headers hx (TxHandle t) h = txn_iter_headers hx t h"
| "ts_iter_headers hx (SpHandle s) h = span_iter_headers hx s h"

fun ts_is_sampled :: "transaction_or_span \<Rightarrow> heap \<Rightarrow> bool" where
  "ts_is_sampled (TxHandle t) h = txn_is_sampled t h"
| "ts_is_sampled (SpHandle s) h = sh_sampled s"

fun ts_start_child ::
  "span_id \<Rightarrow> trace_id \<Rightarrow> systime \<Rightarrow> string \<Rightarrow> string \<Rightarrow> transaction_or_span \<Rightarrow> heap \<Rightarrow>
   span_handle \<times> heap" where
  "ts_start_child fs ft now op d (TxHandle t) h = txn_start_child fs ft now op d t h"
| "ts_start_child fs ft now op d (SpHandle s) h = span_start_child fs ft now op d s h"

fun ts_start_child_with_details ::
  "span_id \<Rightarrow> trace_id \<Rightarrow> systime \<Rightarrow> string \<Rightarrow> string \<Rightarrow> span_id \<Rightarrow> systime \<Rightarrow> transaction_or_span \<Rightarrow>
   heap \<Rightarrow> span_handle \<times> heap" where
  "ts_start_child_with_details fs ft now op d i t (TxHandle x) h =
     txn_start_child_with_details fs ft now op d i t x h"
| "ts_start_child_with_details fs ft now op d i t (SpHandle s) h =
     span_start_child_with_details fs ft now op d i t s h"

text \<open>The remaining fields of a span's context are defaults; its ids are set.\<close>

fun ts_context :: "transaction_or_span \<Rightarrow> heap \<Rightarrow> trace_context" where
  "ts_context (TxHandle t) h = in_context (hp_txns h (th_inner t))"
| "ts_context (SpHandle s) h =
     trace_context_default (sp_span_id (hp_spans h (sh_span s))) (sp_trace_id (hp_spans h (sh_span s)))"

definition ts_apply_to_event :: "transaction_or_span \<Rightarrow> heap \<Rightarrow> event \<Rightarrow> event" where
  "ts_apply_to_event ts h e =
     (if sm_has ''trace'' (ev_contexts e) then e
      else e\<lparr>ev_contexts := sm_insert ''trace'' (CtxTrace (ts_context ts h)) (ev_contexts e)\<rparr>)"

definition continue_from_span ::
  "trace_id \<Rightarrow> span_id \<Rightarrow> string \<Rightarrow> string \<Rightarrow> transaction_or_span option \<Rightarrow> heap \<Rightarrow>
   transaction_context" where
  "continue_from_span fresh_trace fresh_span name op source h =
     (case source of
        None \<Rightarrow> tcx_new fresh_trace fresh_span name op
      | Some ts \<Rightarrow>
          (let (t, parent, sampled) =
             (case ts of
                TxHandle x \<Rightarrow> (let inner = hp_txns h (th_inner x) in
                  (tc_trace_id (in_context inner), tc_span_id (in_context inner), in_sampled inner))
              | SpHandle s \<Rightarrow> (let sp = hp_spans h (sh_span s) in
                  (sp_trace_id sp, sp_span_id sp, sh_sampled s)))
           in \<lparr>tcx_name = name, tcx_op = op, tcx_trace_id = t, tcx_parent_span_id = Some parent,
               tcx_span_id = fresh_span, tcx_sampled = Some sampled, tcx_incoming_trace = None,
               tcx_custom = None\<rparr>))"

section \<open>Families of spans\<close>

text \<open>
  The spans that descend from a transaction by \<open>start_child\<close>, with the ids they report: the
  id and sampling decision a new child inherits are those of the handle it is started from.
\<close>

definition ts_trace_id :: "transaction_or_span \<Rightarrow> heap \<Rightarrow> trace_id" where
  "ts_trace_id ts h = (case ts of TxHandle t \<Rightarrow> tc_trace_id (in_context (hp_txns h (th_inner t)))
     | SpHandle s \<Rightarrow> sp_trace_id (hp_spans h (sh_span s)))"

definition ts_span_id :: "transaction_or_span \<Rightarrow> heap \<Rightarrow> span_id" where
  "ts_span_id ts h = (case ts of TxHandle t \<Rightarrow> tc_span_id (in_context (hp_txns h (th_inner t)))
     | SpHandle s \<Rightarrow> sp_span_id (hp_spans h (sh_span s)))"

definition ts_inner :: "transaction_or_span \<Rightarrow> nat" where
  "ts_inner ts = (case ts of TxHandle t \<Rightarrow> th_inner t | SpHandle s \<Rightarrow> sh_transaction s)"

text \<open>A request to start a child: ids and times drawn, operation, description.\<close>

type_synonym child_request = "span_id \<times> trace_id \<times> systime \<times> string \<times> string"

fun start_descendant :: "child_request list \<Rightarrow> transaction_or_span \<Rightarrow> heap \<Rightarrow> transaction_or_span \<times> heap" where
  "start_descendant [] ts h = (ts, h)"
| "start_descendant ((fs, ft, now, op, d) # reqs) ts h =
     (case ts_start_child fs ft now op d ts h of (s, h') \<Rightarrow> start_descendant reqs (SpHandle s) h')"

lemma start_child_facts:
  assumes "ts_start_child fs ft now op d ts h = (s, h')"
  shows "ts_trace_id (SpHandle s) h' = ts_trace_id ts h" "sh_sampled s = ts_is_sampled ts h"
    "sh_transaction s = ts_inner ts" "hp_txns h' = hp_txns h"
    "sp_parent_span_id (hp_spans h' (sh_span s)) = Some (ts_span_id ts h)"
    "ts_span_id (SpHandle s) h' = fs" "hp_next h' = Suc (hp_next h)"
    "\<And>r. r < hp_next h \<Longrightarrow> hp_spans h' r = hp_spans h r"
  using assms
  by (cases ts; auto simp: txn_start_child_def span_start_child_def alloc_span_def child_span_def
      pspan_default_def ts_trace_id_def ts_inner_def ts_span_id_def txn_is_sampled_def Let_def)+

lemma start_descendant_facts:
  assumes "start_descendant reqs ts h = (ts', h')"
  shows "ts_trace_id ts' h' = ts_trace_id ts h \<and> ts_is_sampled ts' h' = ts_is_sampled ts h \<and>
    ts_inner ts' = ts_inner ts \<and> hp_txns h' = hp_txns h"
  using assms
proof (induction reqs arbitrary: ts h)
  case (Cons req reqs)
  obtain fs ft now op d where req: "req = (fs, ft, now, op, d)" by (cases req)
  obtain s h1 where s: "ts_start_child fs ft now op d ts h = (s, h1)" by fastforce
  note facts = start_child_facts [OF s]
  have "start_descendant reqs (SpHandle s) h1 = (ts', h')" using Cons.prems s by (simp add: req)
  from Cons.IH [OF this] facts show ?case by (simp add: ts_inner_def)
qed simp

lemma ts_iter_headers_eq:
  "ts_iter_headers hx ts h = [(''sentry-trace'', sentry_trace_header hx (with_sampled
      (ts_is_sampled ts h) (propagation_new (ts_trace_id ts h) (ts_span_id ts h))))]"
  by (cases ts) (simp_all add: txn_iter_headers_def span_iter_headers_def txn_is_sampled_def
      ts_trace_id_def ts_span_id_def Let_def)

section \<open>Properties\<close>

text \<open>
  C21: Distributed tracing: however deep the chain of child spans started below a transaction
  or span, the header its last member sends makes another process continue the same trace,
  with that member as parent and the sampling decision of the root, whatever other headers
  travel along, as long as no valid \<open>sentry-trace\<close> header comes after it; the organization of the incoming trace is
  the last valid one of all baggage headers. The hexadecimal codec decodes the two ids that it encoded.
\<close>

theorem trace_crosses_processes:
  assumes "start_descendant reqs ts h = (ts', h')"
    and "hex_ok hx 16 (ts_trace_id ts h)" and "hex_ok hx 8 (ts_span_id ts' h')"
    and "\<And>n v. (n, v) \<in> set after \<Longrightarrow> eq_ignore_ascii_case n ''sentry-trace'' \<Longrightarrow> from_sentry_trace hx v = None"
  shows "continue_from_headers hx fresh_trace fresh_span name op
      (before @ ts_iter_headers hx ts' h' @ after) =
    \<lparr>tcx_name = name, tcx_op = op, tcx_trace_id = ts_trace_id ts h,
     tcx_parent_span_id = Some (ts_span_id ts' h'), tcx_span_id = fresh_span,
     tcx_sampled = Some (ts_is_sampled ts h),
     tcx_incoming_trace = Some (last_opt None (org_ids (baggage_values (before @ after)))), tcx_custom = None\<rparr>"
proof -
  let ?p = "with_sampled (ts_is_sampled ts h) (propagation_new (ts_trace_id ts h) (ts_span_id ts' h'))"
  have hdr: "ts_iter_headers hx ts' h' = [(''sentry-trace'', sentry_trace_header hx ?p)]"
    using start_descendant_facts [OF assms(1)] by (simp add: ts_iter_headers_eq)
  have "hex_ok hx 16 (pc_trace_id ?p)" "hex_ok hx 8 (pc_span_id ?p)"
    using assms(2,3) by (simp_all add: with_sampled_def propagation_new_def)
  from header_among [OF this eq_ignore_ascii_case_refl assms(4)]
  show ?thesis
    by (simp add: hdr continue_from_headers_def continue_from_propagation_def with_sampled_def
        propagation_new_def)
qed

definition sample_inner :: transaction_inner where
  "sample_inner = \<lparr>in_client = None, in_sampled = True,
     in_context = trace_context_default (replicate 8 1) (replicate 16 1), in_transaction = None\<rparr>"

definition sample_heap :: heap where
  "sample_heap = \<lparr>hp_txns = (\<lambda>_. sample_inner), hp_spans = (\<lambda>_. pspan_default [] [] 0), hp_next = 5\<rparr>"

definition sample_handle :: transaction_or_span where
  "sample_handle = TxHandle \<lparr>th_inner = 0, th_sample_rate = Fin 1\<rparr>"

lemma trace_crosses_processes_witness:
  "tcx_trace_id (case start_descendant [(replicate 8 2, [], 7, ''db'', ''q'')] sample_handle sample_heap of
     (ts', h') \<Rightarrow> continue_from_headers sample_hex [] [] ''n'' ''o''
       ([(''sentry-trace'', ''bb-bb'')] @ ts_iter_headers sample_hex ts' h' @ [])) = replicate 16 1"
proof -
  obtain ts' h' where s: "start_descendant [(replicate 8 2, [], 7, ''db'', ''q'')] sample_handle sample_heap =
      (ts', h')" by fastforce
  have "ts_span_id ts' h' = replicate 8 2" "ts_trace_id sample_handle sample_heap = replicate 16 1"
    using s by (auto simp: sample_handle_def sample_heap_def sample_inner_def txn_start_child_def
        alloc_span_def child_span_def pspan_default_def ts_span_id_def ts_trace_id_def
        trace_context_default_def Let_def)
  then show ?thesis
    using trace_crosses_processes [OF s, of sample_hex "[]" _ _ _ _ "[(''sentry-trace'', ''bb-bb'')]"]
      sample_hex_ok by (simp add: s del: start_descendant.simps)
qed

text \<open>
  Rejecting an incoming trace leaves nothing of it in a context that continued it: the
  context is the one that a fresh trace would have had, and continuing is refused exactly when
  both organizations are known and differ, or, under strict continuation, when only one is known.
\<close>

theorem rejected_trace_leaves_no_trace:
  "reject_incoming_trace fresh_trace (continue_from_propagation fresh_span name op p None) =
     tcx_new fresh_trace fresh_span name op \<and>
   (should_continue_trace incoming sdk strict \<longleftrightarrow>
     incoming = sdk \<or> (\<not> strict \<and> (incoming = None \<or> sdk = None)))"
proof
  show "reject_incoming_trace fresh_trace (continue_from_propagation fresh_span name op p None) =
     tcx_new fresh_trace fresh_span name op"
    by (simp add: reject_incoming_trace_def continue_from_propagation_def tcx_new_def
        tcx_new_with_trace_id_def)
  show "should_continue_trace incoming sdk strict \<longleftrightarrow>
     incoming = sdk \<or> (\<not> strict \<and> (incoming = None \<or> sdk = None))"
    by (cases incoming; cases sdk) auto
qed

end
