(* ===== verification/Sender.thy ===== *)
theory Sender
  imports Envelope
begin

text \<open>
  \<open>EnvelopeSender\<close> and its transport slots
  (\<open>sentry-core/src/client/envelope_sender.rs\<close>). The transport is code outside the crate: the
  model keeps the calls it receives, and the booleans it answers are inputs. A slot is an
  \<open>Arc<RwLock<Option<Arc<T>>>>\<close>: clones share it, so slots live in a heap and a sender is
  a slot number; all senders of a client share one client-report aggregator.
\<close>

section \<open>The state\<close>

datatype transport_call =
    CallSend nat envelope
  | CallFlush nat duration
  | CallShutdown nat duration

record net =
  net_slots :: "nat \<Rightarrow> nat option"
  net_next :: nat
  net_agg :: aggregator
  net_calls :: "transport_call list"

type_synonym sender = nat

definition call :: "transport_call \<Rightarrow> net \<Rightarrow> net" where
  "call c w = w\<lparr>net_calls := net_calls w @ [c]\<rparr>"

section \<open>Transport slots\<close>

definition slot_new :: "nat \<Rightarrow> net \<Rightarrow> sender \<times> net" where
  "slot_new t w =
     (net_next w, w\<lparr>net_slots := (net_slots w)(net_next w := Some t), net_next := Suc (net_next w)\<rparr>)"

definition slot_default :: "net \<Rightarrow> sender \<times> net" where
  "slot_default w =
     (net_next w, w\<lparr>net_slots := (net_slots w)(net_next w := None), net_next := Suc (net_next w)\<rparr>)"

definition is_occupied :: "sender \<Rightarrow> net \<Rightarrow> bool" where
  "is_occupied sl w = (net_slots w sl \<noteq> None)"

definition clone_into_new_slot :: "sender \<Rightarrow> net \<Rightarrow> sender \<times> net" where
  "clone_into_new_slot sl w =
     (case net_slots w sl of Some t \<Rightarrow> slot_new t w | None \<Rightarrow> (sl, w))"

text \<open>
  The builder is a closure that may itself change the state (record losses); it runs only
  when there is a transport.
\<close>

definition slot_send_envelope_with ::
  "sender \<Rightarrow> (net \<Rightarrow> net \<times> envelope option) \<Rightarrow> net \<Rightarrow> net" where
  "slot_send_envelope_with sl builder w =
     (case net_slots w sl of
        None \<Rightarrow> w
      | Some t \<Rightarrow>
          (case builder w of
             (w', Some envelope) \<Rightarrow> call (CallSend t envelope) w'
           | (w', None) \<Rightarrow> w'))"

definition slot_flush :: "bool \<Rightarrow> sender \<Rightarrow> duration \<Rightarrow> net \<Rightarrow> bool \<times> net" where
  "slot_flush answer sl timeout w =
     (case net_slots w sl of
        Some t \<Rightarrow> (answer, call (CallFlush t timeout) w)
      | None \<Rightarrow> (True, w))"

definition slot_shutdown :: "bool \<Rightarrow> sender \<Rightarrow> duration \<Rightarrow> net \<Rightarrow> bool \<times> net" where
  "slot_shutdown answer sl timeout w =
     (let w' = w\<lparr>net_slots := (net_slots w)(sl := None)\<rparr> in
      case net_slots w sl of
        Some t \<Rightarrow> (answer, call (CallShutdown t timeout) w')
      | None \<Rightarrow> (True, w'))"

section \<open>The sender\<close>

definition with_item :: "envelope_item \<Rightarrow> envelope \<Rightarrow> envelope" where
  "with_item item envelope = add_item item envelope"

text \<open>The closure around the builder: attach the pending client report.\<close>

definition attach_report ::
  "systime \<Rightarrow> (net \<Rightarrow> net \<times> envelope option) \<Rightarrow> net \<Rightarrow> net \<times> envelope option" where
  "attach_report now builder w =
     (case builder w of
        (w', None) \<Rightarrow> (w', None)
      | (w', Some envelope) \<Rightarrow>
          (case take_pending_report now (net_agg w') of
             (Some client_report, agg) \<Rightarrow>
               (w'\<lparr>net_agg := agg\<rparr>, Some (with_item (IClientReport client_report) envelope))
           | (None, agg) \<Rightarrow> (w'\<lparr>net_agg := agg\<rparr>, Some envelope)))"

definition sender_send_with ::
  "systime \<Rightarrow> sender \<Rightarrow> (net \<Rightarrow> net \<times> envelope option) \<Rightarrow> net \<Rightarrow> net" where
  "sender_send_with now sl builder w = slot_send_envelope_with sl (attach_report now builder) w"

definition sender_send :: "systime \<Rightarrow> sender \<Rightarrow> envelope \<Rightarrow> net \<Rightarrow> net" where
  "sender_send now sl envelope w = sender_send_with now sl (\<lambda>w. (w, Some envelope)) w"

definition sender_new :: "nat \<Rightarrow> net \<Rightarrow> sender \<times> net" where
  "sender_new t w = slot_new t (w\<lparr>net_agg := aggregator_new\<rparr>)"

definition sender_record_lost_data :: "loss list \<Rightarrow> reason \<Rightarrow> net \<Rightarrow> net" where
  "sender_record_lost_data losses rsn w = w\<lparr>net_agg := record_lost_data losses rsn (net_agg w)\<rparr>"

definition sender_record_loss :: "category \<Rightarrow> reason \<Rightarrow> u64 \<Rightarrow> net \<Rightarrow> net" where
  "sender_record_loss c rsn q w = w\<lparr>net_agg := record_loss c rsn q (net_agg w)\<rparr>"

definition sender_flush :: "bool \<Rightarrow> sender \<Rightarrow> duration \<Rightarrow> net \<Rightarrow> bool \<times> net" where
  "sender_flush answer sl timeout w = slot_flush answer sl timeout w"

definition sender_shutdown :: "bool \<Rightarrow> sender \<Rightarrow> duration \<Rightarrow> net \<Rightarrow> bool \<times> net" where
  "sender_shutdown answer sl timeout w = slot_shutdown answer sl timeout w"

definition clone_with_new_transport_slot :: "sender \<Rightarrow> net \<Rightarrow> sender \<times> net" where
  "clone_with_new_transport_slot sl w = clone_into_new_slot sl w"

definition sender_is_enabled :: "sender \<Rightarrow> net \<Rightarrow> bool" where
  "sender_is_enabled sl w = is_occupied sl w"

definition net_empty :: net where
  "net_empty = \<lparr>net_slots = (\<lambda>_. None), net_next = 0, net_agg = aggregator_new, net_calls = []\<rparr>"

section \<open>Lemmas\<close>

lemma call_fields [simp]:
  "net_slots (call c w) = net_slots w" "net_next (call c w) = net_next w"
  "net_agg (call c w) = net_agg w" "net_calls (call c w) = net_calls w @ [c]"
  by (simp_all add: call_def)

definition net_inv :: "net \<Rightarrow> bool" where
  "net_inv w \<longleftrightarrow> agg_inv (net_agg w) \<and> (\<forall>sl. net_next w \<le> sl \<longrightarrow> net_slots w sl = None)"

lemma net_inv_empty [simp]: "net_inv net_empty"
  by (simp add: net_inv_def net_empty_def)

lemma net_inv_agg [simp]: "net_inv w \<Longrightarrow> agg_inv (net_agg w)"
  by (simp add: net_inv_def)

lemma net_inv_call [simp]: "net_inv (call c w) \<longleftrightarrow> net_inv w"
  by (simp add: net_inv_def)

lemma net_inv_set_agg: "net_inv w \<Longrightarrow> agg_inv a \<Longrightarrow> net_inv (w\<lparr>net_agg := a\<rparr>)"
  by (simp add: net_inv_def)

lemma net_inv_record [simp, intro]:
  "net_inv w \<Longrightarrow> net_inv (sender_record_lost_data ls rsn w)"
  "net_inv w \<Longrightarrow> net_inv (sender_record_loss c rsn q w)"
  by (simp_all add: sender_record_lost_data_def sender_record_loss_def net_inv_set_agg)

lemma net_inv_slot_new: "net_inv w \<Longrightarrow> net_inv (snd (slot_new t w))"
  by (simp add: net_inv_def slot_new_def)

lemma net_inv_slot_shutdown: "net_inv w \<Longrightarrow> net_inv (snd (slot_shutdown b sl timeout w))"
  by (auto simp: net_inv_def slot_shutdown_def Let_def split: option.split)

lemma sender_send_eq:
  "sender_send now sl env w =
     (case net_slots w sl of
        None \<Rightarrow> w
      | Some t \<Rightarrow>
          (case take_pending_report now (net_agg w) of
             (Some r, agg) \<Rightarrow> call (CallSend t (add_item (IClientReport r) env)) (w\<lparr>net_agg := agg\<rparr>)
           | (None, agg) \<Rightarrow> call (CallSend t env) (w\<lparr>net_agg := agg\<rparr>)))"
  by (simp add: sender_send_def sender_send_with_def slot_send_envelope_with_def attach_report_def
      with_item_def split: option.split prod.split)

lemma sender_send_slots [simp]:
  "net_slots (sender_send now sl env w) = net_slots w"
  "net_next (sender_send now sl env w) = net_next w"
  by (auto simp: sender_send_eq split: option.split prod.split)

lemma net_inv_sender_send [simp, intro]: "net_inv w \<Longrightarrow> net_inv (sender_send now sl env w)"
  using agg_inv_take [of "net_agg w" now]
  by (cases "take_pending_report now (net_agg w)")
    (auto simp: sender_send_eq net_inv_set_agg split: option.split)

lemma sender_send_empty [simp]: "net_slots w sl = None \<Longrightarrow> sender_send now sl env w = w"
  by (simp add: sender_send_eq)

lemma sender_send_calls:
  assumes "net_slots w sl = Some t"
  shows "\<exists>env'. net_calls (sender_send now sl env w) = net_calls w @ [CallSend t env'] \<and>
     (env' = env \<or> (\<exists>r. env' = add_item (IClientReport r) env))"
  using assms by (auto simp: sender_send_eq split: option.split prod.split)

text \<open>The envelope that arrives: its items, at most one report, and its headers.\<close>

lemma sender_send_report:
  assumes "net_slots w sl = Some t" and "env_items env = EnvelopeItems its"
  shows "\<exists>env' reports. net_calls (sender_send now sl env w) = net_calls w @ [CallSend t env'] \<and>
    items_of env' = its @ map IClientReport reports \<and> length reports \<le> 1 \<and>
    env_headers env' = env_headers env"
proof -
  obtain env' where calls: "net_calls (sender_send now sl env w) = net_calls w @ [CallSend t env']"
    and env': "env' = env \<or> (\<exists>r. env' = add_item (IClientReport r) env)"
    using sender_send_calls [OF assms(1)] by blast
  from env' show ?thesis
  proof (elim disjE exE)
    assume "env' = env"
    then show ?thesis using calls assms(2) by (intro exI [of _ env'] exI [of _ "[]"]) (simp add: items_of_def)
  next
    fix r
    assume "env' = add_item (IClientReport r) env"
    then show ?thesis
      using calls assms(2)
      by (intro exI [of _ env'] exI [of _ "[r]"]) (simp add: items_of_def add_item_def Let_def)
  qed
qed

text \<open>A report attached to an envelope does not disturb its other items.\<close>

lemma items_of_add_item_cases:
  "items_of (add_item it env) =
     (case env_items env of EnvelopeItems its \<Rightarrow> its @ [it] | RawBytes _ \<Rightarrow> [])"
  by (simp add: add_item_def items_of_def Let_def split: items.split)

section \<open>Properties\<close>

text \<open>
  C13: Sending through an open slot makes exactly one call on its transport and takes every pending loss. An
  envelope of items arrives with one client report after its own items if and only if some loss
  was pending, and that report holds exactly the pending losses. A raw envelope arrives as it is: it cannot take
  the report, whose losses are gone.
\<close>

theorem send_attaches_pending_losses:
  assumes "net_inv w" and "net_slots w sl = Some t"
  shows "(\<forall>c s. agg_abs (net_agg (sender_send now sl env w)) c s = 0) \<and>
    (case env_items env of
       RawBytes bytes \<Rightarrow> net_calls (sender_send now sl env w) = net_calls w @ [CallSend t env]
     | EnvelopeItems its \<Rightarrow> \<exists>reports. net_calls (sender_send now sl env w) =
           net_calls w @ [CallSend t (add_items (map IClientReport reports) env)] \<and>
         (reports = [] \<longleftrightarrow> (\<forall>c s. agg_abs (net_agg w) c s = 0)) \<and> length reports \<le> 1 \<and>
         (\<forall>r \<in> set reports. \<forall>c s q.
            \<lparr>it_category = c, it_reason = s, it_quantity = q\<rparr> \<in> set (rep_discarded_events r) \<longleftrightarrow>
            q = agg_abs (net_agg w) c s \<and> q \<noteq> 0))"
proof -
  obtain items a where vec: "take_pending_report_vec (net_agg w) = (items, a)"
    by (cases "take_pending_report_vec (net_agg w)")
  have inv: "agg_inv (net_agg w)" using assms(1) by simp
  note take = take_report_cases [OF vec, of now]
  note facts = take_vec_agg(2) [OF inv vec] take_vec_items [OF inv vec] take_vec_empty_iff [OF inv vec]
  show ?thesis
  proof (cases "env_items env")
    case (RawBytes bytes)
    then show ?thesis using assms take facts by (simp add: sender_send_eq add_item_def)
  next
    case (EnvelopeItems its)
    show ?thesis
    proof (cases "items = []")
      case True
      then show ?thesis
        using assms EnvelopeItems take facts by (simp add: sender_send_eq)
    next
      case False
      then have "(\<forall>c s. agg_abs (net_agg (sender_send now sl env w)) c s = 0) \<and>
          net_calls (sender_send now sl env w) =
            net_calls w @ [CallSend t (add_items (map IClientReport [report_new now items]) env)]"
        using assms take facts by (simp add: sender_send_eq add_items_Cons) blast
      then show ?thesis
        using False EnvelopeItems facts
        by (simp only: items.case) (intro conjI exI [of _ "[report_new now items]"]; auto simp: report_new_def)
    qed
  qed
qed

definition one_slot :: net where
  "one_slot = net_empty\<lparr>net_slots := (\<lambda>_. None)(0 := Some 7), net_next := 1\<rparr>"

lemma one_slot_simps [simp]: "net_inv one_slot" "net_slots one_slot 0 = Some 7"
  by (simp_all add: one_slot_def net_inv_def net_empty_def)

lemma send_attaches_pending_losses_witness:
  "\<exists>reports. net_calls (sender_send 3 0 sample_envelope
        (sender_record_loss CatError BeforeSend 2 one_slot)) =
      [CallSend 7 (add_items (map IClientReport reports) sample_envelope)] \<and> reports \<noteq> []"
proof -
  let ?w = "sender_record_loss CatError BeforeSend 2 one_slot"
  have "net_inv ?w" "net_slots ?w 0 = Some 7" "net_calls ?w = []"
    by (simp_all add: sender_record_loss_def net_inv_set_agg) (simp add: one_slot_def net_empty_def)
  moreover have "agg_abs (net_agg ?w) CatError BeforeSend = 2"
    by (simp add: sender_record_loss_def) (simp add: one_slot_def net_empty_def)
  ultimately show ?thesis
    using send_attaches_pending_losses [of ?w 0 7 3 sample_envelope] sample_envelope_items
    by fastforce
qed

text \<open>
  Once a slot is shut down, nothing reaches a transport through it any more: sending runs
  no builder and changes nothing, flushing and shutting down again answer \<open>true\<close> without a
  call. Slots cloned off before keep their transport.
\<close>

theorem shutdown_is_final:
  assumes "w' = snd (sender_shutdown answer sl timeout w)"
  shows "sender_send_with now sl builder w' = w' \<and>
    sender_flush answer' sl timeout' w' = (True, w') \<and>
    sender_shutdown answer' sl timeout' w' = (True, w') \<and>
    \<not> sender_is_enabled sl w' \<and>
    (sl' \<noteq> sl \<longrightarrow> net_slots w' sl' = net_slots w sl')"
  unfolding assms
  by (auto simp: sender_shutdown_def slot_shutdown_def sender_send_with_def
      slot_send_envelope_with_def sender_flush_def slot_flush_def sender_is_enabled_def
      is_occupied_def Let_def fun_upd_idem split: option.split)

end
