(* ===== verification/Batcher.thy ===== *)
theory Batcher
  imports Sender
begin

text \<open>
  The batcher of logs and metrics (\<open>sentry-core/src/client/batcher.rs\<close>): a bounded queue
  that is flushed as one envelope when it is full, every five seconds by a worker thread, on
  request and on drop. The contract of a bounded batching queue is the locale
  \<open>batch_queue\<close>; that of the conversion of a batch into an envelope item (the trait
  \<open>IntoBatchEnvelopeItem\<close>) is the locale \<open>batch_item\<close>, which both kinds of items interpret.
\<close>

section \<open>The batcher\<close>

definition max_items :: nat where
  "max_items = 100"

definition flush_interval :: duration where
  "flush_interval = from_secs 5"

record 'a batcher =
  bt_queue :: "'a list"
  bt_sender :: sender
  bt_shutdown :: bool
  bt_last_flush :: systime
  bt_worker_done :: bool

definition batcher_new :: "systime \<Rightarrow> sender \<Rightarrow> 'a batcher" where
  "batcher_new now sl =
     \<lparr>bt_queue = [], bt_sender = sl, bt_shutdown = False, bt_last_flush = now,
      bt_worker_done = False\<rparr>"

text \<open>\<open>into\<close> is \<open>T::into_envelope_item\<close>; \<open>now\<close> is the reading for an attached client report.\<close>

definition flush_queue_internal ::
  "('a list \<Rightarrow> envelope_item) \<Rightarrow> systime \<Rightarrow> 'a batcher \<times> net \<Rightarrow> 'a batcher \<times> net" where
  "flush_queue_internal into now s =
     (let items = bt_queue (fst s); b = (fst s)\<lparr>bt_queue := []\<rparr> in
      if items = [] then (b, snd s)
      else (b, sender_send now (bt_sender b) (add_item (into items) envelope_new) (snd s)))"

definition batcher_enqueue ::
  "('a list \<Rightarrow> envelope_item) \<Rightarrow> systime \<Rightarrow> 'a \<Rightarrow> 'a batcher \<times> net \<Rightarrow> 'a batcher \<times> net" where
  "batcher_enqueue into now item s =
     (let b = (fst s)\<lparr>bt_queue := bt_queue (fst s) @ [item]\<rparr> in
      if length (bt_queue b) \<ge> max_items then flush_queue_internal into now (b, snd s)
      else (b, snd s))"

definition batcher_flush ::
  "('a list \<Rightarrow> envelope_item) \<Rightarrow> systime \<Rightarrow> 'a batcher \<times> net \<Rightarrow> 'a batcher \<times> net" where
  "batcher_flush into now s = flush_queue_internal into now s"

text \<open>
  One round of the worker's loop, after \<open>wait_timeout\<close> returned (on time, early, or notified)
  at the instant \<open>t\<close>; \<open>t'\<close> is the reading after a flush.
\<close>

definition worker_wake ::
  "('a list \<Rightarrow> envelope_item) \<Rightarrow> systime \<Rightarrow> systime \<Rightarrow> systime \<Rightarrow> 'a batcher \<times> net \<Rightarrow>
   'a batcher \<times> net" where
  "worker_wake into now t t' s =
     (if bt_worker_done (fst s) then s
      else if bt_shutdown (fst s) then ((fst s)\<lparr>bt_worker_done := True\<rparr>, snd s)
      else if t - bt_last_flush (fst s) \<ge> flush_interval then
        (case flush_queue_internal into now s of (b, w) \<Rightarrow> (b\<lparr>bt_last_flush := t'\<rparr>, w))
      else s)"

text \<open>\<open>Drop\<close>: tell the worker, join it (it returns), flush what is left.\<close>

definition batcher_drop ::
  "('a list \<Rightarrow> envelope_item) \<Rightarrow> systime \<Rightarrow> 'a batcher \<times> net \<Rightarrow> 'a batcher \<times> net" where
  "batcher_drop into now s =
     flush_queue_internal into now
       ((fst s)\<lparr>bt_shutdown := True, bt_worker_done := True\<rparr>, snd s)"

section \<open>The contract of a batching queue\<close>

text \<open>
  \<open>submit op\<close> adds the item \<open>item_of op\<close>; \<open>pending\<close> is what is queued, \<open>sent\<close> the batches
  handed to the transport so far. Nothing is lost, duplicated or reordered, a batch is never
  empty or too large, and less than a full batch stays queued.
\<close>

locale batch_queue =
  fixes submit :: "'op \<Rightarrow> 's \<Rightarrow> 's"
    and item_of :: "'op \<Rightarrow> 'a"
    and pending :: "'s \<Rightarrow> 'a list"
    and sent :: "'s \<Rightarrow> 'a list list"
    and limit :: nat
    and inv :: "'s \<Rightarrow> bool"
  assumes inv_submit: "inv s \<Longrightarrow> inv (submit x s)"
    and inv_pending: "inv s \<Longrightarrow> length (pending s) < limit"
    and fifo: "inv s \<Longrightarrow>
      concat (sent (submit x s)) @ pending (submit x s) = concat (sent s) @ pending s @ [item_of x]"
    and new_batches: "inv s \<Longrightarrow>
      \<exists>bs. sent (submit x s) = sent s @ bs \<and> (\<forall>b \<in> set bs. b \<noteq> [] \<and> length b \<le> limit)"
begin

lemma submit_all:
  "inv s \<Longrightarrow>
   inv (fold submit xs s) \<and>
   concat (sent (fold submit xs s)) @ pending (fold submit xs s) =
     concat (sent s) @ pending s @ map item_of xs \<and>
   (\<exists>bs. sent (fold submit xs s) = sent s @ bs \<and> (\<forall>b \<in> set bs. b \<noteq> [] \<and> length b \<le> limit))"
proof (induction xs arbitrary: s)
  case (Cons x xs)
  obtain bs where bs: "sent (submit x s) = sent s @ bs" "\<forall>b \<in> set bs. b \<noteq> [] \<and> length b \<le> limit"
    using new_batches [OF Cons.prems] by blast
  from Cons.IH [OF inv_submit [OF Cons.prems], of x] obtain bs'
    where "inv (fold submit (x # xs) s)"
      "concat (sent (fold submit (x # xs) s)) @ pending (fold submit (x # xs) s) =
        concat (sent (submit x s)) @ pending (submit x s) @ map item_of xs"
      "sent (fold submit (x # xs) s) = sent (submit x s) @ bs'"
      "\<forall>b \<in> set bs'. b \<noteq> [] \<and> length b \<le> limit"
    by auto
  then show ?case
    using bs fifo [OF Cons.prems, of x] by (intro conjI exI [of _ "bs @ bs'"]) auto
qed auto

lemma pending_bounded: "inv s \<Longrightarrow> length (pending (fold submit xs s)) < limit"
  using submit_all inv_pending by blast

end

section \<open>Batches on the wire\<close>

text \<open>The batches in the calls to the transport, read back by \<open>from\<close>.\<close>

fun call_batches :: "(envelope_item \<Rightarrow> 'a list option) \<Rightarrow> transport_call \<Rightarrow> 'a list list" where
  "call_batches batch_of (CallSend t env) = List.map_filter batch_of (items_of env)"
| "call_batches batch_of _ = []"

definition sent_batches :: "(envelope_item \<Rightarrow> 'a list option) \<Rightarrow> 'a batcher \<times> net \<Rightarrow> 'a list list" where
  "sent_batches batch_of s = concat (map (call_batches batch_of) (net_calls (snd s)))"

definition batcher_inv :: "'a batcher \<times> net \<Rightarrow> bool" where
  "batcher_inv s \<longleftrightarrow>
     length (bt_queue (fst s)) < max_items \<and> net_slots (snd s) (bt_sender (fst s)) \<noteq> None"

locale batch_item =
  fixes into :: "'a list \<Rightarrow> envelope_item"
    and batch_of :: "envelope_item \<Rightarrow> 'a list option"
  assumes batch_of_into: "batch_of (into xs) = Some xs"
    and batch_of_report: "batch_of (IClientReport r) = None"
begin

lemma flush_sent:
  assumes "net_slots (snd s) (bt_sender (fst s)) \<noteq> None"
  shows "sent_batches batch_of (flush_queue_internal into now s) =
     sent_batches batch_of s @ (if bt_queue (fst s) = [] then [] else [bt_queue (fst s)])"
proof (cases "bt_queue (fst s) = []")
  case False
  obtain t where t: "net_slots (snd s) (bt_sender (fst s)) = Some t" using assms by blast
  obtain env' where env': "net_calls (sender_send now (bt_sender (fst s))
      (add_item (into (bt_queue (fst s))) envelope_new) (snd s))
      = net_calls (snd s) @ [CallSend t env']"
    "env' = add_item (into (bt_queue (fst s))) envelope_new \<or>
     (\<exists>r. env' = add_item (IClientReport r) (add_item (into (bt_queue (fst s))) envelope_new))"
    using sender_send_calls [OF t] by metis
  have one: "items_of (add_item (into q) envelope_new) = [into q]" for q
    by (simp add: items_of_add_item_cases envelope_new_def)
  have two: "items_of (add_item (IClientReport r) (add_item (into q) envelope_new))
      = [into q, IClientReport r]" for q r
    using items_of_add_items [of "[into q, IClientReport r]"] by (simp add: add_items_Cons)
  have "call_batches batch_of (CallSend t env') = [bt_queue (fst s)]"
    using env'(2) one two
    by (auto simp: List.map_filter_simps batch_of_into batch_of_report)
  with False env'(1) show ?thesis
    by (simp add: flush_queue_internal_def sent_batches_def Let_def)
qed (simp add: flush_queue_internal_def sent_batches_def Let_def)

lemma flush_fields:
  "bt_queue (fst (flush_queue_internal into now s)) = []"
  "bt_sender (fst (flush_queue_internal into now s)) = bt_sender (fst s)"
  "net_slots (snd (flush_queue_internal into now s)) = net_slots (snd s)"
  by (simp_all add: flush_queue_internal_def Let_def)

lemma enqueue_sent:
  assumes "batcher_inv s"
  shows "sent_batches batch_of (batcher_enqueue into now item s) =
      sent_batches batch_of s @ (if Suc (length (bt_queue (fst s))) < max_items then []
        else [bt_queue (fst s) @ [item]])"
    and "bt_queue (fst (batcher_enqueue into now item s)) =
      (if Suc (length (bt_queue (fst s))) < max_items then bt_queue (fst s) @ [item] else [])"
proof -
  let ?s = "((fst s)\<lparr>bt_queue := bt_queue (fst s) @ [item]\<rparr>, snd s)"
  have "net_slots (snd ?s) (bt_sender (fst ?s)) \<noteq> None"
    using assms by (simp add: batcher_inv_def)
  from flush_sent [OF this, of now] flush_fields(1) [of now ?s]
  show "sent_batches batch_of (batcher_enqueue into now item s) =
      sent_batches batch_of s @ (if Suc (length (bt_queue (fst s))) < max_items then []
        else [bt_queue (fst s) @ [item]])"
    and "bt_queue (fst (batcher_enqueue into now item s)) =
      (if Suc (length (bt_queue (fst s))) < max_items then bt_queue (fst s) @ [item] else [])"
    by (simp_all add: batcher_enqueue_def Let_def sent_batches_def)
qed

lemma enqueue_inv: "batcher_inv s \<Longrightarrow> batcher_inv (batcher_enqueue into now item s)"
  using enqueue_sent(2) [of s now item] flush_fields
  by (auto simp: batcher_inv_def batcher_enqueue_def Let_def max_items_def)

end

text \<open>Every batched item type gives a batching queue with limit \<open>MAX_ITEMS\<close>.\<close>

sublocale batch_item \<subseteq> queue: batch_queue
  "\<lambda>(now, item). batcher_enqueue into now item" snd "\<lambda>s. bt_queue (fst s)" "sent_batches batch_of"
  max_items batcher_inv
proof
  fix s :: "'a batcher \<times> net" and x :: "systime \<times> 'a"
  assume inv: "batcher_inv s"
  obtain now item where x: "x = (now, item)" by (cases x)
  note sent = enqueue_sent [OF inv, of now item]
  show "batcher_inv ((case x of (now, item) \<Rightarrow> batcher_enqueue into now item) s)"
    using enqueue_inv [OF inv] by (simp add: x)
  show "length (bt_queue (fst s)) < max_items"
    using inv by (simp add: batcher_inv_def)
  show "concat (sent_batches batch_of ((case x of (now, item) \<Rightarrow> batcher_enqueue into now item) s)) @
      bt_queue (fst ((case x of (now, item) \<Rightarrow> batcher_enqueue into now item) s)) =
      concat (sent_batches batch_of s) @ bt_queue (fst s) @ [snd x]"
    by (simp add: x sent)
  show "\<exists>bs. sent_batches batch_of ((case x of (now, item) \<Rightarrow> batcher_enqueue into now item) s) =
      sent_batches batch_of s @ bs \<and> (\<forall>b \<in> set bs. b \<noteq> [] \<and> length b \<le> max_items)"
    using inv by (simp add: x sent batcher_inv_def)
qed

fun logs_of :: "envelope_item \<Rightarrow> log list option" where
  "logs_of (IItemContainer (Logs ls)) = Some ls"
| "logs_of _ = None"

fun metrics_of :: "envelope_item \<Rightarrow> metric list option" where
  "metrics_of (IItemContainer (Metrics ms)) = Some ms"
| "metrics_of _ = None"

text \<open>\<open>From<Vec<Log>> for EnvelopeItem\<close> and its twin for metrics.\<close>

definition item_of_logs :: "log list \<Rightarrow> envelope_item" where
  "item_of_logs ls = IItemContainer (Logs ls)"

definition item_of_metrics :: "metric list \<Rightarrow> envelope_item" where
  "item_of_metrics ms = IItemContainer (Metrics ms)"

interpretation log_batch: batch_item item_of_logs logs_of
  by unfold_locales (simp_all add: item_of_logs_def)

interpretation metric_batch: batch_item item_of_metrics metrics_of
  by unfold_locales (simp_all add: item_of_metrics_def)

section \<open>Several threads\<close>

text \<open>
  Threads that log, the worker and a flush share the queue through its mutex, but the lock is
  released before the batch is sent: a batch that was taken is in flight until its thread
  hands it to the sender. A step is one critical section, or one hand-over.
\<close>

record 'a batch_machine =
  bm_queue :: "'a list"
  bm_flight :: "'a list multiset"
  bm_sent :: "'a list list"
  bm_submitted :: "'a multiset"

definition bm_init :: "'a batch_machine" where
  "bm_init = \<lparr>bm_queue = [], bm_flight = {#}, bm_sent = [], bm_submitted = {#}\<rparr>"

inductive batch_step :: "'a batch_machine \<Rightarrow> 'a batch_machine \<Rightarrow> bool" where
  push_below: "length (bm_queue m @ [x]) < max_items \<Longrightarrow>
    batch_step m (m\<lparr>bm_queue := bm_queue m @ [x], bm_submitted := add_mset x (bm_submitted m)\<rparr>)"
| push_full: "\<not> length (bm_queue m @ [x]) < max_items \<Longrightarrow>
    batch_step m (m\<lparr>bm_queue := [], bm_flight := add_mset (bm_queue m @ [x]) (bm_flight m),
      bm_submitted := add_mset x (bm_submitted m)\<rparr>)"
| take_queue: "bm_queue m \<noteq> [] \<Longrightarrow>
    batch_step m (m\<lparr>bm_queue := [], bm_flight := add_mset (bm_queue m) (bm_flight m)\<rparr>)"
| hand_over: "b \<in># bm_flight m \<Longrightarrow>
    batch_step m (m\<lparr>bm_flight := bm_flight m - {#b#}, bm_sent := bm_sent m @ [b]\<rparr>)"

inductive batch_reachable :: "'a batch_machine \<Rightarrow> bool" where
  bm_start: "batch_reachable bm_init"
| bm_step: "batch_reachable m \<Longrightarrow> batch_step m m' \<Longrightarrow> batch_reachable m'"

definition batch_ok :: "'a list \<Rightarrow> bool" where
  "batch_ok b \<longleftrightarrow> b \<noteq> [] \<and> length b \<le> max_items"

definition batch_inv :: "'a batch_machine \<Rightarrow> bool" where
  "batch_inv m \<longleftrightarrow> length (bm_queue m) < max_items \<and>
     (\<forall>b \<in># bm_flight m. batch_ok b) \<and> (\<forall>b \<in> set (bm_sent m). batch_ok b) \<and>
     bm_submitted m = mset (bm_queue m) + sum_mset (image_mset mset (bm_flight m))
       + mset (concat (bm_sent m))"

lemma batch_step_inv: "batch_step m m' \<Longrightarrow> batch_inv m \<Longrightarrow> batch_inv m'"
proof (induction rule: batch_step.induct)
  case (hand_over b m)
  obtain F where F: "bm_flight m = add_mset b F" using hand_over(1) by (metis insert_DiffM)
  show ?case using hand_over(2) by (simp add: batch_inv_def F)
qed (auto simp: batch_inv_def batch_ok_def max_items_def)

lemma batch_reachable_inv: "batch_reachable m \<Longrightarrow> batch_inv m"
proof (induction rule: batch_reachable.induct)
  case bm_start
  show ?case by (simp add: batch_inv_def bm_init_def max_items_def)
qed (rule batch_step_inv)

section \<open>Properties\<close>

text \<open>
  The log batcher delivers: after any sequence of logs and a final flush, the batches that
  went to the transport contain the previously queued logs and the new ones, each exactly
  once and in order; every new batch has between 1 and \<open>MAX_ITEMS\<close> logs; and before the
  flush fewer than \<open>MAX_ITEMS\<close> were waiting.
\<close>

theorem log_batcher_delivers:
  assumes "batcher_inv s"
    and "s' = fold (\<lambda>(now, item). batcher_enqueue item_of_logs now item) submitted s"
    and "s'' = batcher_flush item_of_logs now s'"
  shows "length (bt_queue (fst s')) < max_items \<and> bt_queue (fst s'') = [] \<and>
    concat (sent_batches logs_of s'') =
      concat (sent_batches logs_of s) @ bt_queue (fst s) @ map snd submitted \<and>
    (\<exists>bs. sent_batches logs_of s'' = sent_batches logs_of s @ bs \<and>
       (\<forall>b \<in> set bs. b \<noteq> [] \<and> length b \<le> max_items))"
proof -
  note all = log_batch.queue.submit_all [OF assms(1), of submitted, folded assms(2)]
  have open_slot: "net_slots (snd s') (bt_sender (fst s')) \<noteq> None"
    and short: "length (bt_queue (fst s')) < max_items"
    using all by (simp_all add: batcher_inv_def)
  note flush = log_batch.flush_sent [OF open_slot, of now, folded batcher_flush_def assms(3)]
  obtain bs where bs: "sent_batches logs_of s' = sent_batches logs_of s @ bs"
    "\<forall>b \<in> set bs. b \<noteq> [] \<and> length b \<le> max_items"
    using all by blast
  have "bt_queue (fst s'') = []"
    by (simp add: assms(3) batcher_flush_def log_batch.flush_fields)
  moreover have "concat (sent_batches logs_of s'') =
      concat (sent_batches logs_of s) @ bt_queue (fst s) @ map snd submitted"
    using all flush by (cases "bt_queue (fst s') = []") simp_all
  moreover have "\<exists>bs. sent_batches logs_of s'' = sent_batches logs_of s @ bs \<and>
       (\<forall>b \<in> set bs. b \<noteq> [] \<and> length b \<le> max_items)"
    using flush bs short
    by (intro exI [of _ "bs @ (if bt_queue (fst s') = [] then [] else [bt_queue (fst s')])"]) auto
  ultimately show ?thesis using short by blast
qed

definition sample_log :: log where
  "sample_log = \<lparr>log_level = LInfo, log_body = ''hello'', log_trace_id = None, log_timestamp = 0,
     log_severity_number = None, log_attributes = []\<rparr>"

lemma log_batcher_delivers_witness:
  "concat (sent_batches logs_of (batcher_flush item_of_logs 9
     (fold (\<lambda>(now, item). batcher_enqueue item_of_logs now item) [(1, sample_log), (2, sample_log)]
       (batcher_new 0 0, one_slot)))) = [sample_log, sample_log]"
proof -
  have "batcher_inv (batcher_new 0 0 :: log batcher, one_slot)"
    by (simp add: batcher_inv_def batcher_new_def max_items_def)
  from log_batcher_delivers [OF this refl refl, of "[(1, sample_log), (2, sample_log)]" 9]
  show ?thesis
    by (simp add: sent_batches_def batcher_new_def one_slot_def net_empty_def)
qed

text \<open>
  C7: However submitting threads, the worker and flushes interleave, every submitted item is in
  exactly one place (queued, in a batch in flight, or sent), as often as it was submitted;
  the queue never holds \<open>MAX_ITEMS\<close> items and no batch is empty or larger than that.
\<close>

theorem batching_conserves:
  assumes "batch_reachable m"
  shows "bm_submitted m = mset (bm_queue m) + sum_mset (image_mset mset (bm_flight m))
      + mset (concat (bm_sent m)) \<and>
    length (bm_queue m) < max_items \<and>
    (\<forall>b \<in> set (bm_sent m). b \<noteq> [] \<and> length b \<le> max_items)"
  using batch_reachable_inv [OF assms] by (simp add: batch_inv_def batch_ok_def)

lemma batching_conserves_witness:
  "bm_submitted (bm_init\<lparr>bm_queue := [5 :: nat], bm_submitted := {#5#}\<rparr>) = {#5#}"
proof -
  have "batch_reachable (bm_init\<lparr>bm_queue := [5 :: nat], bm_submitted := {#5#}\<rparr>)"
    using batch_reachable.bm_step [OF batch_reachable.bm_start batch_step.push_below [of bm_init 5]]
    by (simp add: bm_init_def max_items_def)
  from batching_conserves [OF this] show ?thesis by simp
qed

text \<open>
  The worker flushes when and only when five seconds have passed since its last flush: it
  then empties the queue, sends the batch if there is one, and restarts the interval;
  earlier wake-ups change nothing, and once shutdown was requested it ends without sending.
\<close>

theorem worker_flushes_on_interval:
  assumes "net_slots (snd s) (bt_sender (fst s)) \<noteq> None" and "\<not> bt_worker_done (fst s)"
    and "s' = worker_wake item_of_logs now t t' s"
  shows "(if bt_shutdown (fst s) then bt_worker_done (fst s') \<and> snd s' = snd s
     else if t - bt_last_flush (fst s) < flush_interval then s' = s
     else bt_queue (fst s') = [] \<and> bt_last_flush (fst s') = t' \<and>
       sent_batches logs_of s' = sent_batches logs_of s @
         (if bt_queue (fst s) = [] then [] else [bt_queue (fst s)]))"
proof -
  obtain b w where flush: "flush_queue_internal item_of_logs now s = (b, w)"
    by (cases "flush_queue_internal item_of_logs now s")
  have "bt_queue b = []" using log_batch.flush_fields(1) [of now s] flush by simp
  moreover have "sent_batches logs_of (b\<lparr>bt_last_flush := t'\<rparr>, w) = sent_batches logs_of s @
         (if bt_queue (fst s) = [] then [] else [bt_queue (fst s)])"
    using log_batch.flush_sent [OF assms(1), of now] by (simp add: flush sent_batches_def)
  ultimately show ?thesis
    using assms(2) by (simp add: assms(3) worker_wake_def flush)
qed

end
