(* ===== verification/Session.thy ===== *)
theory Session
  imports Batcher
begin

text \<open>
  Release-health sessions (\<open>sentry-core/src/session.rs\<close>): the life of one \<open>Session\<close>, and the
  \<open>SessionFlusher\<close> that queues session updates individually or as per-minute aggregates. The
  flusher's queue of individual updates satisfies the contract \<open>batch_queue\<close> of
  \<open>Batcher\<close>. The counters of an aggregate are \<open>u32\<close> and wrap, as in a release build.
\<close>

section \<open>A session\<close>

record session =
  s_update :: session_update
  s_started :: systime
  s_dirty :: bool

text \<open>
  \<open>Session::from_stack\<close>: \<open>opts\<close> is the release and environment of the client's options, if
  there is a client; the id and the two clock readings are inputs.
\<close>

definition user_distinct_id :: "user \<Rightarrow> string option" where
  "user_distinct_id u =
     (case user_id u of Some i \<Rightarrow> Some i
      | None \<Rightarrow> (case user_email u of Some e \<Rightarrow> Some e | None \<Rightarrow> user_username u))"

definition session_from_stack ::
  "(string option \<times> string option) option \<Rightarrow> user option \<Rightarrow> uuid \<Rightarrow> systime \<Rightarrow> systime \<Rightarrow>
   session option" where
  "session_from_stack opts user fresh now instant =
     (case opts of None \<Rightarrow> None
      | Some (release, environment) \<Rightarrow>
          (let distinct_id = (case user of None \<Rightarrow> None | Some u \<Rightarrow> user_distinct_id u) in
           case release of None \<Rightarrow> None
           | Some rel \<Rightarrow>
               Some \<lparr>s_update =
                   \<lparr>su_session_id = fresh, su_distinct_id = distinct_id, su_sequence = None,
                    su_timestamp = None, su_started = now, su_init = True, su_duration = None,
                    su_status = StOk, su_errors = 0,
                    su_attributes = \<lparr>sa_release = rel, sa_environment = environment,
                      sa_ip_address = None, sa_user_agent = None\<rparr>\<rparr>,
                 s_started = instant, s_dirty = True\<rparr>))"

text \<open>The loop over the exceptions with its \<open>break\<close>: (has error, is crash).\<close>

fun scan_exceptions :: "bool \<Rightarrow> exception list \<Rightarrow> bool \<times> bool" where
  "scan_exceptions has_error [] = (has_error, False)"
| "scan_exceptions has_error (exc # excs) =
     (case exc_mechanism exc of
        Some mechanism \<Rightarrow>
          if mech_handled mechanism = Some False then (True, True) else scan_exceptions True excs
      | None \<Rightarrow> scan_exceptions True excs)"

definition update_from_event :: "event \<Rightarrow> session \<Rightarrow> session" where
  "update_from_event event s =
     (if su_status (s_update s) \<noteq> StOk then s
      else
        (let (has_error, is_crash) = scan_exceptions (ev_level event \<ge> Error) (ev_exception event);
             s1 = (if is_crash then s\<lparr>s_update := (s_update s)\<lparr>su_status := StCrashed\<rparr>\<rparr> else s)
         in if has_error
            then s1\<lparr>s_update := (s_update s1)\<lparr>su_errors := su_errors (s_update s1) + 1\<rparr>, s_dirty := True\<rparr>
            else s1))"

definition session_close :: "session_status \<Rightarrow> systime \<Rightarrow> session \<Rightarrow> session" where
  "session_close status instant s =
     (if su_status (s_update s) = StOk then
        s\<lparr>s_update := (s_update s)\<lparr>su_duration := Some (instant - s_started s),
                                 su_status := (case status of StOk \<Rightarrow> StExited | st \<Rightarrow> st)\<rparr>,
          s_dirty := True\<rparr>
      else s)"

definition create_envelope_item :: "session \<Rightarrow> session_update option \<times> session" where
  "create_envelope_item s =
     (if s_dirty s then
        (Some (s_update s), s\<lparr>s_update := (s_update s)\<lparr>su_init := False\<rparr>, s_dirty := False\<rparr>)
      else (None, s))"

text \<open>\<open>Drop for Session\<close>: what is handed to \<open>Client::enqueue_session\<close>.\<close>

definition session_drop :: "systime \<Rightarrow> session \<Rightarrow> session_update option" where
  "session_drop instant s =
     (let s' = session_close StExited instant s in if s_dirty s' then Some (s_update s') else None)"

section \<open>The life of a session\<close>

datatype session_op = OpEvent event | OpClose session_status systime | OpEnvelope

text \<open>The operations on a session, with the updates it emitted.\<close>

fun session_step :: "session_op \<Rightarrow> session \<times> session_update list \<Rightarrow> session \<times> session_update list" where
  "session_step (OpEvent e) (s, out) = (update_from_event e s, out)"
| "session_step (OpClose st t) (s, out) = (session_close st t s, out)"
| "session_step OpEnvelope (s, out) =
     (case create_envelope_item s of (None, s') \<Rightarrow> (s', out) | (Some u, s') \<Rightarrow> (s', out @ [u]))"

definition session_life :: "session_op list \<Rightarrow> systime \<Rightarrow> session \<Rightarrow> session_update list" where
  "session_life ops instant s =
     (case fold session_step ops (s, []) of
        (s', out) \<Rightarrow> out @ (case session_drop instant s' of None \<Rightarrow> [] | Some u \<Rightarrow> [u]))"

lemma scan_exceptions_crash: "scan_exceptions h excs = (e, True) \<Longrightarrow> e"
  by (induction excs arbitrary: h) (auto split: option.splits if_splits)

lemma scan_exceptions_eq:
  "scan_exceptions h excs =
     (h \<or> excs \<noteq> [],
      \<exists>exc \<in> set excs. \<exists>m. exc_mechanism exc = Some m \<and> mech_handled m = Some False)"
  by (induction excs arbitrary: h) (auto split: option.splits)

text \<open>
  What holds between operations. Before anything was emitted the session is dirty and marked
  \<open>init\<close>; a status that ends the session is emitted once, as the last update.
\<close>

definition session_inv :: "session \<times> session_update list \<Rightarrow> bool" where
  "session_inv st \<longleftrightarrow>
     (let s = fst st; out = snd st in
      (out = [] \<longrightarrow> s_dirty s) \<and>
      (su_init (s_update s) \<longleftrightarrow> out = []) \<and>
      (case out of [] \<Rightarrow> True | u # us \<Rightarrow> su_init u \<and> (\<forall>v \<in> set us. \<not> su_init v)) \<and>
      (\<forall>u \<in> set out. su_session_id u = su_session_id (s_update s) \<and>
         su_distinct_id u = su_distinct_id (s_update s)) \<and>
      (if su_status (s_update s) = StOk \<or> s_dirty s then \<forall>u \<in> set out. su_status u = StOk
       else out \<noteq> [] \<and> su_status (last out) \<noteq> StOk \<and> (\<forall>u \<in> set (butlast out). su_status u = StOk)))"

lemma update_from_event_fields:
  "su_init (s_update (update_from_event e s)) = su_init (s_update s)"
  "su_session_id (s_update (update_from_event e s)) = su_session_id (s_update s)"
  "su_distinct_id (s_update (update_from_event e s)) = su_distinct_id (s_update s)"
  "s_dirty s \<Longrightarrow> s_dirty (update_from_event e s)"
  "su_status (s_update s) \<noteq> StOk \<Longrightarrow> update_from_event e s = s"
  "su_status (s_update (update_from_event e s)) \<noteq> StOk \<Longrightarrow> su_status (s_update s) = StOk \<Longrightarrow>
     s_dirty (update_from_event e s)"
  by (auto simp: update_from_event_def scan_exceptions_eq Let_def split: if_splits)

lemma session_close_fields:
  "su_init (s_update (session_close st t s)) = su_init (s_update s)"
  "su_session_id (s_update (session_close st t s)) = su_session_id (s_update s)"
  "su_distinct_id (s_update (session_close st t s)) = su_distinct_id (s_update s)"
  "s_dirty s \<Longrightarrow> s_dirty (session_close st t s)"
  "su_status (s_update s) \<noteq> StOk \<Longrightarrow> session_close st t s = s"
  "su_status (s_update s) = StOk \<Longrightarrow> s_dirty (session_close st t s)"
  "su_status (s_update (session_close st t s)) \<noteq> StOk"
  by (auto simp: session_close_def split: session_status.split)

lemma session_invD:
  assumes "session_inv (s, out)"
  shows "su_init (s_update s) \<longleftrightarrow> out = []"
    and "case out of [] \<Rightarrow> True | u # us \<Rightarrow> su_init u \<and> (\<forall>v \<in> set us. \<not> su_init v)"
    and "u \<in> set out \<Longrightarrow> su_session_id u = su_session_id (s_update s)"
    and "su_status (s_update s) = StOk \<or> s_dirty s \<Longrightarrow> u \<in> set out \<Longrightarrow> su_status u = StOk"
    and "su_status (s_update s) \<noteq> StOk \<Longrightarrow> \<not> s_dirty s \<Longrightarrow>
      u \<in> set (butlast out) \<Longrightarrow> su_status u = StOk"
  using assms unfolding session_inv_def Let_def fst_conv snd_conv by metis+

lemma session_inv_change:
  assumes "session_inv (s, out)"
    and "su_init (s_update s') = su_init (s_update s)"
    and "su_session_id (s_update s') = su_session_id (s_update s)"
    and "su_distinct_id (s_update s') = su_distinct_id (s_update s)"
    and "s_dirty s \<Longrightarrow> s_dirty s'"
    and "su_status (s_update s) \<noteq> StOk \<Longrightarrow> s' = s"
    and "su_status (s_update s) = StOk \<Longrightarrow> su_status (s_update s') = StOk \<or> s_dirty s'"
  shows "session_inv (s', out)"
proof (cases "su_status (s_update s) = StOk")
  case True
  with assms show ?thesis by (auto simp: session_inv_def Let_def)
next
  case False
  with assms(1,6) show ?thesis by simp
qed

lemma session_inv_step: "session_inv st \<Longrightarrow> session_inv (session_step op st)"
proof (induction op st rule: session_step.induct)
  case (1 e s out)
  show ?case
    by (simp, rule session_inv_change [OF 1])
      (auto simp: update_from_event_fields dest: update_from_event_fields(6) [rotated])
next
  case (2 st t s out)
  show ?case
    by (simp, rule session_inv_change [OF 2]) (auto simp: session_close_fields)
next
  case (3 s out)
  show ?case
  proof (cases "s_dirty s")
    case False
    then show ?thesis using 3 by (simp add: create_envelope_item_def)
  next
    case True
    let ?u = "s_update s" and ?s = "s\<lparr>s_update := (s_update s)\<lparr>su_init := False\<rparr>, s_dirty := False\<rparr>"
    have ok: "\<forall>u \<in> set out. su_status u = StOk"
      and init: "su_init ?u \<longleftrightarrow> out = []"
      and first: "case out of [] \<Rightarrow> True | u # us \<Rightarrow> su_init u \<and> (\<forall>v \<in> set us. \<not> su_init v)"
      and ids: "\<forall>u \<in> set out. su_session_id u = su_session_id ?u \<and> su_distinct_id u = su_distinct_id ?u"
      using 3 True by (simp_all add: session_inv_def Let_def)
    have "case out @ [?u] of [] \<Rightarrow> True | u # us \<Rightarrow> su_init u \<and> (\<forall>v \<in> set us. \<not> su_init v)"
      using first init by (cases out) simp_all
    then have "session_inv (?s, out @ [?u])"
      using ok ids by (simp add: session_inv_def Let_def)
    then show ?thesis using True by (simp add: create_envelope_item_def)
  qed
qed

lemma session_inv_fold: "session_inv st \<Longrightarrow> session_inv (fold session_step ops st)"
  by (induction ops arbitrary: st) (simp_all add: session_inv_step)

section \<open>The flusher\<close>

datatype session_mode = Application | Request

definition max_session_items :: nat where
  "max_session_items = 100"

record aggregation_key =
  ak_started :: systime
  ak_distinct_id :: "string option"

record aggregation_counts =
  ac_exited :: u32
  ac_errored :: u32
  ac_abnormal :: u32
  ac_crashed :: u32

definition counts_default :: aggregation_counts where
  "counts_default = \<lparr>ac_exited = 0, ac_errored = 0, ac_abnormal = 0, ac_crashed = 0\<rparr>"

text \<open>The buckets of a \<open>HashMap\<close>, listed in insertion order (the code fixes no order).\<close>

record aggregated_sessions =
  as_buckets :: "(aggregation_key \<times> aggregation_counts) list"
  as_attributes :: session_attributes

definition aggregates_item :: "aggregated_sessions \<Rightarrow> envelope_item" where
  "aggregates_item sessions =
     ISessionAggregates \<lparr>sag_aggregates =
         map (\<lambda>(key, counts).
           \<lparr>sai_started = ak_started key, sai_distinct_id = ak_distinct_id key,
            sai_exited = ac_exited counts, sai_errored = ac_errored counts,
            sai_abnormal = ac_abnormal counts, sai_crashed = ac_crashed counts\<rparr>)
         (as_buckets sessions),
       sag_attributes = as_attributes sessions\<rparr>"

record session_flusher =
  fl_sender :: sender
  fl_mode :: session_mode
  fl_individual :: "session_update list"
  fl_aggregated :: "aggregated_sessions option"

definition flusher_new :: "sender \<Rightarrow> session_mode \<Rightarrow> session_flusher" where
  "flusher_new sl mode =
     \<lparr>fl_sender = sl, fl_mode = mode, fl_individual = [], fl_aggregated = None\<rparr>"

text \<open>The loop over the individual updates: the envelope being filled and its item count.\<close>

fun send_loop ::
  "systime \<Rightarrow> sender \<Rightarrow> envelope \<Rightarrow> nat \<Rightarrow> session_update list \<Rightarrow> net \<Rightarrow> envelope \<times> net" where
  "send_loop now sl envelope items [] w = (envelope, w)"
| "send_loop now sl envelope items (u # us) w =
     (if items \<ge> max_session_items then
        send_loop now sl (add_item (ISessionUpdate u) envelope_new) 1 us
          (sender_send now sl envelope w)
      else send_loop now sl (add_item (ISessionUpdate u) envelope) (items + 1) us w)"

definition flusher_flush ::
  "systime \<Rightarrow> session_flusher \<times> net \<Rightarrow> session_flusher \<times> net" where
  "flusher_flush now s =
     (let queue = fl_individual (fst s); aggregate = fl_aggregated (fst s);
          f = (fst s)\<lparr>fl_individual := [], fl_aggregated := None\<rparr>;
          w = (case aggregate of
                 Some a \<Rightarrow> sender_send now (fl_sender f) (add_item (aggregates_item a) envelope_new) (snd s)
               | None \<Rightarrow> snd s)
      in if queue = [] then (f, w)
         else (case send_loop now (fl_sender f) envelope_new 0 queue w of
                 (envelope, w') \<Rightarrow> (f, sender_send now (fl_sender f) envelope w')))"

text \<open>\<open>buckets.entry(key).or_default()\<close> and the update of the bucket.\<close>

fun update_bucket ::
  "aggregation_key \<Rightarrow> (aggregation_counts \<Rightarrow> aggregation_counts) \<Rightarrow>
   (aggregation_key \<times> aggregation_counts) list \<Rightarrow> (aggregation_key \<times> aggregation_counts) list" where
  "update_bucket key f [] = [(key, f counts_default)]"
| "update_bucket key f ((k, c) # bs) =
     (if k = key then (k, f c) # bs else (k, c) # update_bucket key f bs)"

definition count_session :: "session_update \<Rightarrow> aggregation_counts \<Rightarrow> aggregation_counts" where
  "count_session u c =
     (case su_status u of
        StExited \<Rightarrow>
          if su_errors u > 0 then c\<lparr>ac_errored := ac_errored c + 1\<rparr>
          else c\<lparr>ac_exited := ac_exited c + 1\<rparr>
      | StCrashed \<Rightarrow> c\<lparr>ac_crashed := ac_crashed c + 1\<rparr>
      | StAbnormal \<Rightarrow> c\<lparr>ac_abnormal := ac_abnormal c + 1\<rparr>
      | StOk \<Rightarrow> c)"

text \<open>
  \<open>started\<close> rounded down to the minute; \<open>None\<close> is the panic of \<open>unwrap\<close> for a start before
  the epoch.
\<close>

definition aggregation_key_of :: "session_update \<Rightarrow> aggregation_key option" where
  "aggregation_key_of u =
     (case duration_since (su_started u) 0 of
        None \<Rightarrow> None
      | Some d \<Rightarrow>
          Some \<lparr>ak_started = from_secs ((d div nanos_per_sec) div 60 * 60),
                ak_distinct_id = su_distinct_id u\<rparr>)"

definition flusher_enqueue ::
  "systime \<Rightarrow> session_update \<Rightarrow> session_flusher \<times> net \<Rightarrow> (session_flusher \<times> net) option" where
  "flusher_enqueue now u s =
     (let f = fst s in
      if fl_mode f = Application \<or> \<not> su_init u then
        (let f' = f\<lparr>fl_individual := fl_individual f @ [u]\<rparr> in
         if length (fl_individual f') \<ge> max_session_items then Some (flusher_flush now (f', snd s))
         else Some (f', snd s))
      else
        (let aggregate = (case fl_aggregated f of
               Some a \<Rightarrow> a
             | None \<Rightarrow> \<lparr>as_buckets = [], as_attributes = su_attributes u\<rparr>)
         in case aggregation_key_of u of
              None \<Rightarrow> None
            | Some key \<Rightarrow>
                Some (f\<lparr>fl_aggregated := Some (aggregate\<lparr>as_buckets :=
                          update_bucket key (count_session u) (as_buckets aggregate)\<rparr>)\<rparr>, snd s)))"

text \<open>\<open>Drop for SessionFlusher\<close>: the worker is joined, then one last flush.\<close>

definition flusher_drop :: "systime \<Rightarrow> session_flusher \<times> net \<Rightarrow> session_flusher \<times> net" where
  "flusher_drop now s = flusher_flush now s"

section \<open>What the flusher sends\<close>

fun updates_of :: "envelope_item \<Rightarrow> session_update option" where
  "updates_of (ISessionUpdate u) = Some u"
| "updates_of _ = None"

fun call_sessions :: "transport_call \<Rightarrow> session_update list list" where
  "call_sessions (CallSend t env) =
     (let us = List.map_filter updates_of (items_of env) in if us = [] then [] else [us])"
| "call_sessions _ = []"

definition sent_sessions :: "net \<Rightarrow> session_update list list" where
  "sent_sessions w = concat (map call_sessions (net_calls w))"

definition chunk_ok :: "session_update list \<Rightarrow> bool" where
  "chunk_ok b \<longleftrightarrow> b \<noteq> [] \<and> length b \<le> max_session_items"

lemma map_filter_updates [simp]: "List.map_filter updates_of (map ISessionUpdate us) = us"
  by (induction us) (simp_all add: List.map_filter_simps)

lemma sent_sessions_send:
  assumes "net_slots w sl \<noteq> None"
  shows "sent_sessions (sender_send now sl (add_items its envelope_new) w) =
     sent_sessions w @ (let us = List.map_filter updates_of its in if us = [] then [] else [us])"
proof -
  obtain t where "net_slots w sl = Some t" using assms by blast
  then obtain env' where calls: "net_calls (sender_send now sl (add_items its envelope_new) w)
      = net_calls w @ [CallSend t env']"
    and env': "env' = add_items its envelope_new \<or>
      (\<exists>r. env' = add_item (IClientReport r) (add_items its envelope_new))"
    using sender_send_calls by blast
  have "items_of (add_item (IClientReport r) (add_items its envelope_new)) = its @ [IClientReport r]" for r
    by (rule items_of_add_item) (simp add: add_items_new)
  then have "List.map_filter updates_of (items_of env') = List.map_filter updates_of its"
    using env' by (auto simp: map_filter_append List.map_filter_simps)
  then show ?thesis using calls by (simp add: sent_sessions_def)
qed

lemma send_loop_sent:
  "\<lbrakk>send_loop now sl (add_items (map ISessionUpdate chunk) envelope_new) (length chunk) us w = (env', w');
    net_slots w sl \<noteq> None; length chunk \<le> max_session_items\<rbrakk> \<Longrightarrow>
   \<exists>rest bs. env' = add_items (map ISessionUpdate rest) envelope_new \<and>
     net_slots w' = net_slots w \<and> sent_sessions w' = sent_sessions w @ bs \<and>
     concat bs @ rest = chunk @ us \<and> list_all chunk_ok bs \<and>
     length rest \<le> max_session_items \<and> (chunk @ us \<noteq> [] \<longrightarrow> rest \<noteq> [])"
proof (induction us arbitrary: chunk w)
  case Nil
  then show ?case by (intro exI [of _ chunk] exI [of _ "[]"]) auto
next
  case (Cons u us)
  have snoc: "add_item (ISessionUpdate u) (add_items (map ISessionUpdate c) envelope_new)
      = add_items (map ISessionUpdate (c @ [u])) envelope_new" for c
    by (simp add: add_items_def)
  show ?case
  proof (cases "length chunk \<ge> max_session_items")
    case False
    then have "send_loop now sl (add_items (map ISessionUpdate (chunk @ [u])) envelope_new)
        (length (chunk @ [u])) us w = (env', w')"
      using Cons.prems(1) snoc [of chunk] by simp
    from Cons.IH [OF this Cons.prems(2)] False show ?thesis by simp
  next
    case True
    let ?w = "sender_send now sl (add_items (map ISessionUpdate chunk) envelope_new) w"
    have ne: "chunk \<noteq> []" using True by (auto simp: max_session_items_def)
    have chunk: "chunk_ok chunk" using ne Cons.prems(3) by (simp add: chunk_ok_def)
    have sent: "sent_sessions ?w = sent_sessions w @ [chunk]"
      using sent_sessions_send [OF Cons.prems(2), of now "map ISessionUpdate chunk"] ne by simp
    have "send_loop now sl (add_items (map ISessionUpdate [u]) envelope_new) (length [u]) us ?w = (env', w')"
      using Cons.prems(1) True snoc [of "[]"] by simp
    from Cons.IH [OF this] Cons.prems(2) obtain rest bs
      where "env' = add_items (map ISessionUpdate rest) envelope_new" "net_slots w' = net_slots w"
        "sent_sessions w' = sent_sessions ?w @ bs" "concat bs @ rest = u # us" "list_all chunk_ok bs"
        "length rest \<le> max_session_items" "rest \<noteq> []"
      by (auto simp: max_session_items_def)
    then show ?thesis
      using sent chunk
      by (intro exI [of _ rest] exI [of _ "chunk # bs"]) simp
  qed
qed

lemma flusher_flush_sent:
  assumes "net_slots (snd s) (fl_sender (fst s)) \<noteq> None"
  shows "\<exists>bs. sent_sessions (snd (flusher_flush now s)) = sent_sessions (snd s) @ bs \<and>
     concat bs = fl_individual (fst s) \<and> list_all chunk_ok bs"
    and "net_slots (snd (flusher_flush now s)) = net_slots (snd s)"
    and "fst (flusher_flush now s) = (fst s)\<lparr>fl_individual := [], fl_aggregated := None\<rparr>"
proof -
  let ?sl = "fl_sender (fst s)" and ?queue = "fl_individual (fst s)"
  define w where "w = (case fl_aggregated (fst s) of
      Some a \<Rightarrow> sender_send now ?sl (add_item (aggregates_item a) envelope_new) (snd s)
    | None \<Rightarrow> snd s)"
  have "sent_sessions (sender_send now ?sl (add_items [aggregates_item a] envelope_new) (snd s))
      = sent_sessions (snd s)" for a
    using sent_sessions_send [OF assms, of now "[aggregates_item a]"]
    by (simp add: aggregates_item_def List.map_filter_simps)
  then have w: "sent_sessions w = sent_sessions (snd s)" "net_slots w = net_slots (snd s)"
    by (auto simp: w_def add_items_Cons split: option.split)
  let ?f = "(fst s)\<lparr>fl_individual := [], fl_aggregated := None\<rparr>"
  have eq: "flusher_flush now s = (if ?queue = [] then (?f, w)
      else (case send_loop now ?sl envelope_new 0 ?queue w of
              (envelope, w') \<Rightarrow> (?f, sender_send now ?sl envelope w')))"
    by (cases "fl_aggregated (fst s)") (simp_all add: flusher_flush_def w_def Let_def)
  have "(\<exists>bs. sent_sessions (snd (flusher_flush now s)) = sent_sessions (snd s) @ bs \<and>
     concat bs = ?queue \<and> list_all chunk_ok bs) \<and>
    net_slots (snd (flusher_flush now s)) = net_slots (snd s) \<and>
    fst (flusher_flush now s) = (fst s)\<lparr>fl_individual := [], fl_aggregated := None\<rparr>"
  proof (cases "?queue = []")
    case True
    then show ?thesis using w by (simp add: eq)
  next
    case False
    obtain env' w' where loop: "send_loop now ?sl envelope_new 0 ?queue w = (env', w')"
      by (cases "send_loop now ?sl envelope_new 0 ?queue w")
    have open_w: "net_slots w ?sl \<noteq> None" using w assms by simp
    obtain rest bs where r: "env' = add_items (map ISessionUpdate rest) envelope_new"
      "net_slots w' = net_slots w" "sent_sessions w' = sent_sessions w @ bs"
      "concat bs @ rest = ?queue" "list_all chunk_ok bs" "length rest \<le> max_session_items" "rest \<noteq> []"
      using send_loop_sent [of now ?sl "[]" ?queue w env' w'] loop open_w False by auto
    have "net_slots w' ?sl \<noteq> None" using open_w r by simp
    from sent_sessions_send [OF this, of now "map ISessionUpdate rest"]
    have "sent_sessions (sender_send now ?sl env' w') = sent_sessions (snd s) @ (bs @ [rest])"
      using r w by simp
    moreover have "flusher_flush now s =
        ((fst s)\<lparr>fl_individual := [], fl_aggregated := None\<rparr>, sender_send now ?sl env' w')"
      using False loop by (simp add: eq)
    ultimately show ?thesis
      using r w by (intro conjI exI [of _ "bs @ [rest]"]) (simp_all add: chunk_ok_def)
  qed
  then show "\<exists>bs. sent_sessions (snd (flusher_flush now s)) = sent_sessions (snd s) @ bs \<and>
     concat bs = ?queue \<and> list_all chunk_ok bs"
    and "net_slots (snd (flusher_flush now s)) = net_slots (snd s)"
    and "fst (flusher_flush now s) = (fst s)\<lparr>fl_individual := [], fl_aggregated := None\<rparr>"
    by blast+
qed

text \<open>In application mode the flusher is a batching queue of individual updates.\<close>

definition flusher_submit ::
  "systime \<times> session_update \<Rightarrow> session_flusher \<times> net \<Rightarrow> session_flusher \<times> net" where
  "flusher_submit x s = (case flusher_enqueue (fst x) (snd x) s of Some s' \<Rightarrow> s' | None \<Rightarrow> s)"

definition flusher_inv :: "session_flusher \<times> net \<Rightarrow> bool" where
  "flusher_inv s \<longleftrightarrow> fl_mode (fst s) = Application \<and>
     length (fl_individual (fst s)) < max_session_items \<and>
     net_slots (snd s) (fl_sender (fst s)) \<noteq> None"

lemma flusher_submit_cases:
  assumes "flusher_inv s"
  shows "flusher_submit (now, u) s =
    (let f' = (fst s)\<lparr>fl_individual := fl_individual (fst s) @ [u]\<rparr> in
     if Suc (length (fl_individual (fst s))) < max_session_items then (f', snd s)
     else flusher_flush now (f', snd s))"
  using assms by (simp add: flusher_submit_def flusher_enqueue_def flusher_inv_def Let_def)

lemma flusher_submit_sent:
  assumes "flusher_inv s"
  shows "flusher_inv (flusher_submit (now, u) s) \<and>
    (\<exists>bs. sent_sessions (snd (flusher_submit (now, u) s)) = sent_sessions (snd s) @ bs \<and>
      concat bs @ fl_individual (fst (flusher_submit (now, u) s)) = fl_individual (fst s) @ [u] \<and>
      list_all chunk_ok bs)"
proof (cases "Suc (length (fl_individual (fst s))) < max_session_items")
  case True
  then show ?thesis
    using assms by (simp add: flusher_submit_cases Let_def flusher_inv_def)
next
  case False
  let ?s = "((fst s)\<lparr>fl_individual := fl_individual (fst s) @ [u]\<rparr>, snd s)"
  have "net_slots (snd ?s) (fl_sender (fst ?s)) \<noteq> None" using assms by (simp add: flusher_inv_def)
  note flush = flusher_flush_sent [OF this, of now]
  have eq: "flusher_submit (now, u) s = flusher_flush now ?s"
    using False by (simp add: flusher_submit_cases [OF assms] Let_def)
  show ?thesis
    unfolding eq using flush assms by (auto simp: flusher_inv_def max_session_items_def)
qed

interpretation individual_queue: batch_queue flusher_submit snd "\<lambda>s. fl_individual (fst s)"
  "\<lambda>s. sent_sessions (snd s)" max_session_items flusher_inv
proof
  fix s and x :: "systime \<times> session_update"
  assume inv: "flusher_inv s"
  obtain now u where x: "x = (now, u)" by (cases x)
  from flusher_submit_sent [OF inv, of now u] obtain bs
    where res: "flusher_inv (flusher_submit x s)"
      "sent_sessions (snd (flusher_submit x s)) = sent_sessions (snd s) @ bs"
      "concat bs @ fl_individual (fst (flusher_submit x s)) = fl_individual (fst s) @ [u]"
      "list_all chunk_ok bs"
    by (auto simp: x)
  show "flusher_inv (flusher_submit x s)" by (rule res(1))
  show "length (fl_individual (fst s)) < max_session_items" using inv by (simp add: flusher_inv_def)
  show "concat (sent_sessions (snd (flusher_submit x s))) @ fl_individual (fst (flusher_submit x s))
      = concat (sent_sessions (snd s)) @ fl_individual (fst s) @ [snd x]"
    using res(2,3) by (simp add: x)
  show "\<exists>bs. sent_sessions (snd (flusher_submit x s)) = sent_sessions (snd s) @ bs \<and>
      (\<forall>b \<in> set bs. b \<noteq> [] \<and> length b \<le> max_session_items)"
    using res(2,4) by (intro exI [of _ bs]) (auto simp: chunk_ok_def list_all_iff)
qed

section \<open>What the last update of a session says\<close>

text \<open>The status and the number of errors a session ends with, read off its operations.\<close>

fun final_status :: "session_op list \<Rightarrow> session_status" where
  "final_status [] = StExited"
| "final_status (OpEvent e # ops) =
     (if snd (scan_exceptions (ev_level e \<ge> Error) (ev_exception e)) then StCrashed
      else final_status ops)"
| "final_status (OpClose st t # ops) = (case st of StOk \<Rightarrow> StExited | st \<Rightarrow> st)"
| "final_status (OpEnvelope # ops) = final_status ops"

fun counted_errors :: "session_op list \<Rightarrow> nat" where
  "counted_errors [] = 0"
| "counted_errors (OpEvent e # ops) =
     (case scan_exceptions (ev_level e \<ge> Error) (ev_exception e) of
        (has_error, is_crash) \<Rightarrow>
          (if has_error then 1 else 0) + (if is_crash then 0 else counted_errors ops))"
| "counted_errors (OpClose st t # ops) = 0"
| "counted_errors (OpEnvelope # ops) = counted_errors ops"

definition session_truth :: "session \<Rightarrow> session_op list \<Rightarrow> session_status \<times> u64" where
  "session_truth s ops =
     (if su_status (s_update s) = StOk
      then (final_status ops, su_errors (s_update s) + of_nat (counted_errors ops))
      else (su_status (s_update s), su_errors (s_update s)))"

definition told :: "session_update \<Rightarrow> session_status \<times> u64" where
  "told u = (su_status u, su_errors u)"

lemma final_status_ne: "final_status ops \<noteq> StOk"
  by (induction ops rule: final_status.induct) (auto split: session_status.split)

lemma session_truth_step:
  "session_truth (fst (session_step op (s, out))) ops = session_truth s (op # ops)"
proof (cases op)
  case (OpEvent e)
  then show ?thesis
    by (auto simp: session_truth_def update_from_event_def Let_def add.assoc
        split: prod.splits dest: scan_exceptions_crash)
next
  case (OpClose st t)
  then show ?thesis
    by (auto simp: session_truth_def session_close_def split: session_status.split)
next
  case OpEnvelope
  then show ?thesis
    by (simp add: session_truth_def create_envelope_item_def)
qed

lemma session_truth_fold:
  "session_truth (fst (fold session_step ops (s, out))) [] = session_truth s ops"
proof (induction ops arbitrary: s out)
  case (Cons op ops)
  obtain s1 out1 where st: "session_step op (s, out) = (s1, out1)"
    by (cases "session_step op (s, out)")
  then show ?case
    using Cons.IH [of s1 out1] session_truth_step [of op s out ops] by simp
qed simp

definition session_told :: "session \<times> session_update list \<Rightarrow> bool" where
  "session_told st \<longleftrightarrow>
     (\<not> s_dirty (fst st) \<longrightarrow> snd st \<noteq> [] \<and> told (last (snd st)) = told (s_update (fst st)))"

lemma session_told_step: "session_told st \<Longrightarrow> session_told (session_step op st)"
proof (induction op st rule: session_step.induct)
  case (1 e s out)
  then show ?case
    by (auto simp: session_told_def update_from_event_def Let_def split: prod.splits if_splits
        dest: scan_exceptions_crash)
next
  case (2 st t s out)
  then show ?case by (auto simp: session_told_def session_close_def)
next
  case (3 s out)
  then show ?case by (auto simp: session_told_def create_envelope_item_def told_def)
qed

lemma session_told_fold: "session_told st \<Longrightarrow> session_told (fold session_step ops st)"
  by (induction ops arbitrary: st) (simp_all add: session_told_step)

section \<open>Aggregation\<close>

lemma map_of_update_bucket:
  "map_of (update_bucket key f bs) k =
     (if k = key then Some (f (case map_of bs key of None \<Rightarrow> counts_default | Some c \<Rightarrow> c))
      else map_of bs k)"
  by (induction bs) auto

lemma keys_update_bucket:
  "fst ` set (update_bucket key f bs) = insert key (fst ` set bs)"
  by (auto simp: map_of_update_bucket dom_def simp flip: dom_map_of_conv_image_fst split: if_splits)

lemma distinct_update_bucket:
  "distinct (map fst bs) \<Longrightarrow> distinct (map fst (update_bucket key f bs))"
proof (induction bs)
  case (Cons b bs)
  then show ?case using keys_update_bucket [of key f bs] by (cases b) auto
qed simp

text \<open>The sessions of one bucket, by what they count as.\<close>

definition bucket_counts :: "session_update list \<Rightarrow> aggregation_counts" where
  "bucket_counts us =
     \<lparr>ac_exited = of_nat (length (filter (\<lambda>u. su_status u = StExited \<and> su_errors u = 0) us)),
      ac_errored = of_nat (length (filter (\<lambda>u. su_status u = StExited \<and> su_errors u > 0) us)),
      ac_abnormal = of_nat (length (filter (\<lambda>u. su_status u = StAbnormal) us)),
      ac_crashed = of_nat (length (filter (\<lambda>u. su_status u = StCrashed) us))\<rparr>"

lemma bucket_counts_Nil: "bucket_counts [] = counts_default"
  by (simp add: bucket_counts_def counts_default_def)

lemma bucket_counts_snoc: "bucket_counts (us @ [u]) = count_session u (bucket_counts us)"
  by (cases "su_status u") (simp_all add: bucket_counts_def count_session_def word_gt_0)

fun flusher_enqueue_all ::
  "systime \<Rightarrow> session_update list \<Rightarrow> session_flusher \<times> net \<Rightarrow> (session_flusher \<times> net) option" where
  "flusher_enqueue_all now [] s = Some s"
| "flusher_enqueue_all now (u # us) s =
     (case flusher_enqueue now u s of None \<Rightarrow> None | Some s' \<Rightarrow> flusher_enqueue_all now us s')"

text \<open>The aggregate that the sessions \<open>us\<close> leave in the queue.\<close>

definition aggregates :: "session_update list \<Rightarrow> aggregated_sessions \<Rightarrow> bool" where
  "aggregates us a \<longleftrightarrow> us \<noteq> [] \<and> as_attributes a = su_attributes (hd us) \<and>
     distinct (map fst (as_buckets a)) \<and>
     (\<forall>key. map_of (as_buckets a) key =
        (let mine = filter (\<lambda>u. aggregation_key_of u = Some key) us in
         if mine = [] then None else Some (bucket_counts mine)))"

lemma aggregates_start:
  "aggregation_key_of u = Some key \<Longrightarrow>
   aggregates [u] \<lparr>as_buckets = update_bucket key (count_session u) [], as_attributes = su_attributes u\<rparr>"
  using bucket_counts_snoc [of "[]" u] by (simp add: aggregates_def bucket_counts_Nil Let_def)

lemma aggregates_snoc:
  assumes "aggregates us a" and "aggregation_key_of u = Some key"
  shows "aggregates (us @ [u]) (a\<lparr>as_buckets := update_bucket key (count_session u) (as_buckets a)\<rparr>)"
  using assms bucket_counts_snoc
  by (auto simp: aggregates_def map_of_update_bucket distinct_update_bucket Let_def
      bucket_counts_Nil [symmetric] simp flip: bucket_counts_snoc)

lemma enqueue_all_aggregates:
  "\<lbrakk>fl_mode f = Request; \<forall>u \<in> set us. su_init u \<and> 0 \<le> su_started u;
    fl_aggregated f = Some a; aggregates old a\<rbrakk> \<Longrightarrow>
   \<exists>a'. flusher_enqueue_all now us (f, w) = Some (f\<lparr>fl_aggregated := Some a'\<rparr>, w) \<and>
     aggregates (old @ us) a'"
proof (induction us arbitrary: f a old)
  case Nil
  then show ?case by (intro exI [of _ a]) simp
next
  case (Cons u us)
  obtain key where key: "aggregation_key_of u = Some key"
    using Cons.prems(2) by (auto simp: aggregation_key_of_def duration_since_def)
  let ?a = "a\<lparr>as_buckets := update_bucket key (count_session u) (as_buckets a)\<rparr>"
  have enq: "flusher_enqueue now u (f, w) = Some (f\<lparr>fl_aggregated := Some ?a\<rparr>, w)"
    using Cons.prems key by (simp add: flusher_enqueue_def Let_def)
  from Cons.IH [of "f\<lparr>fl_aggregated := Some ?a\<rparr>" ?a "old @ [u]"]
    aggregates_snoc [OF Cons.prems(4) key] Cons.prems
  show ?case by (simp add: enq)
qed

section \<open>Properties\<close>

definition fresh_session :: "session \<Rightarrow> bool" where
  "fresh_session s \<longleftrightarrow> su_init (s_update s) \<and> su_status (s_update s) = StOk \<and>
     su_errors (s_update s) = 0 \<and> s_dirty s"

lemma from_stack_fresh: "session_from_stack opts user fresh now instant = Some s \<Longrightarrow> fresh_session s"
  by (auto simp: session_from_stack_def fresh_session_def Let_def split: option.splits)

lemma session_life_facts:
  assumes "fresh_session s"
  shows "\<exists>u. session_life ops instant s \<noteq> [] \<and> last (session_life ops instant s) = u \<and>
    told u = (final_status ops, of_nat (counted_errors ops)) \<and>
    (\<forall>v \<in> set (butlast (session_life ops instant s)). su_status v = StOk) \<and>
    su_init (hd (session_life ops instant s)) \<and>
    (\<forall>v \<in> set (tl (session_life ops instant s)). \<not> su_init v) \<and>
    (\<forall>v \<in> set (session_life ops instant s). su_session_id v = su_session_id (s_update s))"
proof -
  have inv0: "session_inv (s, [])" and told0: "session_told (s, [])"
    using assms by (simp_all add: session_inv_def session_told_def fresh_session_def)
  obtain s' out where run: "fold session_step ops (s, []) = (s', out)"
    by (cases "fold session_step ops (s, [])")
  have inv: "session_inv (s', out)" and told': "session_told (s', out)"
    using session_inv_fold [OF inv0, of ops] session_told_fold [OF told0, of ops] run by simp_all
  have truth: "session_truth s' [] = (final_status ops, of_nat (counted_errors ops))"
    using session_truth_fold [of ops s "[]"] run assms by (simp add: session_truth_def fresh_session_def)
  let ?c = "session_close StExited instant s'"
  have close: "told (s_update ?c) = (final_status ops, of_nat (counted_errors ops))"
    using truth by (auto simp: session_truth_def told_def session_close_def)
  have ids: "su_session_id (s_update s') = su_session_id (s_update s)"
  proof -
    have "su_session_id (s_update (fst (fold session_step ops (r, o1)))) = su_session_id (s_update r)" for r o1
    proof (induction ops arbitrary: r o1)
      case (Cons op ops)
      obtain r1 o2 where st: "session_step op (r, o1) = (r1, o2)" by (cases "session_step op (r, o1)")
      have "su_session_id (s_update r1) = su_session_id (s_update r)"
        using st by (cases op) (auto simp: update_from_event_fields session_close_fields
            create_envelope_item_def split: if_splits)
      then show ?case using Cons.IH [of r1 o2] st by simp
    qed simp
    from this [of s "[]"] show ?thesis by (simp add: run)
  qed
  show ?thesis
  proof (cases "s_dirty ?c")
    case True
    have life: "session_life ops instant s = out @ [s_update ?c]"
      using True by (simp add: session_life_def run session_drop_def Let_def)
    have "su_status (s_update s') = StOk \<or> s_dirty s'"
      using True by (cases "su_status (s_update s') = StOk") (simp_all add: session_close_fields(5))
    then have ok: "su_status v = StOk" if "v \<in> set out" for v
      using session_invD(4) [OF inv] that by blast
    have init: "su_init (s_update ?c) \<longleftrightarrow> out = []"
      using session_invD(1) [OF inv] by (simp add: session_close_fields(1))
    have id: "su_session_id v = su_session_id (s_update s)" if "v \<in> set (out @ [s_update ?c])" for v
      using that session_invD(3) [OF inv, of v] ids by (auto simp: session_close_fields(2))
    have hd: "su_init (hd (out @ [s_update ?c]))"
      using session_invD(2) [OF inv] init by (cases out) auto
    have tl: "\<not> su_init v" if "v \<in> set (tl (out @ [s_update ?c]))" for v
      using session_invD(2) [OF inv] init that by (cases out) auto
    show ?thesis
      unfolding life
      by (intro exI [of _ "s_update ?c"] conjI ballI)
        (use close hd in \<open>auto intro: ok id dest: tl\<close>)
  next
    case False
    then have st: "su_status (s_update s') \<noteq> StOk" using session_close_fields(6) by blast
    then have c: "?c = s'" by (rule session_close_fields(5))
    then have nd: "\<not> s_dirty s'" using False by simp
    have life: "session_life ops instant s = out"
      using False by (simp add: session_life_def run session_drop_def Let_def)
    have "out \<noteq> [] \<and> told (last out) = told (s_update s')"
      using told' nd by (simp add: session_told_def)
    then have out: "out \<noteq> []"
      and last: "told (last out) = (final_status ops, of_nat (counted_errors ops))"
      using close c by simp_all
    have hd: "su_init (hd out)" using session_invD(2) [OF inv] out by (cases out) auto
    have tl: "\<not> su_init v" if "v \<in> set (tl out)" for v
      using session_invD(2) [OF inv] out that by (cases out) auto
    have id: "su_session_id v = su_session_id (s_update s)" if "v \<in> set out" for v
      using session_invD(3) [OF inv that] ids by simp
    show ?thesis
      unfolding life
      by (intro exI [of _ "last out"] conjI ballI)
        (use out last hd in \<open>auto intro: session_invD(5) [OF inv st nd] id dest: tl\<close>)
  qed
qed

text \<open>
  C16: Whatever happens to a session before it is dropped, it emits at least one update; exactly
  the first is marked \<open>init\<close>; only the last one has a status that ends the session, and that
  status and its error count are the ones the operations imply: crashed at the first
  unhandled exception, else the status it was first closed with (closing with \<open>Ok\<close> counts as
  exited, as does dropping), and one error per error event up to then, modulo \<open>2^64\<close>.
\<close>

theorem session_lifecycle:
  assumes "session_from_stack opts user fresh now instant = Some s"
    and "out = session_life ops instant' s"
  shows "out \<noteq> [] \<and> su_init (hd out) \<and> (\<forall>u \<in> set (tl out). \<not> su_init u) \<and>
    su_status (last out) = final_status ops \<and> final_status ops \<noteq> StOk \<and>
    su_errors (last out) = of_nat (counted_errors ops) \<and>
    (\<forall>u \<in> set (butlast out). su_status u = StOk) \<and>
    (\<forall>u \<in> set out. su_session_id u = su_session_id (s_update s))"
  using session_life_facts [OF from_stack_fresh [OF assms(1)], of ops instant'] final_status_ne [of ops]
  by (auto simp: assms(2) told_def)

lemma session_lifecycle_witness:
  "su_status (last (session_life [OpEnvelope, OpClose StAbnormal 7] 9
     (the (session_from_stack (Some (Some ''1.0'', None)) None 5 0 0)))) = StAbnormal"
  using session_lifecycle [of "Some (Some ''1.0'', None)" None 5 0 0
      "the (session_from_stack (Some (Some ''1.0'', None)) None 5 0 0)", OF _ refl,
      of "[OpEnvelope, OpClose StAbnormal 7]" 9]
  by (simp add: session_from_stack_def)

text \<open>
  In application mode the flusher delivers: after any number of enqueued session updates and
  a final flush, the updates sent are exactly the queued and enqueued ones, in order, in
  envelopes of 1 to 100 updates, and the queue stayed below 100.
\<close>

theorem flusher_delivers_individual:
  assumes "flusher_inv s"
    and "s' = fold flusher_submit submitted s" and "s'' = flusher_flush now s'"
  shows "length (fl_individual (fst s')) < max_session_items \<and> fl_individual (fst s'') = [] \<and>
    (\<exists>bs. sent_sessions (snd s'') = sent_sessions (snd s) @ bs \<and>
      concat bs = fl_individual (fst s) @ map snd submitted \<and>
      (\<forall>b \<in> set bs. b \<noteq> [] \<and> length b \<le> max_session_items))"
proof -
  note all = individual_queue.submit_all [OF assms(1), of submitted, folded assms(2)]
  then obtain bs where bs: "sent_sessions (snd s') = sent_sessions (snd s) @ bs"
    "\<forall>b \<in> set bs. b \<noteq> [] \<and> length b \<le> max_session_items" by blast
  have "net_slots (snd s') (fl_sender (fst s')) \<noteq> None" using all by (simp add: flusher_inv_def)
  note flush = flusher_flush_sent [OF this, of now, folded assms(3)]
  obtain bs' where bs': "sent_sessions (snd s'') = sent_sessions (snd s') @ bs'"
    "concat bs' = fl_individual (fst s')" "list_all chunk_ok bs'"
    using flush(1) by blast
  have "length (fl_individual (fst s')) < max_session_items"
    using all by (simp add: flusher_inv_def)
  moreover have "fl_individual (fst s'') = []" using flush(3) by simp
  moreover have "concat (bs @ bs') = fl_individual (fst s) @ map snd submitted"
    using all bs(1) bs'(2) by simp
  moreover have "\<forall>b \<in> set (bs @ bs'). b \<noteq> [] \<and> length b \<le> max_session_items"
    using bs(2) bs'(3) by (auto simp: chunk_ok_def list_all_iff)
  ultimately show ?thesis using bs(1) bs'(1) by (metis append.assoc)
qed

definition sample_update :: session_update where
  "sample_update = s_update (the (session_from_stack (Some (Some ''1.0'', None)) None 5 0 0))"

lemma flusher_delivers_individual_witness:
  "\<exists>bs. sent_sessions (snd (flusher_flush 3 (fold flusher_submit [(1, sample_update)]
      (flusher_new 0 Application, one_slot)))) = bs \<and> concat bs = [sample_update]"
proof -
  have "flusher_inv (flusher_new 0 Application, one_slot)"
    by (simp add: flusher_inv_def flusher_new_def max_session_items_def)
  from flusher_delivers_individual [OF this refl refl, of "[(1, sample_update)]" 3]
  show ?thesis by (simp add: sent_sessions_def one_slot_def net_empty_def flusher_new_def)
qed

text \<open>
  C17: In request mode, unsent sessions are only counted: after any nonempty sequence of them, each with its
  first update and started after the epoch, added to an empty queue, the queue
  holds one bucket per minute and distinct id that occurs, whose four counters are the
  numbers of its sessions that exited, exited with errors, ended abnormally and crashed
  (modulo \<open>2^32\<close>), under the attributes of the first session; nothing is sent before a flush.
\<close>

theorem flusher_aggregates:
  assumes "fl_mode f = Request" and "fl_aggregated f = None" and "us \<noteq> []"
    and "\<forall>u \<in> set us. su_init u \<and> 0 \<le> su_started u"
  shows "\<exists>a. flusher_enqueue_all now us (f, w) = Some (f\<lparr>fl_aggregated := Some a\<rparr>, w) \<and>
    as_attributes a = su_attributes (hd us) \<and> distinct (map fst (as_buckets a)) \<and>
    (\<forall>key. map_of (as_buckets a) key =
       (let mine = filter (\<lambda>u. aggregation_key_of u = Some key) us in
        if mine = [] then None else Some (bucket_counts mine)))"
proof -
  obtain u rest where us: "us = u # rest" using assms(3) by (cases us) auto
  obtain key where key: "aggregation_key_of u = Some key"
    using assms(4) by (auto simp: us aggregation_key_of_def duration_since_def)
  let ?a = "\<lparr>as_buckets = update_bucket key (count_session u) [], as_attributes = su_attributes u\<rparr>"
  have enq: "flusher_enqueue now u (f, w) = Some (f\<lparr>fl_aggregated := Some ?a\<rparr>, w)"
    using assms key by (simp add: us flusher_enqueue_def Let_def)
  obtain a' where "flusher_enqueue_all now rest (f\<lparr>fl_aggregated := Some ?a\<rparr>, w)
      = Some (f\<lparr>fl_aggregated := Some a'\<rparr>, w)" "aggregates ([u] @ rest) a'"
    using enqueue_all_aggregates [of "f\<lparr>fl_aggregated := Some ?a\<rparr>" rest ?a "[u]" now w]
      aggregates_start [OF key] assms by (auto simp: us)
  then show ?thesis by (auto simp: us enq aggregates_def)
qed

lemma flusher_aggregates_witness:
  "\<exists>a. flusher_enqueue_all 0 [sample_update] (flusher_new 0 Request, one_slot) =
     Some ((flusher_new 0 Request)\<lparr>fl_aggregated := Some a\<rparr>, one_slot)"
  using flusher_aggregates [of "flusher_new 0 Request" "[sample_update]" 0 one_slot]
  by (auto simp: flusher_new_def sample_update_def session_from_stack_def)

end
