(* ===== verification/Options.thy ===== *)
theory Options
  imports Tracing Session
begin

text \<open>
  Client options (\<open>sentry-core/src/clientoptions.rs\<close>) and the integration interface
  (\<open>integration.rs\<close>). Callbacks are functions of what they are given. The integrations stand
  beside the options record, not inside it: \<open>Client::with_options\<close> copies the list before
  anything reads the options again. A transport factory is the number of the transport it makes.
\<close>

section \<open>The options\<close>

type_synonym 'a before_callback = "'a \<Rightarrow> 'a option"

datatype max_request_body_size = MrbNone | MrbSmall | MrbMedium | MrbAlways | MrbExplicit nat

fun is_within_size_limit :: "max_request_body_size \<Rightarrow> nat \<Rightarrow> bool" where
  "is_within_size_limit MrbNone content_length = False"
| "is_within_size_limit MrbSmall content_length = (content_length \<le> 1000)"
| "is_within_size_limit MrbMedium content_length = (content_length \<le> 10000)"
| "is_within_size_limit MrbAlways content_length = True"
| "is_within_size_limit (MrbExplicit limit) content_length = (content_length \<le> limit)"

datatype event_sampling_strategy = EventFixedRate flt

record client_options =
  co_dsn :: "dsn option"
  co_debug :: bool
  co_release :: "string option"
  co_environment :: "string option"
  co_event_sampling_strategy :: event_sampling_strategy
  co_traces_sampling_strategy :: traces_sampling_strategy
  co_org_id :: "organization_id option"
  co_strict_trace_continuation :: bool
  co_max_breadcrumbs :: nat
  co_attach_stacktrace :: bool
  co_send_default_pii :: bool
  co_server_name :: "string option"
  co_in_app_include :: "string list"
  co_in_app_exclude :: "string list"
  co_default_integrations :: bool
  co_before_send :: "event before_callback option"
  co_before_breadcrumb :: "breadcrumb before_callback option"
  co_before_send_log :: "log before_callback option"
  co_transport :: "nat option"
  co_http_proxy :: "string option"
  co_https_proxy :: "string option"
  co_shutdown_timeout :: duration
  co_max_request_body_size :: max_request_body_size
  co_enable_logs :: bool
  co_enable_metrics :: bool
  co_before_send_metric :: "metric before_callback option"
  co_accept_invalid_certs :: bool
  co_auto_session_tracking :: bool
  co_session_mode :: session_mode
  co_user_agent :: string

record integration =
  ig_name :: string
  ig_setup :: "client_options \<Rightarrow> client_options"
  ig_process_event :: "client_options \<Rightarrow> event \<Rightarrow> event option"

definition options_default :: "string \<Rightarrow> client_options" where
  "options_default user_agent =
     \<lparr>co_dsn = None, co_debug = False, co_release = None, co_environment = None,
      co_event_sampling_strategy = EventFixedRate (Fin 1),
      co_traces_sampling_strategy = TracesDisabled, co_org_id = None,
      co_strict_trace_continuation = False, co_max_breadcrumbs = 100,
      co_attach_stacktrace = False, co_send_default_pii = False, co_server_name = None,
      co_in_app_include = [], co_in_app_exclude = [], co_default_integrations = True,
      co_before_send = None, co_before_breadcrumb = None, co_before_send_log = None,
      co_transport = None, co_http_proxy = None, co_https_proxy = None,
      co_shutdown_timeout = from_secs 2, co_max_request_body_size = MrbMedium,
      co_enable_logs = True, co_enable_metrics = True, co_before_send_metric = None,
      co_accept_invalid_certs = False, co_auto_session_tracking = False,
      co_session_mode = Application, co_user_agent = user_agent\<rparr>"

section \<open>Builder methods\<close>

text \<open>\<open>None\<close> is the panic on a rate outside the unit interval or on an invalid DSN.\<close>

definition rate_in_range :: "flt \<Rightarrow> bool" where
  "rate_in_range r = (flt_le (Fin 0) r \<and> flt_le r (Fin 1))"

definition opt_sample_rate :: "flt \<Rightarrow> client_options \<Rightarrow> client_options option" where
  "opt_sample_rate rate o' =
     (if \<not> rate_in_range rate then None
      else Some (o'\<lparr>co_event_sampling_strategy := EventFixedRate rate\<rparr>))"

definition opt_traces_sample_rate :: "flt \<Rightarrow> client_options \<Rightarrow> client_options option" where
  "opt_traces_sample_rate rate o' =
     (if \<not> rate_in_range rate then None
      else Some (o'\<lparr>co_traces_sampling_strategy := TracesFixedRate rate\<rparr>))"

definition opt_traces_sampler :: "(transaction_context \<Rightarrow> flt) \<Rightarrow> client_options \<Rightarrow> client_options" where
  "opt_traces_sampler f o' = o'\<lparr>co_traces_sampling_strategy := TracesFunction f\<rparr>"

definition opt_dsn :: "(string \<Rightarrow> url option) \<Rightarrow> string \<Rightarrow> client_options \<Rightarrow> client_options option" where
  "opt_dsn url_parse s o' =
     (case dsn_from_str url_parse s of
        Inl _ \<Rightarrow> None
      | Inr d \<Rightarrow> Some (o'\<lparr>co_dsn := Some d\<rparr>))"

definition opt_debug :: "bool \<Rightarrow> client_options \<Rightarrow> client_options" where
  "opt_debug v o' = o'\<lparr>co_debug := v\<rparr>"

definition opt_release :: "string \<Rightarrow> client_options \<Rightarrow> client_options" where
  "opt_release v o' = o'\<lparr>co_release := Some v\<rparr>"

definition opt_maybe_release :: "string option \<Rightarrow> client_options \<Rightarrow> client_options" where
  "opt_maybe_release r o' = (case r of Some release \<Rightarrow> opt_release release o' | None \<Rightarrow> o')"

definition opt_environment :: "string \<Rightarrow> client_options \<Rightarrow> client_options" where
  "opt_environment v o' = o'\<lparr>co_environment := Some v\<rparr>"

definition opt_org_id :: "organization_id \<Rightarrow> client_options \<Rightarrow> client_options" where
  "opt_org_id v o' = o'\<lparr>co_org_id := Some v\<rparr>"

definition opt_strict_trace_continuation :: "bool \<Rightarrow> client_options \<Rightarrow> client_options" where
  "opt_strict_trace_continuation v o' = o'\<lparr>co_strict_trace_continuation := v\<rparr>"

definition opt_max_breadcrumbs :: "nat \<Rightarrow> client_options \<Rightarrow> client_options" where
  "opt_max_breadcrumbs v o' = o'\<lparr>co_max_breadcrumbs := v\<rparr>"

definition opt_attach_stacktrace :: "bool \<Rightarrow> client_options \<Rightarrow> client_options" where
  "opt_attach_stacktrace v o' = o'\<lparr>co_attach_stacktrace := v\<rparr>"

definition opt_send_default_pii :: "bool \<Rightarrow> client_options \<Rightarrow> client_options" where
  "opt_send_default_pii v o' = o'\<lparr>co_send_default_pii := v\<rparr>"

definition opt_server_name :: "string \<Rightarrow> client_options \<Rightarrow> client_options" where
  "opt_server_name v o' = o'\<lparr>co_server_name := Some v\<rparr>"

definition opt_in_app_include :: "string list \<Rightarrow> client_options \<Rightarrow> client_options" where
  "opt_in_app_include v o' = o'\<lparr>co_in_app_include := v\<rparr>"

definition opt_in_app_exclude :: "string list \<Rightarrow> client_options \<Rightarrow> client_options" where
  "opt_in_app_exclude v o' = o'\<lparr>co_in_app_exclude := v\<rparr>"

definition opt_default_integrations :: "bool \<Rightarrow> client_options \<Rightarrow> client_options" where
  "opt_default_integrations v o' = o'\<lparr>co_default_integrations := v\<rparr>"

definition opt_before_send :: "event before_callback \<Rightarrow> client_options \<Rightarrow> client_options" where
  "opt_before_send v o' = o'\<lparr>co_before_send := Some v\<rparr>"

definition opt_before_breadcrumb :: "breadcrumb before_callback \<Rightarrow> client_options \<Rightarrow> client_options" where
  "opt_before_breadcrumb v o' = o'\<lparr>co_before_breadcrumb := Some v\<rparr>"

definition opt_before_send_log :: "log before_callback \<Rightarrow> client_options \<Rightarrow> client_options" where
  "opt_before_send_log v o' = o'\<lparr>co_before_send_log := Some v\<rparr>"

definition opt_transport :: "nat \<Rightarrow> client_options \<Rightarrow> client_options" where
  "opt_transport v o' = o'\<lparr>co_transport := Some v\<rparr>"

definition opt_http_proxy :: "string \<Rightarrow> client_options \<Rightarrow> client_options" where
  "opt_http_proxy v o' = o'\<lparr>co_http_proxy := Some v\<rparr>"

definition opt_https_proxy :: "string \<Rightarrow> client_options \<Rightarrow> client_options" where
  "opt_https_proxy v o' = o'\<lparr>co_https_proxy := Some v\<rparr>"

definition opt_shutdown_timeout :: "duration \<Rightarrow> client_options \<Rightarrow> client_options" where
  "opt_shutdown_timeout v o' = o'\<lparr>co_shutdown_timeout := v\<rparr>"

definition opt_max_request_body_size :: "max_request_body_size \<Rightarrow> client_options \<Rightarrow> client_options" where
  "opt_max_request_body_size v o' = o'\<lparr>co_max_request_body_size := v\<rparr>"

definition opt_enable_logs :: "bool \<Rightarrow> client_options \<Rightarrow> client_options" where
  "opt_enable_logs v o' = o'\<lparr>co_enable_logs := v\<rparr>"

definition opt_enable_metrics :: "bool \<Rightarrow> client_options \<Rightarrow> client_options" where
  "opt_enable_metrics v o' = o'\<lparr>co_enable_metrics := v\<rparr>"

definition opt_before_send_metric :: "metric before_callback \<Rightarrow> client_options \<Rightarrow> client_options" where
  "opt_before_send_metric v o' = o'\<lparr>co_before_send_metric := Some v\<rparr>"

definition opt_accept_invalid_certs :: "bool \<Rightarrow> client_options \<Rightarrow> client_options" where
  "opt_accept_invalid_certs v o' = o'\<lparr>co_accept_invalid_certs := v\<rparr>"

definition opt_auto_session_tracking :: "bool \<Rightarrow> client_options \<Rightarrow> client_options" where
  "opt_auto_session_tracking v o' = o'\<lparr>co_auto_session_tracking := v\<rparr>"

definition opt_session_mode :: "session_mode \<Rightarrow> client_options \<Rightarrow> client_options" where
  "opt_session_mode v o' = o'\<lparr>co_session_mode := v\<rparr>"

definition opt_user_agent :: "string \<Rightarrow> client_options \<Rightarrow> client_options" where
  "opt_user_agent v o' = o'\<lparr>co_user_agent := v\<rparr>"

end
