(* ===== verification/HttpTransport.thy ===== *)
theory HttpTransport
  imports TransportThread Options
begin

text \<open>
  The transport interface and its options (\<open>sentry-core/src/transport/\<close>), and what the HTTP
  transports make of a response (\<open>sentry/src/transports/ureq.rs\<close>, \<open>reqwest.rs\<close>, \<open>curl.rs\<close>). The HTTP
  exchange itself belongs to the HTTP crates: its result is an input. The send functions are those of the
  transport thread.
\<close>

section \<open>The transport interface\<close>

text \<open>A transport acts on some outside state \<open>'w\<close>.\<close>

record 'w transport =
  tp_send_envelope :: "envelope \<Rightarrow> 'w \<Rightarrow> 'w"
  tp_flush :: "duration \<Rightarrow> 'w \<Rightarrow> bool \<times> 'w"
  tp_shutdown :: "duration \<Rightarrow> 'w \<Rightarrow> bool \<times> 'w"

text \<open>The default methods of the trait.\<close>

definition default_flush :: "duration \<Rightarrow> 'w \<Rightarrow> bool \<times> 'w" where
  "default_flush timeout w = (True, w)"

definition default_shutdown ::
  "(duration \<Rightarrow> 'w \<Rightarrow> bool \<times> 'w) \<Rightarrow> duration \<Rightarrow> 'w \<Rightarrow> bool \<times> 'w" where
  "default_shutdown flush timeout w = flush timeout w"

definition no_op_transport :: "'w transport" where
  "no_op_transport =
     \<lparr>tp_send_envelope = (\<lambda>envelope w. w), tp_flush = default_flush,
      tp_shutdown = default_shutdown default_flush\<rparr>"

text \<open>\<open>impl Transport for Arc<T>\<close> forwards \<open>send_envelope\<close> and \<open>shutdown\<close>.\<close>

definition arc_transport :: "'w transport \<Rightarrow> 'w transport" where
  "arc_transport t =
     \<lparr>tp_send_envelope = tp_send_envelope t, tp_flush = default_flush, tp_shutdown = tp_shutdown t\<rparr>"

section \<open>Transport options\<close>

record transport_options =
  to_dsn :: dsn
  to_user_agent :: string
  to_http_proxy :: "string option"
  to_https_proxy :: "string option"
  to_accept_invalid_certs :: bool
  to_recorder :: recorder

definition try_from_client_options :: "client_options \<Rightarrow> transport_options option" where
  "try_from_client_options options =
     map_option (\<lambda>dsn.
       \<lparr>to_dsn = dsn, to_user_agent = co_user_agent options,
        to_http_proxy = co_http_proxy options, to_https_proxy = co_https_proxy options,
        to_accept_invalid_certs = co_accept_invalid_certs options, to_recorder = None\<rparr>)
       (co_dsn options)"

definition into_client_options :: "string \<Rightarrow> transport_options \<Rightarrow> client_options" where
  "into_client_options default_agent t =
     (options_default default_agent)
       \<lparr>co_dsn := Some (to_dsn t), co_user_agent := to_user_agent t,
        co_http_proxy := to_http_proxy t, co_https_proxy := to_https_proxy t,
        co_accept_invalid_certs := to_accept_invalid_certs t\<rparr>"

text \<open>The legacy factory method, in terms of the current one.\<close>

definition create_transport ::
  "(transport_options \<Rightarrow> 'w transport) \<Rightarrow> client_options \<Rightarrow> 'w transport" where
  "create_transport create_transport_with_options options =
     (case try_from_client_options options of
        None \<Rightarrow> no_op_transport
      | Some t \<Rightarrow> create_transport_with_options t)"

section \<open>Responses\<close>

definition http_rate_limit_status :: nat where
  "http_rate_limit_status = 429"

text \<open>
  What an HTTP crate hands back: an error, or the status with the values of the two headers
  that can be read as strings.
\<close>

datatype http_result = HttpErr
  | HttpOk nat (sentry_header: "string option") (retry_after: "string option")

definition update_limits ::
  "(string \<Rightarrow> systime option) \<Rightarrow> (nat \<Rightarrow> systime) \<Rightarrow> nat \<Rightarrow> string option \<Rightarrow> string option \<Rightarrow>
   rate_limiter \<Rightarrow> rate_limiter" where
  "update_limits parse_date clock status sentry_hd retry_hd rl =
     (case sentry_hd of
        Some h \<Rightarrow> update_from_sentry_header clock h rl
      | None \<Rightarrow>
          (case retry_hd of
             Some h \<Rightarrow> update_from_retry_after parse_date (clock 0) (clock 1) h rl
           | None \<Rightarrow> if status = http_rate_limit_status then update_from_429 (clock 0) rl else rl))"

definition rejected_status :: "nat \<Rightarrow> bool" where
  "rejected_status status = (400 \<le> status \<and> status \<le> 599 \<and> status \<noteq> http_rate_limit_status)"

definition ureq_outcome ::
  "(string \<Rightarrow> systime option) \<Rightarrow> (nat \<Rightarrow> systime) \<Rightarrow> http_result \<Rightarrow> rate_limiter \<Rightarrow>
   rate_limiter \<times> transport_loss_reason option" where
  "ureq_outcome parse_date clock result rl =
     (case result of
        HttpOk status sentry_hd retry_hd \<Rightarrow>
          (update_limits parse_date clock status sentry_hd retry_hd rl,
           if rejected_status status then Some TlrSendError else None)
      | HttpErr \<Rightarrow> (rl, Some TlrNetworkError))"

text \<open>The body of the \<open>async\<close> block.\<close>

definition reqwest_outcome ::
  "(string \<Rightarrow> systime option) \<Rightarrow> (nat \<Rightarrow> systime) \<Rightarrow> http_result \<Rightarrow> rate_limiter \<Rightarrow>
   rate_limiter \<times> transport_loss_reason option" where
  "reqwest_outcome parse_date clock result rl =
     (case result of
        HttpOk status sentry_hd retry_hd \<Rightarrow>
          (update_limits parse_date clock status sentry_hd retry_hd rl,
           if rejected_status status then Some TlrSendError else None)
      | HttpErr \<Rightarrow> (rl, Some TlrNetworkError))"

text \<open>
  The callback of curl gets the header lines one by one (those that are UTF-8); it keeps the
  values in \<open>retry_after\<close> and \<open>sentry_header\<close>.
\<close>

definition header_function :: "string option \<times> string option \<Rightarrow> string \<Rightarrow> string option \<times> string option" where
  "header_function hs data =
     (case split_once (CHR '':'') data of
        None \<Rightarrow> hs
      | Some (key, value) \<Rightarrow>
          if eq_ignore_ascii_case key ''retry-after'' then (Some (trim value), snd hs)
          else if eq_ignore_ascii_case key ''x-sentry-rate-limits'' then (fst hs, Some (trim value))
          else hs)"

text \<open>\<open>cu_code = None\<close>: curl does not support asking for the response code.\<close>

record curl_result =
  cu_failed :: bool
  cu_lines :: "string list"
  cu_code :: "nat option"

definition curl_outcome ::
  "(string \<Rightarrow> systime option) \<Rightarrow> (nat \<Rightarrow> systime) \<Rightarrow> curl_result \<Rightarrow> rate_limiter \<Rightarrow>
   rate_limiter \<times> transport_loss_reason option" where
  "curl_outcome parse_date clock r rl =
     (case foldl header_function (None, None) (cu_lines r) of
        (retry_hd, sentry_hd) \<Rightarrow>
          (case cu_code r of
             Some code \<Rightarrow>
               (update_limits parse_date clock code sentry_hd retry_hd rl,
                if rejected_status code then Some TlrSendError
                else if cu_failed r \<and> code = 0 then Some TlrNetworkError else None)
           | None \<Rightarrow> (rl, Some (if cu_failed r then TlrNetworkError else TlrSendError))))"

text \<open>
  The send functions of the threads: the exchange is a function of the earlier calls and the
  envelope; it gives the result and the clock readings of handling it.
\<close>

definition ureq_send_fn ::
  "(string \<Rightarrow> systime option) \<Rightarrow> (envelope list \<Rightarrow> envelope \<Rightarrow> http_result \<times> (nat \<Rightarrow> systime)) \<Rightarrow> send_fn" where
  "ureq_send_fn parse_date exchange sent envelope rl =
     (case exchange sent envelope of (result, clock) \<Rightarrow> ureq_outcome parse_date clock result rl)"

definition curl_send_fn ::
  "(string \<Rightarrow> systime option) \<Rightarrow> (envelope list \<Rightarrow> envelope \<Rightarrow> curl_result \<times> (nat \<Rightarrow> systime)) \<Rightarrow> send_fn" where
  "curl_send_fn parse_date exchange sent envelope rl =
     (case exchange sent envelope of (result, clock) \<Rightarrow> curl_outcome parse_date clock result rl)"

section \<open>Lemmas\<close>

lemma arc_transport_flush: "tp_flush (arc_transport t) timeout w = (True, w)"
  by (simp add: arc_transport_def default_flush_def)

lemma transport_options_roundtrip:
  "to_recorder t = None \<Longrightarrow> try_from_client_options (into_client_options default_agent t) = Some t"
  by (simp add: try_from_client_options_def into_client_options_def)

lemma reqwest_outcome_eq: "reqwest_outcome = ureq_outcome"
  by (intro ext) (simp add: reqwest_outcome_def ureq_outcome_def)

text \<open>The last line of a name wins.\<close>

definition header_values :: "string \<Rightarrow> string list \<Rightarrow> string list" where
  "header_values name lines =
     List.map_filter (\<lambda>line. case split_once (CHR '':'') line of
        Some (key, value) \<Rightarrow> if eq_ignore_ascii_case key name then Some (trim value) else None
      | None \<Rightarrow> None) lines"

definition last_value :: "string option \<Rightarrow> string list \<Rightarrow> string option" where
  "last_value h vs = (if vs = [] then h else Some (last vs))"

lemma header_values_simps:
  "header_values name [] = []"
  "header_values name (line # lines) =
     (case split_once (CHR '':'') line of
        Some (key, value) \<Rightarrow>
          if eq_ignore_ascii_case key name then trim value # header_values name lines
          else header_values name lines
      | None \<Rightarrow> header_values name lines)"
  by (auto simp: header_values_def List.map_filter_simps split: option.split)

lemma last_value_simps [simp]:
  "last_value h [] = h" "last_value h (v # vs) = last_value (Some v) vs"
  by (simp_all add: last_value_def)

lemma header_names_differ:
  "eq_ignore_ascii_case key ''retry-after'' \<Longrightarrow> \<not> eq_ignore_ascii_case key ''x-sentry-rate-limits''"
  by (auto simp: eq_ignore_ascii_case_def to_ascii_lower_def)

lemma header_function_fold:
  "foldl header_function hs lines =
     (last_value (fst hs) (header_values ''retry-after'' lines),
      last_value (snd hs) (header_values ''x-sentry-rate-limits'' lines))"
proof (induction lines arbitrary: hs)
  case (Cons line lines)
  then show ?case
    using header_names_differ
    by (auto simp: header_function_def header_values_simps split: option.split)
qed (simp add: header_values_simps)

section \<open>Properties\<close>

text \<open>
  curl, reqwest and ureq make the same of a response. Given the values of the headers' last
  lines, curl updates the rate limits and records the loss exactly as the others do, except that a failed
  transfer without a status counts as a network error, which, when no header came, is what
  they make of an error; rejections other than 429 are send errors, and a 429 is never
  recorded as a loss.
\<close>

theorem curl_agrees_with_ureq:
  "curl_outcome parse_date clock \<lparr>cu_failed = failed, cu_lines = lines, cu_code = Some code\<rparr> rl =
     (let (rl', loss) = ureq_outcome parse_date clock
        (HttpOk code (last_value None (header_values ''x-sentry-rate-limits'' lines))
           (last_value None (header_values ''retry-after'' lines))) rl
      in (rl', if failed \<and> code = 0 then Some TlrNetworkError else loss)) \<and>
   curl_outcome parse_date clock \<lparr>cu_failed = True, cu_lines = [], cu_code = Some 0\<rparr> rl =
     ureq_outcome parse_date clock HttpErr rl \<and>
   reqwest_outcome = ureq_outcome \<and>
   snd (ureq_outcome parse_date clock (HttpOk 429 sentry_hd retry_hd) rl) = None"
  by (auto simp: curl_outcome_def ureq_outcome_def header_function_fold header_values_simps
      rejected_status_def http_rate_limit_status_def update_limits_def reqwest_outcome_eq)

text \<open>
  Backing off after a 429. When a response has status 429 and no rate-limit header, the envelope it
  answers is not counted as lost, and for the next 60 seconds the worker sends nothing, whatever the
  envelope: each one is recorded as lost to \<open>ratelimit_backoff\<close> as a whole, and the limiter stays.
\<close>

theorem status_429_stops_worker:
  assumes "ureq_outcome parse_date clock (HttpOk 429 None None) limiter = (rl, loss)"
    and "systime_checked_add (clock 0) (from_secs 60) = Some deadline"
    and "tt_rl p = rl" and "clock' 0 \<le> deadline"
  shows "loss = None \<and>
    worker_send send clock' env p = p\<lparr>tt_rec := record_fate (tt_rec p) (Dropped (items_of env) TlrRatelimitBackoff)\<rparr>"
proof -
  have "rl = update_from_429 (clock 0) limiter" "loss = None"
    using assms(1) by (auto simp: ureq_outcome_def update_limits_def rejected_status_def http_rate_limit_status_def)
  moreover have "is_disabled rl RlAny (clock' 0) (clock' 1) = Some (deadline - clock' 0)"
    using assms(2,4) calculation(1)
    by (simp add: is_disabled_def update_from_429_def time_after_default_delay_def duration_since_def)
  ultimately show ?thesis
    using assms(3) by (simp add: worker_send_def record_lost_envelope_def envelope_losses_def)
qed

lemma status_429_stops_worker_witness:
  "\<forall>env. let rl = fst (ureq_outcome (\<lambda>_. None) (\<lambda>_. from_secs 1000) (HttpOk 429 None None) rate_limiter_new);
     p = (transport_thread_new True None)\<lparr>tt_rl := rl\<rparr>
   in tt_sent (worker_send (\<lambda>_ _ rl. (rl, None)) (\<lambda>_. from_secs 1059) env p) = []"
proof
  fix env
  let ?out = "ureq_outcome (\<lambda>_. None) (\<lambda>_. from_secs 1000) (HttpOk 429 None None) rate_limiter_new"
  let ?p = "(transport_thread_new True None)\<lparr>tt_rl := fst ?out\<rparr>"
  have "systime_checked_add (from_secs 1000) (from_secs 60) = Some (from_secs 1060)"
    "from_secs 1059 \<le> from_secs 1060"
    by (simp_all add: systime_checked_add_def from_secs_def nanos_per_sec_def)
  with status_429_stops_worker [where parse_date = "\<lambda>_. None" and clock = "\<lambda>_. from_secs 1000"
      and limiter = rate_limiter_new and p = ?p and rl = "fst ?out" and loss = "snd ?out"
      and deadline = "from_secs 1060" and clock' = "\<lambda>_. from_secs 1059"
      and send = "\<lambda>_ _ rl. (rl, None)" and env = env]
  show "let rl = fst ?out; p = (transport_thread_new True None)\<lparr>tt_rl := rl\<rparr>
    in tt_sent (worker_send (\<lambda>_ _ rl. (rl, None)) (\<lambda>_. from_secs 1059) env p) = []"
    by (simp add: Let_def transport_thread_new_def)
qed

end
