(* ===== verification/Auth.thy ===== *)
theory Auth
  imports Dsn Prelude
begin

text \<open>
  The \<open>X-Sentry-Auth\<close> header (\<open>sentry-types/src/auth.rs\<close>): building it from pairs, a query
  string, a header or a DSN, and printing it. The form decoder of the \<open>url\<close> crate and the printing of an
  \<open>f64\<close> are parameters; the conversions between times and seconds are those of
  \<open>sentry-types/src/utils.rs\<close>.
\<close>

section \<open>Times as seconds\<close>

text \<open>\<open>as_secs_f64\<close>: whole seconds and fraction are rounded, then their sum.\<close>

definition f64_of_rat :: "rat \<Rightarrow> flt" where
  "f64_of_rat r = (case quotient_of r of (num, den) \<Rightarrow> round_f64 (num < 0) \<bar>num\<bar> den)"

fun f64_add :: "flt \<Rightarrow> flt \<Rightarrow> flt" where
  "f64_add (Fin a) (Fin b) = f64_of_rat (a + b)"
| "f64_add _ _ = NaN"

definition as_secs_f64 :: "duration \<Rightarrow> flt" where
  "as_secs_f64 d =
     f64_add (f64_of_rat (of_int (d div nanos_per_sec)))
       (f64_of_rat (of_int (d mod nanos_per_sec) / of_int nanos_per_sec))"

text \<open>\<open>try_from_secs_f64\<close>: to the nearest nanosecond, ties to even.\<close>

definition try_from_secs_f64 :: "flt \<Rightarrow> duration option" where
  "try_from_secs_f64 x =
     (case x of
        Fin r \<Rightarrow>
          (if r < 0 then None
           else (case quotient_of (r * of_int nanos_per_sec) of
                   (num, den) \<Rightarrow>
                     (let d = round_half_even num den in
                      if d div nanos_per_sec < 2 ^ 64 then Some d else None)))
      | _ \<Rightarrow> None)"

definition datetime_to_timestamp :: "systime \<Rightarrow> flt" where
  "datetime_to_timestamp st =
     (case duration_since st 0 of Some d \<Rightarrow> as_secs_f64 d | None \<Rightarrow> Fin 0)"

definition timestamp_to_datetime :: "flt \<Rightarrow> systime option" where
  "timestamp_to_datetime ts = Option.bind (try_from_secs_f64 ts) (systime_checked_add 0)"

section \<open>The header\<close>

datatype parse_auth_error = NonSentryAuth | InvalidVersion | MissingPublicKey

record auth =
  au_timestamp :: "systime option"
  au_client :: "string option"
  au_version :: nat
  au_key :: string
  au_secret :: "string option"

definition protocol_latest :: nat where
  "protocol_latest = 7"

text \<open>\<open>u16::from_str\<close> on the part before the first dot.\<close>

definition parse_version :: "string \<Rightarrow> nat option" where
  "parse_version value = map_option nat (parse_uint (2 ^ 16 - 1) (hd (split_on (CHR ''.'') value)))"

definition set_pair :: "string \<times> string \<Rightarrow> auth \<Rightarrow> parse_auth_error + auth" where
  "set_pair kv rv =
     (let key = fst kv; value = snd kv in
      if key = ''sentry_timestamp'' then
        Inr (rv\<lparr>au_timestamp := Option.bind (parse_f64 value) timestamp_to_datetime\<rparr>)
      else if key = ''sentry_client'' then Inr (rv\<lparr>au_client := Some value\<rparr>)
      else if key = ''sentry_version'' then
        (case parse_version value of
           None \<Rightarrow> Inl InvalidVersion
         | Some v \<Rightarrow> Inr (rv\<lparr>au_version := v\<rparr>))
      else if key = ''sentry_key'' then Inr (rv\<lparr>au_key := value\<rparr>)
      else if key = ''sentry_secret'' then Inr (rv\<lparr>au_secret := Some value\<rparr>)
      else Inr rv)"

fun set_pairs :: "(string \<times> string) list \<Rightarrow> auth \<Rightarrow> parse_auth_error + auth" where
  "set_pairs [] rv = Inr rv"
| "set_pairs (kv # pairs) rv =
     (case set_pair kv rv of Inl e \<Rightarrow> Inl e | Inr rv' \<Rightarrow> set_pairs pairs rv')"

definition auth_new :: auth where
  "auth_new = \<lparr>au_timestamp = None, au_client = None, au_version = protocol_latest, au_key = [],
     au_secret = None\<rparr>"

definition from_pairs :: "(string \<times> string) list \<Rightarrow> parse_auth_error + auth" where
  "from_pairs pairs =
     (case set_pairs pairs auth_new of
        Inl e \<Rightarrow> Inl e
      | Inr rv \<Rightarrow> if au_key rv = [] then Inl MissingPublicKey else Inr rv)"

definition from_querystring ::
  "(string \<Rightarrow> (string \<times> string) list) \<Rightarrow> string \<Rightarrow> parse_auth_error + auth" where
  "from_querystring form_urlencoded_parse qs = from_pairs (form_urlencoded_parse qs)"

definition auth_is_public :: "auth \<Rightarrow> bool" where
  "auth_is_public a = (au_secret a = None)"

definition auth_display :: "(flt \<Rightarrow> string) \<Rightarrow> auth \<Rightarrow> string" where
  "auth_display show_float a =
     ''Sentry sentry_key='' @ au_key a @ '', sentry_version='' @ show_nat (au_version a)
     @ (case au_timestamp a of None \<Rightarrow> []
        | Some ts \<Rightarrow> '', sentry_timestamp='' @ show_float (datetime_to_timestamp ts))
     @ (case au_client a of None \<Rightarrow> [] | Some client \<Rightarrow> '', sentry_client='' @ client)
     @ (case au_secret a of None \<Rightarrow> [] | Some secret \<Rightarrow> '', sentry_secret='' @ secret)"

text \<open>An item without \<open>=\<close> is skipped; what follows a second \<open>=\<close> is dropped.\<close>

definition header_pair :: "string \<Rightarrow> (string \<times> string) option" where
  "header_pair item =
     (case split_on (CHR ''='') item of
        key # value # _ \<Rightarrow> Some (trim key, trim value)
      | _ \<Rightarrow> None)"

definition auth_from_str :: "string \<Rightarrow> parse_auth_error + auth" where
  "auth_from_str s =
     (case splitn 2 (CHR '' '') s of
        prefix # rest \<Rightarrow>
          (let items = (case rest of [] \<Rightarrow> [] | i # _ \<Rightarrow> i) in
           if \<not> eq_ignore_ascii_case prefix ''sentry'' then Inl NonSentryAuth
           else (case from_pairs (List.map_filter header_pair (split_on (CHR '','') items)) of
                   Inl e \<Rightarrow> Inl e
                 | Inr a \<Rightarrow> if au_key a = [] then Inl MissingPublicKey else Inr a))
      | [] \<Rightarrow> Inl NonSentryAuth)"

definition auth_from_dsn_and_client :: "systime \<Rightarrow> dsn \<Rightarrow> string option \<Rightarrow> auth" where
  "auth_from_dsn_and_client now d client =
     \<lparr>au_timestamp = Some now, au_client = client, au_version = protocol_latest,
      au_key = dsn_public_key d, au_secret = dsn_secret_key d\<rparr>"

definition to_auth :: "systime \<Rightarrow> dsn \<Rightarrow> string option \<Rightarrow> auth" where
  "to_auth now d client_agent = auth_from_dsn_and_client now d client_agent"

section \<open>Lemmas\<close>

text \<open>Values that survive the header: no separator in them, printable at both ends.\<close>

definition header_value :: "string \<Rightarrow> bool" where
  "header_value s \<longleftrightarrow> CHR '','' \<notin> set s \<and> CHR ''='' \<notin> set s \<and> (s = [] \<or> graphic (hd s) \<and> graphic (last s))"

lemma trim_header_value: "header_value s \<Longrightarrow> trim s = s"
  by (cases "s = []") (auto simp: header_value_def intro: trim_graphic)

lemma header_pair_item:
  assumes "header_value v" and "CHR ''='' \<notin> set k"
  shows "header_pair (k @ CHR ''='' # v) = Some (trim k, v)"
  using assms trim_header_value [OF assms(1)]
  by (simp add: header_pair_def split_on_append header_value_def)

lemma trim_names:
  "trim '' sentry_version'' = ''sentry_version''" "trim '' sentry_timestamp'' = ''sentry_timestamp''"
  "trim '' sentry_client'' = ''sentry_client''" "trim '' sentry_secret'' = ''sentry_secret''"
  "trim ''sentry_key'' = ''sentry_key''"
  by code_simp+

text \<open>The items of a printed header, and reading them one by one.\<close>

definition auth_items :: "(flt \<Rightarrow> string) \<Rightarrow> auth \<Rightarrow> (string \<times> string) list" where
  "auth_items show_float a =
     [(''sentry_key'', au_key a), ('' sentry_version'', show_nat (au_version a))]
     @ (case au_timestamp a of None \<Rightarrow> []
        | Some ts \<Rightarrow> [('' sentry_timestamp'', show_float (datetime_to_timestamp ts))])
     @ (case au_client a of None \<Rightarrow> [] | Some client \<Rightarrow> [('' sentry_client'', client)])
     @ (case au_secret a of None \<Rightarrow> [] | Some secret \<Rightarrow> [('' sentry_secret'', secret)])"

fun join_items :: "(string \<times> string) list \<Rightarrow> string" where
  "join_items [] = []"
| "join_items [(k, v)] = k @ CHR ''='' # v"
| "join_items ((k, v) # i # is) = k @ CHR ''='' # v @ CHR '','' # join_items (i # is)"

lemma auth_display_items: "auth_display show_float a = ''Sentry '' @ join_items (auth_items show_float a)"
  by (simp add: auth_display_def auth_items_def split: option.split)

lemma split_join_items:
  assumes "\<forall>(k, v) \<in> set is. CHR '','' \<notin> set k \<and> header_value v" and "is \<noteq> []"
  shows "split_on (CHR '','') (join_items is) = map (\<lambda>(k, v). k @ CHR ''='' # v) is"
  using assms
proof (induction "is" rule: join_items.induct)
  case (3 k v i "is")
  then have "CHR '','' \<notin> set (k @ CHR ''='' # v)" by (simp add: header_value_def)
  from split_on_append [OF this] 3 show ?case by simp
qed (simp_all add: header_value_def)

lemma header_value_show_nat [simp]: "header_value (show_nat n)"
proof -
  have "\<forall>c \<in> set (show_nat n). is_digit c" using show_nat_digits [of n] by (simp add: list_all_iff)
  then have "CHR '','' \<notin> set (show_nat n)" "CHR ''='' \<notin> set (show_nat n)"
    by (auto simp: is_digit_def)
  then show ?thesis
    using show_nat_hd [of n] digit_graphic by (simp add: header_value_def)
qed

lemma parse_version_show_nat: "n < 2 ^ 16 \<Longrightarrow> parse_version (show_nat n) = Some n"
proof -
  assume n: "n < 2 ^ 16"
  have "\<forall>c \<in> set (show_nat n). is_digit c" using show_nat_digits [of n] by (simp add: list_all_iff)
  then have "CHR ''.'' \<notin> set (show_nat n)" by (auto simp: is_digit_def)
  with n parse_uint_show_nat [of n "2 ^ 16 - 1"] show ?thesis by (simp add: parse_version_def)
qed

lemma header_pairs:
  "\<forall>(k, v) \<in> set is. CHR ''='' \<notin> set k \<and> header_value v \<Longrightarrow>
   List.map_filter header_pair (map (\<lambda>(k, v). k @ CHR ''='' # v) is) = map (\<lambda>(k, v). (trim k, v)) is"
  by (induction "is") (auto simp: List.map_filter_simps header_pair_item)

section \<open>Properties\<close>

text \<open>
  A printed header is read back. As long as key, client and secret contain no comma and no equals sign
  and start and end with a printable character, parsing what was printed gives every field
  back; the timestamp comes back as the time nearest to its seconds in \<open>f64\<close>, given that the printed number
  reads back as itself.
\<close>

theorem auth_roundtrip:
  assumes "au_version a < 2 ^ 16" and "au_key a \<noteq> []" and "header_value (au_key a)"
    and "\<And>client. au_client a = Some client \<Longrightarrow> header_value client"
    and "\<And>secret. au_secret a = Some secret \<Longrightarrow> header_value secret"
    and "\<And>t. au_timestamp a = Some t \<Longrightarrow> header_value (show_float (datetime_to_timestamp t)) \<and>
      parse_f64 (show_float (datetime_to_timestamp t)) = Some (datetime_to_timestamp t)"
  shows "auth_from_str (auth_display show_float a) =
    Inr (a\<lparr>au_timestamp := Option.bind (au_timestamp a) (\<lambda>t. timestamp_to_datetime (datetime_to_timestamp t))\<rparr>)"
proof -
  let ?items = "auth_items show_float a"
  let ?pairs = "map (\<lambda>(k, v). (trim k, v)) ?items"
  have clean: "\<forall>(k, v) \<in> set ?items. CHR '','' \<notin> set k \<and> CHR ''='' \<notin> set k \<and> header_value v"
    using assms(3-6) by (auto simp: auth_items_def split: option.splits)
  then have "split_on (CHR '','') (join_items ?items) = map (\<lambda>(k, v). k @ CHR ''='' # v) ?items"
    by (intro split_join_items) (auto simp: auth_items_def)
  then have pairs: "List.map_filter header_pair (split_on (CHR '','') (join_items ?items)) = ?pairs"
    using clean header_pairs [of ?items] by fastforce
  have "splitn 2 (CHR '' '') (''Sentry '' @ join_items ?items) = [''Sentry'', join_items ?items]"
    by (simp add: numeral_2_eq_2)
  moreover have "eq_ignore_ascii_case ''Sentry'' ''sentry''" by code_simp
  moreover have "from_pairs ?pairs = Inr (a\<lparr>au_timestamp :=
      Option.bind (au_timestamp a) (\<lambda>t. timestamp_to_datetime (datetime_to_timestamp t))\<rparr>)"
    using assms(1,2,6) parse_version_show_nat [OF assms(1)]
    by (cases "au_timestamp a"; cases "au_client a"; cases "au_secret a")
      (simp_all add: from_pairs_def auth_new_def auth_items_def trim_names set_pair_def)
  ultimately show ?thesis
    using assms(2) by (simp add: auth_from_str_def auth_display_items pairs)
qed

definition sample_auth :: auth where
  "sample_auth = \<lparr>au_timestamp = Some (from_secs 5), au_client = Some ''rust/1'', au_version = 7,
     au_key = ''k1'', au_secret = None\<rparr>"

lemma auth_roundtrip_witness:
  "auth_from_str (auth_display (\<lambda>_. ''5'') sample_auth) = Inr sample_auth"
proof -
  have t: "datetime_to_timestamp (from_secs 5) = Fin 5" "timestamp_to_datetime (Fin 5) = Some (from_secs 5)"
    by code_simp+
  have "header_value ''k1''" "header_value ''rust/1''" "header_value ''5''" "parse_f64 ''5'' = Some (Fin 5)"
    by code_simp+
  then show ?thesis
    using auth_roundtrip [where a = sample_auth and show_float = "\<lambda>_. ''5''"] t by (simp add: sample_auth_def)
qed

end
