(* ===== verification/Crontab.thy ===== *)
theory Crontab
  imports RustStr
begin

text \<open>
  The validator of crontab schedules (\<open>sentry-types/src/crontab_validator.rs\<close>) and the schedules of
  monitors built with it (\<open>protocol/monitor.rs\<close>), with the set of times a segment stands for as the
  meaning of what is accepted. Lower-casing is the ASCII one: the names it is compared with are ASCII,
  and no other character has a lower case among their letters that \<open>to_lowercase\<close> would add.
\<close>

section \<open>The validator\<close>

record segment_allowed_values =
  numeric_range :: "int \<times> int"
  single_values :: "string list"

definition months :: "string list" where
  "months = [''jan'', ''feb'', ''mar'', ''apr'', ''may'', ''jun'', ''jul'', ''aug'', ''sep'', ''oct'',
     ''nov'', ''dec'']"

definition days :: "string list" where
  "days = [''sun'', ''mon'', ''tue'', ''wed'', ''thu'', ''fri'', ''sat'']"

definition allowed_values :: "segment_allowed_values list" where
  "allowed_values =
     [\<lparr>numeric_range = (0, 59), single_values = []\<rparr>,
      \<lparr>numeric_range = (0, 23), single_values = []\<rparr>,
      \<lparr>numeric_range = (1, 31), single_values = []\<rparr>,
      \<lparr>numeric_range = (1, 12), single_values = months\<rparr>,
      \<lparr>numeric_range = (0, 6), single_values = days\<rparr>]"

definition in_range :: "int \<Rightarrow> int \<times> int \<Rightarrow> bool" where
  "in_range n r = (fst r \<le> n \<and> n \<le> snd r)"

definition parse_u64 :: "string \<Rightarrow> int option" where
  "parse_u64 s = parse_uint (2 ^ 64 - 1) s"

definition validate_range :: "string \<Rightarrow> segment_allowed_values \<Rightarrow> bool" where
  "validate_range rng allowed =
     (rng = ''*'' \<or>
      (case map parse_u64 (split_on (CHR ''-'') rng) of
         [a, b] \<Rightarrow>
           list_all (\<lambda>limit. case limit of Some n \<Rightarrow> in_range n (numeric_range allowed) | None \<Rightarrow> False) [a, b]
           \<and> the a \<le> the b
       | _ \<Rightarrow> False))"

definition validate_step :: "string \<Rightarrow> bool" where
  "validate_step step = (case parse_u64 step of Some v \<Rightarrow> v > 0 | None \<Rightarrow> False)"

definition validate_steprange :: "string \<Rightarrow> segment_allowed_values \<Rightarrow> bool" where
  "validate_steprange steprange allowed =
     (case splitn 2 (CHR ''/'') steprange of
        [] \<Rightarrow> False
      | rng # rest \<Rightarrow>
          validate_range rng allowed \<and> (case rest of [] \<Rightarrow> True | step # _ \<Rightarrow> validate_step step))"

definition validate_listitem :: "string \<Rightarrow> segment_allowed_values \<Rightarrow> bool" where
  "validate_listitem listitem allowed =
     (case parse_u64 listitem of
        Some v \<Rightarrow> in_range v (numeric_range allowed)
      | None \<Rightarrow> validate_steprange listitem allowed)"

definition validate_list :: "string \<Rightarrow> segment_allowed_values \<Rightarrow> bool" where
  "validate_list ls allowed = list_all (\<lambda>i. validate_listitem i allowed) (split_on (CHR '','') ls)"

definition validate_segment :: "string \<Rightarrow> segment_allowed_values \<Rightarrow> bool" where
  "validate_segment segment allowed =
     (map to_ascii_lower segment \<in> set (single_values allowed) \<or> validate_list segment allowed)"

text \<open>\<open>split_whitespace\<close>: the pieces between runs of Unicode white space.\<close>

function split_whitespace_from :: "string \<Rightarrow> string \<Rightarrow> string list" where
  "split_whitespace_from acc s =
     (case s of
        [] \<Rightarrow> (if acc = [] then [] else [acc])
      | c # cs \<Rightarrow>
          (case find (\<lambda>w. w \<noteq> [] \<and> take (length w) s = w) ws_seqs of
             None \<Rightarrow> split_whitespace_from (acc @ [c]) cs
           | Some w \<Rightarrow> (if acc = [] then [] else [acc]) @ split_whitespace_from [] (drop (length w) s)))"
  by pat_completeness auto
termination
  by (relation "measure (\<lambda>(_, s). length s)") (auto simp: find_Some_iff)

declare split_whitespace_from.simps [simp del]

definition split_whitespace :: "string \<Rightarrow> string list" where
  "split_whitespace s = split_whitespace_from [] s"

definition validate :: "string \<Rightarrow> bool" where
  "validate crontab =
     (let lists = split_whitespace crontab in
      if length lists \<noteq> 5 then False
      else list_all (\<lambda>(segment, allowed). validate_segment segment allowed) (zip lists allowed_values))"

section \<open>Monitor schedules\<close>

datatype monitor_interval_unit = Year | Month | Week | Day | Hour | Minute

datatype monitor_schedule = Crontab string | Interval u64 monitor_interval_unit

datatype monitor_check_in_status = CheckInOk | CheckInError | CheckInInProgress | CheckInMissed | CheckInUnknown

record monitor_config =
  mon_schedule :: monitor_schedule
  mon_checkin_margin :: "u64 option"
  mon_max_runtime :: "u64 option"
  mon_timezone :: "string option"
  mon_failure_issue_threshold :: "u64 option"
  mon_recovery_threshold :: "u64 option"

text \<open>The error carries the rejected string.\<close>

datatype crontab_parse_error = CrontabParseError string

fun join_with :: "string \<Rightarrow> string list \<Rightarrow> string" where
  "join_with sep [] = []"
| "join_with sep [x] = x"
| "join_with sep (x # y # xs) = x @ sep @ join_with sep (y # xs)"

fun crontab_error_display :: "crontab_parse_error \<Rightarrow> string" where
  "crontab_error_display (CrontabParseError invalid) =
     [CHR 0x22] @ invalid @ [CHR 0x22] @ '' is not a valid crontab schedule.'' @ [CHR 0x0A, CHR 0x09, CHR 0x20] @
     ''For help determining why this schedule is invalid, you can use this site: https://crontab.guru/#'' @
     join_with ''_'' (split_whitespace invalid)"

definition from_crontab :: "string \<Rightarrow> crontab_parse_error + monitor_schedule" where
  "from_crontab crontab_str =
     (if validate crontab_str then Inr (Crontab crontab_str) else Inl (CrontabParseError crontab_str))"

section \<open>What a segment means\<close>

text \<open>
  The reference: a grammar with the set of values each form stands for. A range is a star or two
  bounds in order; an item is a number, a range, or a range with a positive step; a segment
  is a name, or items between commas.
\<close>

inductive range_denotes :: "int \<times> int \<Rightarrow> string \<Rightarrow> int set \<Rightarrow> bool" for r where
  star: "range_denotes r ''*'' {fst r..snd r}"
| bounds: "parse_u64 a = Some m \<Longrightarrow> parse_u64 b = Some n \<Longrightarrow> fst r \<le> m \<Longrightarrow> m \<le> n \<Longrightarrow> n \<le> snd r \<Longrightarrow>
    range_denotes r (a @ CHR ''-'' # b) {m..n}"

inductive item_denotes :: "int \<times> int \<Rightarrow> string \<Rightarrow> int set \<Rightarrow> bool" for r where
  number: "parse_u64 s = Some n \<Longrightarrow> fst r \<le> n \<Longrightarrow> n \<le> snd r \<Longrightarrow> item_denotes r s {n}"
| plain: "range_denotes r s vs \<Longrightarrow> item_denotes r s vs"
| step: "range_denotes r s vs \<Longrightarrow> parse_u64 k = Some v \<Longrightarrow> 0 < v \<Longrightarrow>
    item_denotes r (s @ CHR ''/'' # k) {x \<in> vs. (x - Min vs) mod v = 0}"

inductive_cases range_denotesE: "range_denotes r s vs"
inductive_cases item_denotesE: "item_denotes r s vs"

lemma parse_u64_chars:
  assumes "parse_u64 s = Some n" and "c \<in> set s"
  shows "is_digit c \<or> c = CHR ''+''"
  using assms by (auto simp: parse_u64_def parse_uint_def Let_def list_all_iff split: if_splits list.splits)

lemma parse_u64_no: "parse_u64 s = Some n \<Longrightarrow> CHR ''-'' \<notin> set s \<and> CHR ''/'' \<notin> set s \<and> CHR ''*'' \<notin> set s"
  using parse_u64_chars [of s n] by (fastforce simp: is_digit_def)

lemma split_on_one: "split_on c s = [b] \<Longrightarrow> s = b \<and> c \<notin> set b"
  by (induction s arbitrary: b) (auto split: if_splits list.splits)

lemma split_on_two: "split_on c s = [a, b] \<longleftrightarrow> s = a @ c # b \<and> c \<notin> set a \<and> c \<notin> set b"
proof
  assume "split_on c s = [a, b]"
  then show "s = a @ c # b \<and> c \<notin> set a \<and> c \<notin> set b"
  proof (induction s arbitrary: a)
    case (Cons x xs)
    show ?case
    proof (cases "x = c")
      case True
      with Cons.prems have "a = []" "split_on c xs = [b]" by simp_all
      then show ?thesis using True split_on_one [of c xs b] by simp
    next
      case False
      with Cons.prems obtain a' where "a = x # a'" "split_on c xs = [a', b]"
        by (auto split: list.splits)
      then show ?thesis using Cons.IH [of a'] False by simp
    qed
  qed simp
next
  assume "s = a @ c # b \<and> c \<notin> set a \<and> c \<notin> set b"
  then show "split_on c s = [a, b]" by (simp add: split_on_append)
qed

lemma validate_range_iff: "validate_range s al \<longleftrightarrow> (\<exists>vs. range_denotes (numeric_range al) s vs)"
proof
  assume v: "validate_range s al"
  show "\<exists>vs. range_denotes (numeric_range al) s vs"
  proof (cases "s = ''*''")
    case True
    then show ?thesis using range_denotes.star by blast
  next
    case False
    with v obtain a b where ab: "split_on (CHR ''-'') s = [a, b]"
      by (auto simp: validate_range_def split: list.splits)
    with v False obtain m n where "parse_u64 a = Some m" "parse_u64 b = Some n"
      "in_range m (numeric_range al)" "in_range n (numeric_range al)" "m \<le> n"
      by (auto simp: validate_range_def split: option.splits)
    with ab show ?thesis
      using range_denotes.bounds [of a m b n "numeric_range al"] by (auto simp: split_on_two in_range_def)
  qed
next
  assume "\<exists>vs. range_denotes (numeric_range al) s vs"
  then obtain vs where "range_denotes (numeric_range al) s vs" by blast
  then show "validate_range s al"
  proof cases
    case star
    then show ?thesis by (simp add: validate_range_def)
  next
    case (bounds a m b n)
    then have "split_on (CHR ''-'') s = [a, b]" by (auto simp: split_on_two dest: parse_u64_no)
    with bounds show ?thesis by (simp add: validate_range_def in_range_def)
  qed
qed

lemma range_denotes_facts:
  assumes "range_denotes r s vs" and "fst r \<le> snd r"
  shows "vs \<noteq> {} \<and> vs \<subseteq> {fst r..snd r} \<and> CHR ''/'' \<notin> set s \<and> CHR '','' \<notin> set s"
  using assms(1)
proof cases
  case (bounds a m b n)
  then show ?thesis
    using parse_u64_chars [of a m "CHR '',''"] parse_u64_chars [of b n "CHR '',''"]
    by (auto dest: parse_u64_no simp: is_digit_def)
qed (use assms(2) in auto)

lemma validate_steprange_iff:
  assumes "fst (numeric_range al) \<le> snd (numeric_range al)"
  shows "validate_steprange s al \<longleftrightarrow> (\<exists>vs. range_denotes (numeric_range al) s vs) \<or>
    (\<exists>a k vs v. s = a @ CHR ''/'' # k \<and> range_denotes (numeric_range al) a vs \<and> parse_u64 k = Some v \<and> 0 < v)"
proof (cases "split_once (CHR ''/'') s")
  case None
  then have "CHR ''/'' \<notin> set s" by (simp add: split_once_None_iff)
  then show ?thesis by (auto simp: validate_steprange_def numeral_2_eq_2 validate_range_iff)
next
  case (Some ab)
  obtain a k where ab: "ab = (a, k)" by (cases ab)
  with Some have s: "s = a @ CHR ''/'' # k" "CHR ''/'' \<notin> set a" using split_once_Some by auto
  have valid: "validate_steprange s al \<longleftrightarrow> (\<exists>vs. range_denotes (numeric_range al) a vs) \<and>
      (\<exists>v. parse_u64 k = Some v \<and> 0 < v)"
    using Some ab by (simp add: validate_steprange_def numeral_2_eq_2 validate_range_iff validate_step_def
        split: option.split)
  have unique: "a' = a \<and> k' = k" if "s = a' @ CHR ''/'' # k'" "range_denotes (numeric_range al) a' vs" for a' k' vs
    using that s split_once_append [of "CHR ''/''" a' k'] split_once_append [of "CHR ''/''" a k]
      range_denotes_facts [OF that(2) assms] by simp
  have none: "\<not> range_denotes (numeric_range al) s vs" for vs
    using range_denotes_facts [OF _ assms, of s vs] s(1) by auto
  show ?thesis unfolding valid using none unique s(1) by metis
qed

lemma validate_listitem_iff:
  assumes "fst (numeric_range al) \<le> snd (numeric_range al)"
  shows "validate_listitem s al \<longleftrightarrow> (\<exists>vs. item_denotes (numeric_range al) s vs)"
proof (cases "parse_u64 s")
  case None
  then show ?thesis
    unfolding validate_listitem_def validate_steprange_iff [OF assms]
    by (auto intro: item_denotes.plain item_denotes.step elim!: item_denotesE)
next
  case (Some n)
  have no: "\<not> range_denotes (numeric_range al) s vs" for vs
    using parse_u64_no [OF Some] by (auto elim!: range_denotesE)
  have "s \<noteq> a @ CHR ''/'' # k" for a k using parse_u64_no [OF Some] by auto
  with Some no show ?thesis
    by (auto simp: validate_listitem_def in_range_def intro: item_denotes.number elim!: item_denotesE)
qed

lemma item_denotes_facts:
  assumes "item_denotes r s vs" and "fst r \<le> snd r"
  shows "vs \<noteq> {} \<and> vs \<subseteq> {fst r..snd r}"
  using assms(1)
proof cases
  case (step a ws k v)
  have ws: "ws \<noteq> {}" "ws \<subseteq> {fst r..snd r}" using range_denotes_facts [OF step(3) assms(2)] by auto
  then have "finite ws" by (meson finite_atLeastAtMost_int finite_subset)
  then have "Min ws \<in> ws" using ws(1) by simp
  then have "Min ws \<in> vs" using step(2) by simp
  with ws step(2) show ?thesis by auto
qed (use range_denotes_facts assms(2) in auto)

text \<open>What a whole segment stands for: a name, or a list of items with their values.\<close>

definition segment_denotes :: "segment_allowed_values \<Rightarrow> string \<Rightarrow> bool" where
  "segment_denotes al s \<longleftrightarrow> map to_ascii_lower s \<in> set (single_values al) \<or>
     list_all (\<lambda>item. \<exists>vs. item_denotes (numeric_range al) item vs \<and> vs \<noteq> {} \<and>
       vs \<subseteq> {fst (numeric_range al)..snd (numeric_range al)}) (split_on (CHR '','') s)"

lemma validate_segment_iff:
  assumes "fst (numeric_range al) \<le> snd (numeric_range al)"
  shows "validate_segment s al \<longleftrightarrow> segment_denotes al s"
proof -
  have "validate_listitem i al \<longleftrightarrow> (\<exists>vs. item_denotes (numeric_range al) i vs \<and> vs \<noteq> {} \<and>
      vs \<subseteq> {fst (numeric_range al)..snd (numeric_range al)})" for i
    using validate_listitem_iff [OF assms] item_denotes_facts [OF _ assms] by blast
  then show ?thesis by (simp add: validate_segment_def validate_list_def segment_denotes_def)
qed

lemma allowed_values_ranges: "al \<in> set allowed_values \<Longrightarrow> fst (numeric_range al) \<le> snd (numeric_range al)"
  by (auto simp: allowed_values_def)

lemma validate_iff:
  "validate s \<longleftrightarrow> list_all2 (\<lambda>segment al. segment_denotes al segment) (split_whitespace s) allowed_values"
proof (cases "length (split_whitespace s) = length allowed_values")
  case True
  then have "list_all2 (\<lambda>segment al. segment_denotes al segment) (split_whitespace s) allowed_values \<longleftrightarrow>
      list_all2 (\<lambda>segment al. validate_segment segment al) (split_whitespace s) allowed_values"
    using allowed_values_ranges validate_segment_iff by (intro list.rel_cong) auto
  with True show ?thesis
    by (simp add: validate_def Let_def list_all2_iff list_all_iff allowed_values_def split_beta)
qed (auto simp: validate_def Let_def allowed_values_def dest: list_all2_lengthD)

text \<open>Cases of the validator's own tests.\<close>

lemma validate_examples:
  "validate ''* * * * *''" "validate '' *  *  *      *    * ''" "\<not> validate ''* * * *''"
  "validate ''0,24 5,23,6 1,2,3,31 1,2 5,6''" "validate ''0 0 1 JAN WED''" "\<not> validate ''0 0 1 may sat,sun''"
  "validate ''0-20/3 * * * *''" "\<not> validate ''20-0 * * * *''" "\<not> validate ''*/foo * * * *''"
  by code_simp+

section \<open>Properties\<close>

text \<open>
  C27: The validator accepts exactly the crontab grammar: five segments, each a month or day name in
  any case where there is one, or a list of numbers, stars and ordered ranges within the bounds of
  its field, with an optional positive step after a star or range. Every item accepted
  stands for at least one value of its field, and a schedule is built exactly from such strings.
\<close>

theorem crontab_grammar:
  "(validate s \<longleftrightarrow>
     list_all2 (\<lambda>segment al. segment_denotes al segment) (split_whitespace s) allowed_values) \<and>
   (from_crontab s = Inr sched \<longleftrightarrow>
     list_all2 (\<lambda>segment al. segment_denotes al segment) (split_whitespace s) allowed_values \<and>
     sched = Crontab s)"
  using validate_iff [of s] by (auto simp: from_crontab_def)

end
