(* ===== verification/Units.thy ===== *)
theory Units
  imports Prelude
begin

text \<open>
  Units of metrics (\<open>sentry-types/src/protocol/unit.rs\<close>): the names that are recognised, and the text
  a unit is serialised as.
\<close>

datatype munit =
    Nanosecond | Microsecond | Millisecond | Second | Minute | Hour | Day | Week
  | Bit | Byte | Kilobyte | Kibibyte | Megabyte | Mebibyte | Gigabyte | Gibibyte | Terabyte | Tebibyte
  | Petabyte | Pebibyte | Exabyte | Exbibyte | Ratio | Percent
  | Other string

text \<open>The spellings of each unit, the micro sign and the Greek letter mu as their bytes.\<close>

definition unit_names :: "(munit \<times> string list) list" where
  "unit_names =
     [(Nanosecond, [''nanosecond'', ''Nanosecond'', ''nanoseconds'', ''Nanoseconds'', ''ns'']),
      (Microsecond, [''microsecond'', ''Microsecond'', ''microseconds'', ''Microseconds'',
         [CHR 0xCE, CHR 0xBC, CHR ''s''], [CHR 0xC2, CHR 0xB5, CHR ''s'']]),
      (Millisecond, [''millisecond'', ''Millisecond'', ''milliseconds'', ''Milliseconds'', ''ms'']),
      (Second, [''second'', ''Second'', ''seconds'', ''Seconds'', ''s'']),
      (Minute, [''minute'', ''Minute'', ''minutes'', ''Minutes'', ''min'']),
      (Hour, [''hour'', ''Hour'', ''hours'', ''Hours'', ''h'']),
      (Day, [''day'', ''Day'', ''days'', ''Days'', ''d'']),
      (Week, [''week'', ''Week'', ''weeks'', ''Weeks'']),
      (Bit, [''bit'', ''Bit'', ''bits'', ''Bits'', ''b'']),
      (Byte, [''byte'', ''Byte'', ''bytes'', ''Bytes'', ''B'']),
      (Kilobyte, [''kilobyte'', ''Kilobyte'', ''kilobytes'', ''Kilobytes'', ''kB'']),
      (Kibibyte, [''kibibyte'', ''Kibibyte'', ''kibibytes'', ''Kibibytes'', ''KiB'']),
      (Megabyte, [''megabyte'', ''Megabyte'', ''megabytes'', ''Megabytes'', ''MB'']),
      (Mebibyte, [''mebibyte'', ''Mebibyte'', ''mebibytes'', ''Mebibytes'', ''MiB'']),
      (Gigabyte, [''gigabyte'', ''Gigabyte'', ''gigabytes'', ''Gigabytes'', ''GB'']),
      (Gibibyte, [''gibibyte'', ''Gibibyte'', ''gibibytes'', ''Gibibytes'', ''GiB'']),
      (Terabyte, [''terabyte'', ''Terabyte'', ''terabytes'', ''Terabytes'', ''TB'']),
      (Tebibyte, [''tebibyte'', ''Tebibyte'', ''tebibytes'', ''Tebibytes'', ''TiB'']),
      (Petabyte, [''petabyte'', ''Petabyte'', ''petabytes'', ''Petabytes'', ''PB'']),
      (Pebibyte, [''pebibyte'', ''Pebibyte'', ''pebibytes'', ''Pebibytes'', ''PiB'']),
      (Exabyte, [''exabyte'', ''Exabyte'', ''exabytes'', ''Exabytes'', ''EB'']),
      (Exbibyte, [''exbibyte'', ''Exbibyte'', ''exbibytes'', ''Exbibytes'', ''EiB'']),
      (Ratio, [''ratio'', ''Ratio'']),
      (Percent, [''percent'', ''Percent'', ''%''])]"

text \<open>\<open>Unit::new\<close>: the first arm of the \<open>match\<close> with the name.\<close>

definition unit_new :: "string \<Rightarrow> munit" where
  "unit_new v =
     (case find (\<lambda>(_, names). v \<in> set names) unit_names of Some (u, _) \<Rightarrow> u | None \<Rightarrow> Other v)"

text \<open>The serialised names: those of the variants in lower case, and the text of other units.\<close>

fun unit_serialize :: "munit \<Rightarrow> string" where
  "unit_serialize Nanosecond = ''nanosecond''"
| "unit_serialize Microsecond = ''microsecond''"
| "unit_serialize Millisecond = ''millisecond''"
| "unit_serialize Second = ''second''"
| "unit_serialize Minute = ''minute''"
| "unit_serialize Hour = ''hour''"
| "unit_serialize Day = ''day''"
| "unit_serialize Week = ''week''"
| "unit_serialize Bit = ''bit''"
| "unit_serialize Byte = ''byte''"
| "unit_serialize Kilobyte = ''kilobyte''"
| "unit_serialize Kibibyte = ''kibibyte''"
| "unit_serialize Megabyte = ''megabyte''"
| "unit_serialize Mebibyte = ''mebibyte''"
| "unit_serialize Gigabyte = ''gigabyte''"
| "unit_serialize Gibibyte = ''gibibyte''"
| "unit_serialize Terabyte = ''terabyte''"
| "unit_serialize Tebibyte = ''tebibyte''"
| "unit_serialize Petabyte = ''petabyte''"
| "unit_serialize Pebibyte = ''pebibyte''"
| "unit_serialize Exabyte = ''exabyte''"
| "unit_serialize Exbibyte = ''exbibyte''"
| "unit_serialize Ratio = ''ratio''"
| "unit_serialize Percent = ''percent''"
| "unit_serialize (Other v) = v"

lemma unit_new_serialize: "\<forall>v. u \<noteq> Other v \<Longrightarrow> unit_new (unit_serialize u) = u"
  by (cases u) (simp_all add: unit_new_def unit_names_def)

lemma unit_names_not_other: "(u, names) \<in> set unit_names \<Longrightarrow> u \<noteq> Other v"
  by (auto simp: unit_names_def)

text \<open>
  A unit that was read from a text survives being written and read again; every spelling of a
  unit is written under the one name of the unit.
\<close>

theorem unit_roundtrip: "unit_new (unit_serialize (unit_new v)) = unit_new v"
proof (cases "find (\<lambda>(_, names). v \<in> set names) unit_names")
  case None
  then have "unit_new v = Other v" by (simp add: unit_new_def)
  then show ?thesis by simp
next
  case (Some x)
  then have "unit_new v = fst x" by (simp add: unit_new_def split: prod.split)
  moreover have "x \<in> set unit_names" using Some by (metis find_Some_iff nth_mem)
  then have "\<forall>v. fst x \<noteq> Other v" using unit_names_not_other [of "fst x" "snd x"] by simp
  ultimately show ?thesis using unit_new_serialize [of "fst x"] by simp
qed

end
