(* ===== verification/Scope.thy ===== *)
theory Scope
  imports Options
begin

text \<open>
  Scopes and the scope stack (\<open>sentry-core/src/scope/real.rs\<close>): the setters, what a scope adds
  to events, transactions, logs and metrics, the stack of layers and its guards. Fields behind
  a copy-on-write \<open>Arc\<close> are values; the session cell (\<open>Arc<Mutex<Option<Session>>>\<close>) is really
  shared, so a scope holds its address. User-facing metrics come from \<open>metrics.rs\<close>.
\<close>

section \<open>The scope\<close>

record scope =
  sc_level :: "level option"
  sc_fingerprint :: "string list option"
  sc_transaction :: "string option"
  sc_breadcrumbs :: "breadcrumb list"
  sc_user :: "user option"
  sc_extra :: "json smap"
  sc_tags :: "string smap"
  sc_contexts :: "ctx smap"
  sc_event_processors :: "(event \<Rightarrow> event option) list"
  sc_session :: nat
  sc_span :: "transaction_or_span option"
  sc_attachments :: "attachment list"
  sc_propagation_context :: propagation

text \<open>The default has a new session cell and random trace and span ids.\<close>

definition scope_default :: "nat \<Rightarrow> trace_id \<Rightarrow> span_id \<Rightarrow> scope" where
  "scope_default cell fresh_trace fresh_span =
     \<lparr>sc_level = None, sc_fingerprint = None, sc_transaction = None, sc_breadcrumbs = [],
      sc_user = None, sc_extra = [], sc_tags = [], sc_contexts = [], sc_event_processors = [],
      sc_session = cell, sc_span = None, sc_attachments = [],
      sc_propagation_context = propagation_new fresh_trace fresh_span\<rparr>"

section \<open>Setters\<close>

definition scope_clear :: "nat \<Rightarrow> trace_id \<Rightarrow> span_id \<Rightarrow> scope \<Rightarrow> scope" where
  "scope_clear cell fresh_trace fresh_span _ = scope_default cell fresh_trace fresh_span"

definition clear_breadcrumbs :: "scope \<Rightarrow> scope" where
  "clear_breadcrumbs sc = sc\<lparr>sc_breadcrumbs := []\<rparr>"

definition scope_set_level :: "level option \<Rightarrow> scope \<Rightarrow> scope" where
  "scope_set_level l sc = sc\<lparr>sc_level := l\<rparr>"

definition scope_set_fingerprint :: "string list option \<Rightarrow> scope \<Rightarrow> scope" where
  "scope_set_fingerprint fp sc = sc\<lparr>sc_fingerprint := fp\<rparr>"

text \<open>Naming the transaction of a scope also renames the running transaction it refers to.\<close>

definition scope_set_transaction :: "string option \<Rightarrow> scope \<times> heap \<Rightarrow> scope \<times> heap" where
  "scope_set_transaction tx s =
     (let sc = (fst s)\<lparr>sc_transaction := tx\<rparr> in
      case tx of
        None \<Rightarrow> (sc, snd s)
      | Some name \<Rightarrow>
          (case sc_span sc of
             Some (SpHandle x) \<Rightarrow> (sc, upd_txn (sh_transaction x) (upd_ptx (\<lambda>p. p\<lparr>tx_name := Some name\<rparr>)) (snd s))
           | Some (TxHandle x) \<Rightarrow> (sc, upd_txn (th_inner x) (upd_ptx (\<lambda>p. p\<lparr>tx_name := Some name\<rparr>)) (snd s))
           | None \<Rightarrow> (sc, snd s)))"

definition scope_set_user :: "user option \<Rightarrow> scope \<Rightarrow> scope" where
  "scope_set_user u sc = sc\<lparr>sc_user := u\<rparr>"

definition scope_set_tag :: "string \<Rightarrow> string \<Rightarrow> scope \<Rightarrow> scope" where
  "scope_set_tag key value sc = sc\<lparr>sc_tags := sm_insert key value (sc_tags sc)\<rparr>"

definition scope_remove_tag :: "string \<Rightarrow> scope \<Rightarrow> scope" where
  "scope_remove_tag key sc = sc\<lparr>sc_tags := sm_remove key (sc_tags sc)\<rparr>"

definition scope_set_context :: "string \<Rightarrow> ctx \<Rightarrow> scope \<Rightarrow> scope" where
  "scope_set_context key value sc = sc\<lparr>sc_contexts := sm_insert key value (sc_contexts sc)\<rparr>"

definition scope_remove_context :: "string \<Rightarrow> scope \<Rightarrow> scope" where
  "scope_remove_context key sc = sc\<lparr>sc_contexts := sm_remove key (sc_contexts sc)\<rparr>"

definition scope_set_extra :: "string \<Rightarrow> json \<Rightarrow> scope \<Rightarrow> scope" where
  "scope_set_extra key value sc = sc\<lparr>sc_extra := sm_insert key value (sc_extra sc)\<rparr>"

definition scope_remove_extra :: "string \<Rightarrow> scope \<Rightarrow> scope" where
  "scope_remove_extra key sc = sc\<lparr>sc_extra := sm_remove key (sc_extra sc)\<rparr>"

definition add_event_processor :: "(event \<Rightarrow> event option) \<Rightarrow> scope \<Rightarrow> scope" where
  "add_event_processor f sc = sc\<lparr>sc_event_processors := sc_event_processors sc @ [f]\<rparr>"

definition scope_add_attachment :: "attachment \<Rightarrow> scope \<Rightarrow> scope" where
  "scope_add_attachment a sc = sc\<lparr>sc_attachments := sc_attachments sc @ [a]\<rparr>"

definition clear_attachments :: "scope \<Rightarrow> scope" where
  "clear_attachments sc = sc\<lparr>sc_attachments := []\<rparr>"

definition scope_set_span :: "transaction_or_span option \<Rightarrow> scope \<Rightarrow> scope" where
  "scope_set_span s sc = sc\<lparr>sc_span := s\<rparr>"

section \<open>Applying a scope\<close>

definition apply_propagation_context :: "scope \<Rightarrow> event \<Rightarrow> event" where
  "apply_propagation_context sc e =
     (if sm_has ''trace'' (ev_contexts e) then e
      else e\<lparr>ev_contexts := sm_insert ''trace'' (CtxTrace (trace_context_default
               (pc_span_id (sc_propagation_context sc)) (pc_trace_id (sc_propagation_context sc))))
             (ev_contexts e)\<rparr>)"

text \<open>The processors in order; the first that answers \<open>None\<close> drops the event.\<close>

fun run_processors :: "(event \<Rightarrow> event option) list \<Rightarrow> event \<Rightarrow> event option" where
  "run_processors [] e = Some e"
| "run_processors (p # ps) e = (case p e of Some e' \<Rightarrow> run_processors ps e' | None \<Rightarrow> None)"

definition apply_scope_data :: "scope \<Rightarrow> heap \<Rightarrow> event \<Rightarrow> event" where
  "apply_scope_data sc h e =
     (let e1 = (case sc_level sc of Some l \<Rightarrow> e\<lparr>ev_level := l\<rparr> | None \<Rightarrow> e);
          e2 = (if ev_user e1 = None then
                  (case sc_user sc of Some u \<Rightarrow> e1\<lparr>ev_user := Some u\<rparr> | None \<Rightarrow> e1) else e1);
          e3 = e2\<lparr>ev_breadcrumbs := ev_breadcrumbs e2 @ sc_breadcrumbs sc,
                 ev_extra := sm_extend (ev_extra e2) (sc_extra sc),
                 ev_tags := sm_extend (ev_tags e2) (sc_tags sc),
                 ev_contexts := sm_extend (ev_contexts e2) (sc_contexts sc)\<rparr>;
          e4 = (case sc_span sc of Some span' \<Rightarrow> ts_apply_to_event span' h e3
                | None \<Rightarrow> apply_propagation_context sc e3);
          e5 = (if ev_transaction e4 = None then
                  (case sc_transaction sc of Some t \<Rightarrow> e4\<lparr>ev_transaction := Some t\<rparr> | None \<Rightarrow> e4)
                else e4)
      in if is_default_fingerprint (ev_fingerprint e5) then
           (case sc_fingerprint sc of Some fp \<Rightarrow> e5\<lparr>ev_fingerprint := fp\<rparr> | None \<Rightarrow> e5)
         else e5)"

definition apply_to_event :: "scope \<Rightarrow> heap \<Rightarrow> event \<Rightarrow> event option" where
  "apply_to_event sc h e = run_processors (sc_event_processors sc) (apply_scope_data sc h e)"

definition apply_to_transaction :: "scope \<Rightarrow> ptransaction \<Rightarrow> ptransaction" where
  "apply_to_transaction sc t =
     (let t1 = (if tx_user t = None then
                  (case sc_user sc of Some u \<Rightarrow> t\<lparr>tx_user := Some u\<rparr> | None \<Rightarrow> t) else t)
      in t1\<lparr>tx_extra := sm_extend (tx_extra t1) (sc_extra sc),
            tx_tags := sm_extend (tx_tags t1) (sc_tags sc),
            tx_contexts := sm_extend (tx_contexts t1) (sc_contexts sc)\<rparr>)"

text \<open>One default attribute of a log: only if the key is not there and the value is known.\<close>

definition log_default :: "string \<Rightarrow> string option \<Rightarrow> log \<Rightarrow> log" where
  "log_default key value l =
     (if sm_has key (log_attributes l) then l
      else (case value of Some v \<Rightarrow> l\<lparr>log_attributes := sm_insert key (JString v) (log_attributes l)\<rparr>
            | None \<Rightarrow> l))"

text \<open>The id of the active span: the \<open>match\<close> that \<open>apply_to_log\<close> and \<open>apply_to_metric\<close> share.\<close>

definition active_span_id :: "transaction_or_span \<Rightarrow> heap \<Rightarrow> span_id" where
  "active_span_id ts h =
     (case ts of TxHandle t \<Rightarrow> tc_span_id (txn_get_trace_context t h)
      | SpHandle s \<Rightarrow> span_get_span_id s h)"

definition log_parent_span :: "hex_codec \<Rightarrow> scope \<Rightarrow> heap \<Rightarrow> log \<Rightarrow> log" where
  "log_parent_span hx sc h l =
     (if \<not> sm_has ''sentry.trace.parent_span_id'' (log_attributes l) then
        (case sc_span sc of
           Some ts \<Rightarrow> l\<lparr>log_attributes := sm_insert ''parent_span_id''
                           (JString (span_id_display hx (active_span_id ts h))) (log_attributes l)\<rparr>
         | None \<Rightarrow> l)
      else l)"

definition log_user_defaults :: "user \<Rightarrow> log \<Rightarrow> log" where
  "log_user_defaults u l =
     log_default ''user.email'' (user_email u)
       (log_default ''user.name'' (user_username u)
         (log_default ''user.id'' (user_id u) l))"

definition apply_to_log :: "hex_codec \<Rightarrow> scope \<Rightarrow> heap \<Rightarrow> log \<Rightarrow> log" where
  "apply_to_log hx sc h l =
     (let l1 = (case sc_span sc of
                  Some ts \<Rightarrow> l\<lparr>log_trace_id := Some (tc_trace_id (ts_get_trace_context ts h))\<rparr>
                | None \<Rightarrow> l\<lparr>log_trace_id := Some (pc_trace_id (sc_propagation_context sc))\<rparr>);
          l2 = log_parent_span hx sc h l1
      in case sc_user sc of None \<Rightarrow> l2 | Some u \<Rightarrow> log_user_defaults u l2)"

section \<open>Metrics\<close>

record metric_inner =
  mi_name :: string
  mi_value :: flt
  mi_attributes :: "json smap"

datatype user_metric =
    UCounter metric_inner
  | UGauge metric_inner "string option"
  | UDistribution metric_inner "string option"

definition metric_inner_new :: "string \<Rightarrow> flt \<Rightarrow> metric_inner" where
  "metric_inner_new n v = \<lparr>mi_name = n, mi_value = v, mi_attributes = []\<rparr>"

definition metric_inner_attribute :: "string \<Rightarrow> json \<Rightarrow> metric_inner \<Rightarrow> metric_inner" where
  "metric_inner_attribute k v m = m\<lparr>mi_attributes := sm_insert k v (mi_attributes m)\<rparr>"

definition metric_inner_into_protocol ::
  "systime \<Rightarrow> metric_type \<Rightarrow> trace_id \<Rightarrow> span_id option \<Rightarrow> metric_inner \<Rightarrow> metric" where
  "metric_inner_into_protocol now ty t s m =
     \<lparr>met_type = ty, met_name = mi_name m, met_value = mi_value m, met_timestamp = now,
      met_trace_id = t, met_span_id = s, met_unit = None, met_attributes = mi_attributes m\<rparr>"

fun into_protocol_metric :: "systime \<Rightarrow> trace_id \<Rightarrow> span_id option \<Rightarrow> user_metric \<Rightarrow> metric" where
  "into_protocol_metric now t s (UCounter m) = metric_inner_into_protocol now Counter t s m"
| "into_protocol_metric now t s (UGauge m u) = (metric_inner_into_protocol now Gauge t s m)\<lparr>met_unit := u\<rparr>"
| "into_protocol_metric now t s (UDistribution m u) =
     (metric_inner_into_protocol now Distribution t s m)\<lparr>met_unit := u\<rparr>"

definition has_any_user_attributes :: "metric \<Rightarrow> bool" where
  "has_any_user_attributes m =
     list_ex (\<lambda>k. sm_has k (met_attributes m)) [''user.id'', ''user.name'', ''user.email'']"

definition apply_user_attributes :: "user \<Rightarrow> metric \<Rightarrow> metric" where
  "apply_user_attributes u m =
     foldl (\<lambda>m (k, v). m\<lparr>met_attributes := insert_opt k (map_option JString v) (met_attributes m)\<rparr>) m
       [(''user.id'', user_id u), (''user.name'', user_username u), (''user.email'', user_email u)]"

definition apply_to_metric :: "systime \<Rightarrow> scope \<Rightarrow> heap \<Rightarrow> bool \<Rightarrow> user_metric \<Rightarrow> metric" where
  "apply_to_metric now sc h send_default_pii metric' =
     (let (t, s) = (case sc_span sc of
            Some ts \<Rightarrow>
              (let c = ts_get_trace_context ts h in
               (tc_trace_id c, Some (active_span_id ts h)))
          | None \<Rightarrow> (pc_trace_id (sc_propagation_context sc), None));
          m = into_protocol_metric now t s metric'
      in if send_default_pii \<and> \<not> has_any_user_attributes m then
           (case sc_user sc of Some u \<Rightarrow> apply_user_attributes u m | None \<Rightarrow> m)
         else m)"

section \<open>Sessions of a scope\<close>

text \<open>The cells: the client a session belongs to and the session.\<close>

type_synonym session_cells = "nat \<Rightarrow> (nat \<times> session) option"

definition update_session_from_event :: "scope \<Rightarrow> event \<Rightarrow> session_cells \<Rightarrow> session_cells" where
  "update_session_from_event sc e cells =
     (case cells (sc_session sc) of
        Some (c, s) \<Rightarrow> cells(sc_session sc := Some (c, update_from_event e s))
      | None \<Rightarrow> cells)"

definition iter_trace_propagation_headers :: "hex_codec \<Rightarrow> scope \<Rightarrow> heap \<Rightarrow> (string \<times> string) list" where
  "iter_trace_propagation_headers hx sc h =
     (case sc_span sc of
        Some ts \<Rightarrow> ts_iter_headers hx ts h
      | None \<Rightarrow> [(''sentry-trace'', sentry_trace_header hx
          (propagation_new (pc_trace_id (sc_propagation_context sc))
             (pc_span_id (sc_propagation_context sc))))])"

section \<open>The stack\<close>

record stack_layer =
  ly_client :: "nat option"
  ly_scope :: scope

record stack =
  sk_top :: stack_layer
  sk_layers :: "stack_layer list"

definition from_client_and_scope :: "nat option \<Rightarrow> scope \<Rightarrow> stack" where
  "from_client_and_scope c sc = \<lparr>sk_top = \<lparr>ly_client = c, ly_scope = sc\<rparr>, sk_layers = []\<rparr>"

text \<open>The last pushed layer is at the end of the list, as in the \<open>Vec\<close>.\<close>

definition stack_push :: "stack \<Rightarrow> stack" where
  "stack_push st = st\<lparr>sk_layers := sk_layers st @ [sk_top st]\<rparr>"

text \<open>\<open>None\<close> is the panic \<open>Pop from empty stack\<close>.\<close>

definition stack_pop :: "stack \<Rightarrow> stack option" where
  "stack_pop st =
     (if sk_layers st = [] then None
      else Some (st\<lparr>sk_top := last (sk_layers st), sk_layers := butlast (sk_layers st)\<rparr>))"

definition stack_depth :: "stack \<Rightarrow> nat" where
  "stack_depth st = length (sk_layers st)"

datatype guard_outcome = GuardOk | PanicEmptyStack | PanicOutOfOrder

text \<open>
  Dropping a scope guard made at \<open>depth\<close>: the layer is popped before the depths are compared.
\<close>

definition guard_drop :: "nat \<Rightarrow> stack \<Rightarrow> guard_outcome \<times> stack" where
  "guard_drop depth st =
     (let popped_depth = stack_depth st in
      case stack_pop st of
        None \<Rightarrow> (PanicEmptyStack, st)
      | Some st' \<Rightarrow> if popped_depth \<noteq> depth then (PanicOutOfOrder, st') else (GuardOk, st'))"

section \<open>Lemmas\<close>

definition scope_wf :: "scope \<Rightarrow> bool" where
  "scope_wf sc \<longleftrightarrow> sm_sorted (sc_extra sc) \<and> sm_sorted (sc_tags sc) \<and> sm_sorted (sc_contexts sc)"

lemma scope_wf_default [simp]: "scope_wf (scope_default cell t s)"
  by (simp add: scope_wf_def scope_default_def)

lemma scope_wf_setters [simp, intro]:
  "scope_wf (scope_clear cell t s sc)"
  "scope_wf sc \<Longrightarrow> scope_wf (scope_set_tag k v sc)" "scope_wf sc \<Longrightarrow> scope_wf (scope_remove_tag k sc)"
  "scope_wf sc \<Longrightarrow> scope_wf (scope_set_extra k j sc)" "scope_wf sc \<Longrightarrow> scope_wf (scope_remove_extra k sc)"
  "scope_wf sc \<Longrightarrow> scope_wf (scope_set_context k c sc)" "scope_wf sc \<Longrightarrow> scope_wf (scope_remove_context k sc)"
  by (auto simp: scope_wf_def scope_clear_def scope_default_def scope_set_tag_def scope_remove_tag_def
      scope_set_extra_def scope_remove_extra_def scope_set_context_def scope_remove_context_def)

lemma run_processors_append:
  "run_processors (ps @ qs) e =
     (case run_processors ps e of Some e' \<Rightarrow> run_processors qs e' | None \<Rightarrow> None)"
  by (induction ps arbitrary: e) (auto split: option.split)

text \<open>The trace context an event gets when it has none.\<close>

definition scope_trace :: "scope \<Rightarrow> heap \<Rightarrow> trace_context" where
  "scope_trace sc h =
     (case sc_span sc of Some ts \<Rightarrow> ts_context ts h
      | None \<Rightarrow> trace_context_default (pc_span_id (sc_propagation_context sc))
          (pc_trace_id (sc_propagation_context sc)))"

definition add_trace :: "trace_context \<Rightarrow> event \<Rightarrow> event" where
  "add_trace c e = (if sm_has ''trace'' (ev_contexts e) then e
     else e\<lparr>ev_contexts := sm_insert ''trace'' (CtxTrace c) (ev_contexts e)\<rparr>)"

lemma apply_scope_data_trace:
  "(case sc_span sc of Some span' \<Rightarrow> ts_apply_to_event span' h e
    | None \<Rightarrow> apply_propagation_context sc e) = add_trace (scope_trace sc h) e"
  by (simp add: add_trace_def scope_trace_def ts_apply_to_event_def apply_propagation_context_def
      split: option.split)

lemma add_trace_fields [simp]:
  "ev_level (add_trace c e) = ev_level e" "ev_user (add_trace c e) = ev_user e"
  "ev_breadcrumbs (add_trace c e) = ev_breadcrumbs e" "ev_extra (add_trace c e) = ev_extra e"
  "ev_tags (add_trace c e) = ev_tags e" "ev_transaction (add_trace c e) = ev_transaction e"
  "ev_fingerprint (add_trace c e) = ev_fingerprint e" "ev_event_id (add_trace c e) = ev_event_id e"
  "ev_sdk (add_trace c e) = ev_sdk e" "ev_exception (add_trace c e) = ev_exception e"
  "ev_message (add_trace c e) = ev_message e"
  by (simp_all add: add_trace_def)

lemma add_trace_contexts:
  "map_of (ev_contexts (add_trace c e)) = [''trace'' \<mapsto> CtxTrace c] ++ map_of (ev_contexts e)"
  by (auto simp: add_trace_def sm_has_def fun_eq_iff map_add_def split: option.split)

text \<open>The conditional assignments of \<open>apply_scope_data\<close> as assignments of conditional values.\<close>

lemma fill_fields:
  "(case l' of Some l \<Rightarrow> e\<lparr>ev_level := l\<rparr> | None \<Rightarrow> e) =
     e\<lparr>ev_level := (case l' of Some l \<Rightarrow> l | None \<Rightarrow> ev_level e)\<rparr>"
  "(if ev_user e = None then (case u' of Some u \<Rightarrow> e\<lparr>ev_user := Some u\<rparr> | None \<Rightarrow> e) else e) =
     e\<lparr>ev_user := (case ev_user e of Some u \<Rightarrow> Some u | None \<Rightarrow> u')\<rparr>"
  "(if ev_transaction e = None then (case t' of Some t \<Rightarrow> e\<lparr>ev_transaction := Some t\<rparr> | None \<Rightarrow> e) else e) =
     e\<lparr>ev_transaction := (case ev_transaction e of Some t \<Rightarrow> Some t | None \<Rightarrow> t')\<rparr>"
  "(if is_default_fingerprint (ev_fingerprint e)
    then (case f' of Some fp \<Rightarrow> e\<lparr>ev_fingerprint := fp\<rparr> | None \<Rightarrow> e) else e) =
     e\<lparr>ev_fingerprint := (if is_default_fingerprint (ev_fingerprint e)
         then (case f' of Some fp \<Rightarrow> fp | None \<Rightarrow> ev_fingerprint e) else ev_fingerprint e)\<rparr>"
  by (simp_all split: option.split)

lemma apply_scope_data_fields:
  "ev_event_id (apply_scope_data sc h e) = ev_event_id e"
  "ev_sdk (apply_scope_data sc h e) = ev_sdk e"
  "ev_exception (apply_scope_data sc h e) = ev_exception e"
  "ev_message (apply_scope_data sc h e) = ev_message e"
  "ev_level (apply_scope_data sc h e) = (case sc_level sc of Some l \<Rightarrow> l | None \<Rightarrow> ev_level e)"
  "ev_user (apply_scope_data sc h e) = (case ev_user e of Some u \<Rightarrow> Some u | None \<Rightarrow> sc_user sc)"
  "ev_breadcrumbs (apply_scope_data sc h e) = ev_breadcrumbs e @ sc_breadcrumbs sc"
  "ev_extra (apply_scope_data sc h e) = sm_extend (ev_extra e) (sc_extra sc)"
  "ev_tags (apply_scope_data sc h e) = sm_extend (ev_tags e) (sc_tags sc)"
  "map_of (ev_contexts (apply_scope_data sc h e)) =
     [''trace'' \<mapsto> CtxTrace (scope_trace sc h)] ++ map_of (sm_extend (ev_contexts e) (sc_contexts sc))"
  "ev_transaction (apply_scope_data sc h e) =
     (case ev_transaction e of Some t \<Rightarrow> Some t | None \<Rightarrow> sc_transaction sc)"
  "ev_fingerprint (apply_scope_data sc h e) =
     (if is_default_fingerprint (ev_fingerprint e)
      then (case sc_fingerprint sc of Some fp \<Rightarrow> fp | None \<Rightarrow> ev_fingerprint e) else ev_fingerprint e)"
  unfolding apply_scope_data_def apply_scope_data_trace Let_def fill_fields
  by (simp_all add: add_trace_contexts cong: option.case_cong)

lemma log_default_attributes:
  "map_of (log_attributes (log_default key v l)) =
     (if map_of (log_attributes l) key = None \<and> v \<noteq> None
      then (map_of (log_attributes l))(key \<mapsto> JString (the v)) else map_of (log_attributes l))"
  by (auto simp: log_default_def sm_has_def split: option.split)

lemma log_default_at:
  "map_of (log_attributes (log_default key v l)) k =
     (case map_of (log_attributes l) k of Some w \<Rightarrow> Some w
      | None \<Rightarrow> if k = key then map_option JString v else None)"
  by (cases v) (simp_all add: log_default_attributes split: option.split)

lemma log_user_defaults_attributes:
  "map_of (log_attributes (log_user_defaults u l)) k =
     (case map_of (log_attributes l) k of Some v \<Rightarrow> Some v
      | None \<Rightarrow> map_option JString
          (if k = ''user.id'' then user_id u else if k = ''user.name'' then user_username u
           else if k = ''user.email'' then user_email u else None))"
  by (simp add: log_user_defaults_def log_default_at split: option.split)

lemma log_parent_span_keeps:
  "k \<noteq> ''parent_span_id'' \<Longrightarrow>
   map_of (log_attributes (log_parent_span hx sc h l)) k = map_of (log_attributes l) k"
  by (simp add: log_parent_span_def split: option.split)

lemma active_span_id_eq: "active_span_id ts h = ts_span_id ts h"
  by (cases ts) (simp_all add: active_span_id_def ts_span_id_def txn_get_trace_context_def
      span_get_span_id_def)

lemma log_default_other [simp]:
  "log_body (log_default key v l) = log_body l" "log_trace_id (log_default key v l) = log_trace_id l"
  by (simp_all add: log_default_def split: option.split)

lemma log_user_defaults_other [simp]:
  "log_body (log_user_defaults u l) = log_body l" "log_trace_id (log_user_defaults u l) = log_trace_id l"
  by (simp_all add: log_user_defaults_def)

lemma log_parent_span_other [simp]:
  "log_body (log_parent_span hx sc h l) = log_body l"
  "log_trace_id (log_parent_span hx sc h l) = log_trace_id l"
  by (simp_all add: log_parent_span_def split: option.split)

section \<open>Properties\<close>

text \<open>
  C20: What a scope adds to an event, before its processors run in order (the first one that
  drops the event ends the run): the level is overridden; user and transaction fill
  gaps only; the fingerprint of the scope replaces the default one, in either spelling, and no other; breadcrumbs are appended; tags, extra and contexts of the scope win over those of
  the event, except that an event or scope that already has a \<open>trace\<close> context keeps it and
  every other event gets the one of the active span, or of the scope's propagation context.
\<close>

theorem scope_fills_event:
  assumes "scope_wf sc"
  shows "\<exists>e'. apply_to_event sc h e = fold (\<lambda>p r. Option.bind r p) (sc_event_processors sc) (Some e') \<and>
    ev_event_id e' = ev_event_id e \<and>
    ev_level e' = (case sc_level sc of Some l \<Rightarrow> l | None \<Rightarrow> ev_level e) \<and>
    ev_user e' = (case ev_user e of Some u \<Rightarrow> Some u | None \<Rightarrow> sc_user sc) \<and>
    ev_transaction e' = (case ev_transaction e of Some t \<Rightarrow> Some t | None \<Rightarrow> sc_transaction sc) \<and>
    ev_fingerprint e' =
      (if ev_fingerprint e \<in> {[''{{ default }}''], [''{{default}}'']}
       then (case sc_fingerprint sc of Some fp \<Rightarrow> fp | None \<Rightarrow> ev_fingerprint e) else ev_fingerprint e) \<and>
    ev_breadcrumbs e' = ev_breadcrumbs e @ sc_breadcrumbs sc \<and>
    map_of (ev_tags e') = map_of (ev_tags e) ++ map_of (sc_tags sc) \<and>
    map_of (ev_extra e') = map_of (ev_extra e) ++ map_of (sc_extra sc) \<and>
    map_of (ev_contexts e') =
      [''trace'' \<mapsto> CtxTrace (scope_trace sc h)] ++ map_of (ev_contexts e) ++ map_of (sc_contexts sc)"
proof -
  have run: "run_processors ps e' = fold (\<lambda>p r. Option.bind r p) ps (Some e')" for ps e'
  proof (induction ps arbitrary: e')
    case (Cons p ps)
    have "fold (\<lambda>p r. Option.bind r p) ps None = None" by (induction ps) simp_all
    with Cons show ?case by (simp split: option.split)
  qed simp
  have fp: "is_default_fingerprint f \<longleftrightarrow> f \<in> {[''{{ default }}''], [''{{default}}'']}" for f
    by (cases f) (auto simp: is_default_fingerprint_def)
  have ctx: "map_of (ev_contexts (apply_scope_data sc h e)) =
      [''trace'' \<mapsto> CtxTrace (scope_trace sc h)] ++ map_of (ev_contexts e) ++ map_of (sc_contexts sc)"
    using assms
    by (simp add: apply_scope_data_fields map_of_sm_extend_sorted scope_wf_def)
  show ?thesis
    by (intro exI [of _ "apply_scope_data sc h e"] conjI ctx)
      (use assms in \<open>simp_all add: apply_to_event_def run apply_scope_data_fields fp
        map_of_sm_extend_sorted scope_wf_def split: option.split\<close>)
qed

lemma scope_fills_event_witness:
  "\<exists>e'. apply_to_event (scope_set_tag ''a'' ''1'' (scope_default 0 [] [])) sample_heap (event_default 5 9) = Some e' \<and>
     map_of (ev_tags e') ''a'' = Some ''1''"
  using scope_fills_event [of "scope_set_tag ''a'' ''1'' (scope_default 0 [] [])" sample_heap "event_default 5 9"]
  by (auto simp: scope_set_tag_def scope_default_def scope_wf_def event_default_def sm_sorted_def)

text \<open>
  C34: What a scope adds to a log: the trace id of the active span or propagation context, and
  the id, name and email of the scope's user, each under its key when the user has one and the log has no such
  attribute yet; no other attribute is added or changed. The
  parent span id is the exception: it is written under \<open>parent_span_id\<close> while the guard looks
  for \<open>sentry.trace.parent_span_id\<close>, so a \<open>parent_span_id\<close> set by the caller is overwritten.
\<close>

theorem scope_fills_log:
  "log_body (apply_to_log hx sc h l) = log_body l \<and>
   log_trace_id (apply_to_log hx sc h l) =
     Some (case sc_span sc of Some ts \<Rightarrow> tc_trace_id (ts_get_trace_context ts h)
           | None \<Rightarrow> pc_trace_id (sc_propagation_context sc)) \<and>
   (k \<noteq> ''parent_span_id'' \<longrightarrow>
      map_of (log_attributes (apply_to_log hx sc h l)) k =
        (case map_of (log_attributes l) k of Some v \<Rightarrow> Some v
         | None \<Rightarrow> map_option JString (Option.bind (sc_user sc) (\<lambda>u.
             if k = ''user.id'' then user_id u else if k = ''user.name'' then user_username u
             else if k = ''user.email'' then user_email u else None)))) \<and>
   map_of (log_attributes (apply_to_log hx sc h l)) ''parent_span_id'' =
     (case sc_span sc of
        Some ts \<Rightarrow> if map_of (log_attributes l) ''sentry.trace.parent_span_id'' = None
          then Some (JString (span_id_display hx (ts_span_id ts h))) else map_of (log_attributes l) ''parent_span_id''
      | None \<Rightarrow> map_of (log_attributes l) ''parent_span_id'')"
proof (intro conjI impI)
  let ?l = "apply_to_log hx sc h l"
  show "log_body ?l = log_body l"
    by (simp add: apply_to_log_def Let_def split: option.split)
  show "log_trace_id ?l =
     Some (case sc_span sc of Some ts \<Rightarrow> tc_trace_id (ts_get_trace_context ts h)
           | None \<Rightarrow> pc_trace_id (sc_propagation_context sc))"
    by (simp add: apply_to_log_def Let_def split: option.split)
  show "map_of (log_attributes ?l) k =
      (case map_of (log_attributes l) k of Some v \<Rightarrow> Some v
       | None \<Rightarrow> map_option JString (Option.bind (sc_user sc) (\<lambda>u.
           if k = ''user.id'' then user_id u else if k = ''user.name'' then user_username u
           else if k = ''user.email'' then user_email u else None)))" if "k \<noteq> ''parent_span_id''"
    using that by (simp add: apply_to_log_def Let_def log_user_defaults_attributes log_parent_span_keeps
        split: option.split)
  show "map_of (log_attributes ?l) ''parent_span_id'' =
     (case sc_span sc of
        Some ts \<Rightarrow> if map_of (log_attributes l) ''sentry.trace.parent_span_id'' = None
          then Some (JString (span_id_display hx (ts_span_id ts h))) else map_of (log_attributes l) ''parent_span_id''
      | None \<Rightarrow> map_of (log_attributes l) ''parent_span_id'')"
    by (simp add: apply_to_log_def Let_def log_user_defaults_attributes log_parent_span_def sm_has_def
        active_span_id_eq split: option.split)
qed

definition sample_scope_log :: log where
  "sample_scope_log = \<lparr>log_level = LInfo, log_body = ''b'', log_trace_id = None, log_timestamp = 0,
     log_severity_number = None, log_attributes = [(''parent_span_id'', JString ''mine'')]\<rparr>"

lemma scope_fills_log_witness:
  "map_of (log_attributes (apply_to_log sample_hex
     (scope_set_span (Some sample_handle) (scope_default 0 [] [])) sample_heap sample_scope_log)) ''parent_span_id''
     = Some (JString ''bb'')"
  using scope_fills_log [where sc = "scope_set_span (Some sample_handle) (scope_default 0 [] [])"
      and h = sample_heap and l = sample_scope_log and hx = sample_hex]
  by (simp add: sample_scope_log_def sample_handle_def scope_set_span_def span_id_display_def sample_hex_def
      ts_span_id_def sample_heap_def sample_inner_def trace_context_default_def)

end
