(* ===== verification/Client.thy ===== *)
theory Client
  imports Scope
begin

text \<open>
  The client (\<open>sentry-core/src/client/mod.rs\<close>): construction, preparing and capturing events,
  logs and metrics, sessions, flushing and closing. The state is the client with its net
  (transport slots and client-report aggregator); the session cells are threaded beside it.
  Random numbers, fresh ids and clock readings are inputs.
\<close>

section \<open>The client\<close>

record client =
  cl_options :: client_options
  cl_sender :: sender
  cl_session_flusher :: "session_flusher option"
  cl_logs_batcher :: "log batcher option"
  cl_metrics_batcher :: "metric batcher option"
  cl_default_log_attributes :: "json smap option"
  cl_default_metric_attributes :: "json smap"
  cl_integrations :: "integration list"
  cl_sdk_info :: sdk_info

definition event_sample_rate :: "event_sampling_strategy \<Rightarrow> flt" where
  "event_sample_rate strategy = (case strategy of EventFixedRate rate \<Rightarrow> rate)"

text \<open>\<open>draw\<close> is what \<open>random::<f32>()\<close> returns, if it is called.\<close>

definition sample_should_send :: "flt \<Rightarrow> flt \<Rightarrow> bool" where
  "sample_should_send draw rate =
     (if flt_le (Fin 1) rate then True
      else if flt_le rate (Fin 0) then False
      else flt_less draw rate)"

definition determine_sampling_decision :: "flt \<Rightarrow> client \<Rightarrow> transaction_context \<Rightarrow> bool \<times> flt" where
  "determine_sampling_decision draw c ctx =
     (let sample_rate = transaction_sample_rate (co_traces_sampling_strategy (cl_options c)) ctx
      in (sample_should_send draw sample_rate, sample_rate))"

subsection \<open>Construction\<close>

definition build_envelope_sender :: "client_options \<Rightarrow> net \<Rightarrow> sender \<times> net" where
  "build_envelope_sender o' w =
     (case (co_dsn o', co_transport o') of
        (Some _, Some t) \<Rightarrow> sender_new t w
      | _ \<Rightarrow> slot_default w)"

definition insert_some :: "string \<Rightarrow> string option \<Rightarrow> json smap \<Rightarrow> json smap" where
  "insert_some key v m = (case v of Some x \<Rightarrow> sm_insert key (JString x) m | None \<Rightarrow> m)"

text \<open>A fake event goes through the integrations; one that drops it is ignored.\<close>

definition fake_event :: "client_options \<Rightarrow> integration list \<Rightarrow> event \<Rightarrow> event" where
  "fake_event o' is e =
     foldl (\<lambda>e i. case ig_process_event i o' e of Some res \<Rightarrow> res | None \<Rightarrow> e) e is"

definition default_log_attributes ::
  "client_options \<Rightarrow> sdk_info \<Rightarrow> integration list \<Rightarrow> event \<Rightarrow> json smap" where
  "default_log_attributes o' sdk is fresh_event =
     (let m1 = insert_some ''sentry.environment'' (co_environment o') [];
          m2 = insert_some ''sentry.release'' (co_release o') m1;
          m3 = sm_insert ''sentry.sdk.name'' (JString (sdk_name sdk)) m2;
          m4 = sm_insert ''sentry.sdk.version'' (JString (sdk_version sdk)) m3;
          m5 = (case map_of (ev_contexts (fake_event o' is fresh_event)) ''os'' of
                  Some (CtxOs os) \<Rightarrow>
                    insert_some ''os.version'' (os_version os) (insert_some ''os.name'' (os_name os) m4)
                | _ \<Rightarrow> m4)
      in insert_some ''server.address'' (co_server_name o') m5)"

definition default_metric_attributes :: "client_options \<Rightarrow> sdk_info \<Rightarrow> json smap" where
  "default_metric_attributes o' sdk =
     (let maybe = List.map_filter (\<lambda>(name, v). map_option (\<lambda>x. (name, JString x)) v)
            [(''sentry.environment'', co_environment o'), (''sentry.release'', co_release o'),
             (''server.address'', co_server_name o')];
          always = [(''sentry.sdk.name'', JString (sdk_name sdk)),
                    (''sentry.sdk.version'', JString (sdk_version sdk))]
      in foldl (\<lambda>m (k, v). sm_insert k v m) [] (maybe @ always))"

text \<open>
  \<open>Client::with_options\<close>: \<open>sdk\<close> is the constant \<open>SDK_INFO\<close>, \<open>fresh_event\<close> an
  \<open>Event::default()\<close>, \<open>now\<close> the reading the batchers start with.
\<close>

definition with_options ::
  "sdk_info \<Rightarrow> event \<Rightarrow> systime \<Rightarrow> client_options \<Rightarrow> integration list \<Rightarrow> net \<Rightarrow> client \<times> net" where
  "with_options sdk fresh_event now o0 is w =
     (let (sl, w') = build_envelope_sender o0 w;
          o' = foldl (\<lambda>o' i. ig_setup i o') o0 is;
          sdk' = sdk\<lparr>sdk_integrations := sdk_integrations sdk @ map ig_name is\<rparr>
      in (\<lparr>cl_options = o', cl_sender = sl,
           cl_session_flusher = Some (flusher_new sl (co_session_mode o')),
           cl_logs_batcher = (if co_enable_logs o' then Some (batcher_new now sl) else None),
           cl_metrics_batcher = (if co_enable_metrics o' then Some (batcher_new now sl) else None),
           cl_default_log_attributes = Some (default_log_attributes o' sdk' is fresh_event),
           cl_default_metric_attributes = default_metric_attributes o' sdk',
           cl_integrations = is, cl_sdk_info = sdk'\<rparr>, w'))"

text \<open>\<open>Clone for Client\<close>: a new transport slot, and empty queues of its own.\<close>

definition client_clone :: "systime \<Rightarrow> client \<times> net \<Rightarrow> client \<times> net" where
  "client_clone now s =
     (let c = fst s; (sl, w) = clone_with_new_transport_slot (cl_sender c) (snd s) in
      (c\<lparr>cl_sender := sl,
         cl_session_flusher := Some (flusher_new sl (co_session_mode (cl_options c))),
         cl_logs_batcher := (if co_enable_logs (cl_options c) then Some (batcher_new now sl) else None),
         cl_metrics_batcher :=
           (if co_enable_metrics (cl_options c) then Some (batcher_new now sl) else None)\<rparr>, w))"

definition client_is_enabled :: "client \<times> net \<Rightarrow> bool" where
  "client_is_enabled s \<longleftrightarrow>
     co_dsn (cl_options (fst s)) \<noteq> None \<and> sender_is_enabled (cl_sender (fst s)) (snd s)"

section \<open>Events\<close>

definition record_lost_event :: "reason \<Rightarrow> net \<Rightarrow> net" where
  "record_lost_event rsn w = sender_record_loss CatError rsn 1 w"

text \<open>The id and SDK are there before the processors run.\<close>

definition event_ids :: "uuid \<Rightarrow> client \<Rightarrow> event \<Rightarrow> event" where
  "event_ids fresh c e =
     (let e1 = (if ev_event_id e = nil_uuid then e\<lparr>ev_event_id := fresh\<rparr> else e)
      in if ev_sdk e1 = None then e1\<lparr>ev_sdk := Some (cl_sdk_info c)\<rparr> else e1)"

definition event_defaults :: "client_options \<Rightarrow> event \<Rightarrow> event" where
  "event_defaults o' e =
     (let e1 = (if ev_release e = None then e\<lparr>ev_release := co_release o'\<rparr> else e);
          e2 = (if ev_environment e1 = None then e1\<lparr>ev_environment := co_environment o'\<rparr> else e1);
          e3 = (if ev_server_name e2 = None then e2\<lparr>ev_server_name := co_server_name o'\<rparr> else e2)
      in if ev_platform e3 = ''other'' then e3\<lparr>ev_platform := ''native''\<rparr> else e3)"

definition run_integrations :: "client \<Rightarrow> event \<Rightarrow> event option" where
  "run_integrations c e =
     run_processors (map (\<lambda>i. ig_process_event i (cl_options c)) (cl_integrations c)) e"

text \<open>A captured event carries its net and session cells along.\<close>

type_synonym cap_state = "net \<times> session_cells"

definition prepare_event ::
  "uuid \<Rightarrow> flt \<Rightarrow> client \<Rightarrow> scope option \<Rightarrow> heap \<Rightarrow> event \<Rightarrow> cap_state \<Rightarrow> cap_state \<times> event option" where
  "prepare_event fresh draw c sc h e s =
     (let e1 = event_ids fresh c e in
      case (case sc of None \<Rightarrow> Some e1 | Some x \<Rightarrow> apply_to_event x h e1) of
        None \<Rightarrow> ((record_lost_event EventProcessor (fst s), snd s), None)
      | Some e2 \<Rightarrow>
          (case run_integrations c e2 of
             None \<Rightarrow> ((record_lost_event EventProcessor (fst s), snd s), None)
           | Some e3 \<Rightarrow>
               (let e4 = event_defaults (cl_options c) e3 in
                case (case co_before_send (cl_options c) of None \<Rightarrow> Some e4 | Some f \<Rightarrow> f e4) of
                  None \<Rightarrow> ((record_lost_event BeforeSend (fst s), snd s), None)
                | Some e5 \<Rightarrow>
                    (let cells = (case sc of Some x \<Rightarrow> update_session_from_event x e5 (snd s)
                                  | None \<Rightarrow> snd s);
                         rate = event_sample_rate (co_event_sampling_strategy (cl_options c))
                     in if \<not> sample_should_send draw rate then
                          ((record_lost_event SampleRate (fst s), cells), None)
                        else ((fst s, cells), Some e5)))))"

text \<open>The session item of an application-mode session, and the cells with the session marked.\<close>

definition session_item :: "client \<Rightarrow> scope option \<Rightarrow> session_cells \<Rightarrow> session_update option \<times> session_cells" where
  "session_item c sc cells =
     (if co_session_mode (cl_options c) = Application then
        (case sc of None \<Rightarrow> (None, cells)
         | Some x \<Rightarrow>
             (case cells (sc_session x) of None \<Rightarrow> (None, cells)
              | Some (owner, se) \<Rightarrow>
                  (case create_envelope_item se of
                     (u, se') \<Rightarrow> (u, cells(sc_session x := Some (owner, se'))))))
      else (None, cells))"

definition event_envelope :: "event \<Rightarrow> session_update option \<Rightarrow> attachment list \<Rightarrow> envelope" where
  "event_envelope e u atts =
     foldl (\<lambda>env a. add_item (IAttachment a) env)
       (case u of Some x \<Rightarrow> add_item (ISessionUpdate x) (envelope_of_item (IEvent e))
        | None \<Rightarrow> envelope_of_item (IEvent e)) atts"

text \<open>The closure given to the sender: the envelope, and the variables it assigns.\<close>

definition capture_builder ::
  "uuid \<Rightarrow> flt \<Rightarrow> client \<Rightarrow> scope option \<Rightarrow> heap \<Rightarrow> event \<Rightarrow> session_cells \<Rightarrow> net \<Rightarrow>
   net \<times> envelope option \<times> session_cells \<times> uuid" where
  "capture_builder fresh draw c sc h e cells w =
     (case prepare_event fresh draw c sc h e (w, cells) of
        ((w', cells'), None) \<Rightarrow> (w', None, cells', nil_uuid)
      | ((w', cells'), Some e') \<Rightarrow>
          (case session_item c sc cells' of
             (u, cells'') \<Rightarrow>
               (w', Some (event_envelope e' u (case sc of Some x \<Rightarrow> sc_attachments x | None \<Rightarrow> [])),
                cells'', ev_event_id e')))"

definition capture_event ::
  "systime \<Rightarrow> uuid \<Rightarrow> flt \<Rightarrow> client \<Rightarrow> scope option \<Rightarrow> heap \<Rightarrow> event \<Rightarrow> cap_state \<Rightarrow> cap_state \<times> uuid" where
  "capture_event now fresh draw c sc h e s =
     (if sender_is_enabled (cl_sender c) (fst s) then
        (case capture_builder fresh draw c sc h e (snd s) (fst s) of
           (_, _, cells', event_id) \<Rightarrow>
             ((sender_send_with now (cl_sender c)
                 (\<lambda>w. case capture_builder fresh draw c sc h e (snd s) w of
                        (w', env, _) \<Rightarrow> (w', env)) (fst s), cells'), event_id))
      else (s, nil_uuid))"

section \<open>Logs and metrics\<close>

text \<open>A hook that answers \<open>None\<close> drops the item, whose losses were measured before.\<close>

definition run_before_send ::
  "('a \<Rightarrow> loss list) \<Rightarrow> 'a before_callback option \<Rightarrow> 'a \<Rightarrow> net \<Rightarrow> net \<times> 'a option" where
  "run_before_send losses_of hook x w =
     (case hook of
        None \<Rightarrow> (w, Some x)
      | Some f \<Rightarrow>
          (let losses = losses_of x in
           case f x of
             Some x' \<Rightarrow> (w, Some x')
           | None \<Rightarrow> (sender_record_lost_data losses BeforeSend w, None)))"

definition add_default_attributes :: "json smap \<Rightarrow> json smap \<Rightarrow> json smap" where
  "add_default_attributes defaults m = foldl (\<lambda>m (k, v). sm_or_insert k v m) m defaults"

definition prepare_log ::
  "hex_codec \<Rightarrow> client \<Rightarrow> scope \<Rightarrow> heap \<Rightarrow> log \<Rightarrow> net \<Rightarrow> net \<times> log option" where
  "prepare_log hx c sc h l w =
     (let l1 = apply_to_log hx sc h l;
          l2 = (case cl_default_log_attributes c of
                  Some d \<Rightarrow> l1\<lparr>log_attributes := add_default_attributes d (log_attributes l1)\<rparr>
                | None \<Rightarrow> l1)
      in run_before_send one_log_losses (co_before_send_log (cl_options c)) l2 w)"

definition capture_log ::
  "systime \<Rightarrow> hex_codec \<Rightarrow> log \<Rightarrow> scope \<Rightarrow> heap \<Rightarrow> client \<times> net \<Rightarrow> client \<times> net" where
  "capture_log now hx l sc h s =
     (let c = fst s in
      if \<not> co_enable_logs (cl_options c) then s
      else
        (case prepare_log hx c sc h l (snd s) of
           (w, None) \<Rightarrow> (c, w)
         | (w, Some l') \<Rightarrow>
             (case cl_logs_batcher c of
                None \<Rightarrow> (c, w)
              | Some b \<Rightarrow>
                  (case batcher_enqueue item_of_logs now l' (b, w) of
                     (b', w') \<Rightarrow> (c\<lparr>cl_logs_batcher := Some b'\<rparr>, w')))))"

definition prepare_metric ::
  "systime \<Rightarrow> client \<Rightarrow> scope \<Rightarrow> heap \<Rightarrow> user_metric \<Rightarrow> net \<Rightarrow> net \<times> metric option" where
  "prepare_metric now c sc h m w =
     (let m1 = apply_to_metric now sc h (co_send_default_pii (cl_options c)) m;
          m2 = m1\<lparr>met_attributes :=
                 add_default_attributes (cl_default_metric_attributes c) (met_attributes m1)\<rparr>
      in run_before_send one_metric_losses (co_before_send_metric (cl_options c)) m2 w)"

definition capture_metric ::
  "systime \<Rightarrow> user_metric \<Rightarrow> scope \<Rightarrow> heap \<Rightarrow> client \<times> net \<Rightarrow> client \<times> net" where
  "capture_metric now m sc h s =
     (let c = fst s in
      if \<not> co_enable_metrics (cl_options c) then s
      else
        (case prepare_metric now c sc h m (snd s) of
           (w, None) \<Rightarrow> (c, w)
         | (w, Some m') \<Rightarrow>
             (case cl_metrics_batcher c of
                None \<Rightarrow> (c, w)
              | Some b \<Rightarrow>
                  (case batcher_enqueue item_of_metrics now m' (b, w) of
                     (b', w') \<Rightarrow> (c\<lparr>cl_metrics_batcher := Some b'\<rparr>, w')))))"

section \<open>Sessions, flushing, closing\<close>

text \<open>\<open>None\<close> is the panic of the flusher on a start before the epoch.\<close>

definition enqueue_session :: "systime \<Rightarrow> session_update \<Rightarrow> client \<times> net \<Rightarrow> (client \<times> net) option" where
  "enqueue_session now u s =
     (case cl_session_flusher (fst s) of
        None \<Rightarrow> Some s
      | Some f \<Rightarrow>
          (case flusher_enqueue now u (f, snd s) of
             None \<Rightarrow> None
           | Some (f', w) \<Rightarrow> Some ((fst s)\<lparr>cl_session_flusher := Some f'\<rparr>, w)))"

text \<open>One part of the client at a time: a queue that is still there.\<close>

definition on_flusher ::
  "(session_flusher \<times> net \<Rightarrow> session_flusher \<times> net) \<Rightarrow> client \<times> net \<Rightarrow> client \<times> net" where
  "on_flusher f s =
     (case cl_session_flusher (fst s) of None \<Rightarrow> s
      | Some x \<Rightarrow> (case f (x, snd s) of (x', w) \<Rightarrow> ((fst s)\<lparr>cl_session_flusher := Some x'\<rparr>, w)))"

definition on_batcher ::
  "('a batcher \<times> net \<Rightarrow> 'a batcher \<times> net) \<Rightarrow> 'a batcher option \<times> net \<Rightarrow> 'a batcher option \<times> net" where
  "on_batcher f s =
     (case fst s of None \<Rightarrow> s
      | Some x \<Rightarrow> (case f (x, snd s) of (x', w) \<Rightarrow> (Some x', w)))"

definition on_logs ::
  "(log batcher \<times> net \<Rightarrow> log batcher \<times> net) \<Rightarrow> client \<times> net \<Rightarrow> client \<times> net" where
  "on_logs f s =
     (case on_batcher f (cl_logs_batcher (fst s), snd s) of
        (b, w) \<Rightarrow> ((fst s)\<lparr>cl_logs_batcher := b\<rparr>, w))"

definition on_metrics ::
  "(metric batcher \<times> net \<Rightarrow> metric batcher \<times> net) \<Rightarrow> client \<times> net \<Rightarrow> client \<times> net" where
  "on_metrics f s =
     (case on_batcher f (cl_metrics_batcher (fst s), snd s) of
        (b, w) \<Rightarrow> ((fst s)\<lparr>cl_metrics_batcher := b\<rparr>, w))"

definition timeout_or_default :: "duration option \<Rightarrow> client \<Rightarrow> duration" where
  "timeout_or_default timeout c =
     (case timeout of Some t \<Rightarrow> t | None \<Rightarrow> co_shutdown_timeout (cl_options c))"

text \<open>\<open>answer\<close> is what the transport says, if it is asked.\<close>

definition client_flush :: "systime \<Rightarrow> bool \<Rightarrow> duration option \<Rightarrow> client \<times> net \<Rightarrow> bool \<times> client \<times> net" where
  "client_flush now answer timeout s =
     (let s1 = on_flusher (flusher_flush now) s;
          s2 = on_logs (batcher_flush item_of_logs now) s1;
          s3 = on_metrics (batcher_flush item_of_metrics now) s2
      in case sender_flush answer (cl_sender (fst s3)) (timeout_or_default timeout (fst s3)) (snd s3) of
           (ok, w) \<Rightarrow> (ok, fst s3, w))"

text \<open>\<open>take\<close> and \<open>drop\<close> of each queue: its last flush happens, and it is gone.\<close>

definition client_close :: "systime \<Rightarrow> bool \<Rightarrow> duration option \<Rightarrow> client \<times> net \<Rightarrow> bool \<times> client \<times> net" where
  "client_close now answer timeout s =
     (let s1 = on_flusher (flusher_drop now) s;
          s2 = on_logs (batcher_drop item_of_logs now) ((fst s1)\<lparr>cl_session_flusher := None\<rparr>, snd s1);
          s3 = on_metrics (batcher_drop item_of_metrics now) ((fst s2)\<lparr>cl_logs_batcher := None\<rparr>, snd s2);
          c = (fst s3)\<lparr>cl_metrics_batcher := None\<rparr>
      in case sender_shutdown answer (cl_sender c) (timeout_or_default timeout c) (snd s3) of
           (ok, w) \<Rightarrow> (ok, c, w))"

definition client_send_envelope :: "systime \<Rightarrow> envelope \<Rightarrow> client \<times> net \<Rightarrow> client \<times> net" where
  "client_send_envelope now env s = (fst s, sender_send now (cl_sender (fst s)) env (snd s))"

section \<open>What happens to an event\<close>

text \<open>
  The stages of \<open>prepare_event\<close> before sampling as one pipeline: the reason of the stage that
  dropped the event, or the event that reaches the sampling decision.
\<close>

definition or_reason :: "reason \<Rightarrow> event option \<Rightarrow> reason + event" where
  "or_reason rsn r = (case r of None \<Rightarrow> Inl rsn | Some e \<Rightarrow> Inr e)"

definition event_pipeline :: "uuid \<Rightarrow> client \<Rightarrow> scope option \<Rightarrow> heap \<Rightarrow> event \<Rightarrow> reason + event" where
  "event_pipeline fresh c sc h e =
     result_bind (or_reason EventProcessor (case sc of None \<Rightarrow> Some (event_ids fresh c e)
          | Some x \<Rightarrow> apply_to_event x h (event_ids fresh c e)))
       (\<lambda>e2. result_bind (or_reason EventProcessor (run_integrations c e2))
         (\<lambda>e3. or_reason BeforeSend
            (case co_before_send (cl_options c) of None \<Rightarrow> Some (event_defaults (cl_options c) e3)
             | Some f \<Rightarrow> f (event_defaults (cl_options c) e3))))"

definition event_sampled :: "flt \<Rightarrow> client \<Rightarrow> bool" where
  "event_sampled draw c =
     sample_should_send draw (event_sample_rate (co_event_sampling_strategy (cl_options c)))"

definition session_seen :: "scope option \<Rightarrow> event \<Rightarrow> session_cells \<Rightarrow> session_cells" where
  "session_seen sc e cells = (case sc of Some x \<Rightarrow> update_session_from_event x e cells | None \<Rightarrow> cells)"

lemma or_reason_simps [simp]: "or_reason r None = Inl r" "or_reason r (Some e) = Inr e"
  by (simp_all add: or_reason_def)

lemma prepare_event_eq:
  "prepare_event fresh draw c sc h e (w, cells) =
     (case event_pipeline fresh c sc h e of
        Inl rsn \<Rightarrow> ((record_lost_event rsn w, cells), None)
      | Inr e' \<Rightarrow>
          if event_sampled draw c then ((w, session_seen sc e' cells), Some e')
          else ((record_lost_event SampleRate w, session_seen sc e' cells), None))"
proof (cases "case sc of None \<Rightarrow> Some (event_ids fresh c e) | Some x \<Rightarrow> apply_to_event x h (event_ids fresh c e)")
  case None
  then show ?thesis by (simp add: prepare_event_def event_pipeline_def Let_def)
next
  case e2: (Some e2)
  show ?thesis
  proof (cases "run_integrations c e2")
    case None
    with e2 show ?thesis by (simp add: prepare_event_def event_pipeline_def Let_def)
  next
    case e3: (Some e3)
    let ?r = "case co_before_send (cl_options c) of None \<Rightarrow> Some (event_defaults (cl_options c) e3)
      | Some f \<Rightarrow> f (event_defaults (cl_options c) e3)"
    show ?thesis
      using e2 e3
      by (cases ?r) (simp_all add: prepare_event_def event_pipeline_def event_sampled_def
          session_seen_def Let_def split: option.split)
  qed
qed

lemma add_items_snoc: "add_items (its @ [it]) env = add_item it (add_items its env)"
  by (simp add: add_items_def)

lemma sender_send_items:
  assumes "net_slots w sl = Some t"
  shows "\<exists>reports. net_calls (sender_send now sl (add_items its envelope_new) w) = net_calls w @
    [CallSend t (add_items (its @ map IClientReport reports) envelope_new)] \<and> length reports \<le> 1"
proof -
  obtain env' where env': "net_calls (sender_send now sl (add_items its envelope_new) w) =
      net_calls w @ [CallSend t env']"
    "env' = add_items its envelope_new \<or> (\<exists>r. env' = add_item (IClientReport r) (add_items its envelope_new))"
    using sender_send_calls [OF assms] by blast
  from env'(2) show ?thesis
  proof (elim disjE exE)
    assume "env' = add_items its envelope_new"
    then show ?thesis using env'(1) by (intro exI [of _ "[]"]) simp
  next
    fix r
    assume "env' = add_item (IClientReport r) (add_items its envelope_new)"
    then show ?thesis using env'(1) by (intro exI [of _ "[r]"]) (simp add: add_items_snoc)
  qed
qed

lemma event_envelope_eq:
  "event_envelope e u atts =
     add_items (IEvent e # (case u of Some x \<Rightarrow> [ISessionUpdate x] | None \<Rightarrow> []) @ map IAttachment atts)
       envelope_new"
  by (induction atts rule: rev_induct)
    (simp_all add: event_envelope_def envelope_of_item_def add_items_Cons add_items_def
      split: option.split)

lemma record_lost_event_simps [simp]:
  "net_calls (record_lost_event rsn w) = net_calls w"
  "net_slots (record_lost_event rsn w) = net_slots w"
  "net_inv w \<Longrightarrow> net_inv (record_lost_event rsn w)"
  "net_inv w \<Longrightarrow> agg_abs (net_agg (record_lost_event rsn w)) cat r =
     agg_abs (net_agg w) cat r + (if cat = CatError \<and> r = rsn then 1 else 0)"
  by (auto simp: record_lost_event_def sender_record_loss_def net_inv_set_agg)

lemma sender_send_with_None:
  "fst (builder w) = w' \<Longrightarrow> snd (builder w) = None \<Longrightarrow> net_slots w sl = Some t \<Longrightarrow>
   sender_send_with now sl builder w = w'"
  by (cases "builder w") (simp add: sender_send_with_def slot_send_envelope_with_def attach_report_def)

lemma sender_send_with_Some:
  "builder w = (w, Some env) \<Longrightarrow> sender_send_with now sl builder w = sender_send now sl env w"
  by (simp add: sender_send_def sender_send_with_def slot_send_envelope_with_def attach_report_def
      split: option.split)

lemma capture_event_eq:
  "capture_event now fresh draw c sc h e (w, cells) =
     (if net_slots w (cl_sender c) = None then ((w, cells), nil_uuid)
      else (case event_pipeline fresh c sc h e of
          Inl rsn \<Rightarrow> ((record_lost_event rsn w, cells), nil_uuid)
        | Inr e' \<Rightarrow>
            if event_sampled draw c then
              (let (u, cells') = session_item c sc (session_seen sc e' cells) in
               ((sender_send now (cl_sender c)
                  (event_envelope e' u (case sc of Some x \<Rightarrow> sc_attachments x | None \<Rightarrow> [])) w, cells'),
                ev_event_id e'))
            else ((record_lost_event SampleRate w, session_seen sc e' cells), nil_uuid)))"
proof (cases "net_slots w (cl_sender c)")
  case None
  then show ?thesis by (simp add: capture_event_def sender_is_enabled_def is_occupied_def)
next
  case (Some t)
  note send_none = sender_send_with_None [OF _ _ Some]
  show ?thesis
    using Some
    by (cases "event_pipeline fresh c sc h e"; cases "event_sampled draw c")
      (simp_all add: capture_event_def sender_is_enabled_def is_occupied_def capture_builder_def
        prepare_event_eq send_none sender_send_with_Some split: prod.split)
qed

section \<open>What is queued\<close>

text \<open>The items that were handed to a transport, client reports aside, in order.\<close>

fun call_items :: "transport_call \<Rightarrow> envelope_item list" where
  "call_items (CallSend t env) = filter (\<lambda>it. item_type it \<noteq> Some TyClientReport) (items_of env)"
| "call_items _ = []"

definition sent_items :: "net \<Rightarrow> envelope_item list" where
  "sent_items w = concat (map call_items (net_calls w))"

definition no_reports :: "envelope_item list \<Rightarrow> bool" where
  "no_reports its = list_all (\<lambda>it. item_type it \<noteq> Some TyClientReport) its"

lemma sent_items_send:
  assumes "net_slots w sl \<noteq> None" and "no_reports its"
  shows "sent_items (sender_send now sl (add_items its envelope_new) w) = sent_items w @ its"
proof -
  obtain t where "net_slots w sl = Some t" using assms by blast
  then obtain env' where calls: "net_calls (sender_send now sl (add_items its envelope_new) w)
      = net_calls w @ [CallSend t env']"
    and env': "env' = add_items its envelope_new \<or>
      (\<exists>r. env' = add_item (IClientReport r) (add_items its envelope_new))"
    using sender_send_calls by blast
  have "items_of (add_item (IClientReport r) (add_items its envelope_new)) = its @ [IClientReport r]" for r
    by (rule items_of_add_item) (simp add: add_items_new)
  then have "call_items (CallSend t env') = its"
    using env' assms(2) by (auto simp: no_reports_def list_all_iff)
  then show ?thesis using calls by (simp add: sent_items_def)
qed

lemma no_reports_simps [simp]:
  "no_reports []" "no_reports (it # its) \<longleftrightarrow> item_type it \<noteq> Some TyClientReport \<and> no_reports its"
  "no_reports (map ISessionUpdate us)" "no_reports (its @ its') \<longleftrightarrow> no_reports its \<and> no_reports its'"
  by (auto simp: no_reports_def list_all_iff)

lemma send_loop_items:
  "\<lbrakk>send_loop now sl (add_items (map ISessionUpdate chunk) envelope_new) n us w = (env', w');
    net_slots w sl \<noteq> None\<rbrakk> \<Longrightarrow>
   \<exists>rest. env' = add_items (map ISessionUpdate rest) envelope_new \<and> net_slots w' = net_slots w \<and>
     sent_items w' @ map ISessionUpdate rest = sent_items w @ map ISessionUpdate (chunk @ us)"
proof (induction us arbitrary: chunk n w)
  case Nil
  then show ?case by (intro exI [of _ chunk]) simp
next
  case (Cons u us)
  have snoc: "add_item (ISessionUpdate u) (add_items (map ISessionUpdate c) envelope_new)
      = add_items (map ISessionUpdate (c @ [u])) envelope_new" for c
    by (simp add: add_items_def)
  show ?case
  proof (cases "n \<ge> max_session_items")
    case False
    with Cons.prems snoc [of chunk] Cons.IH [of "chunk @ [u]" "n + 1" w] show ?thesis by simp
  next
    case True
    let ?w = "sender_send now sl (add_items (map ISessionUpdate chunk) envelope_new) w"
    have "sent_items ?w = sent_items w @ map ISessionUpdate chunk"
      using Cons.prems(2) by (intro sent_items_send) simp_all
    with True Cons.prems snoc [of "[]"] Cons.IH [of "[u]" 1 ?w] show ?thesis by simp
  qed
qed

definition flusher_items :: "session_flusher \<Rightarrow> envelope_item list" where
  "flusher_items f =
     (case fl_aggregated f of Some a \<Rightarrow> [aggregates_item a] | None \<Rightarrow> []) @ map ISessionUpdate (fl_individual f)"

lemma flusher_flush_items:
  assumes "net_slots (snd s) (fl_sender (fst s)) \<noteq> None"
  shows "sent_items (snd (flusher_flush now s)) = sent_items (snd s) @ flusher_items (fst s)"
    and "net_slots (snd (flusher_flush now s)) = net_slots (snd s)"
proof -
  let ?sl = "fl_sender (fst s)" and ?queue = "fl_individual (fst s)"
  define w where "w = (case fl_aggregated (fst s) of
      Some a \<Rightarrow> sender_send now ?sl (add_item (aggregates_item a) envelope_new) (snd s)
    | None \<Rightarrow> snd s)"
  have "sent_items (sender_send now ?sl (add_items [aggregates_item a] envelope_new) (snd s))
      = sent_items (snd s) @ [aggregates_item a]" for a
    using assms by (intro sent_items_send) (simp_all add: aggregates_item_def)
  then have w: "sent_items w = sent_items (snd s) @
      (case fl_aggregated (fst s) of Some a \<Rightarrow> [aggregates_item a] | None \<Rightarrow> [])"
    "net_slots w = net_slots (snd s)"
    by (auto simp: w_def add_items_Cons split: option.split)
  obtain env' w' where loop: "send_loop now ?sl envelope_new 0 ?queue w = (env', w')"
    by (cases "send_loop now ?sl envelope_new 0 ?queue w")
  have eq: "snd (flusher_flush now s) = (if ?queue = [] then w else sender_send now ?sl env' w')"
    using loop by (cases "fl_aggregated (fst s)") (simp_all add: flusher_flush_def w_def Let_def)
  have open_w: "net_slots w ?sl \<noteq> None" using w assms by simp
  obtain rest where r: "env' = add_items (map ISessionUpdate rest) envelope_new"
    "net_slots w' = net_slots w"
    "sent_items w' @ map ISessionUpdate rest = sent_items w @ map ISessionUpdate ?queue"
    using send_loop_items [of now ?sl "[]" 0 ?queue w env' w'] loop open_w by auto
  have "net_slots w' ?sl \<noteq> None" using open_w r by simp
  then have "sent_items (sender_send now ?sl env' w') = sent_items w' @ map ISessionUpdate rest"
    using r sent_items_send [of w' ?sl "map ISessionUpdate rest" now] by simp
  then show "sent_items (snd (flusher_flush now s)) = sent_items (snd s) @ flusher_items (fst s)"
    and "net_slots (snd (flusher_flush now s)) = net_slots (snd s)"
    using w r by (simp_all add: eq flusher_items_def)
qed

lemma batch_flush_items:
  assumes "net_slots (snd s) (bt_sender (fst s)) \<noteq> None"
    and "item_type (into (bt_queue (fst s))) \<noteq> Some TyClientReport"
  shows "sent_items (snd (flush_queue_internal into now s)) =
      sent_items (snd s) @ (if bt_queue (fst s) = [] then [] else [into (bt_queue (fst s))])"
    and "net_slots (snd (flush_queue_internal into now s)) = net_slots (snd s)"
  using sent_items_send [of "snd s" "bt_sender (fst s)" "[into (bt_queue (fst s))]" now] assms
  by (simp_all add: flush_queue_internal_def Let_def add_items_Cons)

section \<open>Closing\<close>

text \<open>The queues of a client hand over to the client's own sender.\<close>

definition client_wf :: "client \<Rightarrow> bool" where
  "client_wf c \<longleftrightarrow>
     (\<forall>f. cl_session_flusher c = Some f \<longrightarrow> fl_sender f = cl_sender c) \<and>
     (\<forall>b. cl_logs_batcher c = Some b \<longrightarrow> bt_sender b = cl_sender c) \<and>
     (\<forall>b. cl_metrics_batcher c = Some b \<longrightarrow> bt_sender b = cl_sender c)"

lemma client_wf_with_options: "client_wf (fst (with_options sdk e now o' is w))"
  by (simp add: with_options_def client_wf_def flusher_new_def batcher_new_def Let_def split: prod.split)

text \<open>Everything a client has queued, as the items it becomes.\<close>

definition batch_items :: "('a list \<Rightarrow> envelope_item) \<Rightarrow> 'a batcher option \<Rightarrow> envelope_item list" where
  "batch_items into b =
     (case b of None \<Rightarrow> [] | Some b \<Rightarrow> if bt_queue b = [] then [] else [into (bt_queue b)])"

definition queued_items :: "client \<Rightarrow> envelope_item list" where
  "queued_items c =
     (case cl_session_flusher c of None \<Rightarrow> [] | Some f \<Rightarrow> flusher_items f) @
     batch_items item_of_logs (cl_logs_batcher c) @
     batch_items item_of_metrics (cl_metrics_batcher c)"

text \<open>What one flush of each queue does: \<open>f\<close> stands for a flush or a drop.\<close>

lemma on_flusher_eq:
  "fst (on_flusher f s) = (fst s)\<lparr>cl_session_flusher :=
     map_option (\<lambda>x. fst (f (x, snd s))) (cl_session_flusher (fst s))\<rparr>"
  "snd (on_flusher f s) = (case cl_session_flusher (fst s) of None \<Rightarrow> snd s | Some x \<Rightarrow> snd (f (x, snd s)))"
  by (cases "cl_session_flusher (fst s)"; simp add: on_flusher_def split: prod.split)+

lemma on_flusher_items:
  assumes "client_wf c" and "net_slots w (cl_sender c) \<noteq> None"
  shows "sent_items (snd (on_flusher (flusher_flush now) (c, w))) = sent_items w @
      (case cl_session_flusher c of None \<Rightarrow> [] | Some f \<Rightarrow> flusher_items f)"
    and "net_slots (snd (on_flusher (flusher_flush now) (c, w))) = net_slots w"
  using assms flusher_flush_items [of "(f, w)" now for f]
  by (cases "cl_session_flusher c"; simp add: on_flusher_eq client_wf_def)+

text \<open>Both a flush and a drop of a batcher flush its queue once.\<close>

definition flushes ::
  "('a list \<Rightarrow> envelope_item) \<Rightarrow> ('a batcher \<times> net \<Rightarrow> 'a batcher \<times> net) \<Rightarrow> bool" where
  "flushes into f \<longleftrightarrow> (\<forall>b w. \<exists>now b'. f (b, w) = flush_queue_internal into now (b', w) \<and>
     bt_queue b' = bt_queue b \<and> bt_sender b' = bt_sender b)"

lemma flushes_batcher [simp]: "flushes into (batcher_drop into now)" "flushes into (batcher_flush into now)"
proof -
  show "flushes into (batcher_flush into now)"
    unfolding flushes_def batcher_flush_def by blast
  have "batcher_drop into now (b, w) =
      flush_queue_internal into now (b\<lparr>bt_shutdown := True, bt_worker_done := True\<rparr>, w)" for b w
    by (simp add: batcher_drop_def)
  then show "flushes into (batcher_drop into now)"
    unfolding flushes_def by (metis batcher.select_convs(1,2) batcher.surjective batcher.update_convs(3,5))
qed

lemma on_batcher_items:
  assumes "flushes into f" and "\<And>xs. item_type (into xs) \<noteq> Some TyClientReport"
    and "\<And>x. b = Some x \<Longrightarrow> bt_sender x = sl" and "net_slots w sl \<noteq> None"
  shows "sent_items (snd (on_batcher f (b, w))) = sent_items w @ batch_items into b"
    and "net_slots (snd (on_batcher f (b, w))) = net_slots w"
proof -
  have "sent_items (snd (on_batcher f (b, w))) = sent_items w @ batch_items into b \<and>
    net_slots (snd (on_batcher f (b, w))) = net_slots w"
  proof (cases b)
    case (Some x)
    obtain now x' where x': "f (x, w) = flush_queue_internal into now (x', w)"
      "bt_queue x' = bt_queue x" "bt_sender x' = bt_sender x"
      using assms(1) unfolding flushes_def by blast
    have "snd (on_batcher f (b, w)) = snd (flush_queue_internal into now (x', w))"
      by (simp add: on_batcher_def Some x'(1) split: prod.split)
    with Some x'(2,3) assms(2-4) batch_flush_items [of "(x', w)" into now] show ?thesis
      by (simp add: batch_items_def)
  qed (simp add: on_batcher_def batch_items_def)
  then show "sent_items (snd (on_batcher f (b, w))) = sent_items w @ batch_items into b"
    "net_slots (snd (on_batcher f (b, w))) = net_slots w" by simp_all
qed

lemma on_logs_eq:
  "fst (on_logs f s) = (fst s)\<lparr>cl_logs_batcher := fst (on_batcher f (cl_logs_batcher (fst s), snd s))\<rparr>"
  "snd (on_logs f s) = snd (on_batcher f (cl_logs_batcher (fst s), snd s))"
  by (simp_all add: on_logs_def split: prod.split)

lemma on_metrics_eq:
  "fst (on_metrics f s) =
     (fst s)\<lparr>cl_metrics_batcher := fst (on_batcher f (cl_metrics_batcher (fst s), snd s))\<rparr>"
  "snd (on_metrics f s) = snd (on_batcher f (cl_metrics_batcher (fst s), snd s))"
  by (simp_all add: on_metrics_def split: prod.split)

lemma log_metric_types: "item_type (item_of_logs ls) \<noteq> Some TyClientReport"
  "item_type (item_of_metrics ms) \<noteq> Some TyClientReport"
  by (simp_all add: item_of_logs_def item_of_metrics_def)

text \<open>A round over the three queues, in the order of the code, whatever becomes of them.\<close>

lemma round_items:
  assumes "client_wf c" and "net_slots w (cl_sender c) \<noteq> None"
    and "flushes item_of_logs f" and "flushes item_of_metrics g"
    and "s1 = on_flusher (flusher_flush now) (c, w)"
    and "s1' = (c\<lparr>cl_session_flusher := fl\<rparr>, snd s1)" and "s2 = on_logs f s1'"
    and "s2' = (c\<lparr>cl_session_flusher := fl, cl_logs_batcher := lb\<rparr>, snd s2)" and "s3 = on_metrics g s2'"
  shows "sent_items (snd s3) = sent_items w @ queued_items c"
    and "net_slots (snd s3) = net_slots w"
proof -
  note wf = assms(1) [unfolded client_wf_def]
  note s1 = on_flusher_items [OF assms(1,2), of now, folded assms(5)]
  have o1: "net_slots (snd s1) (cl_sender c) \<noteq> None" using assms(2) s1(2) by simp
  have s2: "sent_items (snd s2) = sent_items (snd s1) @ batch_items item_of_logs (cl_logs_batcher c)"
    "net_slots (snd s2) = net_slots (snd s1)"
    using on_batcher_items [OF assms(3) log_metric_types(1), of "cl_logs_batcher c" "cl_sender c" "snd s1"] wf o1
    by (simp_all add: assms(6,7) on_logs_eq)
  have o2: "net_slots (snd s2) (cl_sender c) \<noteq> None" using o1 s2(2) by simp
  have s3: "sent_items (snd s3) = sent_items (snd s2) @ batch_items item_of_metrics (cl_metrics_batcher c)"
    "net_slots (snd s3) = net_slots (snd s2)"
    using on_batcher_items [OF assms(4) log_metric_types(2), of "cl_metrics_batcher c" "cl_sender c" "snd s2"] wf o2
    by (simp_all add: assms(8,9) on_metrics_eq)
  show "sent_items (snd s3) = sent_items w @ queued_items c" "net_slots (snd s3) = net_slots w"
    using s1 s2 s3 by (simp_all add: queued_items_def)
qed

lemma timeout_or_default_fields [simp]:
  "timeout_or_default timeout (c\<lparr>cl_session_flusher := a\<rparr>) = timeout_or_default timeout c"
  "timeout_or_default timeout (c\<lparr>cl_logs_batcher := b\<rparr>) = timeout_or_default timeout c"
  "timeout_or_default timeout (c\<lparr>cl_metrics_batcher := m\<rparr>) = timeout_or_default timeout c"
  by (simp_all add: timeout_or_default_def split: option.split)

lemma client_close_facts:
  assumes "client_wf c" and "net_slots w (cl_sender c) = Some t"
    and "client_close now answer timeout (c, w) = (ok, c', w')"
  shows "\<exists>w3. sent_items w3 = sent_items w @ queued_items c \<and> net_slots w3 = net_slots w \<and>
      w' = call (CallShutdown t (timeout_or_default timeout c)) (w3\<lparr>net_slots := (net_slots w)(cl_sender c := None)\<rparr>)"
    and "ok = answer"
    and "c' = c\<lparr>cl_session_flusher := None, cl_logs_batcher := None, cl_metrics_batcher := None\<rparr>"
proof -
  let ?s1 = "on_flusher (flusher_flush now) (c, w)"
  let ?s1' = "(c\<lparr>cl_session_flusher := None\<rparr>, snd ?s1)"
  let ?s2 = "on_logs (batcher_drop item_of_logs now) ?s1'"
  let ?s2' = "(c\<lparr>cl_session_flusher := None, cl_logs_batcher := None\<rparr>, snd ?s2)"
  let ?s3 = "on_metrics (batcher_drop item_of_metrics now) ?s2'"
  let ?c = "c\<lparr>cl_session_flusher := None, cl_logs_batcher := None, cl_metrics_batcher := None\<rparr>"
  have "net_slots w (cl_sender c) \<noteq> None" using assms(2) by simp
  note round = round_items [where now = now and fl = None and lb = None,
      OF assms(1) this flushes_batcher(1) flushes_batcher(1) refl refl refl refl refl, of now now]
  have "client_close now answer timeout (c, w) =
      (case sender_shutdown answer (cl_sender ?c) (timeout_or_default timeout ?c) (snd ?s3) of
         (ok, w) \<Rightarrow> (ok, ?c, w))"
    by (simp add: client_close_def Let_def flusher_drop_def [abs_def] on_flusher_eq on_logs_eq on_metrics_eq)
  then have eq: "(ok, c', w') = (answer, ?c, call (CallShutdown t (timeout_or_default timeout c))
      ((snd ?s3)\<lparr>net_slots := (net_slots w)(cl_sender c := None)\<rparr>))"
    using assms(2,3) round by (simp add: sender_shutdown_def slot_shutdown_def Let_def)
  show "\<exists>w3. sent_items w3 = sent_items w @ queued_items c \<and> net_slots w3 = net_slots w \<and>
      w' = call (CallShutdown t (timeout_or_default timeout c)) (w3\<lparr>net_slots := (net_slots w)(cl_sender c := None)\<rparr>)"
    using round eq by (intro exI [of _ "snd ?s3"]) simp
  show "ok = answer" "c' = ?c" using eq by simp_all
qed

lemma client_flush_facts:
  assumes "client_wf c" and "net_slots w (cl_sender c) = Some t"
    and "client_flush now answer timeout (c, w) = (ok, c', w')"
  shows "\<exists>w3. sent_items w3 = sent_items w @ queued_items c \<and> net_slots w3 = net_slots w \<and>
      w' = call (CallFlush t (timeout_or_default timeout c)) w3"
    and "ok = answer"
proof -
  let ?s1 = "on_flusher (flusher_flush now) (c, w)"
  let ?fl = "cl_session_flusher (fst ?s1)"
  let ?s1' = "(c\<lparr>cl_session_flusher := ?fl\<rparr>, snd ?s1)"
  let ?s2 = "on_logs (batcher_flush item_of_logs now) ?s1'"
  let ?lb = "cl_logs_batcher (fst ?s2)"
  let ?s2' = "(c\<lparr>cl_session_flusher := ?fl, cl_logs_batcher := ?lb\<rparr>, snd ?s2)"
  let ?s3 = "on_metrics (batcher_flush item_of_metrics now) ?s2'"
  have "net_slots w (cl_sender c) \<noteq> None" using assms(2) by simp
  note round = round_items [where now = now and fl = ?fl and lb = ?lb,
      OF assms(1) this flushes_batcher(2) flushes_batcher(2) refl refl refl refl refl, of now now]
  have s1: "?s1' = ?s1" by (simp add: prod_eq_iff on_flusher_eq)
  have s2: "?s2' = ?s2" by (simp add: prod_eq_iff on_logs_eq)
  have e2: "on_logs (batcher_flush item_of_logs now) ?s1 = ?s2" by (simp only: s1)
  have e3: "on_metrics (batcher_flush item_of_metrics now)
      (on_logs (batcher_flush item_of_logs now) ?s1) = ?s3"
    by (rule arg_cong [where f = "on_metrics (batcher_flush item_of_metrics now)",
          OF trans [OF e2 s2 [symmetric]]])
  have c3: "cl_sender (fst ?s3) = cl_sender c"
    "timeout_or_default timeout (fst ?s3) = timeout_or_default timeout c"
    by (simp_all add: on_metrics_eq)
  have flush: "client_flush now answer timeout (c, w) =
      (case sender_flush answer (cl_sender (fst ?s3)) (timeout_or_default timeout (fst ?s3)) (snd ?s3) of
         (ok, w) \<Rightarrow> (ok, fst ?s3, w))"
    by (simp only: client_flush_def Let_def e3)
  have eq: "(ok, c', w') = (answer, fst ?s3, call (CallFlush t (timeout_or_default timeout c)) (snd ?s3))"
    using flush unfolding c3 assms(3) using round(2) assms(2)
    by (simp add: sender_flush_def slot_flush_def)
  show "\<exists>w3. sent_items w3 = sent_items w @ queued_items c \<and> net_slots w3 = net_slots w \<and>
      w' = call (CallFlush t (timeout_or_default timeout c)) w3"
    using round eq by (intro exI [of _ "snd ?s3"]) simp
  show "ok = answer" using eq by simp
qed

lemma sent_items_call [simp]:
  "sent_items (call (CallShutdown t d) w) = sent_items w" "sent_items (call (CallFlush t d) w) = sent_items w"
  by (simp_all add: sent_items_def)

lemma sent_items_slots [simp]: "sent_items (w\<lparr>net_slots := f\<rparr>) = sent_items w"
  by (simp add: sent_items_def)

lemma run_before_send_calls [simp]:
  "net_calls (fst (run_before_send losses_of hook x w)) = net_calls w"
  by (simp add: run_before_send_def sender_record_lost_data_def Let_def split: option.split)

lemma capture_log_sealed:
  "cl_logs_batcher (fst s) = None \<Longrightarrow> net_calls (snd (capture_log now hx l sc h s)) = net_calls (snd s)"
  by (auto simp: capture_log_def prepare_log_def Let_def split: prod.split option.split
      dest!: arg_cong [where f = "\<lambda>r. net_calls (fst r)"])

lemma capture_metric_sealed:
  "cl_metrics_batcher (fst s) = None \<Longrightarrow> net_calls (snd (capture_metric now m sc h s)) = net_calls (snd s)"
  by (auto simp: capture_metric_def prepare_metric_def Let_def split: prod.split option.split
      dest!: arg_cong [where f = "\<lambda>r. net_calls (fst r)"])

section \<open>Properties\<close>

text \<open>
  C1: The fate of a captured event. Without a transport nothing runs and nothing changes.
  Otherwise an event that a processor, an integration or \<open>before_send\<close> drops, or that is not
  sampled, sends nothing, returns the nil id and costs exactly one lost error event under the
  reason of the stage that dropped it. Any other event makes exactly one transport call, whose
  envelope holds the processed event, the session update of an application-mode session, the
  attachments of the scope and at most one client report, in this order, and its id is returned.
\<close>

theorem capture_event_fate:
  assumes "net_inv w"
    and "capture_event now fresh draw c sc h e (w, cells) = ((w', cells'), event_id)"
  shows "case net_slots w (cl_sender c) of
      None \<Rightarrow> w' = w \<and> cells' = cells \<and> event_id = nil_uuid
    | Some t \<Rightarrow> (case (case event_pipeline fresh c sc h e of Inl rsn \<Rightarrow> Inl rsn
          | Inr e' \<Rightarrow> if event_sampled draw c then Inr e' else Inl SampleRate) of
      Inl rsn \<Rightarrow>
        net_calls w' = net_calls w \<and> event_id = nil_uuid \<and>
        (\<forall>cat r. agg_abs (net_agg w') cat r =
           agg_abs (net_agg w) cat r + (if cat = CatError \<and> r = rsn then 1 else 0))
    | Inr e' \<Rightarrow>
        event_id = ev_event_id e' \<and>
        (\<exists>u reports. net_calls w' = net_calls w @ [CallSend t (add_items (IEvent e' # u @
             map IAttachment (case sc of Some x \<Rightarrow> sc_attachments x | None \<Rightarrow> []) @
             map IClientReport reports) envelope_new)] \<and>
           u = (case fst (session_item c sc (session_seen sc e' cells)) of
                  Some x \<Rightarrow> [ISessionUpdate x] | None \<Rightarrow> []) \<and>
           length reports \<le> 1))"
proof (cases "net_slots w (cl_sender c)")
  case None
  then show ?thesis using assms(2) by (simp add: capture_event_def sender_is_enabled_def is_occupied_def)
next
  case slot: (Some t)
  show ?thesis
  proof (cases "event_pipeline fresh c sc h e")
    case (Inl rsn)
    then show ?thesis using assms slot by (auto simp: capture_event_eq)
  next
    case (Inr e')
    show ?thesis
    proof (cases "event_sampled draw c")
      case False
      with Inr show ?thesis using assms slot by (auto simp: capture_event_eq)
    next
      case True
      let ?atts = "case sc of Some x \<Rightarrow> sc_attachments x | None \<Rightarrow> []"
      obtain u cells2 where item: "session_item c sc (session_seen sc e' cells) = (u, cells2)" by fastforce
      let ?its = "IEvent e' # (case u of Some x \<Rightarrow> [ISessionUpdate x] | None \<Rightarrow> []) @ map IAttachment ?atts"
      have w': "w' = sender_send now (cl_sender c) (add_items ?its envelope_new) w"
        and "event_id = ev_event_id e'"
        using assms(2) slot Inr True item by (simp_all add: capture_event_eq event_envelope_eq)
      moreover have "\<exists>reports. net_calls w' = net_calls w @
          [CallSend t (add_items (?its @ map IClientReport reports) envelope_new)] \<and> length reports \<le> 1"
        unfolding w' by (rule sender_send_items [OF slot])
      ultimately show ?thesis using slot Inr True item by simp
    qed
  qed
qed

text \<open>
  C12: What is queued is delivered. Flushing or closing a client with a transport hands every
  queued session (aggregates first, then the individual updates), log and metric to the
  transport, each once and in order, before the transport is told to flush or shut down, and
  answers what the transport answers. After closing, nothing the client is asked to capture,
  queue or send causes another transport call, and flushing answers \<open>true\<close>.
\<close>

theorem close_delivers_and_seals:
  assumes "client_wf c" and "net_slots w (cl_sender c) = Some t"
    and "client_flush now answer timeout (c, w) = (ok0, c0, w0)"
    and "client_close now answer timeout (c, w) = (ok, c', w')"
  shows "ok0 = answer \<and> sent_items w0 = sent_items w @ queued_items c \<and>
      last (net_calls w0) = CallFlush t (timeout_or_default timeout c) \<and>
    ok = answer \<and> sent_items w' = sent_items w @ queued_items c \<and>
      last (net_calls w') = CallShutdown t (timeout_or_default timeout c) \<and>
    capture_event now fresh draw c' sc h e (w', cells) = ((w', cells), nil_uuid) \<and>
    net_calls (snd (capture_log now hx l x h (c', w'))) = net_calls w' \<and>
    net_calls (snd (capture_metric now m x h (c', w'))) = net_calls w' \<and>
    enqueue_session now u (c', w') = Some (c', w') \<and>
    client_send_envelope now env (c', w') = (c', w') \<and>
    client_flush now answer' timeout' (c', w') = (True, c', w')"
proof -
  obtain w03 where w03: "sent_items w03 = sent_items w @ queued_items c"
    "w0 = call (CallFlush t (timeout_or_default timeout c)) w03"
    using client_flush_facts(1) [OF assms(1-3)] by blast
  obtain w3 where w3: "sent_items w3 = sent_items w @ queued_items c"
    "w' = call (CallShutdown t (timeout_or_default timeout c)) (w3\<lparr>net_slots := (net_slots w)(cl_sender c := None)\<rparr>)"
    using client_close_facts(1) [OF assms(1,2,4)] by blast
  note c' = client_close_facts(3) [OF assms(1,2,4)]
  have sealed: "net_slots w' (cl_sender c') = None" by (simp add: w3(2) c')
  show ?thesis
    using client_flush_facts(2) [OF assms(1-3)] client_close_facts(2) [OF assms(1,2,4)] w03 w3(1) sealed
      capture_log_sealed [of "(c', w')" now hx l x h] capture_metric_sealed [of "(c', w')" now m x h]
    by (simp add: c' capture_event_eq enqueue_session_def client_send_envelope_def client_flush_def
        on_flusher_def on_logs_def on_metrics_def on_batcher_def sender_flush_def slot_flush_def)
      (simp add: w3(2))
qed

definition sample_client :: "client_options \<Rightarrow> client" where
  "sample_client o' =
     \<lparr>cl_options = o', cl_sender = 0, cl_session_flusher = Some (flusher_new 0 Application),
      cl_logs_batcher = Some (batcher_new 0 0), cl_metrics_batcher = Some (batcher_new 0 0),
      cl_default_log_attributes = None, cl_default_metric_attributes = [], cl_integrations = [],
      cl_sdk_info = \<lparr>sdk_name = ''sentry.rust'', sdk_version = ''1'', sdk_integrations = [],
        sdk_packages = []\<rparr>\<rparr>"

definition dropping_options :: client_options where
  "dropping_options = (options_default ''ua'')\<lparr>co_before_send := Some (\<lambda>_. None)\<rparr>"

lemma capture_event_fate_witness:
  "case capture_event 0 7 (Fin 0) (sample_client dropping_options) None sample_heap (event_default 5 9)
     (one_slot, \<lambda>_. None) of ((w', _), event_id) \<Rightarrow>
     agg_abs (net_agg w') CatError BeforeSend = agg_abs (net_agg one_slot) CatError BeforeSend + 1 \<and>
     event_id = nil_uuid"
proof -
  let ?c = "sample_client dropping_options"
  obtain w' cells' event_id where r: "capture_event 0 7 (Fin 0) ?c None sample_heap
      (event_default 5 9) (one_slot, \<lambda>_. None) = ((w', cells'), event_id)"
    by (metis prod.exhaust)
  have "event_pipeline 7 ?c None sample_heap (event_default 5 9) = Inl BeforeSend"
    by (simp add: event_pipeline_def run_integrations_def sample_client_def dropping_options_def)
  moreover have "net_slots one_slot (cl_sender ?c) = Some 7" by (simp add: sample_client_def)
  ultimately show ?thesis
    using capture_event_fate [OF one_slot_simps(1) r] by (simp add: r)
qed

definition logging_client :: client where
  "logging_client = (sample_client (options_default ''ua''))
     \<lparr>cl_logs_batcher := Some ((batcher_new 0 0)\<lparr>bt_queue := [sample_scope_log]\<rparr>)\<rparr>"

lemma logging_client_simps:
  "client_wf logging_client" "net_slots one_slot (cl_sender logging_client) = Some 7"
  "queued_items logging_client = [item_of_logs [sample_scope_log]]"
  by (simp_all add: logging_client_def sample_client_def client_wf_def queued_items_def batch_items_def
      flusher_items_def flusher_new_def batcher_new_def)

lemma close_delivers_and_seals_witness:
  "sent_items (snd (snd (client_close 3 True None (logging_client, one_slot)))) =
     [item_of_logs [sample_scope_log]]"
proof -
  obtain ok0 c0 w0 ok c' w' where r: "client_flush 3 True None (logging_client, one_slot) = (ok0, c0, w0)"
    "client_close 3 True None (logging_client, one_slot) = (ok, c', w')"
    by (metis prod.exhaust)
  have "sent_items one_slot = []" by (simp add: sent_items_def one_slot_def net_empty_def)
  then show ?thesis
    using close_delivers_and_seals [OF logging_client_simps(1,2) r] by (simp add: r logging_client_simps)
qed

text \<open>The log as it reaches \<open>before_send_log\<close>, and what the hook makes of it.\<close>

definition log_prepared :: "hex_codec \<Rightarrow> client \<Rightarrow> scope \<Rightarrow> heap \<Rightarrow> log \<Rightarrow> log" where
  "log_prepared hx c sc h l =
     (let l1 = apply_to_log hx sc h l in
      case cl_default_log_attributes c of
        Some d \<Rightarrow> l1\<lparr>log_attributes := add_default_attributes d (log_attributes l1)\<rparr>
      | None \<Rightarrow> l1)"

definition hooked :: "'a before_callback option \<Rightarrow> 'a \<Rightarrow> 'a option" where
  "hooked hook x = (case hook of None \<Rightarrow> Some x | Some f \<Rightarrow> f x)"

lemma run_before_send_eq:
  "run_before_send losses_of hook x w =
     (case hooked hook x of Some y \<Rightarrow> (w, Some y)
      | None \<Rightarrow> (sender_record_lost_data (losses_of x) BeforeSend w, None))"
  by (simp add: run_before_send_def hooked_def Let_def split: option.split)

lemma add_default_attributes_keeps:
  "map_of m k = Some v \<Longrightarrow> map_of (add_default_attributes d m) k = Some v"
  unfolding add_default_attributes_def
proof (induction d arbitrary: m)
  case (Cons a d)
  obtain k' v' where a: "a = (k', v')" by fastforce
  have "map_of (sm_or_insert k' v' m) k = Some v" using Cons.prems by (auto simp: map_of_sm_or_insert)
  from Cons.IH [OF this] show ?case by (simp add: a)
qed simp

lemma sum_list_loss_in_log:
  "sum_list (map (loss_in BeforeSend cat r) (one_log_losses l)) =
     (if r = BeforeSend then (if cat = CatLogItem then 1 else if cat = CatLogByte then log_byte_size l else 0)
      else 0)"
  by (simp add: one_log_losses_def loss_in_def loss_new_def)

text \<open>
  C19: A log that an open client captures is kept or counted. With logs disabled nothing happens. Default
  attributes never replace one that the scope or the caller set. If \<open>before_send_log\<close> drops the log, nothing is
  queued or sent and the report gains one log item and the byte size of the log. Otherwise what the hook
  returns is the next log to be delivered, behind everything sent and queued before, and no loss is recorded unless
  the queue is handed over; this is while the client has its batcher and the batcher its transport. Once closing
  has taken the batcher, the log is dropped without being counted.
\<close>

theorem captured_log_kept_or_counted:
  assumes "net_inv w" and "\<And>b. cl_logs_batcher c = Some b \<Longrightarrow> batcher_inv (b, w)"
    and "capture_log now hx l sc h (c, w) = (c', w')"
  shows "if \<not> co_enable_logs (cl_options c) then c' = c \<and> w' = w
    else (map_of (log_attributes (apply_to_log hx sc h l)) k = Some v \<longrightarrow>
      map_of (log_attributes (log_prepared hx c sc h l)) k = Some v) \<and>
    (case hooked (co_before_send_log (cl_options c)) (log_prepared hx c sc h l) of
       None \<Rightarrow> c' = c \<and> net_calls w' = net_calls w \<and>
         (\<forall>cat r. agg_abs (net_agg w') cat r = agg_abs (net_agg w) cat r +
            (if r = BeforeSend then (if cat = CatLogItem then 1
               else if cat = CatLogByte then log_byte_size (log_prepared hx c sc h l) else 0) else 0))
     | Some l' \<Rightarrow>
         (case cl_logs_batcher c of
            None \<Rightarrow> c' = c \<and> w' = w
          | Some b \<Rightarrow> \<exists>b'. c' = c\<lparr>cl_logs_batcher := Some b'\<rparr> \<and> batcher_inv (b', w') \<and>
              concat (sent_batches logs_of (b', w')) @ bt_queue b' =
                concat (sent_batches logs_of (b, w)) @ bt_queue b @ [l'] \<and>
              (Suc (length (bt_queue b)) < max_items \<longrightarrow> w' = w)))"
proof -
  let ?l = "log_prepared hx c sc h l"
  have keeps: "map_of (log_attributes (apply_to_log hx sc h l)) k = Some v \<longrightarrow> map_of (log_attributes ?l) k = Some v"
    by (simp add: log_prepared_def add_default_attributes_keeps Let_def split: option.split)
  have prep: "prepare_log hx c sc h l w =
      run_before_send one_log_losses (co_before_send_log (cl_options c)) ?l w"
    by (simp add: prepare_log_def log_prepared_def Let_def)
  show ?thesis
  proof (cases "co_enable_logs (cl_options c)")
    case False
    then show ?thesis using assms(3) by (simp add: capture_log_def)
  next
    case on: True
    show ?thesis
    proof (cases "hooked (co_before_send_log (cl_options c)) ?l")
      case None
      then show ?thesis
        using assms(1,3) on keeps
        by (auto simp: capture_log_def prep run_before_send_eq sender_record_lost_data_def
            agg_abs_record_lost_data sum_list_loss_in_log)
    next
      case hook: (Some l')
      show ?thesis
      proof (cases "cl_logs_batcher c")
        case None
        then show ?thesis
          using assms(3) on keeps hook by (auto simp: capture_log_def prep run_before_send_eq)
      next
        case (Some b)
        obtain b' w2 where enq: "batcher_enqueue item_of_logs now l' (b, w) = (b', w2)" by fastforce
        then have res: "c' = c\<lparr>cl_logs_batcher := Some b'\<rparr>" "w' = w2"
          using assms(3) on Some hook by (simp_all add: capture_log_def prep run_before_send_eq)
        show ?thesis
          using on keeps hook Some res enq log_batch.queue.fifo [OF assms(2) [OF Some], of "(now, l')"]
            log_batch.queue.inv_submit [OF assms(2) [OF Some], of "(now, l')"]
          by (auto simp: batcher_enqueue_def Let_def)
      qed
    qed
  qed
qed

lemma captured_log_kept_or_counted_witness:
  "\<exists>b'. cl_logs_batcher (fst (capture_log 1 sample_hex sample_scope_log (scope_default 0 [] [])
     sample_heap (logging_client, one_slot))) = Some b' \<and> length (bt_queue b') = 2"
proof -
  let ?b = "(batcher_new 0 0)\<lparr>bt_queue := [sample_scope_log]\<rparr>"
  obtain c' w' where r: "capture_log 1 sample_hex sample_scope_log (scope_default 0 [] [])
      sample_heap (logging_client, one_slot) = (c', w')" by fastforce
  have "net_inv one_slot" "co_enable_logs (cl_options logging_client)"
    "cl_logs_batcher logging_client = Some ?b" "batcher_inv (?b, one_slot)"
    "co_before_send_log (cl_options logging_client) = None"
    by (simp_all add: logging_client_def sample_client_def options_default_def batcher_inv_def
        batcher_new_def max_items_def)
  moreover have "sent_batches logs_of (b', one_slot) = []" for b'
    by (simp add: sent_batches_def one_slot_def net_empty_def)
  ultimately obtain b' where "c' = logging_client\<lparr>cl_logs_batcher := Some b'\<rparr>" "w' = one_slot"
    "bt_queue b' = [sample_scope_log,
       log_prepared sample_hex logging_client (scope_default 0 [] []) sample_heap sample_scope_log]"
    using captured_log_kept_or_counted [where k = "''x''" and v = JNull, OF _ _ r]
    by (auto simp: hooked_def batcher_new_def max_items_def)
  then show ?thesis by (simp add: r)
qed

end
