(* ===== verification/Transactions.thy ===== *)
theory Transactions
  imports Client
begin

text \<open>
  Starting and finishing transactions and spans (\<open>sentry-core/src/performance/mod.rs\<close>), the
  part that talks to a client. The world holds the shared objects by address: clients
  (\<open>Arc<Client>\<close>), the nets they send through (a client and its clones share one), running
  transactions and spans, and session cells.
\<close>

section \<open>The world\<close>

record world =
  wd_clients :: "nat \<Rightarrow> client"
  wd_family :: "nat \<Rightarrow> nat"
  wd_nets :: "nat \<Rightarrow> net"
  wd_heap :: heap
  wd_cells :: session_cells

definition net_of :: "world \<Rightarrow> nat \<Rightarrow> net" where
  "net_of W a = wd_nets W (wd_family W a)"

definition set_net :: "nat \<Rightarrow> net \<Rightarrow> world \<Rightarrow> world" where
  "set_net a w W = W\<lparr>wd_nets := (wd_nets W)(wd_family W a := w)\<rparr>"

definition on_client :: "nat \<Rightarrow> (client \<times> net \<Rightarrow> client \<times> net) \<Rightarrow> world \<Rightarrow> world" where
  "on_client a f W =
     (case f (wd_clients W a, net_of W a) of
        (c, w) \<Rightarrow> (set_net a w W)\<lparr>wd_clients := (wd_clients W)(a := c)\<rparr>)"

definition set_heap :: "heap \<Rightarrow> world \<Rightarrow> world" where
  "set_heap h W = W\<lparr>wd_heap := h\<rparr>"

section \<open>Starting a transaction\<close>

definition sdk_org_id :: "client_options \<Rightarrow> organization_id option" where
  "sdk_org_id o' =
     (case co_org_id o' of Some i \<Rightarrow> Some i
      | None \<Rightarrow> (case co_dsn o' of Some d \<Rightarrow> dsn_org_id d | None \<Rightarrow> None))"

text \<open>The incoming trace of the context is kept, or cleared from it.\<close>

definition admit_trace ::
  "trace_id \<Rightarrow> client_options \<Rightarrow> transaction_context \<Rightarrow> transaction_context" where
  "admit_trace fresh_trace o' ctx =
     (case tcx_incoming_trace ctx of
        Some incoming \<Rightarrow>
          if \<not> should_continue_trace incoming (sdk_org_id o') (co_strict_trace_continuation o')
          then reject_incoming_trace fresh_trace ctx else ctx
      | None \<Rightarrow> ctx)"

text \<open>
  \<open>Transaction::new\<close>: the fresh trace id, event id and default times are inputs, as is the
  random draw.
\<close>

definition transaction_new ::
  "trace_id \<Rightarrow> uuid \<Rightarrow> systime \<Rightarrow> flt \<Rightarrow> nat option \<Rightarrow> transaction_context \<Rightarrow> world \<Rightarrow>
   transaction_handle \<times> world" where
  "transaction_new fresh_trace fresh now draw client' ctx W =
     (let (ctx', sampled, sample_rate, tx) =
        (case client' of
           Some a \<Rightarrow>
             (let c = wd_clients W a;
                  ctx' = admit_trace fresh_trace (cl_options c) ctx;
                  (sampled, rate) = determine_sampling_decision draw c ctx'
              in (ctx', sampled, rate, Some ((ptransaction_default fresh now)\<lparr>tx_name := Some (tcx_name ctx')\<rparr>)))
         | None \<Rightarrow>
             (ctx, (case tcx_sampled ctx of Some b \<Rightarrow> b | None \<Rightarrow> False),
              (case tcx_sampled ctx of Some b \<Rightarrow> flt_of_bool b | None \<Rightarrow> Fin 0), None));
          context' = (trace_context_default (tcx_span_id ctx') (tcx_trace_id ctx'))
            \<lparr>tc_parent_span_id := tcx_parent_span_id ctx', tc_op := Some (tcx_op ctx')\<rparr>;
          (r, h) = alloc_txn \<lparr>in_client = client', in_sampled = sampled, in_context = context',
            in_transaction = tx\<rparr> (wd_heap W)
      in (\<lparr>th_inner = r, th_sample_rate = sample_rate\<rparr>, set_heap h W))"

definition set_start_timestamp :: "systime \<Rightarrow> transaction_handle \<Rightarrow> world \<Rightarrow> world" where
  "set_start_timestamp t th W =
     set_heap (upd_txn (th_inner th) (upd_ptx (\<lambda>p. p\<lparr>tx_start_timestamp := t\<rparr>)) (wd_heap W)) W"

section \<open>Finishing\<close>

definition record_lost :: "nat \<Rightarrow> loss list \<Rightarrow> reason \<Rightarrow> world \<Rightarrow> world" where
  "record_lost a losses rsn W = set_net a (sender_record_lost_data losses rsn (net_of W a)) W"

text \<open>\<open>sc\<close> is the scope of the current hub.\<close>

definition finished_transaction ::
  "systime \<Rightarrow> scope \<Rightarrow> client \<Rightarrow> trace_context \<Rightarrow> ptransaction \<Rightarrow> ptransaction" where
  "finished_transaction timestamp sc c context' tx =
     (let t1 = ptransaction_finish_with_timestamp timestamp tx;
          t2 = t1\<lparr>tx_contexts := sm_insert ''trace'' (CtxTrace context') (tx_contexts t1)\<rparr>;
          t3 = apply_to_transaction sc t2
      in t3\<lparr>tx_release := co_release (cl_options c), tx_environment := co_environment (cl_options c),
            tx_sdk := Some (cl_sdk_info c), tx_server_name := co_server_name (cl_options c)\<rparr>)"

definition transaction_dsc :: "transaction_handle \<Rightarrow> client \<Rightarrow> transaction_inner \<Rightarrow> dynamic_sampling_context" where
  "transaction_dsc th c inner =
     (let dsc = dsc_with_sampled (in_sampled inner) (dsc_with_sample_rate (th_sample_rate th)
            (dsc_with_trace_id (tc_trace_id (in_context inner)) dsc_new))
      in case co_dsn (cl_options c) of
           Some d \<Rightarrow> dsc_with_public_key (dsn_public_key d) dsc
         | None \<Rightarrow> dsc)"

definition transaction_finish ::
  "systime \<Rightarrow> systime \<Rightarrow> scope \<Rightarrow> transaction_handle \<Rightarrow> world \<Rightarrow> world" where
  "transaction_finish now timestamp sc th W =
     (let inner = hp_txns (wd_heap W) (th_inner th);
          taken = set_heap (upd_txn (th_inner th) (\<lambda>i. i\<lparr>in_transaction := None\<rparr>) (wd_heap W)) W
      in if \<not> in_sampled inner then
           (case in_transaction inner of
              None \<Rightarrow> W
            | Some tx \<Rightarrow>
                (case in_client inner of
                   Some a \<Rightarrow> record_lost a (transaction_losses tx) SampleRate taken
                 | None \<Rightarrow> taken))
         else
           (case in_transaction inner of
              None \<Rightarrow> W
            | Some tx \<Rightarrow>
                (case in_client inner of
                   None \<Rightarrow> taken
                 | Some a \<Rightarrow>
                     (let c = wd_clients W a;
                          gone = set_heap (upd_txn (th_inner th)
                            (\<lambda>i. i\<lparr>in_transaction := None, in_client := None\<rparr>) (wd_heap W)) W;
                          tx' = finished_transaction timestamp sc c (in_context inner) tx;
                          envelope = add_item (ITransaction tx')
                            (with_headers (with_trace (transaction_dsc th c inner) headers_new) envelope_new)
                      in on_client a (client_send_envelope now envelope) gone))))"

definition max_spans :: nat where "max_spans = 1000"

definition span_finish :: "systime \<Rightarrow> span_handle \<Rightarrow> world \<Rightarrow> world" where
  "span_finish timestamp s W =
     (let span' = hp_spans (wd_heap W) (sh_span s) in
      if sp_timestamp span' \<noteq> None then W
      else
        (let done_span = pspan_finish_with_timestamp timestamp span';
             h = upd_span (sh_span s) (\<lambda>_. done_span) (wd_heap W);
             inner = hp_txns h (sh_transaction s)
         in case in_transaction inner of
              None \<Rightarrow> set_heap h W
            | Some tx \<Rightarrow>
                if length (tx_spans tx) \<le> max_spans then
                  set_heap (upd_txn (sh_transaction s)
                    (upd_ptx (\<lambda>p. p\<lparr>tx_spans := tx_spans p @ [done_span]\<rparr>)) h) W
                else
                  (case in_client inner of
                     Some a \<Rightarrow> record_lost a (span_losses done_span) BufferOverflow (set_heap h W)
                   | None \<Rightarrow> set_heap h W)))"

fun ts_finish :: "systime \<Rightarrow> systime \<Rightarrow> scope \<Rightarrow> transaction_or_span \<Rightarrow> world \<Rightarrow> world" where
  "ts_finish now timestamp sc (TxHandle t) W = transaction_finish now timestamp sc t W"
| "ts_finish now timestamp sc (SpHandle s) W = span_finish timestamp s W"

section \<open>Lemmas\<close>

lemma world_simps [simp]:
  "wd_heap (set_net a w W) = wd_heap W" "wd_clients (set_net a w W) = wd_clients W"
  "wd_family (set_net a w W) = wd_family W" "net_of (set_net a w W) a = w"
  "wd_heap (set_heap h W) = h" "wd_clients (set_heap h W) = wd_clients W"
  "wd_family (set_heap h W) = wd_family W" "net_of (set_heap h W) b = net_of W b"
  "wd_nets (set_heap h W) = wd_nets W"
  by (simp_all add: set_net_def set_heap_def net_of_def)

lemma upd_txn_simps [simp]:
  "hp_txns (upd_txn r f h) r = f (hp_txns h r)"
  "r' \<noteq> r \<Longrightarrow> hp_txns (upd_txn r f h) r' = hp_txns h r'"
  "hp_spans (upd_txn r f h) = hp_spans h"
  "hp_spans (upd_span s g h) s = g (hp_spans h s)"
  "s' \<noteq> s \<Longrightarrow> hp_spans (upd_span s g h) s' = hp_spans h s'"
  "hp_txns (upd_span s g h) = hp_txns h"
  by (simp_all add: upd_txn_def upd_span_def)

lemma upd_ptx_simps [simp]:
  "in_client (upd_ptx f i) = in_client i" "in_sampled (upd_ptx f i) = in_sampled i"
  "in_context (upd_ptx f i) = in_context i" "in_transaction (upd_ptx f i) = map_option f (in_transaction i)"
  by (simp_all add: upd_ptx_def)

lemma record_lost_simps [simp]:
  "wd_heap (record_lost a ls rsn W) = wd_heap W"
  "net_of (record_lost a ls rsn W) a = sender_record_lost_data ls rsn (net_of W a)"
  by (simp_all add: record_lost_def)

lemma on_client_send:
  "on_client a (client_send_envelope now env) W =
     set_net a (sender_send now (cl_sender (wd_clients W a)) env (net_of W a)) W"
  by (simp add: on_client_def client_send_envelope_def set_net_def)

lemma finished_transaction_fields [simp]:
  "tx_spans (finished_transaction ts sc c ctx tx) = tx_spans tx"
  "tx_name (finished_transaction ts sc c ctx tx) = tx_name tx"
  "tx_event_id (finished_transaction ts sc c ctx tx) = tx_event_id tx"
  "tx_timestamp (finished_transaction ts sc c ctx tx) = Some ts"
  by (auto simp: finished_transaction_def apply_to_transaction_def Let_def
      ptransaction_finish_with_timestamp_def split: option.split)

lemma span_finish_spans:
  assumes "sp_timestamp (hp_spans (wd_heap W) (sh_span s)) = None"
  shows "hp_spans (wd_heap (span_finish t s W)) (sh_span s) =
      pspan_finish_with_timestamp t (hp_spans (wd_heap W) (sh_span s))"
    and "r \<noteq> sh_span s \<Longrightarrow> hp_spans (wd_heap (span_finish t s W)) r = hp_spans (wd_heap W) r"
  using assms by (auto simp: span_finish_def Let_def split: option.split)

lemma span_finish_again:
  "sp_timestamp (hp_spans (wd_heap W) (sh_span s)) \<noteq> None \<Longrightarrow> span_finish t s W = W"
  by (simp add: span_finish_def Let_def)

lemma agg_abs_span_losses:
  "net_inv w \<Longrightarrow> agg_abs (net_agg (sender_record_lost_data (span_losses sp) rsn w)) cat r =
     agg_abs (net_agg w) cat r + (if cat = CatSpan \<and> r = rsn then 1 else 0)"
  by (simp add: sender_record_lost_data_def agg_abs_record_lost_data span_losses_def loss_in_def loss_new_def)

text \<open>A span that ends while its transaction runs: kept while there is room, or counted.\<close>

lemma span_finish_running:
  assumes "sp_timestamp (hp_spans (wd_heap W) (sh_span s)) = None"
    and "hp_txns (wd_heap W) (sh_transaction s) = inner"
    and "in_transaction inner = Some tx" and "in_client inner = Some a" and "net_inv (net_of W a)"
  shows "hp_txns (wd_heap (span_finish t s W)) (sh_transaction s) =
      (if length (tx_spans tx) \<le> max_spans
       then inner\<lparr>in_transaction := Some (tx\<lparr>tx_spans := tx_spans tx @
              [pspan_finish_with_timestamp t (hp_spans (wd_heap W) (sh_span s))]\<rparr>)\<rparr>
       else inner)"
    and "net_calls (net_of (span_finish t s W) a) = net_calls (net_of W a)"
    and "net_inv (net_of (span_finish t s W) a)"
    and "agg_abs (net_agg (net_of (span_finish t s W) a)) cat r = agg_abs (net_agg (net_of W a)) cat r +
      (if length (tx_spans tx) > max_spans \<and> cat = CatSpan \<and> r = BufferOverflow then 1 else 0)"
  using assms
  by (auto simp: span_finish_def Let_def agg_abs_span_losses upd_ptx_def)
    (auto simp: sender_record_lost_data_def)

text \<open>How many spans a transaction really keeps.\<close>

definition span_capacity :: nat where "span_capacity = max_spans + 1"

definition finish_spans :: "(systime \<times> span_handle) list \<Rightarrow> world \<Rightarrow> world" where
  "finish_spans ends W = fold (\<lambda>(t, s) W. span_finish t s W) ends W"

lemma span_finish_keeps_done:
  assumes "sp_timestamp (hp_spans (wd_heap W) r) \<noteq> None"
  shows "sp_timestamp (hp_spans (wd_heap (span_finish t s W)) r) \<noteq> None"
proof (cases "sp_timestamp (hp_spans (wd_heap W) (sh_span s))")
  case None
  with assms span_finish_spans [OF None] show ?thesis by (cases "r = sh_span s") auto
next
  case (Some t')
  with assms show ?thesis by (simp add: span_finish_again)
qed

lemma finish_spans_keeps_done:
  "sp_timestamp (hp_spans (wd_heap W) r) \<noteq> None \<Longrightarrow>
   sp_timestamp (hp_spans (wd_heap (finish_spans ends W)) r) \<noteq> None"
  unfolding finish_spans_def
proof (induction ends arbitrary: W)
  case (Cons x ends)
  obtain t s where "x = (t, s)" by (cases x)
  with Cons.IH [OF span_finish_keeps_done [OF Cons.prems]] show ?case by simp
qed simp

lemma finish_spans_facts:
  assumes "distinct (map (sh_span \<circ> snd) ends)"
    and "\<forall>(t, s) \<in> set ends. sh_transaction s = r \<and> sp_timestamp (hp_spans (wd_heap W) (sh_span s)) = None"
    and "hp_txns (wd_heap W) r = inner" and "in_transaction inner = Some tx"
    and "in_client inner = Some a" and "net_inv (net_of W a)" and "length (tx_spans tx) \<le> span_capacity"
  shows "hp_txns (wd_heap (finish_spans ends W)) r = inner\<lparr>in_transaction := Some (tx\<lparr>tx_spans :=
        take span_capacity (tx_spans tx @ map (\<lambda>(t, s).
          pspan_finish_with_timestamp t (hp_spans (wd_heap W) (sh_span s))) ends)\<rparr>)\<rparr> \<and>
    net_calls (net_of (finish_spans ends W) a) = net_calls (net_of W a) \<and>
    (\<forall>cat rsn. agg_abs (net_agg (net_of (finish_spans ends W) a)) cat rsn = agg_abs (net_agg (net_of W a)) cat rsn +
      (if cat = CatSpan \<and> rsn = BufferOverflow
       then of_nat (length (tx_spans tx) + length ends - span_capacity) else 0)) \<and>
    (\<forall>(t, s) \<in> set ends. sp_timestamp (hp_spans (wd_heap (finish_spans ends W)) (sh_span s)) \<noteq> None)"
  using assms
proof (induction ends arbitrary: W tx inner)
  case Nil
  then show ?case by (cases tx; cases inner) (simp add: finish_spans_def)
next
  case (Cons x ends)
  obtain t s where x: "x = (t, s)" by (cases x)
  have s: "sh_transaction s = r" "sp_timestamp (hp_spans (wd_heap W) (sh_span s)) = None"
    using Cons.prems(2) by (simp_all add: x)
  let ?W = "span_finish t s W"
  let ?sp = "pspan_finish_with_timestamp t (hp_spans (wd_heap W) (sh_span s))"
  define tx1 where "tx1 = (if length (tx_spans tx) \<le> max_spans
      then tx\<lparr>tx_spans := tx_spans tx @ [?sp]\<rparr> else tx)"
  note run = span_finish_running [OF s(2), of inner tx a t, unfolded s(1), OF Cons.prems(3-6)]
  have inner1: "hp_txns (wd_heap ?W) r = inner\<lparr>in_transaction := Some tx1\<rparr>"
    using run(1) Cons.prems(4) by (cases inner) (simp add: tx1_def)
  have other: "hp_spans (wd_heap ?W) (sh_span s') = hp_spans (wd_heap W) (sh_span s')"
    if "(t', s') \<in> set ends" for t' s'
    using span_finish_spans(2) [OF s(2)] Cons.prems(1) that by (force simp: x)
  have "finish_spans (x # ends) W = finish_spans ends ?W" by (simp add: finish_spans_def x)
  moreover have rest: "\<forall>(t', s') \<in> set ends. sh_transaction s' = r \<and>
      sp_timestamp (hp_spans (wd_heap ?W) (sh_span s')) = None"
    using Cons.prems(2) other by (fastforce simp: x)
  moreover have "length (tx_spans tx1) \<le> span_capacity"
    using Cons.prems(7) by (simp add: tx1_def span_capacity_def)
  ultimately have IH: "hp_txns (wd_heap (finish_spans (x # ends) W)) r =
      (inner\<lparr>in_transaction := Some tx1\<rparr>)\<lparr>in_transaction := Some (tx1\<lparr>tx_spans :=
        take span_capacity (tx_spans tx1 @ map (\<lambda>(t, s).
          pspan_finish_with_timestamp t (hp_spans (wd_heap ?W) (sh_span s))) ends)\<rparr>)\<rparr>"
    "net_calls (net_of (finish_spans (x # ends) W) a) = net_calls (net_of ?W a)"
    "\<And>cat rsn. agg_abs (net_agg (net_of (finish_spans (x # ends) W) a)) cat rsn =
      agg_abs (net_agg (net_of ?W a)) cat rsn + (if cat = CatSpan \<and> rsn = BufferOverflow
       then of_nat (length (tx_spans tx1) + length ends - span_capacity) else 0)"
    "\<forall>(t, s) \<in> set ends. sp_timestamp (hp_spans (wd_heap (finish_spans (x # ends) W)) (sh_span s)) \<noteq> None"
    using Cons.IH [OF _ rest inner1] Cons.prems(1,5) run(3) by simp_all
  let ?M = "map (\<lambda>(t, s). pspan_finish_with_timestamp t (hp_spans (wd_heap W) (sh_span s))) ends"
  have same: "map (\<lambda>(t, s). pspan_finish_with_timestamp t (hp_spans (wd_heap ?W) (sh_span s))) ends = ?M"
    by (rule map_cong) (auto simp: other)
  have kept: "take span_capacity (tx_spans tx1 @ ?M) = take span_capacity (tx_spans tx @ ?sp # ?M)"
    using Cons.prems(7) by (auto simp: tx1_def span_capacity_def Suc_diff_le)
  have upd: "tx1\<lparr>tx_spans := X\<rparr> = tx\<lparr>tx_spans := X\<rparr>" for X by (simp add: tx1_def)
  have heap: "hp_txns (wd_heap (finish_spans (x # ends) W)) r =
      inner\<lparr>in_transaction := Some (tx\<lparr>tx_spans := take span_capacity (tx_spans tx @ map (\<lambda>(t, s).
          pspan_finish_with_timestamp t (hp_spans (wd_heap W) (sh_span s))) (x # ends))\<rparr>)\<rparr>"
    unfolding IH(1) same kept upd by (simp add: x)
  have "sp_timestamp (hp_spans (wd_heap ?W) (sh_span s)) \<noteq> None"
    using span_finish_spans(1) [OF s(2)] by (simp add: pspan_finish_with_timestamp_def)
  from finish_spans_keeps_done [OF this, of ends]
  have done_s: "sp_timestamp (hp_spans (wd_heap (finish_spans (x # ends) W)) (sh_span s)) \<noteq> None"
    by (simp add: finish_spans_def x)
  have lost: "agg_abs (net_agg (net_of (finish_spans (x # ends) W) a)) cat rsn =
      agg_abs (net_agg (net_of W a)) cat rsn + (if cat = CatSpan \<and> rsn = BufferOverflow
        then of_nat (length (tx_spans tx) + length (x # ends) - span_capacity) else 0)" for cat rsn
  proof (cases "length (tx_spans tx) \<le> max_spans")
    case True
    then show ?thesis using IH(3) [of cat rsn] run(4) by (simp add: tx1_def)
  next
    case False
    then have "length (tx_spans tx) = span_capacity" using Cons.prems(7) by (simp add: span_capacity_def)
    then show ?thesis using False IH(3) [of cat rsn] run(4) by (simp add: tx1_def)
  qed
  show ?case
    using heap IH(2,4) run(2) lost done_s by (simp add: x)
qed

section \<open>Properties\<close>

text \<open>
  C18: The span buffer of a running transaction. However many of its spans finish, it keeps the
  first \<open>MAX_SPANS + 1\<close> of them (the test is \<open><=\<close>) in order of finishing, each with its end
  time, and every further one is counted as one lost span, with no transport call; finishing
  one of them again changes nothing.
\<close>

theorem span_buffer_bounded:
  assumes "distinct (map (sh_span \<circ> snd) ends)"
    and "\<forall>(t, s) \<in> set ends. sh_transaction s = r \<and> sp_timestamp (hp_spans (wd_heap W) (sh_span s)) = None"
    and "in_transaction (hp_txns (wd_heap W) r) = Some tx" and "tx_spans tx = []"
    and "in_client (hp_txns (wd_heap W) r) = Some a" and "net_inv (net_of W a)"
    and "W' = fold (\<lambda>(t, s) W. span_finish t s W) ends W"
  shows "in_transaction (hp_txns (wd_heap W') r) = Some (tx\<lparr>tx_spans := take (max_spans + 1)
      (map (\<lambda>(t, s). (hp_spans (wd_heap W) (sh_span s))\<lparr>sp_timestamp := Some t\<rparr>) ends)\<rparr>) \<and>
    net_calls (net_of W' a) = net_calls (net_of W a) \<and>
    (\<forall>cat rsn. agg_abs (net_agg (net_of W' a)) cat rsn = agg_abs (net_agg (net_of W a)) cat rsn +
       (if cat = CatSpan \<and> rsn = BufferOverflow then of_nat (length ends - (max_spans + 1)) else 0)) \<and>
    ((t, s) \<in> set ends \<longrightarrow> span_finish t' s W' = W')"
  using finish_spans_facts [OF assms(1,2) refl assms(3,5,6)] assms(4,7)
  by (auto simp: finish_spans_def span_capacity_def pspan_finish_with_timestamp_def split_def
      intro!: span_finish_again)

definition tiny_span :: "nat \<Rightarrow> span_handle" where
  "tiny_span i = \<lparr>sh_transaction = 0, sh_sampled = True, sh_span = i\<rparr>"

definition tiny_world :: world where
  "tiny_world = \<lparr>wd_clients = (\<lambda>_. sample_client (options_default ''ua'')), wd_family = (\<lambda>_. 0),
     wd_nets = (\<lambda>_. one_slot),
     wd_heap = sample_heap\<lparr>hp_txns := (\<lambda>_. sample_inner\<lparr>in_client := Some 3,
       in_transaction := Some (ptransaction_default 9 1)\<rparr>)\<rparr>, wd_cells = (\<lambda>_. None)\<rparr>"

lemma tiny_world_simps:
  "net_of tiny_world 3 = one_slot" "hp_txns (wd_heap tiny_world) r =
     sample_inner\<lparr>in_client := Some 3, in_transaction := Some (ptransaction_default 9 1)\<rparr>"
  "hp_spans (wd_heap tiny_world) i = pspan_default [] [] 0"
  "wd_clients tiny_world a = sample_client (options_default ''ua'')"
  by (simp_all add: tiny_world_def net_of_def sample_heap_def)

lemma span_buffer_bounded_witness:
  "agg_abs (net_agg (net_of (fold (\<lambda>(t, s) W. span_finish t s W)
     (map (\<lambda>i. (int i, tiny_span i)) [0..<1003]) tiny_world) 3)) CatSpan BufferOverflow
   = agg_abs (net_agg one_slot) CatSpan BufferOverflow + 2"
proof -
  let ?ends = "map (\<lambda>i. (int i, tiny_span i)) [0..<1003]"
  have "distinct (map (sh_span \<circ> snd) ?ends)"
    by (simp add: tiny_span_def comp_def distinct_map inj_on_def del: upt_conv_Cons)
  moreover have "\<forall>(t, s) \<in> set ?ends. sh_transaction s = 0 \<and>
      sp_timestamp (hp_spans (wd_heap tiny_world) (sh_span s)) = None"
    by (auto simp: tiny_span_def tiny_world_simps pspan_default_def)
  ultimately show ?thesis
    using span_buffer_bounded [of ?ends 0 tiny_world "ptransaction_default 9 1" 3, OF _ _ _ _ _ _ refl]
    by (simp add: tiny_world_simps ptransaction_default_def max_spans_def)
qed

lemma finished_transaction_parts:
  fixes tx sc c cx timestamp
  defines "tx' \<equiv> finished_transaction timestamp sc c cx tx"
  shows "tx_event_id tx' = tx_event_id tx" "tx_name tx' = tx_name tx" "tx_spans tx' = tx_spans tx"
    "tx_start_timestamp tx' = tx_start_timestamp tx" "tx_timestamp tx' = Some timestamp"
    "tx_request tx' = tx_request tx" "tx_release tx' = co_release (cl_options c)"
    "tx_environment tx' = co_environment (cl_options c)" "tx_server_name tx' = co_server_name (cl_options c)"
    "tx_sdk tx' = Some (cl_sdk_info c)"
    "''trace'' \<notin> fst ` set (sc_contexts sc) \<Longrightarrow> map_of (tx_contexts tx') ''trace'' = Some (CtxTrace cx)"
proof -
  have fill: "(if tx_user t = None then (case u of Some x \<Rightarrow> t\<lparr>tx_user := Some x\<rparr> | None \<Rightarrow> t) else t) =
      t\<lparr>tx_user := (case tx_user t of Some x \<Rightarrow> Some x | None \<Rightarrow> u)\<rparr>" for t :: ptransaction and u
    by (simp split: option.split)
  note defs = tx'_def finished_transaction_def ptransaction_finish_with_timestamp_def apply_to_transaction_def Let_def fill
  show "tx_event_id tx' = tx_event_id tx" "tx_name tx' = tx_name tx" "tx_spans tx' = tx_spans tx"
    "tx_start_timestamp tx' = tx_start_timestamp tx" "tx_timestamp tx' = Some timestamp"
    "tx_request tx' = tx_request tx" "tx_release tx' = co_release (cl_options c)"
    "tx_environment tx' = co_environment (cl_options c)" "tx_server_name tx' = co_server_name (cl_options c)"
    "tx_sdk tx' = Some (cl_sdk_info c)"
    unfolding defs by simp_all
  show "map_of (tx_contexts tx') ''trace'' = Some (CtxTrace cx)" if "''trace'' \<notin> fst ` set (sc_contexts sc)"
  proof -
    have "map_of (rev (sc_contexts sc)) ''trace'' = None" using that by (simp add: map_of_eq_None_iff)
    then show ?thesis unfolding defs by (simp add: map_of_sm_extend map_add_def)
  qed
qed

lemma transaction_dsc_fields:
  "dsc_trace_id (transaction_dsc th c inner) = Some (tc_trace_id (in_context inner))"
  "dsc_sampled (transaction_dsc th c inner) = Some (in_sampled inner)"
  "dsc_sample_rate (transaction_dsc th c inner) = Some (th_sample_rate th)"
  "dsc_public_key (transaction_dsc th c inner) = map_option dsn_public_key (co_dsn (cl_options c))"
  by (simp_all add: transaction_dsc_def dsc_with_trace_id_def dsc_with_sampled_def dsc_with_sample_rate_def
      dsc_with_public_key_def dsc_new_def Let_def split: option.split)

text \<open>
  C4: A transaction is accounted for exactly once. Finishing a sampled one whose client has a transport makes one
  transport call: its envelope carries the transaction, at most one client report, the transaction's id, and
  a dynamic sampling context with the trace id, the sample rate, the decision and the public key of the client's DSN.
  The transaction that is sent has its name, request, start and id, all spans finished so far, the end time, the
  release, environment, server name and SDK of the client, and its trace context unless the scope brings one. When
  the client has been closed, it is neither sent nor counted. Finishing an unsampled one sends nothing and counts
  one lost transaction and its spans plus one. In each case, finishing again, or finishing one of its
  spans late, touches neither transport nor report.
\<close>

theorem transaction_finishes_once:
  assumes "hp_txns (wd_heap W) (th_inner th) = inner" and "in_transaction inner = Some tx"
    and "in_client inner = Some a" and "net_inv (net_of W a)"
    and "W' = transaction_finish now timestamp sc th W"
  shows "(if in_sampled inner then
      (case net_slots (net_of W a) (cl_sender (wd_clients W a)) of
         None \<Rightarrow> net_of W' a = net_of W a
       | Some t \<Rightarrow> \<exists>env tx' dsc reports. net_calls (net_of W' a) = net_calls (net_of W a) @ [CallSend t env] \<and>
           items_of env = ITransaction tx' # map IClientReport reports \<and> length reports \<le> 1 \<and>
           eh_event_id (env_headers env) = Some (tx_event_id tx) \<and> eh_trace (env_headers env) = Some dsc \<and>
           dsc_trace_id dsc = Some (tc_trace_id (in_context inner)) \<and> dsc_sampled dsc = Some True \<and>
           dsc_sample_rate dsc = Some (th_sample_rate th) \<and>
           dsc_public_key dsc = map_option dsn_public_key (co_dsn (cl_options (wd_clients W a))) \<and>
           tx_event_id tx' = tx_event_id tx \<and> tx_name tx' = tx_name tx \<and> tx_spans tx' = tx_spans tx \<and>
           tx_start_timestamp tx' = tx_start_timestamp tx \<and> tx_timestamp tx' = Some timestamp \<and>
           tx_request tx' = tx_request tx \<and> tx_release tx' = co_release (cl_options (wd_clients W a)) \<and>
           tx_environment tx' = co_environment (cl_options (wd_clients W a)) \<and>
           tx_server_name tx' = co_server_name (cl_options (wd_clients W a)) \<and>
           tx_sdk tx' = Some (cl_sdk_info (wd_clients W a)) \<and>
           (''trace'' \<notin> fst ` set (sc_contexts sc) \<longrightarrow>
              map_of (tx_contexts tx') ''trace'' = Some (CtxTrace (in_context inner))))
    else net_calls (net_of W' a) = net_calls (net_of W a) \<and>
      (\<forall>cat rsn. agg_abs (net_agg (net_of W' a)) cat rsn = agg_abs (net_agg (net_of W a)) cat rsn +
         (if rsn = SampleRate then (if cat = CatTransaction then 1 else if cat = CatSpan
            then saturating_add (clamp_u64 (length (tx_spans tx))) 1 else 0) else 0))) \<and>
    transaction_finish now' timestamp' sc' th W' = W' \<and>
    (sh_transaction s = th_inner th \<longrightarrow> wd_nets (span_finish t' s W') = wd_nets W')"
proof (cases "in_sampled inner")
  case True
  let ?c = "wd_clients W a"
  let ?tx = "finished_transaction timestamp sc ?c (in_context inner) tx"
  let ?env = "add_item (ITransaction ?tx)
      (with_headers (with_trace (transaction_dsc th ?c inner) headers_new) envelope_new)"
  let ?gone = "set_heap (upd_txn (th_inner th) (\<lambda>i. i\<lparr>in_transaction := None, in_client := None\<rparr>) (wd_heap W)) W"
  have W': "W' = set_net a (sender_send now (cl_sender ?c) ?env (net_of W a)) ?gone"
    using True assms by (simp add: transaction_finish_def Let_def on_client_send)
  have env: "env_items ?env = EnvelopeItems [ITransaction ?tx]"
    "eh_event_id (env_headers ?env) = Some (tx_event_id tx)"
    "eh_trace (env_headers ?env) = Some (transaction_dsc th ?c inner)"
    by (simp_all add: add_item_def with_headers_def with_trace_def envelope_new_def headers_new_def Let_def)
  have again: "transaction_finish now' timestamp' sc' th W' = W'"
    by (simp add: W' transaction_finish_def Let_def)
  have late: "sh_transaction s = th_inner th \<longrightarrow> wd_nets (span_finish t' s W') = wd_nets W'"
    by (simp add: W' span_finish_def Let_def)
  show ?thesis
  proof (cases "net_slots (net_of W a) (cl_sender ?c)")
    case None
    then have "net_of W' a = net_of W a" by (simp add: W' sender_send_eq)
    then show ?thesis using True None again late by simp
  next
    case (Some t)
    obtain env' reports where "net_calls (net_of W' a) = net_calls (net_of W a) @ [CallSend t env']"
      "items_of env' = ITransaction ?tx # map IClientReport reports" "length reports \<le> 1"
      "env_headers env' = env_headers ?env"
      using sender_send_report [OF Some env(1), of now] by (auto simp: W')
    then show ?thesis
      using True Some again late env(2,3) finished_transaction_parts [where timestamp = timestamp and sc = sc and c = ?c and cx = "in_context inner" and tx = tx]
        transaction_dsc_fields [of th ?c inner]
      by (simp only: if_True option.case) (intro conjI exI [of _ env'] exI [of _ ?tx]
          exI [of _ "transaction_dsc th ?c inner"] exI [of _ reports]; simp)
  qed
next
  case False
  have W': "W' = record_lost a (transaction_losses tx) SampleRate
      (set_heap (upd_txn (th_inner th) (\<lambda>i. i\<lparr>in_transaction := None\<rparr>) (wd_heap W)) W)"
    using False assms by (simp add: transaction_finish_def Let_def)
  have agg: "agg_abs (net_agg (net_of W' a)) cat rsn = agg_abs (net_agg (net_of W a)) cat rsn +
         (if rsn = SampleRate then (if cat = CatTransaction then 1 else if cat = CatSpan
            then saturating_add (clamp_u64 (length (tx_spans tx))) 1 else 0) else 0)" for cat rsn
    using assms(4) by (simp add: W' sender_record_lost_data_def agg_abs_record_lost_data
        transaction_losses_def loss_in_def loss_new_def)
  have "net_calls (net_of W' a) = net_calls (net_of W a)"
    by (simp add: W' sender_record_lost_data_def)
  moreover have "transaction_finish now' timestamp' sc' th W' = W'"
    using False assms(1) by (simp add: W' transaction_finish_def Let_def)
  moreover have "sh_transaction s = th_inner th \<longrightarrow> wd_nets (span_finish t' s W') = wd_nets W'"
    by (simp add: W' span_finish_def Let_def)
  ultimately show ?thesis using False agg by simp
qed

lemma transaction_finishes_once_witness:
  "length (net_calls (net_of (transaction_finish 0 5 (scope_default 0 [] []) \<lparr>th_inner = 0, th_sample_rate = Fin 1\<rparr>
     tiny_world) 3)) = 1"
proof -
  have "net_slots one_slot (cl_sender (wd_clients tiny_world 3)) = Some 7" "net_calls one_slot = []"
    by (simp add: tiny_world_simps sample_client_def, simp add: one_slot_def net_empty_def)
  then show ?thesis
    using transaction_finishes_once [where W = tiny_world and th = "\<lparr>th_inner = 0, th_sample_rate = Fin 1\<rparr>"
        and tx = "ptransaction_default 9 1" and a = 3 and now = 0 and timestamp = 5
        and sc = "scope_default 0 [] []" and now' = 0 and timestamp' = 0 and sc' = "scope_default 0 [] []"
        and s = "tiny_span 0" and t' = 0, OF refl _ _ _ refl]
    by (auto simp: tiny_world_simps sample_inner_def)
qed

text \<open>
  C22: What a new transaction takes over from an incoming trace. Unless the organizations forbid
  it, the trace id, parent span and sampling decision of the incoming trace are kept; a
  refused trace leaves none of them and the transaction gets the fresh trace id. With a fixed rate a
  sampling decision that was kept is honoured whatever the rate; otherwise the rate decides;
  and disabled tracing samples nothing. Transactions that already ran are not affected.
\<close>

theorem new_transaction_trace:
  assumes "transaction_new fresh_trace fresh now draw (Some a) ctx W = (th, W')"
    and "inner = hp_txns (wd_heap W') (th_inner th)" and "o' = cl_options (wd_clients W a)"
    and "kept = (case tcx_incoming_trace ctx of None \<Rightarrow> True | Some incoming \<Rightarrow>
      incoming = sdk_org_id o' \<or>
      (\<not> co_strict_trace_continuation o' \<and> (incoming = None \<or> sdk_org_id o' = None)))"
    and "decision = (if kept then tcx_sampled ctx else None)"
  shows "tc_trace_id (in_context inner) = (if kept then tcx_trace_id ctx else fresh_trace) \<and>
    tc_parent_span_id (in_context inner) = (if kept then tcx_parent_span_id ctx else None) \<and>
    tc_span_id (in_context inner) = tcx_span_id ctx \<and>
    (case co_traces_sampling_strategy o' of
       TracesFixedRate rate \<Rightarrow> in_sampled inner =
         (case decision of Some b \<Rightarrow> b | None \<Rightarrow> sample_should_send draw rate)
     | TracesFunction _ \<Rightarrow> True
     | TracesDisabled \<Rightarrow> \<not> in_sampled inner) \<and>
    (r < hp_next (wd_heap W) \<longrightarrow> hp_txns (wd_heap W') r = hp_txns (wd_heap W) r)"
proof -
  have cont: "should_continue_trace incoming sdk strict \<longleftrightarrow>
      incoming = sdk \<or> (\<not> strict \<and> (incoming = None \<or> sdk = None))" for incoming sdk strict
    by (cases incoming; cases sdk) auto
  have admit: "admit_trace fresh_trace o' ctx = (if kept then ctx else reject_incoming_trace fresh_trace ctx)"
    by (auto simp: admit_trace_def assms(4) cont split: option.split)
  have half: "flt_le (Fin 1) (flt_of_bool True)" "\<not> flt_le (Fin 1) (flt_of_bool False)"
    "flt_le (flt_of_bool False) (Fin 0)" "flt_le (Fin 0) (Fin 0)" "\<not> flt_le (Fin 1) (Fin 0)"
    by (simp_all add: flt_le_def flt_of_bool_def)
  then have bool: "sample_should_send draw (flt_of_bool b) = b" "\<not> sample_should_send draw (Fin 0)" for b
    by (cases b; simp add: sample_should_send_def)+
  have inner: "in_context inner = (trace_context_default (tcx_span_id (admit_trace fresh_trace o' ctx))
        (tcx_trace_id (admit_trace fresh_trace o' ctx)))\<lparr>tc_parent_span_id :=
          tcx_parent_span_id (admit_trace fresh_trace o' ctx),
        tc_op := Some (tcx_op (admit_trace fresh_trace o' ctx))\<rparr>"
    "in_sampled inner = fst (determine_sampling_decision draw (wd_clients W a) (admit_trace fresh_trace o' ctx))"
    "r < hp_next (wd_heap W) \<Longrightarrow> hp_txns (wd_heap W') r = hp_txns (wd_heap W) r"
    using assms(1-3) by (auto simp: transaction_new_def Let_def alloc_txn_def split: prod.splits)
  let ?ctx = "admit_trace fresh_trace o' ctx"
  have ctx: "tcx_trace_id ?ctx = (if kept then tcx_trace_id ctx else fresh_trace)"
    "tcx_parent_span_id ?ctx = (if kept then tcx_parent_span_id ctx else None)"
    "tcx_span_id ?ctx = tcx_span_id ctx" "tcx_sampled ?ctx = decision"
    by (simp_all add: admit assms(5) reject_incoming_trace_def)
  have rate: "in_sampled inner =
      sample_should_send draw (transaction_sample_rate (co_traces_sampling_strategy o') ?ctx)"
    by (simp add: inner(2) determine_sampling_decision_def assms(3) Let_def)
  have "case co_traces_sampling_strategy o' of
       TracesFixedRate rate \<Rightarrow> in_sampled inner =
         (case decision of Some b \<Rightarrow> b | None \<Rightarrow> sample_should_send draw rate)
     | TracesFunction _ \<Rightarrow> True
     | TracesDisabled \<Rightarrow> \<not> in_sampled inner"
    by (cases "co_traces_sampling_strategy o'"; cases decision)
      (simp_all add: rate transaction_sample_rate_def ctx(4) bool)
  with inner(1,3) ctx(1-3) show ?thesis by (simp add: trace_context_default_def)
qed

lemma new_transaction_trace_witness:
  "in_sampled (hp_txns (wd_heap (snd (transaction_new [] 1 2 (Fin 0) (Some 3)
     (tcx_new [7] [8] ''n'' ''o'') tiny_world))) 5) = False"
proof -
  obtain th W' where r: "transaction_new [] 1 2 (Fin 0) (Some 3) (tcx_new [7] [8] ''n'' ''o'') tiny_world = (th, W')"
    by fastforce
  then have "th_inner th = 5"
    by (auto simp: transaction_new_def Let_def alloc_txn_def tiny_world_def sample_heap_def split: prod.splits)
  moreover have "co_traces_sampling_strategy (cl_options (wd_clients tiny_world 3)) = TracesDisabled"
    by (simp add: tiny_world_simps sample_client_def options_default_def)
  ultimately show ?thesis
    using new_transaction_trace [OF r refl refl refl refl] r by simp
qed

end
