(* ===== verification/Hub.thy ===== *)
theory Hub
  imports Transactions
begin

text \<open>
  Hubs (\<open>sentry-core/src/hub.rs\<close>, \<open>hub_impl.rs\<close>): the scope stack with its client, the
  operations that go through the top layer, temporary scopes, release-health sessions, and the
  switch of a thread's current hub. A hub's operations act on the hub and the world.
\<close>

section \<open>The hub\<close>

record hub =
  hb_stack :: stack
  hb_last_event_id :: "uuid option"

definition hub_new :: "nat option \<Rightarrow> scope \<Rightarrow> hub" where
  "hub_new c sc = \<lparr>hb_stack = from_client_and_scope c sc, hb_last_event_id = None\<rparr>"

definition hub_top :: "hub \<Rightarrow> stack_layer" where
  "hub_top hb = sk_top (hb_stack hb)"

definition hub_new_from_top :: "hub \<Rightarrow> hub" where
  "hub_new_from_top hb = hub_new (ly_client (hub_top hb)) (ly_scope (hub_top hb))"

definition hub_client :: "hub \<Rightarrow> nat option" where
  "hub_client hb = ly_client (hub_top hb)"

definition top_mut :: "(stack_layer \<Rightarrow> stack_layer) \<Rightarrow> hub \<Rightarrow> hub" where
  "top_mut f hb = hb\<lparr>hb_stack := (hb_stack hb)\<lparr>sk_top := f (sk_top (hb_stack hb))\<rparr>\<rparr>"

definition with_current_scope_mut :: "(scope \<Rightarrow> scope) \<Rightarrow> hub \<Rightarrow> hub" where
  "with_current_scope_mut f = top_mut (\<lambda>l. l\<lparr>ly_scope := f (ly_scope l)\<rparr>)"

definition bind_client :: "nat option \<Rightarrow> hub \<Rightarrow> hub" where
  "bind_client c = top_mut (\<lambda>l. l\<lparr>ly_client := c\<rparr>)"

definition is_active_and_usage_safe :: "hub \<Rightarrow> world \<Rightarrow> bool" where
  "is_active_and_usage_safe hb W =
     (case hub_client hb of
        None \<Rightarrow> False
      | Some a \<Rightarrow> client_is_enabled (wd_clients W a, net_of W a))"

section \<open>Scopes\<close>

definition push_scope :: "hub \<Rightarrow> nat \<times> hub" where
  "push_scope hb =
     (let st = stack_push (hb_stack hb) in (stack_depth st, hb\<lparr>hb_stack := st\<rparr>))"

definition drop_guard :: "nat \<Rightarrow> hub \<Rightarrow> guard_outcome \<times> hub" where
  "drop_guard depth hb =
     (case guard_drop depth (hb_stack hb) of (r, st) \<Rightarrow> (r, hb\<lparr>hb_stack := st\<rparr>))"

text \<open>The scope is cloned, changed by the callback, and written back.\<close>

definition configure_scope :: "(scope \<Rightarrow> scope) \<Rightarrow> hub \<Rightarrow> hub" where
  "configure_scope f hb =
     (let new_scope = f (ly_scope (hub_top hb)) in with_current_scope_mut (\<lambda>_. new_scope) hb)"

text \<open>
  \<open>with_scope\<close>: the callback is any computation on the hub that reports how the guards it
  dropped itself fared; the outer guard is dropped at the end.
\<close>

definition with_scope ::
  "(scope \<Rightarrow> scope) \<Rightarrow> (hub \<Rightarrow> guard_outcome \<times> hub) \<Rightarrow> hub \<Rightarrow> guard_outcome \<times> hub" where
  "with_scope scope_config callback hb =
     (case push_scope hb of
        (depth, hb1) \<Rightarrow>
          (case callback (configure_scope scope_config hb1) of
             (r, hb2) \<Rightarrow>
               (case drop_guard depth hb2 of
                  (r', hb3) \<Rightarrow> (if r = GuardOk then r' else r, hb3))))"

text \<open>\<open>while breadcrumbs.len() > max { pop_front }\<close>\<close>

function pop_front_while :: "nat \<Rightarrow> breadcrumb list \<Rightarrow> breadcrumb list" where
  "pop_front_while max_breadcrumbs bs =
     (if length bs > max_breadcrumbs then pop_front_while max_breadcrumbs (tl bs) else bs)"
  by pat_completeness auto
termination by (relation "measure (\<lambda>(_, bs). length bs)") auto

declare pop_front_while.simps [simp del]

fun add_breadcrumbs :: "client_options \<Rightarrow> breadcrumb list \<Rightarrow> breadcrumb list \<Rightarrow> breadcrumb list" where
  "add_breadcrumbs o' [] bs = bs"
| "add_breadcrumbs o' (b # new) bs =
     (let b' = (case co_before_breadcrumb o' of Some callback \<Rightarrow> callback b | None \<Rightarrow> Some b);
          bs' = (case b' of Some x \<Rightarrow> bs @ [x] | None \<Rightarrow> bs)
      in add_breadcrumbs o' new (pop_front_while (co_max_breadcrumbs o') bs'))"

definition add_breadcrumb :: "breadcrumb list \<Rightarrow> world \<Rightarrow> hub \<Rightarrow> hub" where
  "add_breadcrumb new W hb =
     (case hub_client hb of
        None \<Rightarrow> hb
      | Some a \<Rightarrow> with_current_scope_mut (\<lambda>sc. sc\<lparr>sc_breadcrumbs :=
          add_breadcrumbs (cl_options (wd_clients W a)) new (sc_breadcrumbs sc)\<rparr>) hb)"

section \<open>Capturing\<close>

definition hub_capture_event ::
  "systime \<Rightarrow> uuid \<Rightarrow> flt \<Rightarrow> event \<Rightarrow> hub \<times> world \<Rightarrow> uuid \<times> hub \<times> world" where
  "hub_capture_event now fresh draw e s =
     (case hub_client (fst s) of
        None \<Rightarrow> (nil_uuid, s)
      | Some a \<Rightarrow>
          (let W = snd s; top = hub_top (fst s) in
           case capture_event now fresh draw (wd_clients W a) (Some (ly_scope top)) (wd_heap W) e
                  (net_of W a, wd_cells W) of
             ((w, cells), event_id) \<Rightarrow>
               (event_id, (fst s)\<lparr>hb_last_event_id := Some event_id\<rparr>,
                (set_net a w W)\<lparr>wd_cells := cells\<rparr>)))"

definition hub_capture_message ::
  "systime \<Rightarrow> uuid \<Rightarrow> flt \<Rightarrow> string \<Rightarrow> level \<Rightarrow> hub \<times> world \<Rightarrow> uuid \<times> hub \<times> world" where
  "hub_capture_message now fresh draw msg lvl s =
     hub_capture_event now fresh draw
       ((event_default fresh now)\<lparr>ev_message := Some msg, ev_level := lvl\<rparr>) s"

definition hub_capture_log :: "systime \<Rightarrow> hex_codec \<Rightarrow> log \<Rightarrow> hub \<Rightarrow> world \<Rightarrow> world" where
  "hub_capture_log now hx l hb W =
     (case hub_client hb of
        None \<Rightarrow> W
      | Some a \<Rightarrow> on_client a (capture_log now hx l (ly_scope (hub_top hb)) (wd_heap W)) W)"

definition hub_capture_metric :: "systime \<Rightarrow> user_metric \<Rightarrow> hub \<Rightarrow> world \<Rightarrow> world" where
  "hub_capture_metric now m hb W =
     (case hub_client hb of
        None \<Rightarrow> W
      | Some a \<Rightarrow> on_client a (capture_metric now m (ly_scope (hub_top hb)) (wd_heap W)) W)"

section \<open>Sessions\<close>

text \<open>
  Dropping a session: what it still has to tell goes to its client. \<open>None\<close> is the panic of
  the flusher.
\<close>

definition drop_session :: "systime \<Rightarrow> systime \<Rightarrow> nat \<times> session \<Rightarrow> world \<Rightarrow> world option" where
  "drop_session now instant os W =
     (case session_drop instant (snd os) of
        None \<Rightarrow> Some W
      | Some u \<Rightarrow>
          (case enqueue_session now u (wd_clients W (fst os), net_of W (fst os)) of
             None \<Rightarrow> None
           | Some (c, w) \<Rightarrow> Some ((set_net (fst os) w W)\<lparr>wd_clients := (wd_clients W)(fst os := c)\<rparr>)))"

text \<open>
  The references to a session cell: those of the scopes on this stack, and, as an input, of
  scopes held elsewhere. A cell without references is gone, and its session is dropped.
\<close>

definition cell_in_use :: "nat \<Rightarrow> stack \<Rightarrow> bool" where
  "cell_in_use cell st = list_ex (\<lambda>l. sc_session (ly_scope l) = cell) (sk_top st # sk_layers st)"

definition release_cell ::
  "systime \<Rightarrow> systime \<Rightarrow> (nat \<Rightarrow> bool) \<Rightarrow> nat \<Rightarrow> stack \<Rightarrow> world \<Rightarrow> world option" where
  "release_cell now instant held cell st W =
     (if held cell \<or> cell_in_use cell st then Some W
      else (case wd_cells W cell of
              None \<Rightarrow> Some W
            | Some os \<Rightarrow> drop_session now instant os (W\<lparr>wd_cells := (wd_cells W)(cell := None)\<rparr>)))"

text \<open>\<open>Session::from_stack\<close> reads the client's options and the user of the scope.\<close>

definition start_session ::
  "systime \<Rightarrow> systime \<Rightarrow> uuid \<Rightarrow> nat \<Rightarrow> (nat \<Rightarrow> bool) \<Rightarrow> hub \<times> world \<Rightarrow> (hub \<times> world) option" where
  "start_session now instant fresh cell held s =
     (let hb = fst s; W = snd s; sc = ly_scope (hub_top hb) in
      case hub_client hb of
        None \<Rightarrow> Some s
      | Some a \<Rightarrow>
          (let o' = cl_options (wd_clients W a) in
           case session_from_stack (Some (co_release o', co_environment o')) (sc_user sc) fresh now instant of
             None \<Rightarrow> Some s
           | Some se \<Rightarrow>
               (let hb' = with_current_scope_mut (\<lambda>sc. sc\<lparr>sc_session := cell\<rparr>) hb;
                    W' = W\<lparr>wd_cells := (wd_cells W)(cell := Some (a, se))\<rparr>
                in map_option (Pair hb') (release_cell now instant held (sc_session sc) (hb_stack hb') W'))))"

definition end_session_with_status ::
  "systime \<Rightarrow> systime \<Rightarrow> session_status \<Rightarrow> hub \<times> world \<Rightarrow> (hub \<times> world) option" where
  "end_session_with_status now instant status s =
     (let cell = sc_session (ly_scope (hub_top (fst s))); W = snd s in
      case wd_cells W cell of
        None \<Rightarrow> Some s
      | Some (a, se) \<Rightarrow>
          map_option (Pair (fst s)) (drop_session now instant (a, session_close status instant se)
            (W\<lparr>wd_cells := (wd_cells W)(cell := None)\<rparr>)))"

definition end_session :: "systime \<Rightarrow> systime \<Rightarrow> hub \<times> world \<Rightarrow> (hub \<times> world) option" where
  "end_session now instant s = end_session_with_status now instant StExited s"

section \<open>Current hub\<close>

text \<open>
  The hub of a thread is an address. \<open>SwitchGuard::new\<close> keeps the previous one, unless the hub
  is already installed; dropping the guard swaps it back.
\<close>

definition switch_guard_new :: "nat \<Rightarrow> nat \<Rightarrow> nat option \<times> nat" where
  "switch_guard_new hb thread_hub = (if thread_hub = hb then (None, thread_hub) else (Some thread_hub, hb))"

definition switch_guard_drop :: "nat option \<Rightarrow> nat \<Rightarrow> nat" where
  "switch_guard_drop guard thread_hub = (case guard of None \<Rightarrow> thread_hub | Some prev \<Rightarrow> prev)"

text \<open>\<open>Hub::run\<close>: the callback sees the new hub and returns what it left installed.\<close>

definition hub_run :: "nat \<Rightarrow> (nat \<Rightarrow> 'r \<times> nat) \<Rightarrow> nat \<Rightarrow> 'r \<times> nat" where
  "hub_run hb f thread_hub =
     (case switch_guard_new hb thread_hub of
        (guard, installed) \<Rightarrow>
          (case f installed of (r, after) \<Rightarrow> (r, switch_guard_drop guard after)))"

section \<open>Starting transactions\<close>

definition with_active :: "(hub \<Rightarrow> 'r option) \<Rightarrow> hub \<Rightarrow> world \<Rightarrow> 'r option" where
  "with_active f hb W = (if is_active_and_usage_safe hb W then f hb else None)"

text \<open>The global function: the client of the current hub, if it is active.\<close>

definition start_transaction ::
  "trace_id \<Rightarrow> uuid \<Rightarrow> systime \<Rightarrow> flt \<Rightarrow> hub \<Rightarrow> transaction_context \<Rightarrow> world \<Rightarrow>
   transaction_handle \<times> world" where
  "start_transaction fresh_trace fresh now draw current ctx W =
     transaction_new fresh_trace fresh now draw (with_active hub_client current W) ctx W"

definition hub_start_transaction ::
  "trace_id \<Rightarrow> uuid \<Rightarrow> systime \<Rightarrow> flt \<Rightarrow> hub \<Rightarrow> transaction_context \<Rightarrow> world \<Rightarrow>
   transaction_handle \<times> world" where
  "hub_start_transaction fresh_trace fresh now draw self ctx W =
     transaction_new fresh_trace fresh now draw (hub_client self) ctx W"

text \<open>The method of a hub: its body calls the global function, with the current hub.\<close>

definition hub_start_transaction_with_timestamp ::
  "trace_id \<Rightarrow> uuid \<Rightarrow> systime \<Rightarrow> flt \<Rightarrow> hub \<Rightarrow> hub \<Rightarrow> transaction_context \<Rightarrow> systime \<Rightarrow> world \<Rightarrow>
   transaction_handle \<times> world" where
  "hub_start_transaction_with_timestamp fresh_trace fresh now draw self current ctx timestamp W =
     (case start_transaction fresh_trace fresh now draw current ctx W of
        (th, W') \<Rightarrow> (th, set_start_timestamp timestamp th W'))"

section \<open>Lemmas\<close>

lemma top_mut_fields [simp]:
  "hub_top (top_mut f hb) = f (hub_top hb)"
  "sk_layers (hb_stack (top_mut f hb)) = sk_layers (hb_stack hb)"
  "hb_last_event_id (top_mut f hb) = hb_last_event_id hb"
  by (simp_all add: top_mut_def hub_top_def)

lemma top_mut_comp: "top_mut f (top_mut g hb) = top_mut (\<lambda>l. f (g l)) hb"
  by (simp add: top_mut_def)

lemma top_mut_id: "top_mut (\<lambda>l. l) hb = hb"
  by (simp add: top_mut_def)

lemma configure_scope_top: "configure_scope f hb = top_mut (\<lambda>l. l\<lparr>ly_scope := f (ly_scope l)\<rparr>) hb"
  by (simp add: configure_scope_def with_current_scope_mut_def top_mut_def hub_top_def)

text \<open>
  The contract of the crate's guards: leaving undoes entering, as long as what happens in
  between only changes what the guard protects against. Scope guards allow changes of the top layer;
  switch guards none, every inner switch must have been undone.
\<close>

locale guard =
  fixes enter :: "'s \<Rightarrow> 'g \<times> 's"
    and leave :: "'g \<Rightarrow> 's \<Rightarrow> 's"
    and allowed :: "'s \<Rightarrow> 's \<Rightarrow> bool"
  assumes leave_enter: "enter s = (g, s1) \<Longrightarrow> allowed s1 s2 \<Longrightarrow> leave g s2 = s"
    and allowed_refl: "allowed s s"
begin

lemma unused: "enter s = (g, s1) \<Longrightarrow> leave g s1 = s"
  using leave_enter allowed_refl by blast

lemma nested: "enter s = (g, s1) \<Longrightarrow> enter s1 = (h, s2) \<Longrightarrow> allowed s2 s3 \<Longrightarrow> leave g (leave h s3) = s"
  using leave_enter unused by metis

lemma bracketed: "(\<And>s. allowed s (f s)) \<Longrightarrow> (case enter s of (g, s1) \<Rightarrow> leave g (f s1)) = s"
  by (auto split: prod.split intro: leave_enter)

end

lemma drop_guard_push:
  "push_scope hb = (depth, hb1) \<Longrightarrow> drop_guard depth (top_mut f hb1) = (GuardOk, hb)"
  by (auto simp: push_scope_def stack_push_def stack_depth_def drop_guard_def guard_drop_def
      stack_pop_def top_mut_def Let_def)

interpretation scopes: guard push_scope "\<lambda>depth hb. snd (drop_guard depth hb)" "\<lambda>s t. \<exists>f. t = top_mut f s"
  by unfold_locales (auto simp: drop_guard_push intro: exI [of _ "\<lambda>l. l"] simp: top_mut_id)

interpretation switches: guard "switch_guard_new hb" switch_guard_drop "(=)" for hb
  by unfold_locales (auto simp: switch_guard_new_def switch_guard_drop_def split: if_splits)

lemma pop_front_while_drop: "pop_front_while m bs = drop (length bs - m) bs"
proof (induction bs rule: pop_front_while.induct [of _ m])
  case (1 m bs)
  show ?case
  proof (cases "m < length bs")
    case True
    then obtain x xs where bs: "bs = x # xs" by (cases bs) auto
    show ?thesis using True 1 by (subst pop_front_while.simps) (auto simp: bs Suc_diff_le)
  qed (subst pop_front_while.simps, simp)
qed

text \<open>The breadcrumbs that the callback lets through.\<close>

definition kept_breadcrumbs :: "client_options \<Rightarrow> breadcrumb list \<Rightarrow> breadcrumb list" where
  "kept_breadcrumbs o' new =
     List.map_filter (case co_before_breadcrumb o' of Some callback \<Rightarrow> callback | None \<Rightarrow> Some) new"

lemma kept_breadcrumbs_Cons:
  "kept_breadcrumbs o' (b # new) =
     (case (case co_before_breadcrumb o' of Some callback \<Rightarrow> callback b | None \<Rightarrow> Some b) of
        Some x \<Rightarrow> x # kept_breadcrumbs o' new | None \<Rightarrow> kept_breadcrumbs o' new)"
  by (auto simp: kept_breadcrumbs_def List.map_filter_simps split: option.split)

lemma drop_newest_append:
  fixes xs ys :: "'a list"
  shows "drop (length (drop (length xs - m) xs @ ys) - m) (drop (length xs - m) xs @ ys) =
    drop (length (xs @ ys) - m) (xs @ ys)"
  by (cases "length xs \<le> m") (auto simp: drop_append min_def add.commute)

lemma add_breadcrumbs_newest:
  "new \<noteq> [] \<Longrightarrow> add_breadcrumbs o' new bs =
     (let all = bs @ kept_breadcrumbs o' new in drop (length all - co_max_breadcrumbs o') all)"
proof (induction new arbitrary: bs)
  case (Cons b new)
  let ?r = "case co_before_breadcrumb o' of Some callback \<Rightarrow> callback b | None \<Rightarrow> Some b"
  let ?bs = "case ?r of Some x \<Rightarrow> bs @ [x] | None \<Rightarrow> bs"
  have step: "add_breadcrumbs o' (b # new) bs =
      add_breadcrumbs o' new (drop (length ?bs - co_max_breadcrumbs o') ?bs)"
    by (simp add: pop_front_while_drop Let_def)
  have all: "?bs @ kept_breadcrumbs o' new = bs @ kept_breadcrumbs o' (b # new)"
    by (cases ?r) (simp_all add: kept_breadcrumbs_Cons)
  show ?case
  proof (cases "new = []")
    case True
    then have "kept_breadcrumbs o' new = []" by (simp add: kept_breadcrumbs_def List.map_filter_simps)
    with True show ?thesis unfolding step all [symmetric] Let_def by simp
  next
    case False
    show ?thesis unfolding step Cons.IH [OF False] Let_def drop_newest_append all ..
  qed
qed simp

text \<open>
  Programs over a hub: what a callback of \<open>with_scope\<close> can do to the scope stack, temporary scopes
  nested to any depth included.
\<close>

datatype hub_prog =
    Configure "scope \<Rightarrow> scope"
  | Bind "nat option"
  | Crumbs "breadcrumb list"
  | Within "scope \<Rightarrow> scope" "hub_prog list"

fun run_hub :: "world \<Rightarrow> hub_prog \<Rightarrow> hub \<Rightarrow> guard_outcome \<times> hub"
  and run_hubs :: "world \<Rightarrow> hub_prog list \<Rightarrow> hub \<Rightarrow> guard_outcome \<times> hub" where
  "run_hub W (Configure f) hb = (GuardOk, configure_scope f hb)"
| "run_hub W (Bind c) hb = (GuardOk, bind_client c hb)"
| "run_hub W (Crumbs new) hb = (GuardOk, add_breadcrumb new W hb)"
| "run_hub W (Within f ps) hb = with_scope f (run_hubs W ps) hb"
| "run_hubs W [] hb = (GuardOk, hb)"
| "run_hubs W (p # ps) hb =
     (case run_hub W p hb of (GuardOk, hb') \<Rightarrow> run_hubs W ps hb' | other \<Rightarrow> other)"

text \<open>The effect on the layer a program runs in; temporary scopes have none.\<close>

fun layer_effect :: "world \<Rightarrow> hub_prog \<Rightarrow> stack_layer \<Rightarrow> stack_layer" where
  "layer_effect W (Configure f) l = l\<lparr>ly_scope := f (ly_scope l)\<rparr>"
| "layer_effect W (Bind c) l = l\<lparr>ly_client := c\<rparr>"
| "layer_effect W (Crumbs new) l = (case ly_client l of None \<Rightarrow> l
     | Some a \<Rightarrow> l\<lparr>ly_scope := (ly_scope l)\<lparr>sc_breadcrumbs :=
         add_breadcrumbs (cl_options (wd_clients W a)) new (sc_breadcrumbs (ly_scope l))\<rparr>\<rparr>)"
| "layer_effect W (Within f ps) l = l"

lemma within_effect: "layer_effect W (Within f ps) = (\<lambda>l. l)"
  by (rule ext) simp

lemma with_scope_top_only:
  assumes "\<And>hb. callback hb = (GuardOk, top_mut (g hb) hb)"
  shows "with_scope f callback hb = (GuardOk, hb)"
  using assms drop_guard_push
  by (auto simp: with_scope_def configure_scope_top top_mut_comp split: prod.split)

lemma run_hub_effect:
  "run_hub W p hb = (GuardOk, top_mut (layer_effect W p) hb)"
  "run_hubs W ps hb = (GuardOk, top_mut (fold (layer_effect W) ps) hb)"
proof (induction W p hb and W ps hb rule: run_hub_run_hubs.induct)
  case (3 W new hb)
  show ?case
    by (cases "ly_client (sk_top (hb_stack hb))")
      (simp_all add: add_breadcrumb_def with_current_scope_mut_def top_mut_def hub_client_def hub_top_def)
next
  case (4 W f ps hb)
  show ?case using with_scope_top_only [where g = "\<lambda>_. fold (layer_effect W) ps", OF 4] by (simp add: top_mut_id)
qed (simp_all add: configure_scope_top bind_client_def top_mut_def)

lemma guards_out_of_order:
  "push_scope hb = (outer, hb1) \<Longrightarrow> push_scope hb1 = (inner, hb2) \<Longrightarrow>
   drop_guard outer hb2 = (PanicOutOfOrder, hb1) \<and> drop_guard inner hb2 = (GuardOk, hb1)"
  by (auto simp: push_scope_def stack_push_def stack_depth_def drop_guard_def guard_drop_def
      stack_pop_def Let_def butlast_append)

lemma hub_run_restores:
  assumes "\<And>installed. snd (f installed) = installed"
  shows "hub_run hb f thread_hub = (fst (f hb), thread_hub)"
proof -
  obtain g installed where enter: "switch_guard_new hb thread_hub = (g, installed)" by fastforce
  then have "installed = hb" by (auto simp: switch_guard_new_def split: if_splits)
  with enter assms [of hb] switches.unused [OF enter] show ?thesis
    by (cases "f hb") (simp add: hub_run_def)
qed

lemma hub_run_stays_balanced:
  assumes "\<And>installed. snd (f installed) = installed"
  shows "snd (hub_run hb f thread_hub) = thread_hub"
  using hub_run_restores [OF assms] by simp

text \<open>A handle without a client, and with no transaction, finishes without any effect on a transport.\<close>

lemma noop_transaction_finish:
  assumes "in_client (hp_txns (wd_heap W) (th_inner th)) = None"
    and "in_transaction (hp_txns (wd_heap W) (th_inner th)) = None"
  shows "wd_nets (transaction_finish now timestamp sc th W) = wd_nets W"
  using assms by (simp add: transaction_finish_def Let_def)

lemma transaction_new_inner:
  assumes "transaction_new fresh_trace fresh now draw client' ctx W = (th, W')"
  shows "in_client (hp_txns (wd_heap W') (th_inner th)) = client'"
    and "in_transaction (hp_txns (wd_heap W') (th_inner th)) = None \<longleftrightarrow> client' = None"
    and "wd_nets W' = wd_nets W" and "wd_clients W' = wd_clients W"
  using assms by (auto simp: transaction_new_def Let_def alloc_txn_def split: prod.splits option.splits)

section \<open>Properties\<close>

text \<open>
  C15: Temporary scopes are isolated. Whatever a callback of \<open>with_scope\<close> configures, binds,
  records or nests, the guards are dropped in order, no guard panics, and hub, client and scope are
  those of before; outside, the operations act on the top layer alone, in order. Two guards
  dropped the wrong way round panic, after the inner layer was popped.
\<close>

theorem with_scope_isolates:
  "with_scope f (run_hubs W ps) hb = (GuardOk, hb) \<and>
   run_hubs W ps hb = (GuardOk, top_mut (fold (layer_effect W) ps) hb) \<and>
   (case push_scope hb of (outer, hb1) \<Rightarrow> case push_scope hb1 of (inner, hb2) \<Rightarrow>
      drop_guard outer hb2 = (PanicOutOfOrder, hb1) \<and> drop_guard inner hb2 = (GuardOk, hb1))"
proof -
  have "with_scope f (run_hubs W ps) hb = (GuardOk, hb)"
    using run_hub_effect(1) [of W "Within f ps" hb] by (simp add: within_effect top_mut_id del: layer_effect.simps)
  then show ?thesis
    using run_hub_effect(2) guards_out_of_order by (auto split: prod.split)
qed

text \<open>
  C28: The breadcrumb loop ends, and the breadcrumbs of the scope stay bounded. Adding
  one or more breadcrumbs appends those the callback lets through, changed as it wishes, and then keeps
  the newest \<open>max_breadcrumbs\<close> of old and new together, in order; the rest of the scope, the
  client and the layers below stay. Without a client nothing is recorded.
\<close>

theorem breadcrumbs_bounded:
  assumes "new \<noteq> []"
  shows "(case hub_client hb of None \<Rightarrow> add_breadcrumb new W hb = hb
    | Some a \<Rightarrow> (\<exists>crumbs. add_breadcrumb new W hb =
          with_current_scope_mut (\<lambda>sc. sc\<lparr>sc_breadcrumbs := crumbs\<rparr>) hb \<and>
        length crumbs = min (co_max_breadcrumbs (cl_options (wd_clients W a)))
          (length (sc_breadcrumbs (ly_scope (hub_top hb)))
           + length (kept_breadcrumbs (cl_options (wd_clients W a)) new)) \<and>
        (\<exists>older. older @ crumbs = sc_breadcrumbs (ly_scope (hub_top hb))
           @ kept_breadcrumbs (cl_options (wd_clients W a)) new)))"
proof (cases "hub_client hb")
  case (Some a)
  let ?o = "cl_options (wd_clients W a)"
  let ?all = "sc_breadcrumbs (ly_scope (hub_top hb)) @ kept_breadcrumbs ?o new"
  let ?n = "length ?all - co_max_breadcrumbs ?o"
  have "add_breadcrumb new W hb = with_current_scope_mut (\<lambda>sc. sc\<lparr>sc_breadcrumbs := drop ?n ?all\<rparr>) hb"
    using assms Some
    by (simp add: add_breadcrumb_def with_current_scope_mut_def top_mut_def hub_top_def
        add_breadcrumbs_newest Let_def)
  moreover have "length (drop ?n ?all) = min (co_max_breadcrumbs ?o) (length ?all)" by simp
  moreover have "take ?n ?all @ drop ?n ?all = ?all" by (rule append_take_drop_id)
  ultimately show ?thesis unfolding Some option.case length_append by blast
qed (simp add: add_breadcrumb_def)

definition sample_hub :: hub where
  "sample_hub = hub_new (Some 3) (scope_default 0 [] [])"

lemma breadcrumbs_bounded_witness:
  "\<forall>b. \<exists>crumbs. add_breadcrumb (replicate 101 b) tiny_world sample_hub =
     with_current_scope_mut (\<lambda>sc. sc\<lparr>sc_breadcrumbs := crumbs\<rparr>) sample_hub \<and> length crumbs = 100"
proof
  fix b
  have "hub_client sample_hub = Some 3" "sc_breadcrumbs (ly_scope (hub_top sample_hub)) = []"
    by (simp_all add: sample_hub_def hub_new_def hub_client_def hub_top_def from_client_and_scope_def
        scope_default_def)
  moreover have "kept_breadcrumbs (cl_options (wd_clients tiny_world 3)) (replicate 101 b) = replicate 101 b"
    "co_max_breadcrumbs (cl_options (wd_clients tiny_world 3)) = 100"
    by (simp_all add: kept_breadcrumbs_def tiny_world_simps sample_client_def options_default_def
        map_filter_simps numeral_eq_Suc)
  ultimately show "\<exists>crumbs. add_breadcrumb (replicate 101 b) tiny_world sample_hub =
     with_current_scope_mut (\<lambda>sc. sc\<lparr>sc_breadcrumbs := crumbs\<rparr>) sample_hub \<and> length crumbs = 100"
    using breadcrumbs_bounded [where new = "replicate 101 b" and hb = sample_hub and W = tiny_world] by auto
qed

text \<open>
  \<open>Hub::start_transaction_with_timestamp\<close> does not start its transaction on its hub. On a
  thread whose current hub has no active client, the transaction has no client and can never be sent,
  whatever client the hub it was called on has; \<open>Hub::start_transaction\<close> binds that client.
\<close>

theorem timestamped_start_ignores_its_hub:
  assumes "hub_client self = Some a" and "with_active hub_client current W = None"
    and "hub_start_transaction_with_timestamp fresh_trace fresh now draw self current ctx timestamp W = (th, W1)"
    and "hub_start_transaction fresh_trace fresh now draw self ctx W = (th', W2)"
  shows "in_client (hp_txns (wd_heap W1) (th_inner th)) = None \<and>
    wd_nets (transaction_finish now' end sc th W1) = wd_nets W \<and>
    in_client (hp_txns (wd_heap W2) (th_inner th')) = Some a \<and>
    in_transaction (hp_txns (wd_heap W2) (th_inner th')) \<noteq> None"
proof -
  obtain W0 where new: "transaction_new fresh_trace fresh now draw None ctx W = (th, W0)"
    and W1: "W1 = set_start_timestamp timestamp th W0"
    using assms(2,3) by (auto simp: hub_start_transaction_with_timestamp_def start_transaction_def
        split: prod.splits)
  note inner = transaction_new_inner [OF new]
  have W1_inner: "in_client (hp_txns (wd_heap W1) (th_inner th)) = None"
    "in_transaction (hp_txns (wd_heap W1) (th_inner th)) = None" "wd_nets W1 = wd_nets W"
    using inner by (simp_all add: W1 set_start_timestamp_def upd_txn_def upd_ptx_def)
  have new': "transaction_new fresh_trace fresh now draw (Some a) ctx W = (th', W2)"
    using assms(1,4) by (simp add: hub_start_transaction_def)
  show ?thesis
    using W1_inner noop_transaction_finish [OF W1_inner(1,2)] transaction_new_inner(1,2) [OF new'] by simp
qed

end
