(* ===== verification/Api.thy ===== *)
theory Api
  imports Hub
begin

text \<open>
  The entry points of the crate that act on the current hub: the global functions
  (\<open>sentry-core/src/api.rs\<close>), errors as events (\<open>error.rs\<close>), futures bound to a hub
  (\<open>futures.rs\<close>) and values that name a DSN (\<open>intodsn.rs\<close>). How an error prints itself is part of the
  error; how Rust escapes a string in \<open>Debug\<close> output is a parameter.
\<close>

section \<open>Errors as events\<close>

text \<open>What an error shows of itself, and its source.\<close>

datatype rust_error = RustError (er_debug: string) (er_display: string) (er_source: "rust_error option")

definition type_separator :: "char \<Rightarrow> bool" where
  "type_separator c = (c \<in> {CHR '' '', CHR ''('', CHR ''{'', CHR 0x0D, CHR 0x0A})"

text \<open>The first piece of the split at any of the separators.\<close>

definition parse_type_from_debug :: "string \<Rightarrow> string" where
  "parse_type_from_debug d = trim (takeWhile (\<lambda>c. \<not> type_separator c) d)"

definition exception_default :: exception where
  "exception_default = \<lparr>exc_ty = [], exc_value = None, exc_module = None, exc_stacktrace = None,
     exc_raw_stacktrace = None, exc_thread_id = None, exc_mechanism = None\<rparr>"

definition exception_from_error :: "(string \<Rightarrow> string) \<Rightarrow> rust_error \<Rightarrow> exception" where
  "exception_from_error debug_str err =
     (let dbg = er_debug err; value = er_display err in
      exception_default
        \<lparr>exc_ty := (if dbg = debug_str value then ''Error'' else parse_type_from_debug dbg),
         exc_value := Some value\<rparr>)"

text \<open>The \<open>while\<close> loop over the sources.\<close>

fun push_sources :: "(string \<Rightarrow> string) \<Rightarrow> rust_error option \<Rightarrow> exception list \<Rightarrow> exception list" where
  "push_sources debug_str None exceptions = exceptions"
| "push_sources debug_str (Some (RustError dbg dsp src)) exceptions =
     push_sources debug_str src (exceptions @ [exception_from_error debug_str (RustError dbg dsp src)])"

definition event_from_error :: "(string \<Rightarrow> string) \<Rightarrow> uuid \<Rightarrow> systime \<Rightarrow> rust_error \<Rightarrow> event" where
  "event_from_error debug_str fresh now err =
     (event_default fresh now)
       \<lparr>ev_exception := rev (push_sources debug_str (er_source err) [exception_from_error debug_str err]),
        ev_level := Error\<rparr>"

definition hub_capture_error ::
  "(string \<Rightarrow> string) \<Rightarrow> systime \<Rightarrow> uuid \<Rightarrow> flt \<Rightarrow> rust_error \<Rightarrow> hub \<times> world \<Rightarrow> uuid \<times> hub \<times> world" where
  "hub_capture_error debug_str now fresh draw err s =
     (if hub_client (fst s) \<noteq> None
      then hub_capture_event now fresh draw (event_from_error debug_str fresh now err) s
      else (nil_uuid, s))"

section \<open>Global functions\<close>

text \<open>
  \<open>Hub::with_active\<close> for functions that change the hub: the default of the result when the
  hub is not active.
\<close>

definition on_active :: "'r \<Rightarrow> (hub \<times> world \<Rightarrow> 'r \<times> hub \<times> world) \<Rightarrow> hub \<times> world \<Rightarrow> 'r \<times> hub \<times> world" where
  "on_active deflt f s = (if is_active_and_usage_safe (fst s) (snd s) then f s else (deflt, s))"

definition api_capture_event ::
  "systime \<Rightarrow> uuid \<Rightarrow> flt \<Rightarrow> event \<Rightarrow> hub \<times> world \<Rightarrow> uuid \<times> hub \<times> world" where
  "api_capture_event now fresh draw e = on_active nil_uuid (hub_capture_event now fresh draw e)"

definition api_capture_message ::
  "systime \<Rightarrow> uuid \<Rightarrow> flt \<Rightarrow> string \<Rightarrow> level \<Rightarrow> hub \<times> world \<Rightarrow> uuid \<times> hub \<times> world" where
  "api_capture_message now fresh draw msg lvl = on_active nil_uuid (hub_capture_message now fresh draw msg lvl)"

definition api_capture_error ::
  "(string \<Rightarrow> string) \<Rightarrow> systime \<Rightarrow> uuid \<Rightarrow> flt \<Rightarrow> rust_error \<Rightarrow> hub \<times> world \<Rightarrow> uuid \<times> hub \<times> world" where
  "api_capture_error debug_str now fresh draw err =
     on_active nil_uuid (hub_capture_error debug_str now fresh draw err)"

definition api_add_breadcrumb :: "breadcrumb list \<Rightarrow> hub \<times> world \<Rightarrow> unit \<times> hub \<times> world" where
  "api_add_breadcrumb new = on_active () (\<lambda>s. ((), add_breadcrumb new (snd s) (fst s), snd s))"

definition api_configure_scope :: "(scope \<Rightarrow> scope) \<Rightarrow> hub \<times> world \<Rightarrow> unit \<times> hub \<times> world" where
  "api_configure_scope f = on_active () (\<lambda>s. ((), configure_scope f (fst s), snd s))"

text \<open>When the hub is not active the callback still runs, in the scope that is there.\<close>

definition api_with_scope ::
  "(scope \<Rightarrow> scope) \<Rightarrow> (hub \<Rightarrow> guard_outcome \<times> hub) \<Rightarrow> hub \<times> world \<Rightarrow> guard_outcome \<times> hub" where
  "api_with_scope scope_config callback s =
     (if is_active_and_usage_safe (fst s) (snd s) then with_scope scope_config callback (fst s)
      else callback (fst s))"

definition api_last_event_id :: "hub \<Rightarrow> uuid option" where
  "api_last_event_id hb = hb_last_event_id hb"

definition api_start_session ::
  "systime \<Rightarrow> systime \<Rightarrow> uuid \<Rightarrow> nat \<Rightarrow> (nat \<Rightarrow> bool) \<Rightarrow> hub \<times> world \<Rightarrow> (hub \<times> world) option" where
  "api_start_session now instant fresh cell held s =
     (if is_active_and_usage_safe (fst s) (snd s) then start_session now instant fresh cell held s else Some s)"

definition api_end_session_with_status ::
  "systime \<Rightarrow> systime \<Rightarrow> session_status \<Rightarrow> hub \<times> world \<Rightarrow> (hub \<times> world) option" where
  "api_end_session_with_status now instant status s =
     (if is_active_and_usage_safe (fst s) (snd s) then end_session_with_status now instant status s else Some s)"

definition api_end_session :: "systime \<Rightarrow> systime \<Rightarrow> hub \<times> world \<Rightarrow> (hub \<times> world) option" where
  "api_end_session now instant s = api_end_session_with_status now instant StExited s"

section \<open>Futures\<close>

text \<open>Polling a bound future: its hub is current while the inner future is polled.\<close>

record 'f sentry_future =
  sf_hub :: nat
  sf_future :: 'f

definition sentry_future_new :: "nat \<Rightarrow> 'f \<Rightarrow> 'f sentry_future" where
  "sentry_future_new hb f = \<lparr>sf_hub = hb, sf_future = f\<rparr>"

definition sentry_future_poll ::
  "('f \<Rightarrow> nat \<Rightarrow> ('r \<times> 'f) \<times> nat) \<Rightarrow> 'f sentry_future \<Rightarrow> nat \<Rightarrow> ('r \<times> 'f sentry_future) \<times> nat" where
  "sentry_future_poll poll sf thread_hub =
     (case hub_run (sf_hub sf) (poll (sf_future sf)) thread_hub of
        ((r, f'), th) \<Rightarrow> ((r, sf\<lparr>sf_future := f'\<rparr>), th))"

section \<open>Values that name a DSN\<close>

definition into_dsn_str :: "url_parser \<Rightarrow> string \<Rightarrow> parse_dsn_error + dsn option" where
  "into_dsn_str parse s =
     (if s = [] then Inr None
      else (case dsn_from_str parse s of Inl e \<Rightarrow> Inl e | Inr d \<Rightarrow> Inr (Some d)))"

definition into_dsn_option ::
  "('a \<Rightarrow> parse_dsn_error + dsn option) \<Rightarrow> 'a option \<Rightarrow> parse_dsn_error + dsn option" where
  "into_dsn_option into_dsn v = (case v of Some x \<Rightarrow> into_dsn x | None \<Rightarrow> Inr None)"

section \<open>Lemmas\<close>

text \<open>An error and its sources, outermost first.\<close>

fun error_chain :: "rust_error \<Rightarrow> rust_error list" where
  "error_chain (RustError dbg dsp None) = [RustError dbg dsp None]"
| "error_chain (RustError dbg dsp (Some src)) = RustError dbg dsp (Some src) # error_chain src"

lemma push_sources_chain:
  "push_sources debug_str src exceptions =
     exceptions @ (case src of None \<Rightarrow> [] | Some err \<Rightarrow> map (exception_from_error debug_str) (error_chain err))"
proof (induction debug_str src exceptions rule: push_sources.induct)
  case (2 debug_str dbg dsp src exceptions)
  then show ?case by (cases src) simp_all
qed simp

lemma event_from_error_chain:
  "ev_exception (event_from_error debug_str fresh now err) =
     rev (map (exception_from_error debug_str) (error_chain err))"
  by (cases err; cases "er_source err") (simp_all add: event_from_error_def push_sources_chain)

lemma sentry_future_poll_restores:
  assumes "\<And>installed. snd (poll (sf_future sf) installed) = installed"
  shows "snd (sentry_future_poll poll sf thread_hub) = thread_hub"
  using hub_run_restores [of "poll (sf_future sf)", OF assms]
  by (auto simp: sentry_future_poll_def split: prod.split)

lemma strip_seqs_subset: "set (strip_seqs ws s) \<subseteq> set s"
proof (induction ws s rule: strip_seqs.induct)
  case (1 ws s)
  show ?case
  proof (cases "find (\<lambda>w. w \<noteq> [] \<and> take (length w) s = w) ws")
    case None
    then show ?thesis by (subst strip_seqs.simps) simp
  next
    case (Some w)
    then have "set (strip_seqs ws (drop (length w) s)) \<subseteq> set s"
      using 1 set_drop_subset [of "length w" s] by fastforce
    with Some show ?thesis by (subst strip_seqs.simps) simp
  qed
qed

lemma trim_subset: "set (trim s) \<subseteq> set s"
  using strip_seqs_subset [of ws_seqs s] strip_seqs_subset [of "map rev ws_seqs" "rev (trim_start s)"]
  by (auto simp: trim_def trim_end_def trim_start_def)

lemma parse_type_clean: "c \<in> set (parse_type_from_debug d) \<Longrightarrow> \<not> type_separator c"
  using trim_subset [of "takeWhile (\<lambda>c. \<not> type_separator c) d"] set_takeWhileD
  unfolding parse_type_from_debug_def by fast

lemma exception_type_clean: "c \<in> set (exc_ty (exception_from_error debug_str err)) \<Longrightarrow> \<not> type_separator c"
  by (cases "er_debug err = debug_str (er_display err)")
    (auto simp: exception_from_error_def Let_def type_separator_def dest: parse_type_clean)

section \<open>Properties\<close>

text \<open>
  The event of an error. Its exceptions are the error and all its sources, the innermost first,
  each with its message; every type is a name without spaces, brackets or line ends, and is
  \<open>Error\<close> for errors that print as their message; the level is error. Capturing the error sends
  this event when the hub has a client, and does nothing otherwise.
\<close>

theorem error_event:
  "ev_level (event_from_error debug_str fresh now err) = Error \<and>
   map exc_value (ev_exception (event_from_error debug_str fresh now err)) =
     rev (map (\<lambda>e. Some (er_display e)) (error_chain err)) \<and>
   (\<forall>x \<in> set (ev_exception (event_from_error debug_str fresh now err)).
      \<forall>c \<in> set (exc_ty x). c \<notin> set '' ({'' \<and> c \<noteq> CHR 0x0A \<and> c \<noteq> CHR 0x0D) \<and>
   exc_ty (last (ev_exception (event_from_error debug_str fresh now err))) =
     (if er_debug err = debug_str (er_display err) then ''Error'' else parse_type_from_debug (er_debug err)) \<and>
   hub_capture_error debug_str now fresh draw err (hb, W) =
     (if hub_client hb = None then (nil_uuid, hb, W)
      else hub_capture_event now fresh draw (event_from_error debug_str fresh now err) (hb, W))"
proof (intro conjI)
  show "ev_level (event_from_error debug_str fresh now err) = Error"
    by (simp add: event_from_error_def)
  show "map exc_value (ev_exception (event_from_error debug_str fresh now err)) =
      rev (map (\<lambda>e. Some (er_display e)) (error_chain err))"
    by (simp add: event_from_error_chain rev_map comp_def exception_from_error_def Let_def)
  show "\<forall>x \<in> set (ev_exception (event_from_error debug_str fresh now err)).
      \<forall>c \<in> set (exc_ty x). c \<notin> set '' ({'' \<and> c \<noteq> CHR 0x0A \<and> c \<noteq> CHR 0x0D"
    using exception_type_clean unfolding event_from_error_chain type_separator_def by fastforce
  have "last (rev (map (exception_from_error debug_str) (error_chain err))) = exception_from_error debug_str err"
    by (cases err; cases "er_source err") (simp_all add: last_rev)
  then show "exc_ty (last (ev_exception (event_from_error debug_str fresh now err))) =
      (if er_debug err = debug_str (er_display err) then ''Error'' else parse_type_from_debug (er_debug err))"
    unfolding event_from_error_chain by (simp add: exception_from_error_def Let_def)
qed (simp add: hub_capture_error_def)

end
