(* ===== verification/Backtrace.thy ===== *)
theory Backtrace
  imports Api
begin

text \<open>
  Stack traces (\<open>sentry-backtrace/src/\<close>): cleaning symbol names, classifying frames as in-app,
  turning a backtrace or its text into frames, the two integrations, and addresses
  (\<open>sentry-types/src/macros.rs\<close>). The patterns given to the \<open>regex\<close> crate are
  translated; its Unicode class of word characters, the matches of the frame pattern and the
  captured backtrace are parameters.
\<close>

section \<open>Addresses\<close>

definition hex_char :: "nat \<Rightarrow> char" where
  "hex_char d = (if d < 10 then char_of (48 + d) else char_of (87 + d))"

fun show_hex :: "nat \<Rightarrow> string" where
  "show_hex n = (if n < 16 then [hex_char n] else show_hex (n div 16) @ [hex_char (n mod 16)])"

declare show_hex.simps [simp del]

definition addr_display :: "u64 \<Rightarrow> string" where
  "addr_display a = ''0x'' @ show_hex (unat a)"

definition hex_digit :: "char \<Rightarrow> nat option" where
  "hex_digit c =
     (let n = of_char c :: nat
      in if 48 \<le> n \<and> n \<le> 57 then Some (n - 48)
         else if 97 \<le> n \<and> n \<le> 102 then Some (n - 87)
         else if 65 \<le> n \<and> n \<le> 70 then Some (n - 55) else None)"

fun hex_digits_val :: "string \<Rightarrow> nat \<Rightarrow> nat option" where
  "hex_digits_val [] acc = Some acc"
| "hex_digits_val (c # cs) acc =
     (case hex_digit c of None \<Rightarrow> None | Some d \<Rightarrow> hex_digits_val cs (16 * acc + d))"

text \<open>\<open>u64::from_str_radix(s, 16)\<close>: an optional sign, then digits; overflow is an error.\<close>

definition parse_hex_u64 :: "string \<Rightarrow> u64 option" where
  "parse_hex_u64 s =
     (let ds = (case s of [] \<Rightarrow> [] | x # xs \<Rightarrow> if x = CHR ''+'' then xs else s)
      in if ds = [] then None
         else (case hex_digits_val ds 0 of
                 None \<Rightarrow> None | Some n \<Rightarrow> if n < 2 ^ 64 then Some (of_nat n) else None))"

definition starts_with :: "string \<Rightarrow> string \<Rightarrow> bool" where
  "starts_with p s = (take (length p) s = p)"

definition addr_from_str :: "string \<Rightarrow> u64 option" where
  "addr_from_str s =
     (if starts_with ''0x'' s \<or> starts_with ''0X'' s then parse_hex_u64 (drop 2 s)
      else map_option of_int (parse_uint (2 ^ 64 - 1) s))"

section \<open>Symbol names\<close>

definition filename :: "string \<Rightarrow> string" where
  "filename s = rev (takeWhile (\<lambda>c. c \<notin> {CHR ''/'', CHR 0x5C}) (rev s))"

definition lower_hex :: "char \<Rightarrow> bool" where
  "lower_hex c = (c \<in> set ''0123456789abcdef'')"

text \<open>\<open>HASH_FUNC_RE\<close>: a trailing \<open>::h\<close> and 16 digits, after text without line breaks.\<close>

definition strip_trailing_hash :: "string \<Rightarrow> string" where
  "strip_trailing_hash s =
     (let front = take (length s - 19) s; back = drop (length s - 19) s
      in if length back = 19 \<and> starts_with ''::h'' back \<and> list_all lower_hex (drop 3 back) \<and>
            CHR 0x0A \<notin> set front
         then front else s)"

definition crate_hash_at :: "string \<Rightarrow> bool" where
  "crate_hash_at s =
     (length s \<ge> 18 \<and> starts_with ''['' s \<and> list_all lower_hex (take 16 (drop 1 s)) \<and> s ! 17 = CHR '']'')"

text \<open>
  \<open>CRATE_HASH_RE\<close> with \<open>replace_all\<close>: the text before a match has to end in a word
  character.
\<close>

function strip_crate_hashes :: "(string \<Rightarrow> bool) \<Rightarrow> string \<Rightarrow> string \<Rightarrow> string" where
  "strip_crate_hashes ends_in_word before s =
     (case s of
        [] \<Rightarrow> []
      | c # rest \<Rightarrow>
          if crate_hash_at s \<and> ends_in_word before
          then strip_crate_hashes ends_in_word (before @ take 18 s) (drop 18 s)
          else c # strip_crate_hashes ends_in_word (before @ [c]) rest)"
  by pat_completeness auto
termination
  by (relation "measure (\<lambda>(_, _, s). length s)") (auto simp: crate_hash_at_def)

declare strip_crate_hashes.simps [simp del]

definition strip_symbol :: "(string \<Rightarrow> bool) \<Rightarrow> string \<Rightarrow> string" where
  "strip_symbol ends_in_word s = strip_crate_hashes ends_in_word [] (strip_trailing_hash s)"

definition symbol_escapes :: "(string \<times> string) list" where
  "symbol_escapes =
     [(''SP'', ''@''), (''BP'', ''*''), (''RF'', ''&''), (''LT'', ''<''), (''GT'', ''>''), (''LP'', ''(''),
      (''RP'', '')''), (''C'', '',''), (''u7e'', ''~''), (''u20'', '' ''), (''u27'', [CHR 0x27]),
      (''u5b'', ''[''), (''u5d'', '']''), (''u7b'', ''{''), (''u7d'', ''}''), (''u3b'', '';''),
      (''u2b'', ''+''), (''u22'', [CHR 0x22])]"

definition escape_at :: "string \<Rightarrow> (string \<times> string) option" where
  "escape_at s = find (\<lambda>(name, _). starts_with (''$'' @ name @ ''$'') s) symbol_escapes"

function demangle_symbol :: "string \<Rightarrow> string" where
  "demangle_symbol s =
     (case s of
        [] \<Rightarrow> []
      | c # rest \<Rightarrow>
          (case escape_at s of
             Some (name, text) \<Rightarrow> text @ demangle_symbol (drop (length name + 2) s)
           | None \<Rightarrow> c # demangle_symbol rest))"
  by pat_completeness auto
termination
  by (relation "measure length") auto

declare demangle_symbol.simps [simp del]

text \<open>
  \<open>CRATE_RE\<close>: an optional \<open>_<\<close> or \<open><\<close>, an optional word and \<open> as \<close>, the crate, a
  delimiter. The optional parts are tried first; \<open>word\<close> is the length of the longest run of
  word characters.
\<close>

definition crate_char :: "char \<Rightarrow> bool" where
  "crate_char c = (c \<in> set ''abcdefghijklmnopqrstuvwxyzABCDEFGHIJKLMNOPQRSTUVWXYZ0123456789_'')"

definition crate_at :: "string \<Rightarrow> string option" where
  "crate_at s =
     (let name = takeWhile crate_char s; rest = dropWhile crate_char s
      in if name \<noteq> [] \<and> (starts_with ''..'' rest \<or> starts_with ''::'' rest \<or> starts_with ''['' rest)
         then Some name else None)"

definition after_angle :: "string \<Rightarrow> string list" where
  "after_angle s =
     (if starts_with ''_<'' s then [drop 2 s] else if starts_with ''<'' s then [drop 1 s] else []) @ [s]"

definition after_as :: "(string \<Rightarrow> nat) \<Rightarrow> string \<Rightarrow> string list" where
  "after_as word s =
     (if word s > 0 \<and> starts_with '' as '' (drop (word s) s) then [drop (word s + 4) s] else []) @ [s]"

fun first_some :: "'a option list \<Rightarrow> 'a option" where
  "first_some [] = None"
| "first_some (None # xs) = first_some xs"
| "first_some (Some x # xs) = Some x"

definition parse_crate_name :: "(string \<Rightarrow> nat) \<Rightarrow> string \<Rightarrow> string option" where
  "parse_crate_name word func_name =
     first_some (map crate_at (concat (map (after_as word) (after_angle func_name))))"

section \<open>Frames\<close>

fun strip_angles :: "string \<Rightarrow> string \<Rightarrow> (string \<times> string) option" where
  "strip_angles [] func_name = Some ([], func_name)"
| "strip_angles (c # pattern) func_name =
     (if c = CHR ''<'' then
        if starts_with ''<F as '' func_name then strip_angles pattern (drop 6 func_name)
        else if starts_with ''<'' func_name then strip_angles pattern (drop 1 func_name)
        else if starts_with ''_<'' func_name then strip_angles pattern (drop 2 func_name)
        else None
      else Some (c # pattern, func_name))"

definition is_char_boundary :: "nat \<Rightarrow> string \<Rightarrow> bool" where
  "is_char_boundary n s =
     (n = 0 \<or> n = length s \<or>
      (n < length s \<and> \<not> (128 \<le> (of_char (s ! n) :: nat) \<and> (of_char (s ! n) :: nat) < 192)))"

text \<open>
  The characters are compared as bytes: a dot and a colon are one byte, and
  the check before makes the function at least as long as the pattern.
\<close>

definition function_starts_with :: "string \<Rightarrow> string \<Rightarrow> bool" where
  "function_starts_with func_name pattern =
     (case (if starts_with ''<'' pattern then strip_angles pattern func_name
            else Some (pattern,
              strip_seqs [''_<''] (strip_seqs [''<''] (strip_seqs [''<F as ''] func_name)))) of
        None \<Rightarrow> False
      | Some (p, f) \<Rightarrow>
          is_char_boundary (length p) f \<and>
          list_all (\<lambda>(f, p). f = p \<or> (f = CHR ''.'' \<and> p = CHR '':'')) (zip f p))"

definition well_known_not_in_app :: "string list" where
  "well_known_not_in_app =
     [''std::'', ''core::'', ''alloc::'', ''backtrace::'', ''sentry::'', ''sentry_core::'',
      ''sentry_types::'', ''sentry_backtrace::'', ''sentry_tracing::'', ''__rust_'', ''___rust_'',
      ''rust_begin_unwind'', ''_start'', ''anyhow::'', ''log::'', ''tokio::'', ''tracing_core::'',
      ''futures_core::'', ''futures_util::'']"

definition is_well_known_not_in_app :: "string \<Rightarrow> bool" where
  "is_well_known_not_in_app func = list_ex (function_starts_with func) well_known_not_in_app"

text \<open>The body of the first loop: the frame, and whether it set \<open>any_in_app\<close>.\<close>

definition process_frame :: "(string \<Rightarrow> nat) \<Rightarrow> client_options \<Rightarrow> frame \<Rightarrow> bool \<times> frame" where
  "process_frame word o' fr =
     (case fr_function fr of
        None \<Rightarrow> (False, fr)
      | Some func_name \<Rightarrow>
          (let fr1 = (if fr_package fr = None then fr\<lparr>fr_package := parse_crate_name word func_name\<rparr> else fr)
           in case fr_in_app fr1 of
                Some b \<Rightarrow> (b, fr1)
              | None \<Rightarrow>
                  if list_ex (function_starts_with func_name) (co_in_app_include o')
                  then (True, fr1\<lparr>fr_in_app := Some True\<rparr>)
                  else if list_ex (function_starts_with func_name) (co_in_app_exclude o')
                  then (False, fr1\<lparr>fr_in_app := Some False\<rparr>)
                  else if is_well_known_not_in_app func_name then (False, fr1\<lparr>fr_in_app := Some False\<rparr>)
                  else (False, fr1)))"

definition process_event_stacktrace :: "(string \<Rightarrow> nat) \<Rightarrow> client_options \<Rightarrow> stacktrace \<Rightarrow> stacktrace" where
  "process_event_stacktrace word o' st =
     (let processed = map (process_frame word o') (st_frames st);
          any_in_app = list_ex fst processed;
          frames = map snd processed
      in st\<lparr>st_frames :=
           (if \<not> any_in_app
            then map (\<lambda>fr. if fr_in_app fr = None then fr\<lparr>fr_in_app := Some True\<rparr> else fr) frames
            else frames)\<rparr>)"

section \<open>Making frames\<close>

definition frame_default :: frame where
  "frame_default = \<lparr>fr_function = None, fr_symbol = None, fr_module = None, fr_package = None,
     fr_filename = None, fr_abs_path = None, fr_lineno = None, fr_colno = None, fr_pre_context = [],
     fr_context_line = None, fr_post_context = [], fr_in_app = None, fr_vars = [], fr_image_addr = None,
     fr_instruction_addr = None, fr_symbol_addr = None, fr_addr_mode = None\<rparr>"

text \<open>The part both sources of frames share: names from the symbol, files from the path.\<close>

definition named_frame ::
  "(string \<Rightarrow> bool) \<Rightarrow> string \<Rightarrow> string option \<Rightarrow> u64 option \<Rightarrow> u64 option \<Rightarrow> u64 option \<Rightarrow> frame" where
  "named_frame ends_in_word real_symbol abs_path addr lineno colno =
     (let symbol = strip_symbol ends_in_word real_symbol; func = demangle_symbol symbol
      in frame_default
           \<lparr>fr_symbol := (if symbol \<noteq> func then Some symbol else None), fr_function := Some func,
            fr_instruction_addr := addr, fr_abs_path := abs_path,
            fr_filename := map_option filename abs_path, fr_lineno := lineno, fr_colno := colno\<rparr>)"

text \<open>A captured backtrace: addresses with the symbols there; inlined functions give several.\<close>

record bt_symbol =
  bs_name :: "string option"
  bs_filename :: "string option"
  bs_lineno :: "32 word option"

definition symbol_frame :: "(string \<Rightarrow> bool) \<Rightarrow> u64 \<Rightarrow> bt_symbol \<Rightarrow> frame" where
  "symbol_frame ends_in_word ip sy =
     named_frame ends_in_word (case bs_name sy of None \<Rightarrow> ''<unknown>'' | Some n \<Rightarrow> n) (bs_filename sy)
       (Some ip) (map_option ucast (bs_lineno sy)) None"

definition backtrace_to_stacktrace ::
  "(string \<Rightarrow> bool) \<Rightarrow> (u64 \<times> bt_symbol list) list \<Rightarrow> stacktrace option" where
  "backtrace_to_stacktrace ends_in_word bt =
     from_frames_reversed (concat (map (\<lambda>(ip, symbols).
       map (symbol_frame ends_in_word ip) symbols @
       (if symbols = [] then [frame_default\<lparr>fr_instruction_addr := Some ip, fr_function := Some ''<unknown>''\<rparr>]
        else [])) bt))"

text \<open>One match of \<open>FRAME_RE\<close> in the text of a backtrace.\<close>

record frame_captures =
  fc_addr_old :: "string option"
  fc_symbol :: string
  fc_addr_new :: "string option"
  fc_path :: "string option"
  fc_lineno :: "string option"
  fc_colno :: "string option"

text \<open>\<open>parse::<u64>().unwrap()\<close> of an optional group: \<open>None\<close> is the panic.\<close>

definition unwrap_u64 :: "string option \<Rightarrow> u64 option option" where
  "unwrap_u64 g =
     (case g of
        None \<Rightarrow> Some None
      | Some s \<Rightarrow> (case parse_uint (2 ^ 64 - 1) s of None \<Rightarrow> None | Some n \<Rightarrow> Some (Some (of_int n))))"

definition captured_address :: "u64 option \<Rightarrow> frame_captures \<Rightarrow> u64 option" where
  "captured_address last_address c =
     (case Option.bind (case fc_addr_new c of Some a \<Rightarrow> Some a | None \<Rightarrow> fc_addr_old c) addr_from_str of
        Some a \<Rightarrow> Some a
      | None \<Rightarrow> last_address)"

fun captured_frames ::
  "(string \<Rightarrow> bool) \<Rightarrow> u64 option \<Rightarrow> frame_captures list \<Rightarrow> frame list option" where
  "captured_frames ends_in_word last_address [] = Some []"
| "captured_frames ends_in_word last_address (c # cs) =
     (let addr = captured_address last_address c in
      case (unwrap_u64 (fc_lineno c), unwrap_u64 (fc_colno c)) of
        (Some lineno, Some colno) \<Rightarrow>
          map_option (Cons (named_frame ends_in_word (fc_symbol c) (fc_path c) addr lineno colno))
            (captured_frames ends_in_word addr cs)
      | _ \<Rightarrow> None)"

definition parse_stacktrace ::
  "(string \<Rightarrow> frame_captures list) \<Rightarrow> (string \<Rightarrow> bool) \<Rightarrow> string \<Rightarrow> stacktrace option option" where
  "parse_stacktrace captures_iter ends_in_word bt =
     map_option from_frames_reversed (captured_frames ends_in_word None (captures_iter bt))"

section \<open>Integrations\<close>

definition process_stacktrace_integration :: "(string \<Rightarrow> nat) \<Rightarrow> event \<Rightarrow> client_options \<Rightarrow> event option" where
  "process_stacktrace_integration word e o' =
     (let p = map_option (process_event_stacktrace word o')
      in Some (e\<lparr>ev_exception := map (\<lambda>exc. exc\<lparr>exc_stacktrace := p (exc_stacktrace exc)\<rparr>) (ev_exception e),
             ev_threads := map (\<lambda>th. th\<lparr>th_stacktrace := p (th_stacktrace th)\<rparr>) (ev_threads e),
             ev_stacktrace := p (ev_stacktrace e)\<rparr>))"

definition has_stacktrace :: "event \<Rightarrow> bool" where
  "has_stacktrace e =
     (ev_stacktrace e \<noteq> None \<or> list_ex (\<lambda>exc. exc_stacktrace exc \<noteq> None) (ev_exception e) \<or>
      list_ex (\<lambda>th. th_stacktrace th \<noteq> None) (ev_threads e))"

definition current_thread ::
  "nat \<Rightarrow> string option \<Rightarrow> stacktrace option \<Rightarrow> bool \<Rightarrow> sthread" where
  "current_thread thread_id name current_stacktrace with_stack =
     \<lparr>th_id = Some (ThreadString (show_nat thread_id)), th_name = name,
      th_stacktrace = (if with_stack then current_stacktrace else None), th_raw_stacktrace = None,
      th_crashed = False, th_current = True\<rparr>"

definition attach_stacktrace_integration :: "sthread \<Rightarrow> event \<Rightarrow> client_options \<Rightarrow> event option" where
  "attach_stacktrace_integration thread e o' =
     Some (if co_attach_stacktrace o' \<and> \<not> has_stacktrace e \<and> th_stacktrace thread \<noteq> None
           then e\<lparr>ev_threads := ev_threads e @ [thread]\<rparr> else e)"

section \<open>Lemmas\<close>

text \<open>What a frame says of itself, before the other frames are looked at.\<close>

definition verdict :: "client_options \<Rightarrow> frame \<Rightarrow> bool option" where
  "verdict o' fr =
     (case (fr_in_app fr, fr_function fr) of
        (Some b, _) \<Rightarrow> Some b
      | (None, None) \<Rightarrow> None
      | (None, Some func_name) \<Rightarrow>
          if list_ex (function_starts_with func_name) (co_in_app_include o') then Some True
          else if list_ex (function_starts_with func_name) (co_in_app_exclude o' @ well_known_not_in_app)
          then Some False else None)"

definition counts_in_app :: "client_options \<Rightarrow> frame \<Rightarrow> bool" where
  "counts_in_app o' fr = (fr_function fr \<noteq> None \<and> verdict o' fr = Some True)"

lemma process_frame_verdict [simp]:
  "fst (process_frame word o' fr) = counts_in_app o' fr"
  "fr_in_app (snd (process_frame word o' fr)) = verdict o' fr"
  "fr_function (snd (process_frame word o' fr)) = fr_function fr"
  by (auto simp: process_frame_def counts_in_app_def verdict_def Let_def is_well_known_not_in_app_def
      split: option.splits)

lemma snd_process_frame:
  "snd (process_frame word o' fr) =
     (case fr_function fr of
        None \<Rightarrow> fr
      | Some f \<Rightarrow> fr\<lparr>fr_package := (case fr_package fr of None \<Rightarrow> parse_crate_name word f | Some p \<Rightarrow> Some p),
                     fr_in_app := verdict o' fr\<rparr>)"
  by (cases "fr_function fr"; cases "fr_in_app fr"; cases "fr_package fr")
    (simp_all add: process_frame_def verdict_def Let_def is_well_known_not_in_app_def)

lemma verdict_decided: "fr_in_app fr = Some b \<Longrightarrow> verdict o' fr = Some b"
  by (simp add: verdict_def)

lemma verdict_of_verdict: "fr_function fr' = fr_function fr \<Longrightarrow> fr_in_app fr' = verdict o' fr \<Longrightarrow>
    verdict o' fr' = verdict o' fr"
  by (cases "fr_in_app fr"; cases "verdict o' fr") (simp_all add: verdict_def)

lemma process_frame_fixed:
  "verdict o' fr = fr_in_app fr \<Longrightarrow> fr_package fr \<noteq> None \<or> fr_function fr = None \<or>
     parse_crate_name word (the (fr_function fr)) = None \<Longrightarrow>
   snd (process_frame word o' fr) = fr"
  by (cases "fr_function fr") (auto simp: snd_process_frame split: option.split)

text \<open>The frames of a processed trace.\<close>

definition settled :: "bool \<Rightarrow> frame \<Rightarrow> frame" where
  "settled any fr = (if \<not> any \<and> fr_in_app fr = None then fr\<lparr>fr_in_app := Some True\<rparr> else fr)"

lemma process_event_stacktrace_frames:
  "st_frames (process_event_stacktrace word o' st) =
     map (\<lambda>fr. settled (list_ex (counts_in_app o') (st_frames st)) (snd (process_frame word o' fr))) (st_frames st)"
  by (simp add: process_event_stacktrace_def Let_def settled_def list.map_comp comp_def list_ex_iff)

lemma settled_again: "snd (process_frame word o' (settled any (snd (process_frame word o' fr)))) =
    settled any (snd (process_frame word o' fr))"
proof (rule process_frame_fixed)
  let ?g = "snd (process_frame word o' fr)"
  have "verdict o' ?g = verdict o' fr" by (rule verdict_of_verdict) simp_all
  then show "verdict o' (settled any ?g) = fr_in_app (settled any ?g)"
    by (auto simp: settled_def verdict_decided)
  show "fr_package (settled any ?g) \<noteq> None \<or> fr_function (settled any ?g) = None \<or>
     parse_crate_name word (the (fr_function (settled any ?g))) = None"
    by (auto simp: settled_def snd_process_frame split: option.split)
qed

lemma counts_again:
  "counts_in_app o' (settled any (snd (process_frame word o' fr))) =
     (counts_in_app o' fr \<or> (\<not> any \<and> fr_function fr \<noteq> None \<and> verdict o' fr = None))"
proof -
  let ?g = "snd (process_frame word o' fr)"
  have "verdict o' ?g = verdict o' fr"
    by (rule verdict_of_verdict) simp_all
  then show ?thesis
    by (auto simp: settled_def counts_in_app_def verdict_decided)
qed

lemma process_twice:
  "process_event_stacktrace word o' (process_event_stacktrace word o' st) = process_event_stacktrace word o' st"
proof -
  let ?any = "list_ex (counts_in_app o') (st_frames st)"
  let ?f = "\<lambda>fr. settled ?any (snd (process_frame word o' fr))"
  let ?st = "process_event_stacktrace word o' st"
  have again: "settled any' (snd (process_frame word o' (?f fr))) = ?f fr"
    if "any' \<or> fr_in_app (?f fr) \<noteq> None" for any' fr
    using that unfolding settled_again by (auto simp: settled_def)
  have "list_ex (counts_in_app o') (st_frames ?st) \<or> fr_in_app (?f fr) \<noteq> None" for fr
  proof (cases ?any)
    case True
    then show ?thesis
      by (auto simp: process_event_stacktrace_frames list_ex_iff counts_again)
  next
    case False
    then show ?thesis by (auto simp: settled_def)
  qed
  then have "st_frames (process_event_stacktrace word o' ?st) = st_frames ?st"
    unfolding process_event_stacktrace_frames [of word o' ?st]
    by (simp add: process_event_stacktrace_frames again)
  then show ?thesis by (simp add: process_event_stacktrace_def Let_def)
qed

text \<open>
  Which frames are marked as in-app. A frame keeps the mark it has; otherwise its function
  decides, by the included prefixes first, then the excluded and the well-known ones. When no frame
  with a function is in-app, every undecided frame is; when some is, the undecided stay
  undecided. Nothing but mark and package changes, and processing a processed trace changes nothing.
\<close>

theorem in_app_frames:
  "map fr_in_app (st_frames (process_event_stacktrace word o' st)) =
     map (\<lambda>fr. case verdict o' fr of
            Some b \<Rightarrow> Some b
          | None \<Rightarrow> if list_ex (counts_in_app o') (st_frames st) then None else Some True) (st_frames st) \<and>
   map (fr_package_update (\<lambda>_. None) \<circ> fr_in_app_update (\<lambda>_. None))
       (st_frames (process_event_stacktrace word o' st)) =
     map (fr_package_update (\<lambda>_. None) \<circ> fr_in_app_update (\<lambda>_. None)) (st_frames st) \<and>
   process_event_stacktrace word o' (process_event_stacktrace word o' st) =
     process_event_stacktrace word o' st"
proof (intro conjI)
  show "map fr_in_app (st_frames (process_event_stacktrace word o' st)) =
     map (\<lambda>fr. case verdict o' fr of
            Some b \<Rightarrow> Some b
          | None \<Rightarrow> if list_ex (counts_in_app o') (st_frames st) then None else Some True) (st_frames st)"
    by (auto simp: process_event_stacktrace_frames settled_def split: option.split)
  show "map (fr_package_update (\<lambda>_. None) \<circ> fr_in_app_update (\<lambda>_. None))
       (st_frames (process_event_stacktrace word o' st)) =
     map (fr_package_update (\<lambda>_. None) \<circ> fr_in_app_update (\<lambda>_. None)) (st_frames st)"
    by (auto simp: process_event_stacktrace_frames settled_def process_frame_def Let_def split: option.split)
qed (rule process_twice)

section \<open>Addresses as text\<close>

lemma hex_digit_char: "d < 16 \<Longrightarrow> hex_digit (hex_char d) = Some d"
  by (simp add: hex_digit_def hex_char_def)

lemma hex_char_plus: "d < 16 \<Longrightarrow> hex_char d \<noteq> CHR ''+''"
  using hex_digit_char [of d] by (auto simp: hex_digit_def)

lemma hex_digits_val_append:
  "hex_digits_val (s @ [c]) acc =
     Option.bind (hex_digits_val s acc) (\<lambda>n. map_option (\<lambda>d. 16 * n + d) (hex_digit c))"
  by (induction s acc rule: hex_digits_val.induct) (auto split: option.split)

lemma show_hex_val: "hex_digits_val (show_hex n) 0 = Some n \<and> show_hex n \<noteq> [] \<and> hd (show_hex n) \<noteq> CHR ''+''"
proof (induction n rule: show_hex.induct)
  case (1 n)
  show ?case
  proof (cases "n < 16")
    case True
    then show ?thesis by (simp add: show_hex.simps hex_digit_char hex_char_plus)
  next
    case False
    then show ?thesis
      using 1 by (subst (1 2 3) show_hex.simps) (simp add: hex_digits_val_append hex_digit_char)
  qed
qed

text \<open>
  C0: An address prints as text that reads back as the same address.
\<close>

theorem addr_roundtrip: "addr_from_str (addr_display a) = Some a"
proof -
  have "(case show_hex (unat a) of [] \<Rightarrow> [] | x # xs \<Rightarrow> if x = CHR ''+'' then xs else show_hex (unat a)) =
      show_hex (unat a)"
    using show_hex_val [of "unat a"] by (cases "show_hex (unat a)") simp_all
  moreover have "unat a < 2 ^ 64"
    using unsigned_less [of a, where 'a = nat] by simp
  ultimately show ?thesis
    using show_hex_val [of "unat a"]
    by (simp add: addr_display_def addr_from_str_def starts_with_def parse_hex_u64_def Let_def)
qed

text \<open>The examples of the crate's tests.\<close>

lemma symbol_examples:
  "function_starts_with ''_<futures..task_impl..Spawn<T>>::enter::_{{closure}}'' ''futures::''"
  "\<not> function_starts_with ''<futures::task_impl::Spawn<T>>::enter::{{closure}}'' ''tokio::''"
  "function_starts_with ''_<futures..task_impl..Spawn<T>>::enter'' ''<futures::''"
  "\<not> function_starts_with ''futures::task_impl::std::set'' ''<futures::''"
  "parse_crate_name (length \<circ> takeWhile crate_char) ''_<F as alloc..boxed..FnBox<A>>::call_box'' = Some ''alloc''"
  "parse_crate_name (length \<circ> takeWhile crate_char) ''main'' = None"
  "parse_crate_name (length \<circ> takeWhile crate_char) ''<backtrace[856cf81bbf211f65]::capture::Backtrace>::new'' =
     Some ''backtrace''"
  by code_simp+

end
