(* ===== verification/Platform.thy ===== *)
theory Platform
  imports Options
begin

text \<open>
  What the SDK says about the machine it runs on: the device, OS and runtime contexts
  (\<open>sentry-contexts/src/integration.rs\<close>, \<open>utils.rs\<close>) and the loaded modules
  (\<open>sentry-debug-images/src/images.rs\<close>, \<open>integration.rs\<close>). What is read from the platform, the build and
  the loader is an input.
\<close>

section \<open>Contexts\<close>

datatype target_os = TargetWindows | TargetMacos | TargetOther

record uname_info =
  un_sysname :: string
  un_release :: string
  un_version :: string

text \<open>
  \<open>pl_sysctl\<close>: \<open>sysctlbyname\<close>, up to the first zero byte. \<open>pl_os_version\<close>: the version of the \<open>os_info\<close>
  crate, when it is known.
\<close>

record platform =
  pl_os :: target_os
  pl_uname :: "uname_info option"
  pl_sysctl :: "string \<Rightarrow> string option"
  pl_os_version :: "string option"
  pl_hostname :: "string option"
  pl_rustc_version :: "string option"
  pl_rustc_channel :: "string option"
  pl_arch :: string

definition get_model :: "platform \<Rightarrow> string option" where
  "get_model pl = (if pl_os pl = TargetMacos then pl_sysctl pl ''hw.model'' else None)"

definition is_ascii_alphabetic :: "char \<Rightarrow> bool" where
  "is_ascii_alphabetic c = (65 \<le> (of_char c :: nat) \<and> (of_char c :: nat) \<le> 90
     \<or> 97 \<le> (of_char c :: nat) \<and> (of_char c :: nat) \<le> 122)"

definition get_family :: "platform \<Rightarrow> string option" where
  "get_family pl = map_option (takeWhile is_ascii_alphabetic) (get_model pl)"

definition get_macos_version :: "platform \<Rightarrow> string option" where
  "get_macos_version pl =
     map_option (\<lambda>version. let dot_count = length (split_on CHR ''.'' version) - 1 in
         if dot_count < 2 then version @ ''.0'' else version)
       (pl_sysctl pl ''kern.osproductversion'')"

definition get_macos_build :: "platform \<Rightarrow> string option" where
  "get_macos_build pl = pl_sysctl pl ''kern.osversion''"

definition os_context_default :: os_context where
  "os_context_default = \<lparr>os_name = None, os_version = None, os_build = None, os_kernel_version = None,
     os_rooted = None, os_other = []\<rparr>"

definition platform_os_context :: "platform \<Rightarrow> ctx option" where
  "platform_os_context pl =
     (case pl_os pl of
        TargetWindows \<Rightarrow> Some (CtxOs (os_context_default\<lparr>os_name := Some ''windows'', os_version := pl_os_version pl\<rparr>))
      | TargetMacos \<Rightarrow>
          map_option (\<lambda>info. CtxOs (os_context_default\<lparr>os_name := Some ''macOS'',
            os_kernel_version := Some (un_version info), os_version := get_macos_version pl,
            os_build := get_macos_build pl\<rparr>)) (pl_uname pl)
      | TargetOther \<Rightarrow>
          map_option (\<lambda>info. CtxOs (os_context_default\<lparr>os_name := Some (un_sysname info),
            os_kernel_version := Some (un_version info), os_version := Some (un_release info)\<rparr>)) (pl_uname pl))"

definition rust_context :: "platform \<Rightarrow> ctx" where
  "rust_context pl =
     CtxRuntime \<lparr>rc_name = Some ''rustc'', rc_version = pl_rustc_version pl,
       rc_other = (case pl_rustc_channel pl of
         Some channel \<Rightarrow> sm_insert ''channel'' (JString channel) [] | None \<Rightarrow> [])\<rparr>"

definition platform_device_context :: "platform \<Rightarrow> ctx" where
  "platform_device_context pl =
     CtxDevice \<lparr>dc_name = None, dc_family = get_family pl, dc_model = get_model pl, dc_model_id = None,
       dc_arch = Some (pl_arch pl), dc_battery_level = None, dc_orientation = None, dc_simulator = None,
       dc_memory_size = None, dc_free_memory = None, dc_usable_memory = None, dc_storage_size = None,
       dc_free_storage = None, dc_external_storage_size = None, dc_external_free_storage = None,
       dc_boot_time = None, dc_timezone = None, dc_other = []\<rparr>"

record context_integration =
  ci_add_os :: bool
  ci_add_rust :: bool
  ci_add_device :: bool

definition context_integration_default :: context_integration where
  "context_integration_default = \<lparr>ci_add_os = True, ci_add_rust = True, ci_add_device = True\<rparr>"

definition contexts_setup :: "platform \<Rightarrow> client_options \<Rightarrow> client_options" where
  "contexts_setup pl o' = (if co_server_name o' = None then o'\<lparr>co_server_name := pl_hostname pl\<rparr> else o')"

text \<open>The entries that are added, each only where there is none.\<close>

definition contexts_process_event :: "platform \<Rightarrow> context_integration \<Rightarrow> event \<Rightarrow> event" where
  "contexts_process_event pl ci e =
     (let c0 = ev_contexts e;
          c1 = (if ci_add_os ci \<and> \<not> sm_has ''os'' c0
                then (case platform_os_context pl of Some os \<Rightarrow> sm_insert ''os'' os c0 | None \<Rightarrow> c0) else c0);
          c2 = (if ci_add_rust ci then sm_or_insert ''rust'' (rust_context pl) c1 else c1);
          c3 = (if ci_add_device ci then sm_or_insert ''device'' (platform_device_context pl) c2 else c2)
      in e\<lparr>ev_contexts := c3\<rparr>)"

definition contexts_integration :: "platform \<Rightarrow> context_integration \<Rightarrow> integration" where
  "contexts_integration pl ci = \<lparr>ig_name = ''contexts'', ig_setup = contexts_setup pl,
     ig_process_event = (\<lambda>_ e. Some (contexts_process_event pl ci e))\<rparr>"

section \<open>Debug images\<close>

text \<open>A uuid from its bytes, the first one the most significant.\<close>

definition uuid_of_bytes :: "u8 list \<Rightarrow> uuid" where
  "uuid_of_bytes bs = of_nat (horner_sum unat 256 (rev bs))"

definition debug_id_from_uuid :: "uuid \<Rightarrow> debug_id" where
  "debug_id_from_uuid u = \<lparr>di_uuid = u, di_appendix = 0\<rparr>"

text \<open>
  The first 16 bytes, or what there is and zeros; on a little endian target the first three
  fields of the uuid are turned around.
\<close>

definition swap_fields :: "u8 list \<Rightarrow> u8 list" where
  "swap_fields data = rev (take 4 data) @ rev (take 2 (drop 4 data)) @ rev (take 2 (drop 6 data)) @ drop 8 data"

definition debug_id_from_build_id :: "bool \<Rightarrow> u8 list \<Rightarrow> debug_id" where
  "debug_id_from_build_id little_endian build_id =
     (let data = take 16 (build_id @ replicate 16 0);
          data' = (if little_endian then swap_fields data else data)
      in debug_id_from_uuid (uuid_of_bytes data'))"

datatype shared_library_id = LibUuid "u8 list" | LibGnuBuildId "u8 list" | LibPdbSignature "u8 list" u32 | LibOtherId

record shared_library =
  sl_debug_id :: "shared_library_id option"
  sl_name :: string
  sl_id :: "string option"
  sl_debug_name :: "string option"
  sl_memory_bias :: u64
  sl_actual_load_addr :: u64
  sl_stated_load_addr :: u64
  sl_len :: u64

text \<open>The loader: whether it can be asked, its libraries; \<open>DebugId::from_guid_age\<close> may fail.\<close>

record loader =
  lo_supported :: bool
  lo_windows :: bool
  lo_little_endian :: bool
  lo_current_exe :: "string option"
  lo_from_guid_age :: "u8 list \<Rightarrow> u32 \<Rightarrow> debug_id option"
  lo_libraries :: "shared_library list"

definition library_debug_id :: "loader \<Rightarrow> shared_library \<Rightarrow> debug_id option" where
  "library_debug_id lo shlib =
     Option.bind (sl_debug_id shlib) (\<lambda>i. case i of
       LibUuid bytes \<Rightarrow> Some (debug_id_from_uuid (uuid_of_bytes bytes))
     | LibGnuBuildId i \<Rightarrow> Some (debug_id_from_build_id (lo_little_endian lo) i)
     | LibPdbSignature guid age \<Rightarrow> lo_from_guid_age lo guid age
     | LibOtherId \<Rightarrow> None)"

definition library_image :: "loader \<Rightarrow> shared_library \<Rightarrow> debug_image option" where
  "library_image lo shlib =
     map_option (\<lambda>debug_id.
       let name = (if sl_name shlib = [] then (case lo_current_exe lo of Some x \<Rightarrow> x | None \<Rightarrow> ''<main>'')
                   else sl_name shlib);
           (image_addr, image_vmaddr) = (if lo_windows lo then (sl_memory_bias shlib, 0)
                   else (sl_actual_load_addr shlib, sl_stated_load_addr shlib))
       in ImgSymbolic \<lparr>sdi_name = name, sdi_arch = None, sdi_image_addr = image_addr,
            sdi_image_size = sl_len shlib, sdi_image_vmaddr = image_vmaddr, sdi_id = debug_id,
            sdi_code_id = sl_id shlib, sdi_debug_file = sl_debug_name shlib\<rparr>)
       (library_debug_id lo shlib)"

definition debug_images :: "loader \<Rightarrow> debug_image list" where
  "debug_images lo = (if lo_supported lo then List.map_filter (library_image lo) (lo_libraries lo) else [])"

text \<open>\<open>DEBUG_META\<close> is computed once for the process.\<close>

definition debug_images_process_event :: "debug_meta \<Rightarrow> (event \<Rightarrow> bool) \<Rightarrow> event \<Rightarrow> event" where
  "debug_images_process_event meta filter' e =
     (if debug_meta_is_empty (ev_debug_meta e) \<and> filter' e then e\<lparr>ev_debug_meta := meta\<rparr> else e)"

definition debug_images_integration :: "loader \<Rightarrow> (event \<Rightarrow> bool) \<Rightarrow> integration" where
  "debug_images_integration lo filter' = \<lparr>ig_name = ''debug-images'', ig_setup = (\<lambda>o'. o'),
     ig_process_event = (\<lambda>_ e. Some (debug_images_process_event
       \<lparr>dm_sdk_info = None, dm_images = debug_images lo\<rparr> filter' e))\<rparr>"

section \<open>Lemmas\<close>

lemma swap_fields_twice: "length data = 16 \<Longrightarrow> swap_fields (swap_fields data) = data"
  by (auto simp: swap_fields_def length_Suc_conv numeral_eq_Suc)

lemma swap_fields_length [simp]: "length data = 16 \<Longrightarrow> length (swap_fields data) = 16"
  by (simp add: swap_fields_def)

lemma byte_bound: "unat (b :: u8) < 256"
proof -
  have "unat b < 2 ^ LENGTH(8)" by (rule unsigned_less)
  then show ?thesis by simp
qed

lemma horner_bytes_bound: "horner_sum unat 256 (bs :: u8 list) < 256 ^ length bs"
proof (induction bs)
  case (Cons b bs)
  have "unat b < 256" by (rule byte_bound)
  with Cons show ?case by (simp add: horner_sum_simps)
qed (simp add: horner_sum_simps)

lemma horner_bytes_inject:
  "length bs = length cs \<Longrightarrow> horner_sum unat 256 (bs :: u8 list) = horner_sum unat 256 cs \<Longrightarrow> bs = cs"
proof (induction bs cs rule: list_induct2)
  case (Cons b bs c cs)
  have bound: "unat b < 256" "unat c < 256" by (rule byte_bound)+
  have eq: "unat b + 256 * horner_sum unat 256 bs = unat c + 256 * horner_sum unat 256 cs"
    using Cons.prems by (simp add: horner_sum_simps)
  then have "(unat b + 256 * horner_sum unat 256 bs) mod 256 = (unat c + 256 * horner_sum unat 256 cs) mod 256"
    by simp
  then have "unat b = unat c" using bound by simp
  with eq Cons.IH show ?case by (auto intro: unsigned_word_eqI)
qed simp

lemma uuid_of_bytes_inject:
  assumes "length bs = 16" and "length cs = 16"
  shows "uuid_of_bytes bs = uuid_of_bytes cs \<longleftrightarrow> bs = cs"
proof -
  have "horner_sum unat 256 (rev bs) < 2 ^ 128" "horner_sum unat 256 (rev cs) < 2 ^ 128"
    using horner_bytes_bound [of "rev bs"] horner_bytes_bound [of "rev cs"] assms by simp_all
  then show ?thesis
    using horner_bytes_inject [of "rev bs" "rev cs"] assms
    by (auto simp: uuid_of_bytes_def word_of_nat_eq_iff take_bit_nat_eq_self)
qed

text \<open>Different build ids of 16 bytes give different debug ids; longer ones are cut.\<close>

lemma debug_id_from_build_id_inject:
  assumes "length a = 16" and "length b = 16"
  shows "debug_id_from_build_id le (a @ rest) = debug_id_from_build_id le (b @ rest') \<longleftrightarrow> a = b"
  using assms swap_fields_twice
  by (auto simp: debug_id_from_build_id_def debug_id_from_uuid_def uuid_of_bytes_inject) metis

lemma contexts_process_event_map:
  "map_of (ev_contexts (contexts_process_event pl context_integration_default e)) k =
     (case map_of (ev_contexts e) k of
        Some c \<Rightarrow> Some c
      | None \<Rightarrow> if k = ''os'' then platform_os_context pl
          else if k = ''rust'' then Some (rust_context pl)
          else if k = ''device'' then Some (platform_device_context pl) else None)"
  by (auto simp: contexts_process_event_def context_integration_default_def map_of_sm_or_insert sm_has_def Let_def
      split: option.split)

lemma sm_has_insert [simp]:
  "sm_has k (sm_insert k' v m) \<longleftrightarrow> k = k' \<or> sm_has k m"
  "sm_has k (sm_or_insert k' v m) \<longleftrightarrow> k = k' \<or> sm_has k m"
  by (auto simp: sm_has_def map_of_sm_or_insert)

lemma sm_or_insert_has [simp]: "sm_has k m \<Longrightarrow> sm_or_insert k v m = m"
  by (simp add: sm_or_insert_def)

lemma contexts_process_event_twice:
  "contexts_process_event pl ci (contexts_process_event pl ci e) = contexts_process_event pl ci e"
  by (cases "platform_os_context pl"; cases "ci_add_os ci"; cases "ci_add_rust ci"; cases "ci_add_device ci";
      cases "sm_has ''os'' (ev_contexts e)")
    (simp_all add: contexts_process_event_def)

section \<open>Properties\<close>

text \<open>
  The platform's contexts. Every event gets a \<open>rust\<close> and a \<open>device\<close> context, and an \<open>os\<close> context when
  the platform can be read, of the types their names say; contexts that the event has are kept, nothing
  else of it changes, and processing it again adds nothing. Debug images are added exactly to
  events without any that pass the filter. A server name that was set is
  kept.
\<close>

theorem platform_contexts_added:
  "map_of (ev_contexts (contexts_process_event pl context_integration_default e)) =
     [''device'' \<mapsto> platform_device_context pl, ''rust'' \<mapsto> rust_context pl]
       ++ (case platform_os_context pl of Some os \<Rightarrow> [''os'' \<mapsto> os] | None \<Rightarrow> Map.empty)
       ++ map_of (ev_contexts e) \<and>
   map ctx_type_name [rust_context pl, platform_device_context pl] = [''runtime'', ''device''] \<and>
   map_option ctx_type_name (platform_os_context pl) \<in> {None, Some ''os''} \<and>
   contexts_process_event pl ci e = e\<lparr>ev_contexts := ev_contexts (contexts_process_event pl ci e)\<rparr> \<and>
   contexts_process_event pl ci (contexts_process_event pl ci e) = contexts_process_event pl ci e \<and>
   co_server_name (contexts_setup pl o') = (case co_server_name o' of Some n \<Rightarrow> Some n | None \<Rightarrow> pl_hostname pl) \<and>
   debug_images_process_event meta f e =
     (if dm_sdk_info (ev_debug_meta e) = None \<and> dm_images (ev_debug_meta e) = [] \<and> f e
      then e\<lparr>ev_debug_meta := meta\<rparr> else e)"
proof (intro conjI)
  show "map_of (ev_contexts (contexts_process_event pl context_integration_default e)) =
     [''device'' \<mapsto> platform_device_context pl, ''rust'' \<mapsto> rust_context pl]
       ++ (case platform_os_context pl of Some os \<Rightarrow> [''os'' \<mapsto> os] | None \<Rightarrow> Map.empty)
       ++ map_of (ev_contexts e)"
    by (rule ext) (auto simp: contexts_process_event_map map_add_def split: option.split)
  show "map_option ctx_type_name (platform_os_context pl) \<in> {None, Some ''os''}"
    by (cases "pl_os pl"; cases "pl_uname pl") (simp_all add: platform_os_context_def)
qed (simp_all add: contexts_process_event_twice, simp_all add: rust_context_def platform_device_context_def
    contexts_process_event_def contexts_setup_def debug_images_process_event_def debug_meta_is_empty_def Let_def
    split: option.split)

end
