(* ===== verification/Init.thy ===== *)
theory Init
  imports Backtrace Platform
begin

text \<open>
  Setting the SDK up (\<open>sentry/src/defaults.rs\<close>, \<open>sentry/src/init.rs\<close>): default options from the
  environment, the client bound to the current hub, and the guard that closes it. The variables of
  the environment, the platform and the loader are parameters.
\<close>

section \<open>Default options\<close>

definition attach_stacktrace :: "sthread \<Rightarrow> integration" where
  "attach_stacktrace thread = \<lparr>ig_name = ''attach-stacktrace'', ig_setup = (\<lambda>o'. o'),
     ig_process_event = (\<lambda>o' e. attach_stacktrace_integration thread e o')\<rparr>"

definition process_stacktrace :: "(string \<Rightarrow> nat) \<Rightarrow> integration" where
  "process_stacktrace word = \<lparr>ig_name = ''process-stacktrace'', ig_setup = (\<lambda>o'. o'),
     ig_process_event = (\<lambda>o' e. process_stacktrace_integration word e o')\<rparr>"

text \<open>
  The panic integration only installs its hook, which is not part of a client. The process: its
  variables, how it was built, the transport of the default factory, the thread, the platform and the
  loader it runs on.
\<close>

definition panic_integration :: integration where
  "panic_integration = \<lparr>ig_name = ''panic'', ig_setup = (\<lambda>o'. o'), ig_process_event = (\<lambda>_ e. Some e)\<rparr>"

record process_env =
  pe_var :: "string \<Rightarrow> string option"
  pe_debug_assertions :: bool
  pe_default_transport :: nat
  pe_thread :: sthread
  pe_word :: "string \<Rightarrow> nat"
  pe_platform :: platform
  pe_loader :: loader

definition or_else :: "'a option \<Rightarrow> 'a option \<Rightarrow> 'a option" where
  "or_else a b = (case a of Some x \<Rightarrow> Some x | None \<Rightarrow> b)"

definition parse_bool :: "string \<Rightarrow> bool option" where
  "parse_bool s = (if s = ''true'' then Some True else if s = ''false'' then Some False else None)"

definition default_integrations :: "process_env \<Rightarrow> integration list" where
  "default_integrations pe =
     [attach_stacktrace (pe_thread pe),
      debug_images_integration (pe_loader pe) (\<lambda>_. True),
      contexts_integration (pe_platform pe) context_integration_default,
      panic_integration,
      process_stacktrace (pe_word pe)]"

definition apply_defaults ::
  "url_parser \<Rightarrow> process_env \<Rightarrow> client_options \<times> integration list \<Rightarrow> client_options \<times> integration list" where
  "apply_defaults parse pe opts =
     (let var = pe_var pe;
          o1 = (fst opts)\<lparr>co_transport := or_else (co_transport (fst opts)) (Some (pe_default_transport pe))\<rparr>;
          integrations = (if co_default_integrations o1 then default_integrations pe @ snd opts else snd opts);
          o2 = o1\<lparr>co_dsn := or_else (co_dsn o1) (Option.bind (var ''SENTRY_DSN'')
                 (\<lambda>s. case dsn_from_str parse s of Inr d \<Rightarrow> Some d | Inl _ \<Rightarrow> None))\<rparr>;
          o3 = o2\<lparr>co_release := or_else (co_release o2) (var ''SENTRY_RELEASE'')\<rparr>;
          o4 = o3\<lparr>co_environment := or_else (co_environment o3) (or_else (var ''SENTRY_ENVIRONMENT'')
                 (Some (if pe_debug_assertions pe then ''development'' else ''production'')))\<rparr>;
          o5 = o4\<lparr>co_http_proxy := or_else (co_http_proxy o4) (or_else (var ''HTTP_PROXY'') (var ''http_proxy''))\<rparr>;
          o6 = o5\<lparr>co_https_proxy := or_else (co_https_proxy o5) (or_else (var ''HTTPS_PROXY'')
                 (or_else (var ''https_proxy'') (co_http_proxy o5)))\<rparr>;
          o7 = (case var ''SSL_VERIFY'' of
                  Some s \<Rightarrow> o6\<lparr>co_accept_invalid_certs :=
                    \<not> (case parse_bool s of Some b \<Rightarrow> b | None \<Rightarrow> True)\<rparr>
                | None \<Rightarrow> o6)
      in (o7, integrations))"

section \<open>The guard\<close>

text \<open>
  \<open>init\<close>: the new client at address \<open>a\<close> has a family \<open>fam\<close> of its own; \<open>None\<close> is a panic. The
  guard is the address.
\<close>

definition init ::
  "url_parser \<Rightarrow> process_env \<Rightarrow> sdk_info \<Rightarrow> event \<Rightarrow> systime \<Rightarrow> systime \<Rightarrow> uuid \<Rightarrow> nat \<Rightarrow> (nat \<Rightarrow> bool) \<Rightarrow> nat \<Rightarrow> nat \<Rightarrow>
   client_options \<times> integration list \<Rightarrow> hub \<times> world \<Rightarrow> (nat \<times> hub \<times> world) option" where
  "init parse pe sdk fresh_event now instant fresh cell held a fam options s =
     (let (opts, integrations) = apply_defaults parse pe options;
          (c, w) = with_options sdk fresh_event now opts integrations net_empty;
          W = snd s;
          W' = W\<lparr>wd_clients := (wd_clients W)(a := c), wd_family := (wd_family W)(a := fam),
                 wd_nets := (wd_nets W)(fam := w)\<rparr>;
          hb = bind_client (Some a) (fst s)
      in map_option (Pair a)
           (if co_auto_session_tracking opts \<and> co_session_mode opts = Application
            then api_start_session now instant fresh cell held (hb, W')
            else Some (hb, W')))"

definition init_guard_is_enabled :: "nat \<Rightarrow> world \<Rightarrow> bool" where
  "init_guard_is_enabled a W = client_is_enabled (wd_clients W a, net_of W a)"

text \<open>Dropping the guard: the session of the current hub ends, then the client closes.\<close>

definition init_guard_drop ::
  "systime \<Rightarrow> systime \<Rightarrow> bool \<Rightarrow> nat \<Rightarrow> hub \<times> world \<Rightarrow> (hub \<times> world) option" where
  "init_guard_drop now instant answer a s =
     map_option (\<lambda>(hb, W). (hb, on_client a (\<lambda>cw. snd (client_close now answer None cw)) W))
       (api_end_session now instant s)"

section \<open>Lemmas\<close>

lemma or_else_simps [simp]: "or_else (Some x) b = Some x" "or_else None b = b"
  by (simp_all add: or_else_def)

lemma verify_field:
  "(case v of Some s \<Rightarrow> o'\<lparr>co_accept_invalid_certs := f s\<rparr> | None \<Rightarrow> o') =
     o'\<lparr>co_accept_invalid_certs := (case v of Some s \<Rightarrow> f s | None \<Rightarrow> co_accept_invalid_certs o')\<rparr>"
  by (cases v) simp_all

lemma apply_defaults_fields:
  "co_transport (fst (apply_defaults parse pe (o0, is))) = or_else (co_transport o0) (Some (pe_default_transport pe))"
  "co_dsn (fst (apply_defaults parse pe (o0, is))) = or_else (co_dsn o0) (Option.bind (pe_var pe ''SENTRY_DSN'')
     (\<lambda>s. case dsn_from_str parse s of Inr d \<Rightarrow> Some d | Inl _ \<Rightarrow> None))"
  "co_release (fst (apply_defaults parse pe (o0, is))) = or_else (co_release o0) (pe_var pe ''SENTRY_RELEASE'')"
  "co_environment (fst (apply_defaults parse pe (o0, is))) = or_else (co_environment o0)
     (or_else (pe_var pe ''SENTRY_ENVIRONMENT'')
       (Some (if pe_debug_assertions pe then ''development'' else ''production'')))"
  "co_accept_invalid_certs (fst (apply_defaults parse pe (o0, is))) =
     (case pe_var pe ''SSL_VERIFY'' of None \<Rightarrow> co_accept_invalid_certs o0
      | Some s \<Rightarrow> parse_bool s = Some False)"
  "snd (apply_defaults parse pe (o0, is)) =
     (if co_default_integrations o0 then default_integrations pe @ is else is)"
  unfolding apply_defaults_def Let_def fst_conv snd_conv verify_field
  by (simp_all split: option.split)

lemma or_else_Some_iff: "(or_else a b = None) = (a = None \<and> b = None)"
  by (simp add: or_else_def split: option.split)

lemma client_close_disabled: "\<not> client_is_enabled (snd (client_close now answer timeout s))"
  by (simp add: client_close_def Let_def client_is_enabled_def sender_is_enabled_def is_occupied_def
      sender_shutdown_def slot_shutdown_def call_def split: prod.split option.split)

text \<open>
  Options that were set are kept whatever the environment says, except \<open>accept_invalid_certs\<close>, which
  \<open>SSL_VERIFY\<close> overrides. A client always gets a transport and an environment, and the default
  integrations run before its own.
\<close>

theorem explicit_options_win:
  assumes "apply_defaults parse pe (o0, is) = (o', is')"
  shows "(co_transport o0 \<noteq> None \<longrightarrow> co_transport o' = co_transport o0) \<and>
    (co_dsn o0 \<noteq> None \<longrightarrow> co_dsn o' = co_dsn o0) \<and>
    (co_release o0 \<noteq> None \<longrightarrow> co_release o' = co_release o0) \<and>
    (co_environment o0 \<noteq> None \<longrightarrow> co_environment o' = co_environment o0) \<and>
    (pe_var pe ''SSL_VERIFY'' = Some ''false'' \<longrightarrow> co_accept_invalid_certs o') \<and>
    co_transport o' \<noteq> None \<and> co_environment o' \<noteq> None \<and>
    is' = (if co_default_integrations o0 then default_integrations pe @ is else is)"
proof -
  have o': "o' = fst (apply_defaults parse pe (o0, is))" "is' = snd (apply_defaults parse pe (o0, is))"
    using assms by simp_all
  show ?thesis
    unfolding o' apply_defaults_fields by (auto simp: or_else_Some_iff parse_bool_def)
qed

text \<open>
  C40: Default integrations complete an event and never discard it: whatever integrations an
  application adds see the event with the contexts of the platform beside its own, with the debug images
  of the process if it had none, with the current thread if stack traces are to be attached and it has
  none, and with the id, level, user, tags and breadcrumbs it came with.
\<close>

theorem initialised_events_complete:
  "\<exists>e'. run_processors (map (\<lambda>i. ig_process_event i o') (default_integrations pe @ own)) e
        = run_processors (map (\<lambda>i. ig_process_event i o') own) e' \<and>
      map_of (ev_contexts e') =
        [''device'' \<mapsto> platform_device_context (pe_platform pe), ''rust'' \<mapsto> rust_context (pe_platform pe)]
          ++ (case platform_os_context (pe_platform pe) of Some os \<Rightarrow> [''os'' \<mapsto> os] | None \<Rightarrow> Map.empty)
          ++ map_of (ev_contexts e) \<and>
      ev_debug_meta e' = (if debug_meta_is_empty (ev_debug_meta e)
        then \<lparr>dm_sdk_info = None, dm_images = debug_images (pe_loader pe)\<rparr> else ev_debug_meta e) \<and>
      map th_id (ev_threads e') = map th_id (ev_threads e) @
        (if co_attach_stacktrace o' \<and> \<not> has_stacktrace e \<and> th_stacktrace (pe_thread pe) \<noteq> None
         then [th_id (pe_thread pe)] else []) \<and>
      (ev_event_id e', ev_level e', ev_user e', ev_tags e', ev_breadcrumbs e') =
        (ev_event_id e, ev_level e, ev_user e, ev_tags e, ev_breadcrumbs e)"
proof -
  define e1 where "e1 = the (attach_stacktrace_integration (pe_thread pe) e o')"
  define e2 where "e2 = debug_images_process_event
    \<lparr>dm_sdk_info = None, dm_images = debug_images (pe_loader pe)\<rparr> (\<lambda>_. True) e1"
  define e3 where "e3 = contexts_process_event (pe_platform pe) context_integration_default e2"
  define e4 where "e4 = the (process_stacktrace_integration (pe_word pe) e3 o')"
  have run: "run_processors (map (\<lambda>i. ig_process_event i o') (default_integrations pe @ own)) e
      = run_processors (map (\<lambda>i. ig_process_event i o') own) e4"
  proof -
    have "attach_stacktrace_integration (pe_thread pe) e o' = Some e1"
      "process_stacktrace_integration (pe_word pe) e3 o' = Some e4"
      by (simp_all add: e1_def e4_def attach_stacktrace_integration_def process_stacktrace_integration_def Let_def)
    then show ?thesis
      by (simp add: default_integrations_def attach_stacktrace_def debug_images_integration_def
          contexts_integration_def panic_integration_def process_stacktrace_def flip: e2_def e3_def)
  qed
  have e1: "ev_contexts e1 = ev_contexts e" "ev_debug_meta e1 = ev_debug_meta e"
    "ev_threads e1 = ev_threads e @ (if co_attach_stacktrace o' \<and> \<not> has_stacktrace e
       \<and> th_stacktrace (pe_thread pe) \<noteq> None then [pe_thread pe] else [])"
    "(ev_event_id e1, ev_level e1, ev_user e1, ev_tags e1, ev_breadcrumbs e1) =
       (ev_event_id e, ev_level e, ev_user e, ev_tags e, ev_breadcrumbs e)"
    by (simp_all add: e1_def attach_stacktrace_integration_def)
  have e2: "ev_contexts e2 = ev_contexts e"
    "ev_debug_meta e2 = (if debug_meta_is_empty (ev_debug_meta e)
       then \<lparr>dm_sdk_info = None, dm_images = debug_images (pe_loader pe)\<rparr> else ev_debug_meta e)"
    "ev_threads e2 = ev_threads e1"
    "(ev_event_id e2, ev_level e2, ev_user e2, ev_tags e2, ev_breadcrumbs e2) =
       (ev_event_id e1, ev_level e1, ev_user e1, ev_tags e1, ev_breadcrumbs e1)"
    by (simp_all add: e2_def e1(1,2) debug_images_process_event_def)
  have e3: "map_of (ev_contexts e3) =
        [''device'' \<mapsto> platform_device_context (pe_platform pe), ''rust'' \<mapsto> rust_context (pe_platform pe)]
          ++ (case platform_os_context (pe_platform pe) of Some os \<Rightarrow> [''os'' \<mapsto> os] | None \<Rightarrow> Map.empty)
          ++ map_of (ev_contexts e)"
    "ev_debug_meta e3 = (if debug_meta_is_empty (ev_debug_meta e)
       then \<lparr>dm_sdk_info = None, dm_images = debug_images (pe_loader pe)\<rparr> else ev_debug_meta e)"
    "ev_threads e3 = ev_threads e1"
    "(ev_event_id e3, ev_level e3, ev_user e3, ev_tags e3, ev_breadcrumbs e3) =
       (ev_event_id e1, ev_level e1, ev_user e1, ev_tags e1, ev_breadcrumbs e1)"
    unfolding e3_def
    by (rule trans [OF platform_contexts_added [THEN conjunct1]], simp add: e2)
      (simp_all add: contexts_process_event_def e2 Let_def)
  have e4: "ev_contexts e4 = ev_contexts e3" "ev_debug_meta e4 = ev_debug_meta e3"
    "map th_id (ev_threads e4) = map th_id (ev_threads e3)"
    "(ev_event_id e4, ev_level e4, ev_user e4, ev_tags e4, ev_breadcrumbs e4) =
       (ev_event_id e3, ev_level e3, ev_user e3, ev_tags e3, ev_breadcrumbs e3)"
    by (simp_all add: e4_def process_stacktrace_integration_def Let_def comp_def)
  show ?thesis
    unfolding run by (rule exI [of _ e4], simp only: e4 e3 e1) simp
qed

text \<open>
  After the guard is dropped the client is disabled: capturing through a hub bound to it, or starting a
  session there, does nothing.
\<close>

theorem dropped_guard_silences:
  assumes "init_guard_drop now instant answer a s = Some (hb, W)" and "hub_client hb' = Some a"
  shows "\<not> init_guard_is_enabled a W \<and>
    api_capture_event now' fresh draw e (hb', W) = (nil_uuid, hb', W) \<and>
    api_start_session now' instant' fresh cell held (hb', W) = Some (hb', W)"
proof -
  obtain hb0 W0 where "W = on_client a (\<lambda>cw. snd (client_close now answer None cw)) W0"
    using assms(1) by (auto simp: init_guard_drop_def)
  moreover have "client_is_enabled (wd_clients (on_client a f W0) a, net_of (on_client a f W0) a) =
      client_is_enabled (f (wd_clients W0 a, net_of W0 a))" for f
    by (simp add: on_client_def net_of_def set_net_def split: prod.split)
  ultimately have "\<not> client_is_enabled (wd_clients W a, net_of W a)"
    by (simp add: client_close_disabled)
  then show ?thesis
    by (simp add: init_guard_is_enabled_def api_capture_event_def api_start_session_def on_active_def
        is_active_and_usage_safe_def assms(2))
qed

end
