(* ===== verification/Otel.thy ===== *)
theory Otel
  imports Hub
begin

text \<open>
  The OpenTelemetry span processor and propagator (\<open>sentry-opentelemetry/src/processor.rs\<close>,
  \<open>converters.rs\<close>, \<open>propagator.rs\<close>): a process-wide map from the ids of running OpenTelemetry spans
  to transactions and spans. Ids are byte strings on both sides, so converting them changes
  nothing. Spans, contexts and attribute values of the opentelemetry crate are inputs; how a
  finite \<open>f64\<close> prints is a parameter.
\<close>

section \<open>Conversions\<close>

datatype otel_status = OtelUnset | OtelOk | OtelError string

fun convert_span_status :: "otel_status \<Rightarrow> span_status" where
  "convert_span_status OtelUnset = SpOk"
| "convert_span_status OtelOk = SpOk"
| "convert_span_status (OtelError description) =
     (case span_status_from_str description of Some st \<Rightarrow> st | None \<Rightarrow> UnknownError)"

datatype otel_span_kind = KindClient | KindServer | KindProducer | KindConsumer | KindInternal

fun convert_span_kind :: "otel_span_kind \<Rightarrow> json" where
  "convert_span_kind KindClient = JString ''client''"
| "convert_span_kind KindServer = JString ''server''"
| "convert_span_kind KindProducer = JString ''producer''"
| "convert_span_kind KindConsumer = JString ''consumer''"
| "convert_span_kind KindInternal = JString ''internal''"

datatype otel_array = ArrBool "bool list" | ArrI64 "64 word list" | ArrF64 "flt list" | ArrString "string list"

datatype otel_value = ValBool bool | ValI64 "64 word" | ValF64 flt | ValString string | ValArray otel_array

definition show_i64 :: "64 word \<Rightarrow> string" where
  "show_i64 w = (if 0 \<le> sint w then show_nat (nat (sint w)) else ''-'' @ show_nat (nat (- sint w)))"

text \<open>\<open>Number::from_f64\<close>: numbers only.\<close>

fun number_from_f64 :: "(flt \<Rightarrow> string) \<Rightarrow> flt \<Rightarrow> json option" where
  "number_from_f64 show_float (Fin r) = Some (JNumber (show_float (Fin r)))"
| "number_from_f64 show_float _ = None"

fun convert_value :: "(flt \<Rightarrow> string) \<Rightarrow> otel_value \<Rightarrow> json" where
  "convert_value show_float (ValBool x) = JBool x"
| "convert_value show_float (ValI64 x) = JNumber (show_i64 x)"
| "convert_value show_float (ValF64 x) = (case number_from_f64 show_float x of Some v \<Rightarrow> v | None \<Rightarrow> JNull)"
| "convert_value show_float (ValString x) = JString x"
| "convert_value show_float (ValArray (ArrBool items)) = JArray (map JBool items)"
| "convert_value show_float (ValArray (ArrI64 items)) = JArray (map (\<lambda>x. JNumber (show_i64 x)) items)"
| "convert_value show_float (ValArray (ArrF64 items)) = JArray (List.map_filter (number_from_f64 show_float) items)"
| "convert_value show_float (ValArray (ArrString items)) = JArray (map JString items)"

section \<open>The processor\<close>

text \<open>\<open>SPAN_MAP\<close> with the world around it.\<close>

record otel =
  ot_spans :: "span_id \<Rightarrow> transaction_or_span option"
  ot_world :: world

definition invalid_span_id :: span_id where
  "invalid_span_id = replicate 8 0"

text \<open>A span that starts: its ids, and name, start and parent when it is recorded.\<close>

record otel_span =
  os_span_id :: span_id
  os_trace_id :: trace_id
  os_exported :: "(string \<times> systime \<times> span_id) option"

record otel_draws =
  od_trace :: trace_id
  od_span :: span_id
  od_event :: uuid
  od_now :: systime
  od_random :: flt

definition otel_context ::
  "otel_draws \<Rightarrow> propagation option \<Rightarrow> otel_span \<Rightarrow> string \<Rightarrow> string \<Rightarrow> transaction_context" where
  "otel_context d remote sp description op =
     (case remote of
        Some trace_context \<Rightarrow>
          continue_from_propagation (od_span d) description op trace_context (Some (os_span_id sp))
      | None \<Rightarrow>
          tcx_new_with_details (od_span d) description op (os_trace_id sp) (Some (os_span_id sp)) None)"

definition parent_sentry_span :: "otel_span \<Rightarrow> otel \<Rightarrow> transaction_or_span option" where
  "parent_sentry_span sp s =
     (case os_exported sp of
        None \<Rightarrow> None
      | Some (_, _, parent_id) \<Rightarrow> if parent_id \<noteq> invalid_span_id then ot_spans s parent_id else None)"

definition otel_on_start ::
  "otel_draws \<Rightarrow> hub \<Rightarrow> propagation option \<Rightarrow> otel_span \<Rightarrow> otel \<Rightarrow> otel" where
  "otel_on_start d current remote sp s =
     (let (description, start) =
        (case os_exported sp of None \<Rightarrow> ([], od_now d) | Some (name, start_time, _) \<Rightarrow> (name, start_time));
          op = description;
          W = ot_world s;
          (ts, W') =
            (case parent_sentry_span sp s of
               Some p \<Rightarrow>
                 (let (child, h) = ts_start_child_with_details (od_span d) (od_trace d) (od_now d) op description
                        (os_span_id sp) start p (wd_heap W)
                  in (SpHandle child, set_heap h W))
             | None \<Rightarrow>
                 (let (tx, W1) = start_transaction (od_trace d) (od_event d) (od_now d) (od_random d) current
                        (otel_context d remote sp description op) W
                  in (TxHandle tx, set_start_timestamp start tx W1)))
      in s\<lparr>ot_spans := (ot_spans s)(os_span_id sp \<mapsto> ts), ot_world := W'\<rparr>)"

record otel_end =
  oe_span_id :: span_id
  oe_kind :: otel_span_kind
  oe_attributes :: "(string \<times> otel_value) list"
  oe_status :: otel_status
  oe_end_time :: systime

text \<open>\<open>sc\<close> is the scope of the current hub.\<close>

definition otel_on_end :: "(flt \<Rightarrow> string) \<Rightarrow> systime \<Rightarrow> scope \<Rightarrow> otel_end \<Rightarrow> otel \<Rightarrow> otel" where
  "otel_on_end show_float now sc e s =
     (case ot_spans s (oe_span_id e) of
        None \<Rightarrow> s
      | Some ts \<Rightarrow>
          (let W = ot_world s;
               h1 = ts_set_data ''otel.kind'' (convert_span_kind (oe_kind e)) ts (wd_heap W);
               h2 = foldl (\<lambda>h (k, v). ts_set_data k (convert_value show_float v) ts h) h1 (oe_attributes e);
               h3 = (case ts of TxHandle t \<Rightarrow> txn_set_origin ''auto.otel'' t h2 | SpHandle _ \<Rightarrow> h2);
               h4 = ts_set_status (convert_span_status (oe_status e)) ts h3
           in s\<lparr>ot_spans := (ot_spans s)(oe_span_id e := None),
                ot_world := ts_finish now (oe_end_time e) sc ts (set_heap h4 W)\<rparr>))"

text \<open>The event processor installed by \<open>new\<close>; \<open>active\<close> is the active OpenTelemetry span.\<close>

definition otel_process_event :: "span_id option \<Rightarrow> otel \<Rightarrow> event \<Rightarrow> event" where
  "otel_process_event active s e =
     (case Option.bind active (ot_spans s) of
        None \<Rightarrow> e
      | Some ts \<Rightarrow>
          (let h = wd_heap (ot_world s);
               (span_id, trace_id) =
                 (case ts of
                    TxHandle t \<Rightarrow> (tc_span_id (txn_get_trace_context t h), tc_trace_id (txn_get_trace_context t h))
                  | SpHandle x \<Rightarrow> (span_get_span_id x h, tc_trace_id (span_get_trace_context x h)))
           in case map_of (ev_contexts e) ''trace'' of
                Some (CtxTrace tc) \<Rightarrow>
                  e\<lparr>ev_contexts := sm_insert ''trace''
                      (CtxTrace (tc\<lparr>tc_trace_id := trace_id, tc_span_id := span_id\<rparr>)) (ev_contexts e)\<rparr>
              | _ \<Rightarrow>
                  e\<lparr>ev_contexts := sm_insert ''trace''
                      (CtxTrace (trace_context_default span_id trace_id)) (ev_contexts e)\<rparr>))"

text \<open>\<open>set_resource\<close>: the attributes of the resource, as a map.\<close>

definition otel_set_resource :: "(flt \<Rightarrow> string) \<Rightarrow> (string \<times> otel_value) list \<Rightarrow> scope \<Rightarrow> scope" where
  "otel_set_resource show_float attributes =
     (let resource = foldl (\<lambda>m (k, v). sm_insert k (convert_value show_float v) m) [] attributes
      in scope_set_context ''otel''
           (CtxOtel \<lparr>oc_attributes = [], oc_resource = resource, oc_other = []\<rparr>))"

section \<open>The propagator\<close>

text \<open>The call of \<open>Injector::set\<close>; an invalid context makes none.\<close>

definition inject_context ::
  "hex_codec \<Rightarrow> trace_id \<Rightarrow> span_id \<Rightarrow> bool \<Rightarrow> (string \<times> string) option" where
  "inject_context hx trace_id span_id sampled =
     (if trace_id = replicate 16 0 \<or> span_id = invalid_span_id then None
      else Some (''sentry-trace'',
        sentry_trace_header hx (with_sampled sampled (propagation_new trace_id span_id))))"

text \<open>The propagation context of the result.\<close>

definition extract_with_context ::
  "hex_codec \<Rightarrow> propagation option \<Rightarrow> (string \<times> string) list \<Rightarrow> propagation option" where
  "extract_with_context hx ctx pairs =
     (case try_from_headers hx pairs of Inr trace_context \<Rightarrow> Some trace_context | Inl _ \<Rightarrow> ctx)"

section \<open>Lemmas\<close>

text \<open>Cells that exist keep their ids.\<close>

definition ids_kept :: "heap \<Rightarrow> heap \<Rightarrow> bool" where
  "ids_kept h h' =
     (hp_next h \<le> hp_next h' \<and>
      (\<forall>r<hp_next h. tc_span_id (in_context (hp_txns h' r)) = tc_span_id (in_context (hp_txns h r)) \<and>
         tc_trace_id (in_context (hp_txns h' r)) = tc_trace_id (in_context (hp_txns h r)) \<and>
         sp_span_id (hp_spans h' r) = sp_span_id (hp_spans h r) \<and>
         sp_trace_id (hp_spans h' r) = sp_trace_id (hp_spans h r)))"

lemma ids_kept_refl [simp, intro]: "ids_kept h h"
  by (simp add: ids_kept_def)

lemma ids_kept_trans [trans]: "ids_kept h h' \<Longrightarrow> ids_kept h' h'' \<Longrightarrow> ids_kept h h''"
  by (auto simp: ids_kept_def)

lemma ids_kept_upd [intro]:
  "(\<And>i. tc_span_id (in_context (f i)) = tc_span_id (in_context i)) \<Longrightarrow>
   (\<And>i. tc_trace_id (in_context (f i)) = tc_trace_id (in_context i)) \<Longrightarrow> ids_kept h (upd_txn r f h)"
  "(\<And>p. sp_span_id (g p) = sp_span_id p) \<Longrightarrow> (\<And>p. sp_trace_id (g p) = sp_trace_id p) \<Longrightarrow>
   ids_kept h (upd_span r g h)"
  by (auto simp: ids_kept_def upd_txn_def upd_span_def)

lemma ids_kept_ts:
  "ids_kept h (ts_set_data k v ts h)" "ids_kept h (ts_set_status st ts h)"
  "ids_kept h (txn_set_origin og t h)"
  by (cases ts; auto simp: txn_set_data_def span_set_data_def upd_ctx_def txn_set_status_def
      span_set_status_def txn_set_origin_def intro!: ids_kept_upd)+

lemma ids_kept_foldl:
  assumes "\<And>x h. ids_kept h (f h x)"
  shows "ids_kept h (foldl f h xs)"
  by (induction xs arbitrary: h) (auto intro: ids_kept_trans assms)

lemma on_client_heap [simp]: "wd_heap (on_client a f W) = wd_heap W"
  by (simp add: on_client_def split: prod.split)

lemma ids_kept_transaction_finish: "ids_kept (wd_heap W) (wd_heap (transaction_finish now t sc th W))"
  by (auto simp: transaction_finish_def Let_def split: option.split intro!: ids_kept_upd)

lemma ids_kept_span_finish: "ids_kept (wd_heap W) (wd_heap (span_finish t sp W))"
proof -
  let ?h = "wd_heap W" and ?r = "sh_span sp"
  let ?done = "pspan_finish_with_timestamp t (hp_spans ?h ?r)"
  have done': "ids_kept ?h (upd_span ?r (\<lambda>_. ?done) ?h)"
    by (auto simp: ids_kept_def upd_span_def pspan_finish_with_timestamp_def)
  have more: "ids_kept ?h (upd_txn x (upd_ptx f) (upd_span ?r (\<lambda>_. ?done) ?h))" for x f
    by (rule ids_kept_trans [OF done']) (auto intro!: ids_kept_upd simp: upd_ptx_def)
  show ?thesis
    using done' more by (auto simp: span_finish_def Let_def split: option.split)
qed

lemma ids_kept_ts_finish: "ids_kept (wd_heap W) (wd_heap (ts_finish now t sc ts W))"
  by (cases ts) (simp_all add: ids_kept_transaction_finish ids_kept_span_finish)

text \<open>
  The invariant of the map: what an id is mapped to exists, has that id, and a span is in the trace
  of its transaction.
\<close>

definition entry_ok :: "heap \<Rightarrow> span_id \<Rightarrow> transaction_or_span \<Rightarrow> bool" where
  "entry_ok h sid ts =
     (ts_span_id ts h = sid \<and> ts_inner ts < hp_next h \<and>
      (case ts of TxHandle _ \<Rightarrow> True
       | SpHandle x \<Rightarrow> sh_span x < hp_next h \<and>
           sp_trace_id (hp_spans h (sh_span x)) = tc_trace_id (in_context (hp_txns h (sh_transaction x)))))"

definition otel_ok :: "otel \<Rightarrow> bool" where
  "otel_ok s = (\<forall>sid ts. ot_spans s sid = Some ts \<longrightarrow> entry_ok (wd_heap (ot_world s)) sid ts)"

lemma entry_ok_kept: "entry_ok h sid ts \<Longrightarrow> ids_kept h h' \<Longrightarrow>
    entry_ok h' sid ts \<and> ts_trace_id ts h' = ts_trace_id ts h"
  by (auto simp: entry_ok_def ids_kept_def ts_span_id_def ts_inner_def ts_trace_id_def
      split: transaction_or_span.splits)

lemma start_child_details_facts:
  assumes "ts_start_child_with_details fs ft now op d sid t ts h = (child, h')" and "ts_inner ts < hp_next h"
    and "entry_ok h pid ts"
  shows "ids_kept h h'" "entry_ok h' sid (SpHandle child)" "sh_transaction child = ts_inner ts"
    "ts_trace_id (SpHandle child) h' = ts_trace_id ts h" "hp_txns h' = hp_txns h"
    "sp_parent_span_id (hp_spans h' (sh_span child)) = Some pid"
  using assms
  by (cases ts; auto simp: txn_start_child_with_details_def span_start_child_with_details_def alloc_span_def
      child_span_def pspan_default_def ids_kept_def entry_ok_def ts_span_id_def ts_inner_def ts_trace_id_def
      Let_def)+

lemma start_transaction_facts:
  assumes "start_transaction ft fresh now draw current ctx W = (tx, W1)"
  shows "ids_kept (wd_heap W) (wd_heap (set_start_timestamp t tx W1))"
    "entry_ok (wd_heap (set_start_timestamp t tx W1)) (tcx_span_id ctx) (TxHandle tx)"
proof -
  obtain a where new: "transaction_new ft fresh now draw a ctx W = (tx, W1)"
    using assms by (simp add: start_transaction_def)
  have span: "tcx_span_id (admit_trace ft o' ctx) = tcx_span_id ctx" for o'
    by (simp add: admit_trace_def reject_incoming_trace_def split: option.split)
  have "ids_kept (wd_heap W) (wd_heap W1) \<and> entry_ok (wd_heap W1) (tcx_span_id ctx) (TxHandle tx)"
    using new by (auto simp: transaction_new_def Let_def alloc_txn_def ids_kept_def entry_ok_def ts_span_id_def
        ts_inner_def trace_context_default_def span split: option.splits prod.splits)
  moreover have "ids_kept (wd_heap W1) (wd_heap (set_start_timestamp t tx W1))"
    by (auto simp: set_start_timestamp_def upd_ptx_def intro!: ids_kept_upd)
  ultimately show "ids_kept (wd_heap W) (wd_heap (set_start_timestamp t tx W1))"
    "entry_ok (wd_heap (set_start_timestamp t tx W1)) (tcx_span_id ctx) (TxHandle tx)"
    using ids_kept_trans entry_ok_kept by blast+
qed

lemma otel_context_span: "tcx_span_id (otel_context d remote sp description op) = os_span_id sp"
  by (simp add: otel_context_def continue_from_propagation_def tcx_new_with_details_def Let_def split: option.split)

lemma otel_ok_insert:
  assumes "otel_ok s" and "ids_kept (wd_heap (ot_world s)) (wd_heap W)" and "entry_ok (wd_heap W) sid ts"
  shows "otel_ok (s\<lparr>ot_spans := (ot_spans s)(sid \<mapsto> ts), ot_world := W\<rparr>)"
  using assms(1,3) entry_ok_kept [OF _ assms(2)] by (simp add: otel_ok_def)

text \<open>A span without a running parent starts a transaction, one with a parent is its child.\<close>

lemma otel_start_root:
  assumes "parent_sentry_span sp s = None"
  shows "\<exists>tx W. otel_on_start d current remote sp s =
      s\<lparr>ot_spans := (ot_spans s)(os_span_id sp \<mapsto> TxHandle tx), ot_world := W\<rparr> \<and>
    ids_kept (wd_heap (ot_world s)) (wd_heap W) \<and> entry_ok (wd_heap W) (os_span_id sp) (TxHandle tx)"
proof -
  obtain description start where x: "(case os_exported sp of None \<Rightarrow> ([], od_now d)
      | Some (name, start_time, _) \<Rightarrow> (name, start_time)) = (description, start)" by fastforce
  obtain tx W1 where tx: "start_transaction (od_trace d) (od_event d) (od_now d) (od_random d) current
      (otel_context d remote sp description description) (ot_world s) = (tx, W1)" by fastforce
  note facts = start_transaction_facts [OF tx, of start, unfolded otel_context_span]
  have "otel_on_start d current remote sp s =
      s\<lparr>ot_spans := (ot_spans s)(os_span_id sp \<mapsto> TxHandle tx), ot_world := set_start_timestamp start tx W1\<rparr>"
    by (simp add: otel_on_start_def x assms tx)
  with facts show ?thesis by blast
qed

lemma otel_start_child:
  assumes "otel_ok s" and "parent_sentry_span sp s = Some p"
  shows "\<exists>child W pid. otel_on_start d current remote sp s =
      s\<lparr>ot_spans := (ot_spans s)(os_span_id sp \<mapsto> SpHandle child), ot_world := W\<rparr> \<and>
    ids_kept (wd_heap (ot_world s)) (wd_heap W) \<and> entry_ok (wd_heap W) (os_span_id sp) (SpHandle child) \<and>
    sh_transaction child = ts_inner p \<and> (\<exists>name start. os_exported sp = Some (name, start, pid)) \<and>
    ts_trace_id (SpHandle child) (wd_heap W) = ts_trace_id p (wd_heap (ot_world s)) \<and>
    sp_parent_span_id (hp_spans (wd_heap W) (sh_span child)) = Some pid"
proof -
  obtain name start pid where ex: "os_exported sp = Some (name, start, pid)" and p: "ot_spans s pid = Some p"
    using assms(2) by (auto simp: parent_sentry_span_def split: option.splits if_splits)
  obtain child h where c: "ts_start_child_with_details (od_span d) (od_trace d) (od_now d) name name (os_span_id sp)
      start p (wd_heap (ot_world s)) = (child, h)" by fastforce
  have ok: "entry_ok (wd_heap (ot_world s)) pid p" using assms(1) p by (simp add: otel_ok_def)
  then have "ts_inner p < hp_next (wd_heap (ot_world s))" by (simp add: entry_ok_def)
  note facts = start_child_details_facts [OF c this ok]
  have "otel_on_start d current remote sp s =
      s\<lparr>ot_spans := (ot_spans s)(os_span_id sp \<mapsto> SpHandle child), ot_world := set_heap h (ot_world s)\<rparr>"
    by (simp add: otel_on_start_def ex assms(2) c)
  moreover have "wd_heap (set_heap h (ot_world s)) = h" by simp
  ultimately show ?thesis using facts ex by metis
qed

lemma otel_start_ok:
  assumes "otel_ok s"
  shows "otel_ok (otel_on_start d current remote sp s)"
proof (cases "parent_sentry_span sp s")
  case None
  then show ?thesis using otel_start_root [OF None] otel_ok_insert [OF assms] by metis
next
  case (Some p)
  then show ?thesis using otel_start_child [OF assms Some] otel_ok_insert [OF assms] by metis
qed

lemma otel_end_kept:
  "ids_kept (wd_heap (ot_world s)) (wd_heap (ot_world (otel_on_end show_float now sc e s)))"
proof (cases "ot_spans s (oe_span_id e)")
  case (Some ts)
  let ?h = "wd_heap (ot_world s)"
  let ?h1 = "ts_set_data ''otel.kind'' (convert_span_kind (oe_kind e)) ts ?h"
  let ?h2 = "foldl (\<lambda>h (k, v). ts_set_data k (convert_value show_float v) ts h) ?h1 (oe_attributes e)"
  let ?h3 = "case ts of TxHandle t \<Rightarrow> txn_set_origin ''auto.otel'' t ?h2 | SpHandle _ \<Rightarrow> ?h2"
  let ?h4 = "ts_set_status (convert_span_status (oe_status e)) ts ?h3"
  have "ids_kept ?h ?h1" by (rule ids_kept_ts)
  also have "ids_kept ?h1 ?h2" by (rule ids_kept_foldl) (auto simp: ids_kept_ts split: prod.split)
  also have "ids_kept ?h2 ?h3" by (cases ts) (simp_all add: ids_kept_ts)
  also have "ids_kept ?h3 ?h4" by (rule ids_kept_ts)
  finally have "ids_kept ?h ?h4" .
  moreover have "ids_kept ?h4 (wd_heap (ts_finish now (oe_end_time e) sc ts (set_heap ?h4 (ot_world s))))"
    using ids_kept_ts_finish [of "set_heap ?h4 (ot_world s)"] by simp
  ultimately have "ids_kept ?h (wd_heap (ts_finish now (oe_end_time e) sc ts (set_heap ?h4 (ot_world s))))"
    by (rule ids_kept_trans)
  then show ?thesis by (simp only: otel_on_end_def Some option.case Let_def) simp
qed (simp add: otel_on_end_def)

lemma otel_end_spans: "ot_spans (otel_on_end show_float now sc e s) = (ot_spans s)(oe_span_id e := None)"
  by (auto simp: otel_on_end_def Let_def split: option.split)

lemma otel_end_ok: "otel_ok s \<Longrightarrow> otel_ok (otel_on_end show_float now sc e s)"
  using entry_ok_kept [OF _ otel_end_kept] by (auto simp: otel_ok_def otel_end_spans split: if_splits)

section \<open>Runs\<close>

text \<open>The callbacks of the OpenTelemetry SDK, with what each of them reads.\<close>

datatype otel_op =
    OtelStart otel_draws hub "propagation option" otel_span
  | OtelEnd systime scope otel_end

fun otel_do :: "(flt \<Rightarrow> string) \<Rightarrow> otel_op \<Rightarrow> otel \<Rightarrow> otel" where
  "otel_do show_float (OtelStart d current remote sp) s = otel_on_start d current remote sp s"
| "otel_do show_float (OtelEnd now sc e) s = otel_on_end show_float now sc e s"

lemma otel_run_ok: "otel_ok s \<Longrightarrow> otel_ok (fold (otel_do show_float) ops s)"
proof (induction ops arbitrary: s)
  case (Cons op ops)
  then show ?case by (cases op) (simp_all add: otel_start_ok otel_end_ok)
qed simp

lemma processed_trace:
  assumes "entry_ok (wd_heap (ot_world s)) sid ts" and "ot_spans s sid = Some ts"
  shows "\<exists>tc. map_of (ev_contexts (otel_process_event (Some sid) s e)) ''trace'' = Some (CtxTrace tc) \<and>
    tc_span_id tc = sid \<and> tc_trace_id tc = ts_trace_id ts (wd_heap (ot_world s))"
  using assms
  by (cases ts)
    (auto simp: otel_process_event_def entry_ok_def ts_span_id_def ts_trace_id_def txn_get_trace_context_def
      span_get_span_id_def span_get_trace_context_def trace_context_default_def Let_def
      split: option.split ctx.split)

section \<open>Properties\<close>

text \<open>
  C35: Running OpenTelemetry spans are mirrored. After any callbacks, in any order, the transaction or
  span kept for a running span has its id; events captured while that span is active are given its
  id and trace; a span started with it as parent becomes a child in the same trace and transaction,
  with it as parent; and once it has ended, ending it again changes nothing.
\<close>

theorem otel_spans_mirrored:
  assumes "ot_spans s0 = (\<lambda>_. None)" and "s = fold (otel_do show_float) ops s0"
    and "ot_spans s sid = Some ts" and "sid \<noteq> invalid_span_id"
    and "os_exported sp = Some (name, start, sid)" and "s' = otel_on_start d current remote sp s"
    and "oe_span_id e = sid" and "oe_span_id e' = sid"
  shows "ts_span_id ts (wd_heap (ot_world s)) = sid \<and>
    (\<exists>tc. map_of (ev_contexts (otel_process_event (Some sid) s ev)) ''trace'' = Some (CtxTrace tc) \<and>
       tc_span_id tc = sid \<and> tc_trace_id tc = ts_trace_id ts (wd_heap (ot_world s))) \<and>
    (\<exists>child. ot_spans s' (os_span_id sp) = Some (SpHandle child) \<and> sh_transaction child = ts_inner ts \<and>
       ts_trace_id (SpHandle child) (wd_heap (ot_world s')) = ts_trace_id ts (wd_heap (ot_world s)) \<and>
       sp_parent_span_id (hp_spans (wd_heap (ot_world s')) (sh_span child)) = Some sid) \<and>
    otel_on_end show_float now' sc' e' (otel_on_end show_float now sc e s) = otel_on_end show_float now sc e s"
proof -
  have "otel_ok s0" using assms(1) by (simp add: otel_ok_def)
  then have ok: "otel_ok s" using otel_run_ok assms(2) by blast
  then have entry: "entry_ok (wd_heap (ot_world s)) sid ts" using assms(3) by (simp add: otel_ok_def)
  have "parent_sentry_span sp s = Some ts" using assms(3-5) by (simp add: parent_sentry_span_def)
  from otel_start_child [OF ok this, of d current remote] assms(5,6)
  have "\<exists>child. ot_spans s' (os_span_id sp) = Some (SpHandle child) \<and> sh_transaction child = ts_inner ts \<and>
       ts_trace_id (SpHandle child) (wd_heap (ot_world s')) = ts_trace_id ts (wd_heap (ot_world s)) \<and>
       sp_parent_span_id (hp_spans (wd_heap (ot_world s')) (sh_span child)) = Some sid"
    by auto
  moreover have "ot_spans (otel_on_end show_float now sc e s) sid = None"
    using assms(7) by (simp add: otel_end_spans)
  then have "otel_on_end show_float now' sc' e' (otel_on_end show_float now sc e s) = otel_on_end show_float now sc e s"
    using assms(8) by (simp add: otel_on_end_def [of _ _ _ e'])
  ultimately show ?thesis
    using entry processed_trace [OF entry assms(3)] by (simp add: entry_ok_def)
qed

lemma otel_start_maps: "\<exists>ts. ot_spans (otel_on_start d current remote sp s) (os_span_id sp) = Some ts"
  by (cases "parent_sentry_span sp s") (auto simp: otel_on_start_def Let_def split: prod.split)

definition sample_otel_start :: "nat \<Rightarrow> span_id \<Rightarrow> otel_op" where
  "sample_otel_start i parent = OtelStart \<lparr>od_trace = [], od_span = [], od_event = 0, od_now = 0, od_random = Fin 0\<rparr>
     sample_hub None \<lparr>os_span_id = replicate 8 (of_nat i), os_trace_id = replicate 16 7,
       os_exported = Some (''work'', 5, parent)\<rparr>"

lemma otel_spans_mirrored_witness:
  "\<exists>s child. s = fold (otel_do (\<lambda>_. [])) [sample_otel_start 1 invalid_span_id]
       \<lparr>ot_spans = (\<lambda>_. None), ot_world = tiny_world\<rparr> \<and>
     ot_spans (otel_do (\<lambda>_. []) (sample_otel_start 2 (replicate 8 1)) s) (replicate 8 2) = Some (SpHandle child) \<and>
     sp_parent_span_id (hp_spans (wd_heap (ot_world (otel_do (\<lambda>_. []) (sample_otel_start 2 (replicate 8 1)) s)))
       (sh_span child)) = Some (replicate 8 1)"
proof -
  define s where "s = fold (otel_do (\<lambda>_. [])) [sample_otel_start 1 invalid_span_id]
       \<lparr>ot_spans = (\<lambda>_. None), ot_world = tiny_world\<rparr>"
  have "\<exists>ts. ot_spans s (replicate 8 1) = Some ts"
    unfolding s_def sample_otel_start_def fold_simps o_apply otel_do.simps
    using otel_start_maps [where sp = "\<lparr>os_span_id = replicate 8 1, os_trace_id = replicate 16 7,
        os_exported = Some (''work'', 5, invalid_span_id)\<rparr>"] by simp
  then obtain ts where ts: "ot_spans s (replicate 8 1) = Some ts" ..
  let ?ended = "\<lparr>oe_span_id = replicate 8 1, oe_kind = KindServer, oe_attributes = [], oe_status = OtelOk, oe_end_time = 9\<rparr>"
  show ?thesis
    using otel_spans_mirrored [OF _ s_def ts, where d = "\<lparr>od_trace = [], od_span = [], od_event = 0, od_now = 0, od_random = Fin 0\<rparr>"
        and current = sample_hub and remote = None and e = ?ended and e' = ?ended and now = 0 and now' = 0
        and sp = "\<lparr>os_span_id = replicate 8 2, os_trace_id = replicate 16 7, os_exported = Some (''work'', 5, replicate 8 1)\<rparr>"
        and name = "''work''" and start = 5 and sc = "scope_default 0 [] []" and sc' = "scope_default 0 [] []"
        and ev = "event_default 1 2", OF _ _ _ refl]
    by (auto simp: s_def sample_otel_start_def invalid_span_id_def)
qed

end
