(* ===== verification/Middleware.thy ===== *)
theory Middleware
  imports Api
begin

text \<open>
  Requests of web servers: what is kept of a request (\<open>sentry-core/src/utils.rs\<close>), and the tower
  services with their futures (\<open>sentry-tower/src/lib.rs\<close>, \<open>http.rs\<close>). A request is given by what the framework
  reports of it; the service behind the layer is a function that is polled.
\<close>

section \<open>Requests\<close>

definition sensitive_headers_uppercase :: "string list" where
  "sensitive_headers_uppercase =
     [''AUTHORIZATION'', ''PROXY_AUTHORIZATION'', ''COOKIE'', ''SET_COOKIE'', ''X_FORWARDED_FOR'', ''X_REAL_IP'',
      ''X_API_KEY'']"

definition to_ascii_upper :: "char \<Rightarrow> char" where
  "to_ascii_upper c = (if 97 \<le> (of_char c :: nat) \<and> (of_char c :: nat) \<le> 122 then char_of (of_char c - (32 :: nat)) else c)"

definition is_sensitive_header :: "string \<Rightarrow> bool" where
  "is_sensitive_header name =
     (map (\<lambda>c. if to_ascii_upper c = CHR ''-'' then CHR ''_'' else to_ascii_upper c) name
        \<in> set sensitive_headers_uppercase)"

text \<open>\<open>set_username\<close> and \<open>set_password\<close> of the url crate fail on some URLs; the result is not looked at.\<close>

record url_setters =
  us_set_username :: "string \<Rightarrow> url \<Rightarrow> url option"
  us_set_password :: "string option \<Rightarrow> url \<Rightarrow> url option"

definition or_same :: "(url \<Rightarrow> url option) \<Rightarrow> url \<Rightarrow> url" where
  "or_same f u = (case f u of Some u' \<Rightarrow> u' | None \<Rightarrow> u)"

definition scrub_pii_from_url :: "url_setters \<Rightarrow> url \<Rightarrow> url" where
  "scrub_pii_from_url us u =
     (let u1 = (if url_username u \<noteq> [] then or_same (us_set_username us ''[Filtered]'') u else u)
      in if url_password u1 \<noteq> None then or_same (us_set_password us (Some ''[Filtered]'')) u1 else u1)"

text \<open>
  A request: a header comes with its mark as sensitive and, when it is visible ASCII, its text.
  \<open>hr_url\<close> is the URL put together from scheme, host and target, when it is one.
\<close>

record http_request =
  hr_method :: string
  hr_url :: "url option"
  hr_path :: string
  hr_headers :: "(string \<times> bool \<times> string option) list"

definition kept_headers :: "bool \<Rightarrow> http_request \<Rightarrow> string smap" where
  "kept_headers with_pii r =
     foldl (\<lambda>m (k, _, v). sm_insert k (case v of Some t \<Rightarrow> t | None \<Rightarrow> []) m) []
       (filter (\<lambda>(k, _, _). with_pii \<or> \<not> is_sensitive_header k)
         (filter (\<lambda>(_, sensitive, _). \<not> sensitive) (hr_headers r)))"

definition sentry_request :: "(url \<Rightarrow> string) \<Rightarrow> url_setters \<Rightarrow> bool \<Rightarrow> http_request \<Rightarrow> request" where
  "sentry_request url_text us with_pii r =
     \<lparr>req_url = map_option (\<lambda>u. url_text (scrub_pii_from_url us u)) (hr_url r), req_method = Some (hr_method r),
      req_data = None, req_query_string = None, req_cookies = None, req_headers = kept_headers with_pii r,
      req_env = []\<rparr>"

text \<open>The arms in the order of the code; status classes are hundreds.\<close>

definition map_status :: "nat \<Rightarrow> span_status" where
  "map_status st =
     (if st = 401 then Unauthenticated
      else if st = 403 then PermissionDenied
      else if st = 404 then NotFound
      else if st = 429 then ResourceExhausted
      else if 400 \<le> st \<and> st < 500 then InvalidArgument
      else if st = 501 then Unimplemented
      else if st = 503 then Unavailable
      else if 500 \<le> st \<and> st < 600 then InternalError
      else if st = 409 then AlreadyExists
      else if 200 \<le> st \<and> st < 300 then SpOk
      else UnknownError)"

section \<open>The tower service\<close>

record http_service =
  hs_start_transaction :: bool
  hs_with_pii :: bool

definition http_layer_default :: http_service where
  "http_layer_default = \<lparr>hs_start_transaction = False, hs_with_pii = False\<rparr>"

text \<open>\<open>SentryHttpLayer::new\<close> with the client of the main hub.\<close>

definition http_layer_new :: "client option \<Rightarrow> http_service" where
  "http_layer_new c =
     (case c of Some c \<Rightarrow> http_layer_default\<lparr>hs_with_pii := co_send_default_pii (cl_options c)\<rparr>
      | None \<Rightarrow> http_layer_default)"

definition enable_transaction :: "http_service \<Rightarrow> http_service" where
  "enable_transaction l = l\<lparr>hs_start_transaction := True\<rparr>"

definition enable_pii :: "http_service \<Rightarrow> http_service" where
  "enable_pii l = l\<lparr>hs_with_pii := True\<rparr>"

record http_future =
  hf_on_first_poll :: "(request \<times> transaction_context option) option"
  hf_transaction :: "(transaction_or_span \<times> transaction_or_span option) option"

definition http_call ::
  "(url \<Rightarrow> string) \<Rightarrow> url_setters \<Rightarrow> hex_codec \<Rightarrow> trace_id \<Rightarrow> span_id \<Rightarrow> http_service \<Rightarrow> http_request \<Rightarrow> http_future" where
  "http_call url_text us hx fresh_trace fresh_span l r =
     (let sentry_req = sentry_request url_text us (hs_with_pii l) r;
          headers = List.map_filter (\<lambda>(k, _, v). map_option (Pair k) v) (hr_headers r);
          trx_ctx = (if hs_start_transaction l
            then Some (continue_from_headers hx fresh_trace fresh_span (hr_method r @ '' '' @ hr_path r)
              ''http.server'' headers)
            else None)
      in \<lparr>hf_on_first_poll = Some (sentry_req, trx_ctx), hf_transaction = None\<rparr>)"

definition request_processor :: "request \<Rightarrow> event \<Rightarrow> event option" where
  "request_processor sentry_req e =
     Some (if ev_request e = None then e\<lparr>ev_request := Some sentry_req\<rparr> else e)"

text \<open>What the future draws when it is polled first, and \<open>serde_json::from_str\<close>.\<close>

record poll_draws =
  pd_trace :: trace_id
  pd_event :: uuid
  pd_now :: systime
  pd_random :: flt
  pd_parse_json :: "string \<Rightarrow> json option"

text \<open>The first poll: \<open>configure_scope\<close> runs its callback only on an active hub.\<close>

definition first_poll :: "poll_draws \<Rightarrow> http_future \<times> hub \<times> world \<Rightarrow> http_future \<times> hub \<times> world" where
  "first_poll d s =
     (let (fut, hb, W) = s in
      case hf_on_first_poll fut of
        None \<Rightarrow> s
      | Some (sentry_req, trx_ctx) \<Rightarrow>
          (let fut1 = fut\<lparr>hf_on_first_poll := None\<rparr> in
           if \<not> is_active_and_usage_safe hb W then (fut1, hb, W)
           else
             (case trx_ctx of
                None \<Rightarrow> (fut1, configure_scope (add_event_processor (request_processor sentry_req)) hb, W)
              | Some ctx \<Rightarrow>
                  (let (tx, W1) = start_transaction (pd_trace d) (pd_event d) (pd_now d) (pd_random d) hb ctx W;
                       ts = TxHandle tx;
                       h = ts_set_request (pd_parse_json d) sentry_req ts
                             (txn_set_origin ''auto.http.tower'' tx (wd_heap W1));
                       parent_span = sc_span (ly_scope (hub_top hb))
                   in (fut1\<lparr>hf_transaction := Some (ts, parent_span)\<rparr>,
                       configure_scope (\<lambda>sc. add_event_processor (request_processor sentry_req)
                         (scope_set_span (Some ts) sc)) hb,
                       set_heap h W1)))))"

text \<open>The end of the transaction, by a result or by dropping the future.\<close>

definition finish_request ::
  "systime \<Rightarrow> systime \<Rightarrow> span_status \<Rightarrow> http_future \<times> hub \<times> world \<Rightarrow> http_future \<times> hub \<times> world" where
  "finish_request now timestamp status s =
     (let (fut, hb, W) = s in
      case hf_transaction fut of
        None \<Rightarrow> s
      | Some (ts, parent_span) \<Rightarrow>
          (let h = (if ts_get_status ts (wd_heap W) = None then ts_set_status status ts (wd_heap W) else wd_heap W);
               W' = ts_finish now timestamp (ly_scope (hub_top hb)) ts (set_heap h W)
           in (fut\<lparr>hf_transaction := None\<rparr>,
               snd (api_configure_scope (scope_set_span parent_span) (hb, W')))))"

text \<open>The response of the service: an error, or a status.\<close>

definition response_status :: "unit + nat \<Rightarrow> span_status" where
  "response_status res = (case res of Inr st \<Rightarrow> map_status st | Inl _ \<Rightarrow> UnknownError)"

definition http_poll ::
  "poll_draws \<Rightarrow> systime \<Rightarrow> systime \<Rightarrow> (hub \<times> world \<Rightarrow> (unit + nat) option \<times> hub \<times> world) \<Rightarrow>
   http_future \<times> hub \<times> world \<Rightarrow> (unit + nat) option \<times> http_future \<times> hub \<times> world" where
  "http_poll d now timestamp poll s =
     (let (fut, hw) = first_poll d s;
          (r, hw') = poll hw
      in case r of
           None \<Rightarrow> (None, fut, hw')
         | Some res \<Rightarrow> (Some res, finish_request now timestamp (response_status res) (fut, hw')))"

definition http_drop :: "systime \<Rightarrow> systime \<Rightarrow> http_future \<times> hub \<times> world \<Rightarrow> http_future \<times> hub \<times> world" where
  "http_drop now timestamp s = finish_request now timestamp Aborted s"

section \<open>Services with a hub of their own\<close>

text \<open>
  \<open>SentryService\<close> (\<open>sentry-tower/src/lib.rs\<close>): the provider names the hub of a request, the inner
  service is called with it as the current hub, and its future is bound to it.
\<close>

definition sentry_service_call ::
  "('q \<Rightarrow> nat) \<Rightarrow> ('q \<Rightarrow> nat \<Rightarrow> 'f \<times> nat) \<Rightarrow> 'q \<Rightarrow> nat \<Rightarrow> 'f sentry_future \<times> nat" where
  "sentry_service_call provider service r thread_hub =
     (let hb = provider r;
          (fut, th) = hub_run hb (service r) thread_hub
      in (sentry_future_new hb fut, th))"

section \<open>Runs of a future\<close>

text \<open>
  An executor polls the future until it is ready, or drops it before; a future that is ready is dropped too.
  Each poll and the drop use the hub that is current on their thread: a future bound to a hub is polled on that hub, but
  dropped on whichever hub the dropping thread has. A step holds the address of the hub of the poll, what the service
  does in it, and what everything else does to the hubs and the world until the next step. The result begins
  with the address of the hub on which the future was ready, or else dropped.
\<close>

type_synonym hubs = "nat \<Rightarrow> hub"

type_synonym poll_step =
  "nat \<times> poll_draws \<times> systime \<times> systime \<times> (hub \<times> world \<Rightarrow> (unit + nat) option \<times> hub \<times> world) \<times>
   (hubs \<times> world \<Rightarrow> hubs \<times> world)"

fun run_future ::
  "nat \<times> systime \<times> systime \<Rightarrow> poll_step list \<Rightarrow> http_future \<times> hubs \<times> world \<Rightarrow> nat \<times> http_future \<times> hubs \<times> world" where
  "run_future (b, now, stop) [] (fut, hubs, W) =
     (case http_drop now stop (fut, hubs b, W) of (fut', hb, W') \<Rightarrow> (b, fut', hubs(b := hb), W'))"
| "run_future (b, now, stop) ((a, d, n, t, poll, others) # steps) (fut, hubs, W) =
     (case http_poll d n t poll (fut, hubs a, W) of
        (None, fut', hb, W') \<Rightarrow>
          (case others (hubs(a := hb), W') of (hubs', W'') \<Rightarrow> run_future (b, now, stop) steps (fut', hubs', W''))
      | (Some _, fut', hb, W') \<Rightarrow>
          (case http_drop now stop (fut', (hubs(a := hb)) b, W') of
             (fut'', hb', W'') \<Rightarrow> (a, fut'', hubs(a := hb, b := hb'), W'')))"

section \<open>Lemmas\<close>

lemma map_status_conflict: "map_status 409 = InvalidArgument" "map_status st \<noteq> AlreadyExists"
  by (simp_all add: map_status_def)

text \<open>Calling such a service and polling its future leave the thread's hub as it was.\<close>

lemma sentry_service_restores:
  assumes "\<And>r th. snd (service r th) = th" and "\<And>f th. snd (poll f th) = th"
    and "sentry_service_call provider service r thread_hub = (fut, th)"
  shows "th = thread_hub" "sf_hub fut = provider r" "sf_future fut = fst (service r (provider r))"
    "snd (sentry_future_poll poll fut thread_hub') = thread_hub'"
proof -
  note run = hub_run_restores [of "service r" "provider r" thread_hub, OF assms(1)]
  show "th = thread_hub" "sf_hub fut = provider r" "sf_future fut = fst (service r (provider r))"
    using assms(3) run by (auto simp: sentry_service_call_def Let_def sentry_future_new_def)
  show "snd (sentry_future_poll poll fut thread_hub') = thread_hub'"
    by (rule sentry_future_poll_restores) (rule assms(2))
qed

lemma transaction_finish_takes:
  "in_transaction (hp_txns (wd_heap (transaction_finish now t sc tx W)) (th_inner tx)) = None"
  "in_context (hp_txns (wd_heap (transaction_finish now t sc tx W)) i) = in_context (hp_txns (wd_heap W) i)"
proof -
  have "wd_heap (on_client a f W) = wd_heap W" for a f W
    by (simp add: on_client_def split: prod.split)
  then show "in_transaction (hp_txns (wd_heap (transaction_finish now t sc tx W)) (th_inner tx)) = None"
    "in_context (hp_txns (wd_heap (transaction_finish now t sc tx W)) i) = in_context (hp_txns (wd_heap W) i)"
    by (simp_all add: transaction_finish_def upd_txn_def Let_def split: option.split)
qed

lemma active_configure [simp]:
  "is_active_and_usage_safe (configure_scope f hb) W = is_active_and_usage_safe hb W"
  by (simp add: is_active_and_usage_safe_def hub_client_def configure_scope_top)

lemma finish_request_ends:
  assumes "hf_transaction fut = Some (TxHandle tx, parent)"
    and "finish_request now t status (fut, hb, W) = (fut', hb', W')"
  shows "fut' = fut\<lparr>hf_transaction := None\<rparr>"
    and "in_transaction (hp_txns (wd_heap W') (th_inner tx)) = None"
    and "is_active_and_usage_safe hb' W' \<Longrightarrow> sc_span (ly_scope (hub_top hb')) = parent"
  using assms transaction_finish_takes
  by (auto simp: finish_request_def Let_def api_configure_scope_def on_active_def configure_scope_top
      scope_set_span_def split: if_splits)

lemma http_drop_done: "hf_transaction fut = None \<Longrightarrow> http_drop now t (fut, hw) = (fut, hw)"
  by (cases hw) (simp add: http_drop_def finish_request_def)

lemma run_future_ends:
  assumes "run_future dr steps (fut, hubs, W) = (c, fut', hubs', W')"
    and "hf_on_first_poll fut = None" and "hf_transaction fut = Some (TxHandle tx, parent)"
  shows "hf_on_first_poll fut' = None \<and> hf_transaction fut' = None \<and>
    in_transaction (hp_txns (wd_heap W') (th_inner tx)) = None \<and>
    (is_active_and_usage_safe (hubs' c) W' \<longrightarrow> sc_span (ly_scope (hub_top (hubs' c))) = parent) \<and>
    c \<in> insert (fst dr) (fst ` set steps)"
  using assms
proof (induction steps arbitrary: hubs W)
  case Nil
  obtain b now stop where dr: "dr = (b, now, stop)" by (cases dr)
  obtain fut1 hb1 W1 where drop: "http_drop now stop (fut, hubs b, W) = (fut1, hb1, W1)"
    by (cases "http_drop now stop (fut, hubs b, W)") auto
  note ends = finish_request_ends [OF Nil(3) drop [unfolded http_drop_def]]
  have "c = b" "fut' = fut1" "hubs' = hubs(b := hb1)" "W' = W1" using Nil(1) by (auto simp: dr drop)
  with ends Nil(2) show ?case by (simp add: dr)
next
  case (Cons step steps)
  obtain b now stop where dr: "dr = (b, now, stop)" by (cases dr)
  obtain a d n t poll others where step: "step = (a, d, n, t, poll, others)" by (cases step)
  obtain r hb1 W1 where poll: "poll (hubs a, W) = (r, hb1, W1)" by (cases "poll (hubs a, W)") auto
  have first: "first_poll d (fut, hubs a, W) = (fut, hubs a, W)" using Cons(3) by (simp add: first_poll_def)
  show ?case
  proof (cases r)
    case None
    obtain hubs1 W2 where others: "others (hubs(a := hb1), W1) = (hubs1, W2)" by fastforce
    then have "run_future dr steps (fut, hubs1, W2) = (c, fut', hubs', W')"
      using Cons(2) None by (simp add: dr step http_poll_def first poll)
    from Cons(1) [OF this Cons(3,4)] show ?thesis by auto
  next
    case (Some res)
    obtain fut2 hb2 W2 where fin: "finish_request n t (response_status res) (fut, hb1, W1) = (fut2, hb2, W2)"
      by (cases "finish_request n t (response_status res) (fut, hb1, W1)") auto
    note ends = finish_request_ends [OF Cons(4) fin]
    have "(c, fut', hubs', W') = (a, fut2, hubs(a := hb2), W2)"
      using Cons(2) Some ends(1)
      by (auto simp: dr step http_poll_def first poll fin http_drop_done fun_upd_def split: prod.splits)
    with ends Cons(3) show ?thesis by (auto simp: step)
  qed
qed

text \<open>
  A future that is dropped before it is ready puts the span back into the scope of the dropping thread's hub, whose
  own span is lost, and leaves the hub that it was polled on with the span of the finished transaction.
\<close>

lemma drop_on_another_hub:
  assumes "a \<noteq> b" and "hf_transaction fut = Some (TxHandle tx, parent)"
    and "run_future (b, now, stop) [] (fut, hubs, W) = (c, fut', hubs', W')"
    and "is_active_and_usage_safe (hubs' b) W'"
  shows "hubs' a = hubs a" and "sc_span (ly_scope (hub_top (hubs' b))) = parent"
proof -
  obtain fut1 hb1 W1 where drop: "http_drop now stop (fut, hubs b, W) = (fut1, hb1, W1)"
    by (cases "http_drop now stop (fut, hubs b, W)") auto
  note ends = finish_request_ends [OF assms(2) drop [unfolded http_drop_def]]
  have "hubs' = hubs(b := hb1)" "W' = W1" using assms(3) by (auto simp: drop)
  with ends assms(1,4) show "hubs' a = hubs a" "sc_span (ly_scope (hub_top (hubs' b))) = parent" by simp_all
qed

lemma first_poll_starts:
  assumes "hf_on_first_poll fut = Some (req, Some ctx)" and "is_active_and_usage_safe hb W"
  shows "\<exists>tx fut1 hb1 W1. first_poll d (fut, hb, W) = (fut1, hb1, W1) \<and> th_inner tx = hp_next (wd_heap W) \<and>
    hf_on_first_poll fut1 = None \<and> hf_transaction fut1 = Some (TxHandle tx, sc_span (ly_scope (hub_top hb)))"
proof -
  obtain tx W1 where tx: "start_transaction (pd_trace d) (pd_event d) (pd_now d) (pd_random d) hb ctx W = (tx, W1)"
    by fastforce
  then have "th_inner tx = hp_next (wd_heap W)"
    by (auto simp: start_transaction_def transaction_new_def Let_def alloc_txn_def split: option.splits prod.splits)
  then show ?thesis
    using assms tx by (intro exI [of _ tx]) (simp add: first_poll_def Let_def)
qed

section \<open>Properties\<close>

text \<open>
  C36: The transaction of a request always ends. However often the future of the tower service is
  polled, whatever the service and everything else do meanwhile, on whichever hubs the polls and the drop take place, and
  whether it completes or is dropped on the way, the transaction started at the first poll, on an active hub, has been
  taken to be sent or counted. The span that the scope of this hub had before is put back in the scope of the hub on which
  the future was ready or else dropped, unless that hub is then not active. A future dropped before it is ready puts it into
  the hub of the dropping thread, whichever that is.
\<close>

theorem request_transaction_ends:
  assumes "run_future dr ((a, d, n, t, poll, others) # steps) (http_call url_text us hx ft fs l r, hubs, W) =
      (c, fut', hubs', W')"
    and "hs_start_transaction l" and "is_active_and_usage_safe (hubs a) W"
  shows "hf_transaction fut' = None \<and> hf_on_first_poll fut' = None \<and>
    in_transaction (hp_txns (wd_heap W') (hp_next (wd_heap W))) = None \<and>
    (is_active_and_usage_safe (hubs' c) W' \<longrightarrow>
       sc_span (ly_scope (hub_top (hubs' c))) = sc_span (ly_scope (hub_top (hubs a)))) \<and>
    c \<in> {fst dr, a} \<union> fst ` set steps"
proof -
  let ?fut = "http_call url_text us hx ft fs l r"
  obtain b now stop where dr: "dr = (b, now, stop)" by (cases dr)
  obtain req ctx where on_first: "hf_on_first_poll ?fut = Some (req, Some ctx)"
    using assms(2) by (simp add: http_call_def Let_def)
  obtain tx fut1 hb1 W1 where first: "first_poll d (?fut, hubs a, W) = (fut1, hb1, W1)"
    and tx: "th_inner tx = hp_next (wd_heap W)" and fut1: "hf_on_first_poll fut1 = None"
    "hf_transaction fut1 = Some (TxHandle tx, sc_span (ly_scope (hub_top (hubs a))))"
    using first_poll_starts [OF on_first assms(3)] by metis
  have "first_poll d (fut1, hb1, W1) = (fut1, hb1, W1)" using fut1(1) by (simp add: first_poll_def)
  then have "run_future dr ((a, d, n, t, poll, others) # steps) (fut1, hubs(a := hb1), W1) = (c, fut', hubs', W')"
    using assms(1) by (simp add: dr http_poll_def first cong: prod.case_cong option.case_cong)
  from run_future_ends [OF this fut1] show ?thesis by (auto simp: tx)
qed

definition sample_request :: http_request where
  "sample_request = \<lparr>hr_method = ''GET'', hr_url = None, hr_path = ''/'', hr_headers = [(''cookie'', False, Some ''x'')]\<rparr>"

definition dsn_world :: world where
  "dsn_world = tiny_world\<lparr>wd_clients := (\<lambda>_. sample_client ((options_default ''ua'')\<lparr>co_dsn := Some sample_dsn\<rparr>))\<rparr>"

definition sample_setters :: url_setters where
  "sample_setters = \<lparr>us_set_username = (\<lambda>_ _. None), us_set_password = (\<lambda>_ _. None)\<rparr>"

definition sample_poll :: poll_step where
  "sample_poll = (2, \<lparr>pd_trace = [], pd_event = 0, pd_now = 0, pd_random = Fin 0, pd_parse_json = (\<lambda>_. None)\<rparr>,
     0, 7, (\<lambda>hw. (None, hw)), (\<lambda>hw. hw))"

lemma request_transaction_ends_witness:
  "\<exists>c fut' hubs' W'. run_future (4, 0, 9) [sample_poll] (http_call (\<lambda>_. []) sample_setters sample_hex [] []
       (enable_transaction http_layer_default) sample_request, \<lambda>_. sample_hub, dsn_world) = (c, fut', hubs', W') \<and>
     hf_transaction fut' = None \<and> c \<in> {4, 2}"
proof -
  obtain c fut' hubs' W' where run: "run_future (4, 0, 9) [sample_poll] (http_call (\<lambda>_. []) sample_setters sample_hex [] []
       (enable_transaction http_layer_default) sample_request, \<lambda>_. sample_hub, dsn_world) = (c, fut', hubs', W')"
    by (metis prod_cases4)
  have "is_active_and_usage_safe sample_hub dsn_world"
    by (simp add: is_active_and_usage_safe_def sample_hub_def hub_new_def hub_client_def hub_top_def
        from_client_and_scope_def client_is_enabled_def dsn_world_def sample_client_def tiny_world_def net_of_def
        sender_is_enabled_def is_occupied_def one_slot_def)
  then have "hf_transaction fut' = None \<and> c \<in> {4, 2}"
    using request_transaction_ends [OF run [unfolded sample_poll_def]] by (simp add: enable_transaction_def)
  with run show ?thesis by blast
qed

end
