(* ===== verification/Actix.thy ===== *)
theory Actix
  imports Middleware
begin

text \<open>
  The actix middleware (\<open>sentry-actix/src/lib.rs\<close>): a request gets a hub of its own, made from the top
  of a given one, and perhaps a session and a transaction; the service behind runs with that hub,
  and its outcome is looked at afterwards. The service is a function on the hub and the world,
  which covers whatever other tasks do meanwhile.
\<close>

section \<open>The middleware and its builder\<close>

record actix =
  ax_hub :: "hub option"
  ax_emit_header :: bool
  ax_capture_server_errors :: bool
  ax_start_transaction :: bool

definition actix_new :: actix where
  "actix_new = \<lparr>ax_hub = None, ax_emit_header = False, ax_capture_server_errors = True,
     ax_start_transaction = False\<rparr>"

definition actix_with_transaction :: actix where
  "actix_with_transaction = actix_new\<lparr>ax_start_transaction := True\<rparr>"

definition builder_start_transaction :: "bool \<Rightarrow> actix \<Rightarrow> actix" where
  "builder_start_transaction v m = m\<lparr>ax_start_transaction := v\<rparr>"

definition builder_with_hub :: "hub \<Rightarrow> actix \<Rightarrow> actix" where
  "builder_with_hub hb m = m\<lparr>ax_hub := Some hb\<rparr>"

definition builder_with_default_hub :: "actix \<Rightarrow> actix" where
  "builder_with_default_hub m = m\<lparr>ax_hub := None\<rparr>"

definition builder_emit_header :: "bool \<Rightarrow> actix \<Rightarrow> actix" where
  "builder_emit_header v m = m\<lparr>ax_emit_header := v\<rparr>"

definition builder_capture_server_errors :: "bool \<Rightarrow> actix \<Rightarrow> actix" where
  "builder_capture_server_errors v m = m\<lparr>ax_capture_server_errors := v\<rparr>"

section \<open>Request bodies\<close>

text \<open>
  \<open>String::from_utf8_lossy\<close>: the next character of the bytes, or the longest beginning of one that
  cannot go on, which the replacement character stands for.
\<close>

definition byte_at :: "nat \<Rightarrow> string \<Rightarrow> nat" where
  "byte_at i s = (if i < length s then of_char (s ! i) else 0)"

definition utf8_cont :: "nat \<Rightarrow> string \<Rightarrow> bool" where
  "utf8_cont i s = (0x80 \<le> byte_at i s \<and> byte_at i s \<le> 0xBF)"

definition utf8_second :: "nat \<Rightarrow> nat \<Rightarrow> bool" where
  "utf8_second a b =
     (if a = 0xE0 then 0xA0 \<le> b \<and> b \<le> 0xBF
      else if a = 0xED then 0x80 \<le> b \<and> b \<le> 0x9F
      else if a = 0xF0 then 0x90 \<le> b \<and> b \<le> 0xBF
      else if a = 0xF4 then 0x80 \<le> b \<and> b \<le> 0x8F
      else 0x80 \<le> b \<and> b \<le> 0xBF)"

definition utf8_chunk :: "string \<Rightarrow> bool \<times> nat" where
  "utf8_chunk s =
     (let a = byte_at 0 s in
      if a < 0x80 then (True, 1)
      else if 0xC2 \<le> a \<and> a \<le> 0xDF then (if utf8_cont 1 s then (True, 2) else (False, 1))
      else if 0xE0 \<le> a \<and> a \<le> 0xEF then
        (if \<not> utf8_second a (byte_at 1 s) then (False, 1)
         else if utf8_cont 2 s then (True, 3) else (False, 2))
      else if 0xF0 \<le> a \<and> a \<le> 0xF4 then
        (if \<not> utf8_second a (byte_at 1 s) then (False, 1)
         else if \<not> utf8_cont 2 s then (False, 2)
         else if utf8_cont 3 s then (True, 4) else (False, 3))
      else (False, 1))"

lemma utf8_chunk_pos: "0 < snd (utf8_chunk s)"
  by (simp add: utf8_chunk_def Let_def)

definition replacement_character :: string where
  "replacement_character = map char_of [0xEF :: nat, 0xBF, 0xBD]"

function from_utf8_lossy :: "string \<Rightarrow> string" where
  "from_utf8_lossy s =
     (if s = [] then []
      else (case utf8_chunk s of
              (valid, n) \<Rightarrow> (if valid then take n s else replacement_character) @ from_utf8_lossy (drop n s)))"
  by pat_completeness auto
termination
proof (relation "measure length", goal_cases)
  case 2
  then show ?case using utf8_chunk_pos by (metis (no_types, opaque_lifting) diff_less in_measure length_drop
        length_greater_0_conv snd_conv)
qed simp

declare from_utf8_lossy.simps [simp del]

definition string_contains :: "string \<Rightarrow> string \<Rightarrow> bool" where
  "string_contains p s = list_ex (\<lambda>i. take (length p) (drop i s) = p) [0..<Suc (length s)]"

text \<open>\<open>HeaderMap::get\<close> and \<open>to_str\<close>: the first value of a header, where it is text.\<close>

definition header_str :: "string \<Rightarrow> http_request \<Rightarrow> string option" where
  "header_str name r = Option.bind (map_of (hr_headers r) name) snd"

text \<open>\<open>usize\<close> has 64 bits.\<close>

definition should_capture_request_body :: "http_request \<Rightarrow> bool \<Rightarrow> max_request_body_size \<Rightarrow> bool" where
  "should_capture_request_body r with_pii limit =
     (let is_chunked = (case header_str ''transfer-encoding'' r of
            Some transfer_encoding \<Rightarrow> string_contains ''chunked'' transfer_encoding | None \<Rightarrow> False);
          is_valid_content_type = (with_pii \<or> (case header_str ''content-type'' r of
            Some content_type \<Rightarrow> content_type \<in> {''application/json'', ''application/x-www-form-urlencoded''}
          | None \<Rightarrow> False));
          is_within_limit = (case Option.bind (header_str ''content-length'' r) (parse_uint (2 ^ 64 - 1)) of
            Some n \<Rightarrow> is_within_size_limit limit (nat n) | None \<Rightarrow> False)
      in \<not> is_chunked \<and> is_valid_content_type \<and> is_within_limit)"

text \<open>What extracting the payload gives: the bytes, put back for the service, or an error.\<close>

definition capture_request_body :: "string option \<Rightarrow> string" where
  "capture_request_body body = (case body of Some request_body \<Rightarrow> from_utf8_lossy request_body | None \<Rightarrow> [])"

section \<open>Requests and events\<close>

record actix_request =
  ar_http :: http_request
  ar_match_pattern :: "string option"
  ar_remote_addr :: "string option"
  ar_body :: "string option"

definition transaction_name_from_http :: "actix_request \<Rightarrow> string" where
  "transaction_name_from_http r =
     hr_method (ar_http r) @ '' '' @ (case ar_match_pattern r of Some p \<Rightarrow> p | None \<Rightarrow> ''<none>'')"

definition sentry_request_from_http :: "(url \<Rightarrow> string) \<Rightarrow> url_setters \<Rightarrow> bool \<Rightarrow> actix_request \<Rightarrow> request" where
  "sentry_request_from_http url_text us with_pii r =
     (let sentry_req = sentry_request url_text us with_pii (ar_http r) in
      if with_pii then
        (case ar_remote_addr r of
           Some remote \<Rightarrow> sentry_req\<lparr>req_env := sm_insert ''REMOTE_ADDR'' remote (req_env sentry_req)\<rparr>
         | None \<Rightarrow> sentry_req)
      else sentry_req)"

definition process_event :: "string \<Rightarrow> event \<Rightarrow> request \<Rightarrow> event" where
  "process_event version e r =
     (let e1 = (if ev_request e = None then e\<lparr>ev_request := Some r\<rparr> else e)
      in e1\<lparr>ev_sdk := map_option (\<lambda>sdk. sdk\<lparr>sdk_packages := sdk_packages sdk @ [(''sentry-actix'', version)]\<rparr>)
              (ev_sdk e1)\<rparr>)"

section \<open>The call\<close>

text \<open>What is outside: printing of other crates, clocks, fresh ids and random draws.\<close>

record actix_env =
  ae_url_text :: "url \<Rightarrow> string"
  ae_setters :: url_setters
  ae_hex :: hex_codec
  ae_debug_str :: "string \<Rightarrow> string"
  ae_uuid_simple :: "uuid \<Rightarrow> string"
  ae_version :: string
  ae_now :: systime
  ae_instant :: systime
  ae_session_id :: uuid
  ae_cell :: nat
  ae_held :: "nat \<Rightarrow> bool"
  ae_trace :: trace_id
  ae_span :: span_id
  ae_event :: uuid
  ae_random :: flt

definition tracks_sessions :: "client_options \<Rightarrow> bool" where
  "tracks_sessions o' = (co_auto_session_tracking o' \<and> co_session_mode o' = Request)"

record actix_future =
  af_with_pii :: bool
  af_limit :: max_request_body_size
  af_sentry_req :: request
  af_name :: string
  af_transaction :: "transaction_handle option"

text \<open>
  What \<open>call\<close> does at once, with the main hub as the default. \<open>None\<close> is the panic of the session
  flusher, when the session that the scope had before was its last.
\<close>

definition actix_call ::
  "actix_env \<Rightarrow> actix \<Rightarrow> hub \<Rightarrow> actix_request \<Rightarrow> world \<Rightarrow> (actix_future \<times> hub \<times> world) option" where
  "actix_call env m main r W =
     (let hb = hub_new_from_top (case ax_hub m of Some hb \<Rightarrow> hb | None \<Rightarrow> main);
          opts = map_option (\<lambda>a. cl_options (wd_clients W a)) (hub_client hb);
          limit = (case opts of Some o' \<Rightarrow> co_max_request_body_size o' | None \<Rightarrow> MrbNone);
          tracked = (case opts of Some o' \<Rightarrow> tracks_sessions o' | None \<Rightarrow> False)
      in case (if tracked then start_session (ae_now env) (ae_instant env) (ae_session_id env) (ae_cell env)
                 (ae_held env) (hb, W) else Some (hb, W)) of
           None \<Rightarrow> None
         | Some (hb1, W1) \<Rightarrow>
             (let with_pii = (case opts of Some o' \<Rightarrow> co_send_default_pii o' | None \<Rightarrow> False);
                  sentry_req = sentry_request_from_http (ae_url_text env) (ae_setters env) with_pii r;
                  name = transaction_name_from_http r;
                  fut = \<lparr>af_with_pii = with_pii, af_limit = limit, af_sentry_req = sentry_req, af_name = name,
                    af_transaction = None\<rparr>
              in if ax_start_transaction m then
                   (let headers = List.map_filter (\<lambda>(k, _, v). map_option (Pair k) v) (hr_headers (ar_http r));
                        ctx = continue_from_headers (ae_hex env) (ae_trace env) (ae_span env) name ''http.server'' headers;
                        (tx, W2) = hub_start_transaction (ae_trace env) (ae_event env) (ae_now env) (ae_random env)
                          hb1 ctx W1;
                        h = txn_set_origin ''auto.http.actix'' tx (txn_set_request sentry_req tx (wd_heap W2))
                    in Some (fut\<lparr>af_transaction := Some tx\<rparr>, hb1, set_heap h W2))
                 else Some (fut, hb1, W1)))"

text \<open>The future until the service is called: the span that the scope had is kept.\<close>

definition actix_prepare ::
  "actix_env \<Rightarrow> actix \<Rightarrow> actix_request \<Rightarrow> actix_future \<Rightarrow> hub \<times> world \<Rightarrow>
   transaction_or_span option \<times> hub \<times> world" where
  "actix_prepare env m r fut s =
     (let sentry_req = (if should_capture_request_body (ar_http r) (af_with_pii fut) (af_limit fut)
            then (af_sentry_req fut)\<lparr>req_data := Some (capture_request_body (ar_body r))\<rparr> else af_sentry_req fut);
          sc = ly_scope (hub_top (fst s));
          (sc1, h) =
            (case af_transaction fut of
               Some tx \<Rightarrow> (scope_set_span (Some (TxHandle tx)) sc, wd_heap (snd s))
             | None \<Rightarrow> scope_set_transaction (if ax_start_transaction m then None else Some (af_name fut))
                 (sc, wd_heap (snd s)));
          sc2 = add_event_processor (\<lambda>e. Some (process_event (ae_version env) e sentry_req)) sc1
      in (sc_span sc, configure_scope (\<lambda>_. sc2) (fst s), set_heap h (snd s)))"

text \<open>A response with its status, the error inside and its headers; an error with its response's status.\<close>

record actix_response =
  rs_status :: nat
  rs_error :: "rust_error option"
  rs_headers :: "(string \<times> string) list"

record actix_error =
  er_status :: nat
  er_error :: rust_error

definition is_server_error :: "nat \<Rightarrow> bool" where
  "is_server_error st = (500 \<le> st \<and> st < 600)"

definition insert_header :: "string \<Rightarrow> string \<Rightarrow> (string \<times> string) list \<Rightarrow> (string \<times> string) list" where
  "insert_header k v hs = filter (\<lambda>(k', _). k' \<noteq> k) hs @ [(k, v)]"

text \<open>Errors are captured on the hub of the request.\<close>

definition actix_report ::
  "actix_env \<Rightarrow> actix \<Rightarrow> actix_error + actix_response \<Rightarrow> hub \<times> world \<Rightarrow>
   (actix_error + actix_response) \<times> hub \<times> world" where
  "actix_report env m res s =
     (let capture = (\<lambda>err. hub_capture_error (ae_debug_str env) (ae_now env) (ae_event env) (ae_random env) err s) in
      case res of
        Inl e \<Rightarrow>
          (if ax_capture_server_errors m \<and> is_server_error (er_status e) then (res, snd (capture (er_error e)))
           else (res, s))
      | Inr rs \<Rightarrow>
          (if ax_capture_server_errors m \<and> is_server_error (rs_status rs) then
             (case rs_error rs of
                None \<Rightarrow> (res, s)
              | Some err \<Rightarrow>
                  (let (event_id, s') = capture err in
                   (if ax_emit_header m
                    then Inr (rs\<lparr>rs_headers := insert_header ''x-sentry-event'' (ae_uuid_simple env event_id)
                      (rs_headers rs)\<rparr>)
                    else res, s')))
           else (res, s)))"

text \<open>
  The end of the transaction: \<open>thread_scope\<close> is the scope of the hub that is current on the thread
  that polls the future, which is not the hub of the request.
\<close>

definition actix_finish ::
  "systime \<Rightarrow> systime \<Rightarrow> scope \<Rightarrow> span_status \<Rightarrow> transaction_handle option \<Rightarrow> transaction_or_span option \<Rightarrow>
   hub \<times> world \<Rightarrow> hub \<times> world" where
  "actix_finish now timestamp thread_scope status transaction parent_span s =
     (case transaction of
        None \<Rightarrow> s
      | Some tx \<Rightarrow>
          (let h = wd_heap (snd s);
               h' = (if txn_get_status tx h = None then txn_set_status status tx h else h)
           in (configure_scope (scope_set_span parent_span) (fst s),
               transaction_finish now timestamp thread_scope tx (set_heap h' (snd s)))))"

definition outcome_status :: "actix_error + actix_response \<Rightarrow> span_status" where
  "outcome_status res = (case res of Inl _ \<Rightarrow> UnknownError | Inr rs \<Rightarrow> map_status (rs_status rs))"

definition actix_run ::
  "actix_env \<Rightarrow> systime \<Rightarrow> systime \<Rightarrow> scope \<Rightarrow> actix \<Rightarrow> actix_request \<Rightarrow> actix_future \<Rightarrow>
   (hub \<times> world \<Rightarrow> (actix_error + actix_response) \<times> hub \<times> world) \<Rightarrow> hub \<times> world \<Rightarrow>
   (actix_error + actix_response) \<times> hub \<times> world" where
  "actix_run env now timestamp thread_scope m r fut svc s =
     (let (parent_span, s1) = actix_prepare env m r fut s;
          (res, s2) = svc s1;
          (res', s3) = actix_report env m res s2
      in (res', actix_finish now timestamp thread_scope (outcome_status res) (af_transaction fut) parent_span s3))"

section \<open>Lemmas\<close>

function utf8_valid :: "string \<Rightarrow> bool" where
  "utf8_valid s = (if s = [] then True else fst (utf8_chunk s) \<and> utf8_valid (drop (snd (utf8_chunk s)) s))"
  by pat_completeness auto
termination
  by (relation "measure length") (simp_all add: utf8_chunk_pos diff_less)

declare utf8_valid.simps [simp del]

lemma byte_at_append: "i < length s \<Longrightarrow> byte_at i (s @ t) = byte_at i s"
  by (simp add: byte_at_def nth_append)

lemma utf8_cont_inside: "utf8_cont i s \<Longrightarrow> i < length s"
  by (simp add: utf8_cont_def byte_at_def split: if_splits)

lemma utf8_second_inside: "utf8_second a (byte_at i s) \<Longrightarrow> i < length s"
  by (simp add: utf8_second_def byte_at_def split: if_splits)

lemma byte_at_Cons:
  "byte_at 0 (c # s) = of_char c" "byte_at 1 (c # s) = byte_at 0 s"
  "byte_at 2 (c # s) = byte_at 1 s" "byte_at 3 (c # s) = byte_at 2 s"
  by (simp_all add: byte_at_def numeral_eq_Suc)

text \<open>A valid chunk is read off its own bytes.\<close>

lemma utf8_chunk_bytes:
  assumes "utf8_chunk s = (True, n)" and "s \<noteq> []"
  shows "n \<le> length s" "utf8_chunk (take n s @ t) = (True, n)"
proof -
  show "n \<le> length s"
    using assms utf8_cont_inside [of 1 s] utf8_cont_inside [of 2 s] utf8_cont_inside [of 3 s]
    by (auto simp: utf8_chunk_def Let_def Suc_le_eq split: if_splits)
  then have "\<And>i. i < n \<Longrightarrow> byte_at i (take n s @ t) = byte_at i s"
    by (simp add: byte_at_def nth_append)
  then show "utf8_chunk (take n s @ t) = (True, n)"
    using assms(1) by (auto simp: utf8_chunk_def utf8_cont_def Let_def split: if_splits)
qed

lemma utf8_chunk_replacement: "utf8_chunk (replacement_character @ t) = (True, 3)"
  by (simp add: utf8_chunk_def replacement_character_def byte_at_Cons [simplified] byte_at_Cons utf8_cont_def
      utf8_second_def Let_def)

lemma replacement_length: "length replacement_character = 3" "replacement_character \<noteq> []"
  by (simp_all add: replacement_character_def)

lemma utf8_valid_chunk:
  assumes "utf8_chunk (c @ t) = (True, length c)" and "c \<noteq> []"
  shows "utf8_valid (c @ t) = utf8_valid t"
  using assms by (subst utf8_valid.simps) simp

lemma lossy_valid: "utf8_valid (from_utf8_lossy s)"
proof (induction s rule: from_utf8_lossy.induct)
  case (1 s)
  obtain valid n where chunk: "utf8_chunk s = (valid, n)" by fastforce
  show ?case
  proof (cases "s = []")
    case False
    let ?rest = "from_utf8_lossy (drop n s)"
    have "utf8_valid ?rest" using 1 False chunk by simp
    moreover have "from_utf8_lossy s = (if valid then take n s else replacement_character) @ ?rest"
      using False chunk by (subst from_utf8_lossy.simps) simp
    moreover have "0 < n" using utf8_chunk_pos [of s] chunk by simp
    ultimately show ?thesis
      using False chunk utf8_chunk_bytes(1) [of s n] utf8_chunk_bytes(2) [of s n ?rest] utf8_valid_chunk [of "take n s" ?rest]
        utf8_valid_chunk [of replacement_character ?rest]
      by (cases valid) (auto simp: utf8_chunk_replacement replacement_length min_def)
  qed (simp add: from_utf8_lossy.simps utf8_valid.simps)
qed

lemma lossy_of_valid: "utf8_valid s \<Longrightarrow> from_utf8_lossy s = s"
proof (induction s rule: utf8_valid.induct)
  case (1 s)
  then show ?case
    by (cases "s = []"; subst from_utf8_lossy.simps) (auto simp: utf8_valid.simps [of s] split: prod.split)
qed

lemma start_session_scope:
  "start_session now instant fresh cell held (hb, W) = Some (hb', W') \<Longrightarrow>
   sc_span (ly_scope (hub_top hb')) = sc_span (ly_scope (hub_top hb)) \<and> hub_client hb' = hub_client hb"
  by (auto simp: start_session_def Let_def with_current_scope_mut_def hub_client_def split: option.splits)

lemma set_transaction_span: "sc_span (fst (scope_set_transaction name (sc, h))) = sc_span sc"
  by (simp add: scope_set_transaction_def Let_def split: option.split transaction_or_span.split)

text \<open>The error that is captured for an outcome, if any.\<close>

definition reported_error :: "actix \<Rightarrow> actix_error + actix_response \<Rightarrow> rust_error option" where
  "reported_error m res =
     (case res of
        Inl e \<Rightarrow> if ax_capture_server_errors m \<and> is_server_error (er_status e) then Some (er_error e) else None
      | Inr rs \<Rightarrow> if ax_capture_server_errors m \<and> is_server_error (rs_status rs) then rs_error rs else None)"

lemma capture_error_heap:
  "wd_heap (snd (snd (hub_capture_error dbg now fresh draw err s))) = wd_heap (snd s)"
  by (auto simp: hub_capture_error_def hub_capture_event_def Let_def set_net_def split: option.split prod.split)

text \<open>Reporting captures that error on the hub of the request, and changes at most one header.\<close>

lemma actix_report_effect:
  "snd (actix_report env m res s) =
     (case reported_error m res of
        None \<Rightarrow> s
      | Some err \<Rightarrow> snd (hub_capture_error (ae_debug_str env) (ae_now env) (ae_event env) (ae_random env) err s))"
  "fst (actix_report env m res s) =
     (case (res, reported_error m res) of
        (Inr rs, Some err) \<Rightarrow>
          (if ax_emit_header m
           then Inr (rs\<lparr>rs_headers := insert_header ''x-sentry-event''
             (ae_uuid_simple env (fst (hub_capture_error (ae_debug_str env) (ae_now env) (ae_event env) (ae_random env) err s)))
             (rs_headers rs)\<rparr>)
           else res)
      | _ \<Rightarrow> res)"
  by (auto simp: actix_report_def reported_error_def Let_def split: sum.split option.split prod.split)

lemma actix_finish_ends:
  assumes "actix_finish now t thread_scope st (Some tx) parent (hb, W) = (hb', W')"
  shows "in_transaction (hp_txns (wd_heap W') (th_inner tx)) = None"
    and "tc_status (in_context (hp_txns (wd_heap W') (th_inner tx))) =
      Some (case txn_get_status tx (wd_heap W) of Some s \<Rightarrow> s | None \<Rightarrow> st)"
    and "sc_span (ly_scope (hub_top hb')) = parent"
  using assms transaction_finish_takes
  by (auto simp: actix_finish_def Let_def configure_scope_top scope_set_span_def txn_get_status_def
      txn_set_status_def upd_txn_def upd_ctx_def split: if_splits)

lemma actix_call_facts:
  assumes "actix_call env m main r W = Some (fut, hb, W1)"
  shows "sc_span (ly_scope (hub_top hb)) = sc_span (ly_scope (hub_top (case ax_hub m of Some h \<Rightarrow> h | None \<Rightarrow> main)))"
    and "af_transaction fut \<noteq> None \<longleftrightarrow> ax_start_transaction m"
    and "hub_client hb = hub_client (case ax_hub m of Some h \<Rightarrow> h | None \<Rightarrow> main)"
proof -
  let ?hb = "hub_new_from_top (case ax_hub m of Some h \<Rightarrow> h | None \<Rightarrow> main)"
  have top: "sc_span (ly_scope (hub_top ?hb)) = sc_span (ly_scope (hub_top (case ax_hub m of Some h \<Rightarrow> h | None \<Rightarrow> main)))"
    "hub_client ?hb = hub_client (case ax_hub m of Some h \<Rightarrow> h | None \<Rightarrow> main)"
    by (simp_all add: hub_new_from_top_def hub_new_def hub_top_def hub_client_def from_client_and_scope_def)
  obtain W0 where "sc_span (ly_scope (hub_top hb)) = sc_span (ly_scope (hub_top ?hb)) \<and> hub_client hb = hub_client ?hb"
    and tx: "af_transaction fut \<noteq> None \<longleftrightarrow> ax_start_transaction m"
    using assms start_session_scope
    by (auto simp: actix_call_def Let_def split: option.splits if_splits prod.splits)
  with top show "sc_span (ly_scope (hub_top hb)) = sc_span (ly_scope (hub_top (case ax_hub m of Some h \<Rightarrow> h | None \<Rightarrow> main)))"
    "af_transaction fut \<noteq> None \<longleftrightarrow> ax_start_transaction m"
    "hub_client hb = hub_client (case ax_hub m of Some h \<Rightarrow> h | None \<Rightarrow> main)" by simp_all
qed

text \<open>The hub of the request does not matter for what its transaction is sent with.\<close>

lemma actix_transaction_ignores_request_scope:
  "snd (actix_finish now t thread_scope st tx parent (hb, W)) = snd (actix_finish now t thread_scope st tx parent (hb', W))"
  by (simp add: actix_finish_def Let_def split: option.split)

section \<open>Properties\<close>

text \<open>
  C37: What a request leaves behind. Whatever the service does, its outcome is passed on. Its error is captured on the hub
  of the request exactly when capturing is on, the status is a server error and the outcome has an error; a response whose
  error was captured gets the id of the event as its \<open>x-sentry-event\<close> header, in place of any header of that name,
  when the middleware emits it, and is unchanged otherwise. Without transactions the hub and the world are what
  the service and the capturing left. With transactions on, the one of the request is then finished in that world, with
  the status set by the service or else the one of the outcome, so it has been taken to be sent or counted, and the only
  change to the hub is that its scope has the span back that the middleware's hub had.
\<close>

theorem actix_request_handled:
  assumes "actix_call env m main r W = Some (fut, hb, W1)"
    and "svc (snd (actix_prepare env m r fut (hb, W1))) = (res, hb2, W2)"
    and "actix_run env now t thread_scope m r fut svc (hb, W1) = (res', hb', W')"
    and "err = (case res of
        Inl e \<Rightarrow> if ax_capture_server_errors m \<and> 500 \<le> er_status e \<and> er_status e < 600 then Some (er_error e) else None
      | Inr rs \<Rightarrow> if ax_capture_server_errors m \<and> 500 \<le> rs_status rs \<and> rs_status rs < 600 then rs_error rs else None)"
    and "(event_id, hb3, W3) = (case err of None \<Rightarrow> (nil_uuid, hb2, W2)
      | Some e \<Rightarrow> hub_capture_error (ae_debug_str env) (ae_now env) (ae_event env) (ae_random env) e (hb2, W2))"
    and "parent = sc_span (ly_scope (hub_top (case ax_hub m of Some h \<Rightarrow> h | None \<Rightarrow> main)))"
  shows "res' = (case res of Inl e \<Rightarrow> Inl e
      | Inr rs \<Rightarrow> if ax_emit_header m \<and> err \<noteq> None
          then Inr (rs\<lparr>rs_headers := filter (\<lambda>(k, _). k \<noteq> ''x-sentry-event'') (rs_headers rs)
            @ [(''x-sentry-event'', ae_uuid_simple env event_id)]\<rparr>) else Inr rs) \<and>
    (case af_transaction fut of
       None \<Rightarrow> \<not> ax_start_transaction m \<and> (hb', W') = (hb3, W3)
     | Some tx \<Rightarrow> ax_start_transaction m \<and>
         hb' = configure_scope (scope_set_span parent) hb3 \<and> sc_span (ly_scope (hub_top hb')) = parent \<and>
         W' = transaction_finish now t thread_scope tx (set_heap
           (if txn_get_status tx (wd_heap W2) = None
            then txn_set_status (case res of Inl _ \<Rightarrow> UnknownError | Inr rs \<Rightarrow> map_status (rs_status rs)) tx (wd_heap W2)
            else wd_heap W2) W3) \<and>
         in_transaction (hp_txns (wd_heap W') (th_inner tx)) = None \<and>
         tc_status (in_context (hp_txns (wd_heap W') (th_inner tx))) =
           Some (case txn_get_status tx (wd_heap W2) of Some st \<Rightarrow> st
             | None \<Rightarrow> (case res of Inl _ \<Rightarrow> UnknownError | Inr rs \<Rightarrow> map_status (rs_status rs))))"
proof -
  have err: "err = reported_error m res"
    unfolding assms(4) reported_error_def is_server_error_def by (cases res) simp_all
  obtain p s1 where prep: "actix_prepare env m r fut (hb, W1) = (p, s1)" by (rule prod.exhaust)
  have p: "p = parent"
    using prep actix_call_facts(1) [OF assms(1)] by (auto simp: actix_prepare_def assms(6) Let_def split: prod.splits)
  obtain res1 where report: "actix_report env m res (hb2, W2) = (res1, hb3, W3)"
  proof -
    obtain r1 s3 where pair: "actix_report env m res (hb2, W2) = (r1, s3)" by (rule prod.exhaust)
    have "s3 = (hb3, W3)"
      using actix_report_effect(1) [of env m res "(hb2, W2)"] assms(5) unfolding pair err
      by (cases "reported_error m res") (auto dest: arg_cong [where f = snd])
    with pair that show thesis by simp
  qed
  have run: "res' = res1"
    "actix_finish now t thread_scope (outcome_status res) (af_transaction fut) parent (hb3, W3) = (hb', W')"
    using assms(2,3) by (auto simp: actix_run_def prep report p)
  have heap: "wd_heap W3 = wd_heap W2"
    using assms(5) capture_error_heap [where s = "(hb2, W2)"] by (metis (no_types, lifting) option.case_eq_if snd_conv)
  have "case af_transaction fut of
       None \<Rightarrow> \<not> ax_start_transaction m \<and> (hb', W') = (hb3, W3)
     | Some tx \<Rightarrow> ax_start_transaction m \<and>
         hb' = configure_scope (scope_set_span parent) hb3 \<and> sc_span (ly_scope (hub_top hb')) = parent \<and>
         W' = transaction_finish now t thread_scope tx (set_heap
           (if txn_get_status tx (wd_heap W2) = None then txn_set_status (outcome_status res) tx (wd_heap W2)
            else wd_heap W2) W3) \<and>
         in_transaction (hp_txns (wd_heap W') (th_inner tx)) = None \<and>
         tc_status (in_context (hp_txns (wd_heap W') (th_inner tx))) =
           Some (case txn_get_status tx (wd_heap W2) of Some st \<Rightarrow> st | None \<Rightarrow> outcome_status res)"
  proof (cases "af_transaction fut")
    case None
    with run(2) actix_call_facts(2) [OF assms(1)] show ?thesis by (simp add: actix_finish_def)
  next
    case (Some tx)
    with actix_finish_ends [OF run(2) [unfolded Some]] actix_call_facts(2) [OF assms(1)] heap
    show ?thesis using run(2) by (auto simp: actix_finish_def Let_def)
  qed
  moreover have "res' = (case res of Inl e \<Rightarrow> Inl e
      | Inr rs \<Rightarrow> if ax_emit_header m \<and> err \<noteq> None
          then Inr (rs\<lparr>rs_headers := filter (\<lambda>(k, _). k \<noteq> ''x-sentry-event'') (rs_headers rs)
            @ [(''x-sentry-event'', ae_uuid_simple env event_id)]\<rparr>) else Inr rs)"
    using actix_report_effect(2) [of env m res "(hb2, W2)"] arg_cong [OF assms(5), of fst]
    unfolding run report fst_conv err
    by (cases res; cases "reported_error m res") (simp_all add: insert_header_def split: if_splits)
  ultimately show ?thesis unfolding outcome_status_def by blast
qed

definition sample_actix_env :: actix_env where
  "sample_actix_env = \<lparr>ae_url_text = (\<lambda>_. []), ae_setters = sample_setters, ae_hex = sample_hex, ae_debug_str = id,
     ae_uuid_simple = (\<lambda>_. []), ae_version = ''1'', ae_now = 0, ae_instant = 0, ae_session_id = 0, ae_cell = 0,
     ae_held = (\<lambda>_. True), ae_trace = [], ae_span = [], ae_event = 0, ae_random = Fin 0\<rparr>"

definition sample_actix_request :: actix_request where
  "sample_actix_request = \<lparr>ar_http = sample_request, ar_match_pattern = None, ar_remote_addr = None, ar_body = None\<rparr>"

definition failing_service :: "hub \<times> world \<Rightarrow> (actix_error + actix_response) \<times> hub \<times> world" where
  "failing_service s = (Inr \<lparr>rs_status = 503, rs_error = Some (RustError ''E'' ''failed'' None), rs_headers = []\<rparr>, s)"

lemma actix_request_handled_witness:
  "\<exists>fut hb W1 tx res' hb' W'.
     actix_call sample_actix_env actix_with_transaction sample_hub sample_actix_request dsn_world = Some (fut, hb, W1) \<and>
     actix_run sample_actix_env 0 9 (scope_default 0 [] []) actix_with_transaction sample_actix_request fut
       failing_service (hb, W1) = (res', hb', W') \<and>
     af_transaction fut = Some tx \<and> in_transaction (hp_txns (wd_heap W') (th_inner tx)) = None"
proof -
  have "actix_call sample_actix_env actix_with_transaction sample_hub sample_actix_request dsn_world \<noteq> None"
    by (simp add: actix_call_def Let_def actix_with_transaction_def actix_new_def sample_hub_def hub_new_from_top_def
        hub_new_def hub_top_def hub_client_def from_client_and_scope_def dsn_world_def tracks_sessions_def
        sample_client_def options_default_def split: prod.split)
  then obtain fut hb W1 where call:
    "actix_call sample_actix_env actix_with_transaction sample_hub sample_actix_request dsn_world = Some (fut, hb, W1)"
    by auto
  obtain res hb2 W2 where svc: "failing_service (snd (actix_prepare sample_actix_env actix_with_transaction
      sample_actix_request fut (hb, W1))) = (res, hb2, W2)" by (metis prod.exhaust)
  obtain res' hb' W' where run: "actix_run sample_actix_env 0 9 (scope_default 0 [] []) actix_with_transaction
      sample_actix_request fut failing_service (hb, W1) = (res', hb', W')" by (metis prod.exhaust)
  have split: "(fst x, fst (snd x), snd (snd x)) = x" for x :: "uuid \<times> hub \<times> world" by simp
  show ?thesis
    using actix_request_handled [OF call svc run refl split refl] call run
    by (cases "af_transaction fut") (auto simp: actix_with_transaction_def)
qed

end
