(* ===== verification/TracingLayer.thy ===== *)
theory TracingLayer
  imports Api
begin

text \<open>
  The layer that turns spans of the \<open>tracing\<close> crate into transactions and spans
  (\<open>sentry-tracing/src/layer/mod.rs\<close>, \<open>layer/span_guard_stack.rs\<close>): one step per callback, on
  the state of a thread. What \<open>tracing\<close> hands over (ids, metadata, recorded fields) is an
  input; a field value is the JSON it is recorded as.
\<close>

section \<open>What tracing hands over\<close>

datatype tracing_level = TTrace | TDebug | TInfo | TWarn | TError

record metadata =
  md_level :: tracing_level
  md_name :: string
  md_target :: string
  md_module_path :: "string option"
  md_file :: "string option"
  md_line :: "nat option"

fun default_span_filter_level :: "tracing_level \<Rightarrow> bool" where
  "default_span_filter_level TError = True"
| "default_span_filter_level TWarn = True"
| "default_span_filter_level TInfo = True"
| "default_span_filter_level _ = False"

definition default_span_filter :: "metadata \<Rightarrow> bool" where
  "default_span_filter m = default_span_filter_level (md_level m)"

section \<open>Span guards\<close>

text \<open>Per span a stack of switch guards, the newest last; a stack that is empty is removed.\<close>

type_synonym span_guards = "nat \<Rightarrow> nat option list option"

definition guards_new :: span_guards where
  "guards_new = (\<lambda>_. None)"

definition guards_push :: "nat \<Rightarrow> nat option \<Rightarrow> span_guards \<Rightarrow> span_guards" where
  "guards_push i g m = m(i := Some ((case m i of Some st \<Rightarrow> st | None \<Rightarrow> []) @ [g]))"

definition guards_pop :: "nat \<Rightarrow> span_guards \<Rightarrow> nat option option \<times> span_guards" where
  "guards_pop i m =
     (case m i of
        None \<Rightarrow> (None, m)
      | Some st \<Rightarrow>
          (let g = (if st = [] then None else Some (last st));
               rest = butlast st
           in (g, m(i := if rest = [] then None else Some rest))))"

section \<open>The state of a thread\<close>

text \<open>Hubs live at addresses; \<open>tl_ext\<close> is what the layer attached to the spans.\<close>

record span_data =
  sd_span :: transaction_or_span
  sd_hub :: nat

record layer =
  tl_hubs :: "nat \<Rightarrow> hub"
  tl_next :: nat
  tl_current :: nat
  tl_ext :: "nat \<Rightarrow> span_data option"
  tl_guards :: span_guards
  tl_world :: world

definition on_heap :: "(heap \<Rightarrow> heap) \<Rightarrow> layer \<Rightarrow> layer" where
  "on_heap f s = s\<lparr>tl_world := set_heap (f (wd_heap (tl_world s))) (tl_world s)\<rparr>"

section \<open>Fields\<close>

definition strip_prefix_str :: "string \<Rightarrow> string \<Rightarrow> string option" where
  "strip_prefix_str p s = (if take (length p) s = p then Some (drop (length p) s) else None)"

definition tags_prefix :: string where
  "tags_prefix = ''tags.''"

text \<open>The text of a value that can be a tag.\<close>

fun tag_text :: "json \<Rightarrow> string option" where
  "tag_text (JBool b) = Some (if b then ''true'' else ''false'')"
| "tag_text (JNumber n) = Some n"
| "tag_text (JString s) = Some s"
| "tag_text _ = None"

definition record_field :: "transaction_or_span \<Rightarrow> string \<times> json \<Rightarrow> heap \<Rightarrow> heap" where
  "record_field ts kv h =
     (case strip_prefix_str tags_prefix (fst kv) of
        Some stripped_key \<Rightarrow>
          (case tag_text (snd kv) of
             Some text \<Rightarrow> ts_set_tag stripped_key text ts h
           | None \<Rightarrow> ts_set_data (fst kv) (snd kv) ts h)
      | None \<Rightarrow> ts_set_data (fst kv) (snd kv) ts h)"

definition record_fields :: "transaction_or_span \<Rightarrow> json smap \<Rightarrow> heap \<Rightarrow> heap" where
  "record_fields ts fs h = foldl (\<lambda>h kv. record_field ts kv h) h fs"

definition set_opt_data :: "string \<Rightarrow> json option \<Rightarrow> transaction_or_span \<Rightarrow> heap \<Rightarrow> heap" where
  "set_opt_data k v ts h = (case v of Some x \<Rightarrow> ts_set_data k x ts h | None \<Rightarrow> h)"

definition set_default_attributes :: "metadata \<Rightarrow> transaction_or_span \<Rightarrow> heap \<Rightarrow> heap" where
  "set_default_attributes m ts h =
     (let h1 = ts_set_data ''sentry.tracing.target'' (JString (md_target m)) ts h;
          h2 = set_opt_data ''code.module.name'' (map_option JString (md_module_path m)) ts h1;
          h3 = set_opt_data ''code.file.path'' (map_option JString (md_file m)) ts h2
      in set_opt_data ''code.line.number'' (map_option (\<lambda>n. JNumber (show_nat n)) (md_line m)) ts h3)"

fun string_value :: "json \<Rightarrow> string option" where
  "string_value (JString s) = Some s"
| "string_value _ = None"

text \<open>Taking a field out: it is removed even when it is not a string.\<close>

definition take_string :: "string \<Rightarrow> json smap \<Rightarrow> string option \<times> json smap" where
  "take_string k fs = (Option.bind (map_of fs k) string_value, sm_remove k fs)"

text \<open>Name, operation, trace header, and the other fields.\<close>

definition extract_span_data ::
  "json smap \<Rightarrow> json smap \<times> string option \<times> string option \<times> string option" where
  "extract_span_data fs =
     (let (name, f1) = take_string ''sentry.name'' fs;
          (op, f2) = take_string ''sentry.op'' f1;
          (trace, f3) = take_string ''sentry.trace'' f2
      in (f3, name, op, trace))"

section \<open>Callbacks\<close>

text \<open>What a new sentry span draws: ids, a time, a random number.\<close>

record draws =
  dr_trace :: trace_id
  dr_span :: span_id
  dr_event :: uuid
  dr_now :: systime
  dr_random :: flt

definition new_root ::
  "hex_codec \<Rightarrow> draws \<Rightarrow> string \<Rightarrow> string \<Rightarrow> string option \<Rightarrow> hub \<Rightarrow> world \<Rightarrow> transaction_or_span \<times> world" where
  "new_root hx d name op trace current W =
     (let ctx = (case trace of
            Some header \<Rightarrow> continue_from_headers hx (dr_trace d) (dr_span d) name op [(''sentry-trace'', header)]
          | None \<Rightarrow> tcx_new (dr_trace d) (dr_span d) name op);
          (tx, W') = start_transaction (dr_trace d) (dr_event d) (dr_now d) (dr_random d) current ctx W
      in (TxHandle tx, set_heap (txn_set_origin ''auto.tracing'' tx (wd_heap W')) W'))"

definition on_new_span ::
  "hex_codec \<Rightarrow> (metadata \<Rightarrow> bool) \<Rightarrow> draws \<Rightarrow> metadata \<Rightarrow> json smap \<Rightarrow> nat \<Rightarrow> layer \<Rightarrow> layer" where
  "on_new_span hx span_filter d m fs i s =
     (if \<not> span_filter m then s
      else
        (let (data, name', op', trace) = extract_span_data fs;
             name = (case name' of Some n \<Rightarrow> n | None \<Rightarrow> md_name m);
             op = (case op' of Some x \<Rightarrow> x | None \<Rightarrow> md_target m @ ''::'' @ md_name m);
             current = tl_hubs s (tl_current s);
             (ts, W) =
               (case sc_span (ly_scope (hub_top current)) of
                  Some parent \<Rightarrow>
                    (let (child, h) = ts_start_child (dr_span d) (dr_trace d) (dr_now d) op name parent
                           (wd_heap (tl_world s))
                     in (SpHandle child, set_heap h (tl_world s)))
                | None \<Rightarrow> new_root hx d name op trace current (tl_world s));
             h' = set_default_attributes m ts (record_fields ts data (wd_heap W))
         in s\<lparr>tl_world := set_heap h' W, tl_ext := (tl_ext s)(i := Some \<lparr>sd_span = ts, sd_hub = tl_current s\<rparr>)\<rparr>))"

definition alloc_hub :: "hub \<Rightarrow> layer \<Rightarrow> nat \<times> layer" where
  "alloc_hub hb s = (tl_next s, s\<lparr>tl_hubs := (tl_hubs s)(tl_next s := hb), tl_next := Suc (tl_next s)\<rparr>)"

definition on_enter :: "nat \<Rightarrow> layer \<Rightarrow> layer" where
  "on_enter i s =
     (case tl_ext s i of
        None \<Rightarrow> s
      | Some data \<Rightarrow>
          (let hb = configure_scope (scope_set_span (Some (sd_span data)))
                 (hub_new_from_top (tl_hubs s (sd_hub data)));
               (a, s1) = alloc_hub hb s;
               (g, installed) = switch_guard_new a (tl_current s1)
           in s1\<lparr>tl_current := installed, tl_guards := guards_push i g (tl_guards s1)\<rparr>))"

definition on_exit :: "nat \<Rightarrow> layer \<Rightarrow> layer" where
  "on_exit i s =
     (case guards_pop i (tl_guards s) of
        (popped, rest) \<Rightarrow>
          s\<lparr>tl_guards := rest,
            tl_current := (case popped of Some g \<Rightarrow> switch_guard_drop g (tl_current s)
                           | None \<Rightarrow> tl_current s)\<rparr>)"

text \<open>Finishing reads the scope of the current hub.\<close>

definition on_close :: "systime \<Rightarrow> systime \<Rightarrow> nat \<Rightarrow> layer \<Rightarrow> layer" where
  "on_close now timestamp i s =
     (case tl_ext s i of
        None \<Rightarrow> s
      | Some data \<Rightarrow>
          s\<lparr>tl_ext := (tl_ext s)(i := None),
            tl_world := ts_finish now timestamp (ly_scope (hub_top (tl_hubs s (tl_current s))))
              (sd_span data) (tl_world s)\<rparr>)"

definition on_record :: "json smap \<Rightarrow> nat \<Rightarrow> layer \<Rightarrow> layer" where
  "on_record fs i s =
     (case tl_ext s i of
        None \<Rightarrow> s
      | Some data \<Rightarrow>
          (let (rest, name, op, _) = extract_span_data fs;
               ts = sd_span data;
               set_n = (case name of Some n \<Rightarrow> ts_set_name n ts | None \<Rightarrow> id);
               set_o = (case op of Some x \<Rightarrow> ts_set_op x ts | None \<Rightarrow> id)
           in on_heap (\<lambda>h. record_fields ts rest (set_o (set_n h))) s))"

section \<open>Spans around code\<close>

text \<open>
  Code of one thread: changes of the current hub and the world, and bodies run inside a span.
  A span may be entered again inside itself.
\<close>

datatype span_prog =
    OnHub "hub \<times> world \<Rightarrow> hub \<times> world"
  | InSpan nat "span_prog list"

fun run_span :: "span_prog \<Rightarrow> layer \<Rightarrow> layer"
  and run_spans :: "span_prog list \<Rightarrow> layer \<Rightarrow> layer" where
  "run_span (OnHub f) s =
     (case f (tl_hubs s (tl_current s), tl_world s) of
        (hb, W) \<Rightarrow> s\<lparr>tl_hubs := (tl_hubs s)(tl_current s := hb), tl_world := W\<rparr>)"
| "run_span (InSpan i ps) s = on_exit i (run_spans ps (on_enter i s))"
| "run_spans [] s = s"
| "run_spans (p # ps) s = run_spans ps (run_span p s)"

fun in_sentry_span :: "layer \<Rightarrow> span_prog \<Rightarrow> bool" where
  "in_sentry_span s (InSpan i _) = (tl_ext s i \<noteq> None)"
| "in_sentry_span s (OnHub _) = False"

definition guards_ok :: "layer \<Rightarrow> bool" where
  "guards_ok s =
     ((\<forall>i. tl_guards s i \<noteq> Some [] \<and> (tl_ext s i = None \<longrightarrow> tl_guards s i = None)) \<and>
      tl_current s < tl_next s)"

text \<open>What a program keeps of the state it started in; \<open>P\<close> says when the current hub is kept too.\<close>

definition kept :: "bool \<Rightarrow> layer \<Rightarrow> layer \<Rightarrow> bool" where
  "kept P s s' =
     (tl_current s' = tl_current s \<and> tl_guards s' = tl_guards s \<and> tl_ext s' = tl_ext s \<and>
      tl_next s \<le> tl_next s' \<and>
      (\<forall>a<tl_next s. a = tl_current s \<longrightarrow> P \<longrightarrow> tl_hubs s' a = tl_hubs s a) \<and>
      (\<forall>a<tl_next s. a \<noteq> tl_current s \<longrightarrow> tl_hubs s' a = tl_hubs s a))"

lemma kept_refl: "kept P s s"
  by (simp add: kept_def)

lemma kept_ok: "kept P s s' \<Longrightarrow> guards_ok s \<Longrightarrow> guards_ok s'"
  by (auto simp: kept_def guards_ok_def)

lemma kept_trans: "kept P s s1 \<Longrightarrow> kept Q s1 s2 \<Longrightarrow> kept (P \<and> Q) s s2"
  by (simp add: kept_def)

lemma guards_pop_push:
  "m i \<noteq> Some [] \<Longrightarrow> guards_pop i (guards_push i g m) = (Some g, m)"
  by (auto simp: guards_pop_def guards_push_def Let_def fun_eq_iff split: option.splits)

lemma enter_sentry_span:
  assumes "tl_ext s i \<noteq> None" "guards_ok s"
  shows "\<exists>g. switch_guard_new (tl_next s) (tl_current s) = (g, tl_current (on_enter i s)) \<and>
           tl_guards (on_enter i s) = guards_push i g (tl_guards s) \<and>
           tl_current (on_enter i s) = tl_next s \<and> tl_next (on_enter i s) = Suc (tl_next s) \<and>
           tl_ext (on_enter i s) = tl_ext s \<and> guards_ok (on_enter i s) \<and>
           (\<forall>a<tl_next s. tl_hubs (on_enter i s) a = tl_hubs s a)"
  using assms
  by (auto simp: on_enter_def alloc_hub_def switch_guard_new_def guards_ok_def guards_push_def
      split: option.splits)

lemma exit_sentry_span:
  assumes "tl_ext s i \<noteq> None" "guards_ok s" "kept P (on_enter i s) t"
  shows "kept True s (on_exit i t)"
proof -
  obtain g where g: "switch_guard_new (tl_next s) (tl_current s) = (g, tl_current (on_enter i s))"
    and guards: "tl_guards (on_enter i s) = guards_push i g (tl_guards s)"
    and rest: "tl_current (on_enter i s) = tl_next s" "tl_next (on_enter i s) = Suc (tl_next s)"
      "tl_ext (on_enter i s) = tl_ext s" "\<forall>a<tl_next s. tl_hubs (on_enter i s) a = tl_hubs s a"
    using enter_sentry_span [OF assms(1,2)] by blast
  have pop: "guards_pop i (tl_guards t) = (Some g, tl_guards s)"
    using assms(2,3) guards by (simp add: kept_def guards_ok_def guards_pop_push)
  have "switch_guard_drop g (tl_current t) = tl_current s"
    using switches.leave_enter [OF g] assms(3) by (simp add: kept_def)
  then show ?thesis
    using pop rest assms(3) by (simp add: kept_def on_exit_def)
qed

lemma plain_span:
  assumes "tl_ext s i = None" "guards_ok s"
  shows "on_enter i s = s" "kept P s t \<Longrightarrow> on_exit i t = t"
  using assms by (auto simp: on_enter_def on_exit_def guards_pop_def guards_ok_def kept_def)

lemma in_sentry_span_kept: "kept P s t \<Longrightarrow> in_sentry_span t = in_sentry_span s"
proof (rule ext)
  fix p
  assume "kept P s t"
  then show "in_sentry_span t p = in_sentry_span s p"
    by (cases p) (simp_all add: kept_def)
qed

lemma run_span_keeps:
  "guards_ok s \<Longrightarrow> kept (in_sentry_span s p) s (run_span p s)"
  "guards_ok s \<Longrightarrow> kept (list_all (in_sentry_span s) ps) s (run_spans ps s)"
proof (induction p s and ps s rule: run_span_run_spans.induct)
  case (1 f s)
  show ?case by (simp add: kept_def split: prod.split)
next
  case (2 i ps s)
  show ?case
  proof (cases "tl_ext s i = None")
    case True
    have body: "kept (list_all (in_sentry_span s) ps) s (run_spans ps s)"
      using 2 plain_span(1) [OF True 2(2)] by simp
    then have "run_span (InSpan i ps) s = run_spans ps s"
      using plain_span(1) [OF True 2(2)] plain_span(2) [OF True 2(2) body] by simp
    with body True show ?thesis by (simp add: kept_def)
  next
    case False
    have "guards_ok (on_enter i s)"
      using enter_sentry_span [OF False 2(2)] by blast
    then show ?thesis
      using exit_sentry_span [OF False 2(2) 2(1)] False by simp
  qed
next
  case (3 s)
  show ?case by (simp add: kept_refl)
next
  case (4 p ps s)
  have step: "kept (in_sentry_span s p) s (run_span p s)"
    using 4 by blast
  have "kept (list_all (in_sentry_span s) ps) (run_span p s) (run_spans ps (run_span p s))"
    using 4(2) [OF kept_ok [OF step 4(3)]] by (simp add: in_sentry_span_kept [OF step])
  from kept_trans [OF step this] show ?case by simp
qed

text \<open>
  Exits have to mirror the enters: when two spans are exited in the order they were entered, the
  hub of the first one stays installed, and its guard is gone.
\<close>

lemma crossed_exits:
  assumes "guards_ok s" "tl_ext s i \<noteq> None" "tl_ext s j \<noteq> None" "i \<noteq> j"
  shows "tl_current (on_exit j (on_exit i (on_enter j (on_enter i s)))) = tl_next s \<and>
         tl_guards (on_exit j (on_exit i (on_enter j (on_enter i s)))) = tl_guards s"
proof -
  let ?s1 = "on_enter i s" and ?s2 = "on_enter j (on_enter i s)"
  obtain g where g: "switch_guard_new (tl_next s) (tl_current s) = (g, tl_current ?s1)"
    "tl_guards ?s1 = guards_push i g (tl_guards s)" "tl_current ?s1 = tl_next s"
    "tl_ext ?s1 = tl_ext s" "guards_ok ?s1"
    using enter_sentry_span [OF assms(2,1)] by blast
  obtain h where h: "switch_guard_new (tl_next ?s1) (tl_current ?s1) = (h, tl_current ?s2)"
    "tl_guards ?s2 = guards_push j h (tl_guards ?s1)" "tl_current ?s2 = tl_next ?s1"
    using enter_sentry_span [of ?s1 j] g(4,5) assms(3) by auto
  have "guards_pop i (tl_guards ?s2) = (Some g, guards_push j h (tl_guards s))"
    using assms(1,4)
    by (auto simp: h(2) g(2) guards_pop_def guards_push_def Let_def fun_eq_iff guards_ok_def
        split: option.splits)
  moreover have "guards_pop j (guards_push j h (tl_guards s)) = (Some h, tl_guards s)"
    using assms(1) by (simp add: guards_pop_push guards_ok_def)
  moreover have "h = Some (tl_next s)"
    using h(1,3) g(3) assms(1) g(5) by (auto simp: switch_guard_new_def guards_ok_def split: if_splits)
  ultimately show ?thesis
    by (simp add: on_exit_def switch_guard_drop_def)
qed

text \<open>
  C26: Spans that are entered and exited around code in a balanced way, on one thread, restore
  the thread's hub and the stacks of guards, also when spans are entered again inside themselves. Inside them the code may
  change the current hub and the world in any way, and enter further spans that were made before. No hub that existed before is changed by code running inside
  a sentry span: entering forks the hub, so nothing done there leaks out; code outside sentry
  spans changes the current hub only.
\<close>

theorem spans_restore_hubs:
  assumes "guards_ok s"
  shows "tl_current (run_spans ps s) = tl_current s \<and> tl_guards (run_spans ps s) = tl_guards s \<and>
         (\<forall>a<tl_next s. a \<noteq> tl_current s \<or> list_all (in_sentry_span s) ps \<longrightarrow>
            tl_hubs (run_spans ps s) a = tl_hubs s a)"
  using run_span_keeps(2) [OF assms, of ps] by (auto simp: kept_def)

definition sample_layer :: layer where
  "sample_layer = \<lparr>tl_hubs = (\<lambda>_. sample_hub), tl_next = 1, tl_current = 0,
     tl_ext = (\<lambda>i. if i = 7 then Some \<lparr>sd_span = SpHandle (tiny_span 0), sd_hub = 0\<rparr> else None),
     tl_guards = guards_new, tl_world = tiny_world\<rparr>"

lemma spans_restore_hubs_witness:
  "tl_hubs (run_spans [InSpan 7 [OnHub (\<lambda>(hb, W). (hb\<lparr>hb_last_event_id := Some 5\<rparr>, W)), InSpan 7 []]]
     sample_layer) 0 = sample_hub"
proof -
  have "guards_ok sample_layer"
    by (simp add: guards_ok_def sample_layer_def guards_new_def)
  then show ?thesis
    using spans_restore_hubs [where s = sample_layer
        and ps = "[InSpan 7 [OnHub (\<lambda>(hb, W). (hb\<lparr>hb_last_event_id := Some 5\<rparr>, W)), InSpan 7 []]]"]
    by (auto simp: sample_layer_def)
qed

end
