(* ===== verification/TracingEvents.thy ===== *)
theory TracingEvents
  imports TracingLayer
begin

text \<open>
  Events of the \<open>tracing\<close> crate as breadcrumbs, events and logs: the conversions of
  \<open>sentry-tracing/src/converters.rs\<close> and the layer's \<open>on_event\<close>
  (\<open>sentry-tracing/src/layer/mod.rs\<close>), with the features \<open>logs\<close> and \<open>backtrace\<close>.
\<close>

section \<open>Levels\<close>

fun level_to_sentry_level :: "tracing_level \<Rightarrow> level" where
  "level_to_sentry_level TTrace = Debug"
| "level_to_sentry_level TDebug = Debug"
| "level_to_sentry_level TInfo = Info"
| "level_to_sentry_level TWarn = Warning"
| "level_to_sentry_level TError = Error"

fun level_to_log_level :: "tracing_level \<Rightarrow> log_level" where
  "level_to_log_level TTrace = LTrace"
| "level_to_log_level TDebug = LDebug"
| "level_to_log_level TInfo = LInfo"
| "level_to_log_level TWarn = LWarn"
| "level_to_log_level TError = LError"

fun level_to_exception_type :: "tracing_level \<Rightarrow> string" where
  "level_to_exception_type TTrace = ''tracing::trace!''"
| "level_to_exception_type TDebug = ''tracing::debug!''"
| "level_to_exception_type TInfo = ''tracing::info!''"
| "level_to_exception_type TWarn = ''tracing::warn!''"
| "level_to_exception_type TError = ''tracing::error!''"

section \<open>Recording fields\<close>

text \<open>
  A field is an error or a value; values are the JSON they convert to, a \<open>Debug\<close> value its text.
\<close>

datatype field_value = FieldJson json | FieldError rust_error

text \<open>An event, with the spans it happened in: ids and names, the innermost first.\<close>

record tracing_event =
  te_metadata :: metadata
  te_fields :: "(string \<times> field_value) list"
  te_spans :: "(nat \<times> string) list"

text \<open>What the process supplies: how strings print, fresh ids, the clock, the thread.\<close>

record event_env =
  ee_debug_str :: "string \<Rightarrow> string"
  ee_hex :: hex_codec
  ee_event_id :: uuid
  ee_fresh :: uuid
  ee_now :: systime
  ee_random :: flt
  ee_thread :: sthread

record field_visitor =
  fv_json_values :: "json smap"
  fv_exceptions :: "exception list"
  fv_store_errors_in_values :: bool

definition fv_record :: "string \<Rightarrow> json \<Rightarrow> field_visitor \<Rightarrow> field_visitor" where
  "fv_record k v fv = fv\<lparr>fv_json_values := sm_insert k v (fv_json_values fv)\<rparr>"

definition record_error :: "event_env \<Rightarrow> string \<Rightarrow> rust_error \<Rightarrow> field_visitor \<Rightarrow> field_visitor" where
  "record_error env k err fv =
     (let exceptions = ev_exception (event_from_error (ee_debug_str env) (ee_fresh env) (ee_now env) err)
      in if fv_store_errors_in_values fv
         then fv_record k (JArray (map JString (List.map_filter
                (\<lambda>x. map_option (\<lambda>v. exc_ty x @ '': '' @ v) (exc_value x)) (rev exceptions)))) fv
         else fv\<lparr>fv_exceptions := fv_exceptions fv @ exceptions\<rparr>)"

fun record_value :: "event_env \<Rightarrow> string \<times> field_value \<Rightarrow> field_visitor \<Rightarrow> field_visitor" where
  "record_value env (k, FieldJson v) fv = fv_record k v fv"
| "record_value env (k, FieldError err) fv = record_error env k err fv"

definition extract_event_data ::
  "event_env \<Rightarrow> tracing_event \<Rightarrow> bool \<Rightarrow> string option \<times> field_visitor" where
  "extract_event_data env e store =
     (let fv = fold (record_value env) (te_fields e)
            \<lparr>fv_json_values = [], fv_exceptions = [], fv_store_errors_in_values = store\<rparr>;
          m = fv_json_values fv;
          (found, rest) =
            (case map_of m ''message'' of
               Some v \<Rightarrow> (Some v, sm_remove ''message'' m)
             | None \<Rightarrow> (map_of m ''error'', sm_remove ''error'' m))
      in (Option.bind found string_value, fv\<lparr>fv_json_values := rest\<rparr>))"

definition is_sentry_span_attribute :: "string \<Rightarrow> bool" where
  "is_sentry_span_attribute k =
     (k \<in> {''sentry.tracing.target'', ''code.module.name'', ''code.file.path'', ''code.line.number''})"

fun ts_data_iter :: "transaction_or_span \<Rightarrow> heap \<Rightarrow> json smap" where
  "ts_data_iter (TxHandle t) h = txn_data_iter t h"
| "ts_data_iter (SpHandle sp) h = sp_data (hp_spans h (sh_span sp))"

definition add_span_fields :: "layer \<Rightarrow> nat \<times> string \<Rightarrow> json smap \<Rightarrow> json smap" where
  "add_span_fields s i_name m =
     (case tl_ext s (fst i_name) of
        None \<Rightarrow> m
      | Some data \<Rightarrow>
          fold (\<lambda>(k, v) m.
                  if is_sentry_span_attribute k then m
                  else if k \<noteq> ''message'' then sm_insert (snd i_name @ '':'' @ k) v m else m)
            (ts_data_iter (sd_span data) (wd_heap (tl_world s))) m)"

text \<open>\<open>ctx\<close> is whether the attributes of the spans are wanted.\<close>

definition extract_event_data_with_context ::
  "event_env \<Rightarrow> bool \<Rightarrow> layer \<Rightarrow> tracing_event \<Rightarrow> bool \<Rightarrow> string option \<times> field_visitor" where
  "extract_event_data_with_context env ctx s e store =
     (let (message, fv) = extract_event_data env e store;
          spans = (if ctx then te_spans e else [])
      in (message, fv\<lparr>fv_json_values := fold (add_span_fields s) spans (fv_json_values fv)\<rparr>))"

section \<open>Conversions\<close>

definition breadcrumb_from_event :: "event_env \<Rightarrow> bool \<Rightarrow> layer \<Rightarrow> tracing_event \<Rightarrow> breadcrumb" where
  "breadcrumb_from_event env ctx s e =
     (let (message, fv) = extract_event_data_with_context env ctx s e True
      in (breadcrumb_default (ee_now env))
           \<lparr>bc_category := Some (md_target (te_metadata e)), bc_ty := ''log'',
            bc_level := level_to_sentry_level (md_level (te_metadata e)),
            bc_message := message, bc_data := fv_json_values fv\<rparr>)"

text \<open>The closure of \<open>retain\<close>: whether the field stays, and the tag it leaves.\<close>

definition retain_field :: "string \<Rightarrow> json \<Rightarrow> bool \<times> (string \<times> string) option" where
  "retain_field k v =
     (case strip_prefix_str tags_prefix k of
        None \<Rightarrow> (True, None)
      | Some tag \<Rightarrow>
          (case v of
             JBool b \<Rightarrow> (False, Some (tag, if b then ''true'' else ''false''))
           | JNumber n \<Rightarrow> (False, Some (tag, n))
           | JString t \<Rightarrow> (False, Some (tag, t))
           | JNull \<Rightarrow> (False, None)
           | JArray _ \<Rightarrow> (True, None)
           | JObject _ \<Rightarrow> (True, None)))"

fun extract_and_remove_tags :: "json smap \<Rightarrow> string smap \<Rightarrow> string smap \<times> json smap" where
  "extract_and_remove_tags [] tags = (tags, [])"
| "extract_and_remove_tags ((k, v) # m) tags =
     (case retain_field k v of
        (stays, tag) \<Rightarrow>
          (case extract_and_remove_tags m (case tag of Some (t, x) \<Rightarrow> sm_insert t x tags | None \<Rightarrow> tags) of
             (tags', rest) \<Rightarrow> (tags', if stays then (k, v) # rest else rest)))"

definition opt_insert :: "string \<Rightarrow> 'v option \<Rightarrow> 'v smap \<Rightarrow> 'v smap" where
  "opt_insert k v m = (case v of Some x \<Rightarrow> sm_insert k x m | None \<Rightarrow> m)"

definition contexts_from_event :: "metadata \<Rightarrow> json smap \<Rightarrow> ctx smap" where
  "contexts_from_event md fs =
     (let location_map =
            opt_insert ''line'' (map_option (\<lambda>n. JNumber (show_nat n)) (md_line md))
              (opt_insert ''file'' (map_option JString (md_file md))
                (opt_insert ''module_path'' (map_option JString (md_module_path md)) []));
          context = (if fs \<noteq> [] then sm_insert ''Rust Tracing Fields'' (CtxOther fs) [] else [])
      in if location_map \<noteq> [] then sm_insert ''Rust Tracing Location'' (CtxOther location_map) context
         else context)"

definition mechanism_default :: mechanism where
  "mechanism_default = \<lparr>mech_ty = [], mech_description = None, mech_help_link = None, mech_handled = None,
     mech_synthetic = None, mech_data = [],
     mech_meta = \<lparr>mm_errno = None, mm_signal = None, mm_mach_exception = None\<rparr>\<rparr>"

text \<open>The message becomes a synthetic exception when there is an error and traces are attached.\<close>

definition wrap_message ::
  "event_env \<Rightarrow> layer \<Rightarrow> metadata \<Rightarrow> string option \<times> exception list \<Rightarrow> string option \<times> exception list" where
  "wrap_message env s md p =
     (if snd p \<noteq> [] \<and> fst p \<noteq> None then
        (case hub_client (tl_hubs s (tl_current s)) of
           None \<Rightarrow> p
         | Some a \<Rightarrow>
             if co_attach_stacktrace (cl_options (wd_clients (tl_world s) a)) then
               (None, snd p @ [\<lparr>exc_ty = level_to_exception_type (md_level md), exc_value = fst p,
                  exc_module = md_module_path md, exc_stacktrace = th_stacktrace (ee_thread env),
                  exc_raw_stacktrace = th_raw_stacktrace (ee_thread env), exc_thread_id = th_id (ee_thread env),
                  exc_mechanism = Some (mechanism_default\<lparr>mech_synthetic := Some True\<rparr>)\<rparr>])
             else p)
      else p)"

definition mark_last :: "exception list \<Rightarrow> exception list" where
  "mark_last exceptions =
     (if exceptions = [] then []
      else butlast exceptions @ [(last exceptions)\<lparr>exc_mechanism := Some
        ((case exc_mechanism (last exceptions) of Some x \<Rightarrow> x | None \<Rightarrow> mechanism_default)
           \<lparr>mech_ty := ''tracing''\<rparr>)\<rparr>])"

definition event_from_event :: "event_env \<Rightarrow> bool \<Rightarrow> layer \<Rightarrow> tracing_event \<Rightarrow> event" where
  "event_from_event env ctx s e =
     (let (message', fv) = extract_event_data_with_context env ctx s e False;
          (message, exceptions) = wrap_message env s (te_metadata e) (message', fv_exceptions fv);
          (tags, rest) = extract_and_remove_tags (fv_json_values fv) []
      in (event_default (ee_event_id env) (ee_now env))
           \<lparr>ev_logger := Some (md_target (te_metadata e)),
            ev_level := level_to_sentry_level (md_level (te_metadata e)), ev_message := message,
            ev_exception := mark_last exceptions, ev_tags := tags,
            ev_contexts := contexts_from_event (te_metadata e) rest\<rparr>)"

definition log_from_event :: "event_env \<Rightarrow> bool \<Rightarrow> layer \<Rightarrow> tracing_event \<Rightarrow> log" where
  "log_from_event env ctx s e =
     (let (message, fv) = extract_event_data_with_context env ctx s e True;
          md = te_metadata e;
          attributes =
            sm_insert ''sentry.origin'' (JString ''auto.tracing'')
              (opt_insert ''code.line.number'' (map_option (\<lambda>n. JNumber (show_nat n)) (md_line md))
                (opt_insert ''code.file.path'' (map_option JString (md_file md))
                  (opt_insert ''code.module.name'' (map_option JString (md_module_path md))
                    (fv_json_values fv))))
      in \<lparr>log_level = level_to_log_level (md_level md),
          log_body = (case message of Some t \<Rightarrow> t | None \<Rightarrow> []), log_trace_id = None,
          log_timestamp = ee_now env, log_severity_number = None, log_attributes = attributes\<rparr>)"

section \<open>The layer\<close>

text \<open>\<open>EventFilter\<close> is a set of bit flags.\<close>

type_synonym event_filter = "32 word"

definition EventFilter_Ignore :: event_filter where
  "EventFilter_Ignore = 0"

definition EventFilter_Breadcrumb :: event_filter where
  "EventFilter_Breadcrumb = 1"

definition EventFilter_Event :: event_filter where
  "EventFilter_Event = 2"

definition EventFilter_Log :: event_filter where
  "EventFilter_Log = 4"

definition contains :: "event_filter \<Rightarrow> event_filter \<Rightarrow> bool" where
  "contains f g = (and f g = g)"

fun default_event_filter :: "tracing_level \<Rightarrow> event_filter" where
  "default_event_filter TError = or EventFilter_Event EventFilter_Log"
| "default_event_filter TWarn = or EventFilter_Breadcrumb EventFilter_Log"
| "default_event_filter TInfo = or EventFilter_Breadcrumb EventFilter_Log"
| "default_event_filter TDebug = EventFilter_Ignore"
| "default_event_filter TTrace = EventFilter_Ignore"

datatype event_mapping =
    MapIgnore | MapBreadcrumb breadcrumb | MapEvent event | MapLog log | MapCombined "event_mapping list"

fun combined_from :: "event_mapping \<Rightarrow> event_mapping list" where
  "combined_from (MapCombined ms) = ms"
| "combined_from m = [m]"

record sentry_layer =
  sl_event_filter :: "metadata \<Rightarrow> event_filter"
  sl_event_mapper :: "(tracing_event \<Rightarrow> layer \<Rightarrow> event_mapping) option"
  sl_span_filter :: "metadata \<Rightarrow> bool"
  sl_with_span_attributes :: bool

definition sentry_layer_default :: sentry_layer where
  "sentry_layer_default = \<lparr>sl_event_filter = (\<lambda>md. default_event_filter (md_level md)),
     sl_event_mapper = None, sl_span_filter = default_span_filter, sl_with_span_attributes = False\<rparr>"

definition event_mappings :: "event_env \<Rightarrow> sentry_layer \<Rightarrow> tracing_event \<Rightarrow> layer \<Rightarrow> event_mapping" where
  "event_mappings env cfg e s =
     (case sl_event_mapper cfg of
        Some mapper \<Rightarrow> mapper e s
      | None \<Rightarrow>
          (let f = sl_event_filter cfg (te_metadata e); ctx = sl_with_span_attributes cfg
           in MapCombined
             ((if contains f EventFilter_Breadcrumb then [MapBreadcrumb (breadcrumb_from_event env ctx s e)] else []) @
              (if contains f EventFilter_Event then [MapEvent (event_from_event env ctx s e)] else []) @
              (if contains f EventFilter_Log then [MapLog (log_from_event env ctx s e)] else []))))"

text \<open>Each item goes through the current hub; nested combinations are ignored.\<close>

fun send_item :: "event_env \<Rightarrow> event_mapping \<Rightarrow> hub \<times> world \<Rightarrow> hub \<times> world" where
  "send_item env MapIgnore hw = hw"
| "send_item env (MapBreadcrumb b) hw = snd (api_add_breadcrumb [b] hw)"
| "send_item env (MapEvent e) hw =
     snd (api_capture_event (ee_now env) (ee_fresh env) (ee_random env) e hw)"
| "send_item env (MapLog l) hw =
     snd (on_active () (\<lambda>(hb, W). ((), hb, hub_capture_log (ee_now env) (ee_hex env) l hb W)) hw)"
| "send_item env (MapCombined _) hw = hw"

definition on_event :: "event_env \<Rightarrow> sentry_layer \<Rightarrow> tracing_event \<Rightarrow> layer \<Rightarrow> layer" where
  "on_event env cfg e s =
     run_span (OnHub (fold (send_item env) (combined_from (event_mappings env cfg e s)))) s"

section \<open>Lemmas\<close>

lemma strip_prefix_str_Some [simp]: "strip_prefix_str p k = Some t \<longleftrightarrow> k = p @ t"
  by (auto simp: strip_prefix_str_def split: if_splits) (metis append_take_drop_id)

lemma strip_prefix_str_None [simp]: "strip_prefix_str p k = None \<longleftrightarrow> (\<forall>t. k \<noteq> p @ t)"
  by (metis not_Some_eq strip_prefix_str_Some)

lemma retain_field_tag [simp]:
  "retain_field (tags_prefix @ t) v = (tag_text v = None \<and> v \<noteq> JNull, map_option (Pair t) (tag_text v))"
proof -
  have "strip_prefix_str tags_prefix (tags_prefix @ t) = Some t" by simp
  then show ?thesis unfolding retain_field_def by (cases v) (simp_all only: option.case json.case tag_text.simps option.map simp_thms json.distinct option.distinct)
qed

lemma retain_field_other: "\<forall>t. k \<noteq> tags_prefix @ t \<Longrightarrow> retain_field k v = (True, None)"
proof -
  assume "\<forall>t. k \<noteq> tags_prefix @ t"
  then have "strip_prefix_str tags_prefix k = None" by simp
  then show ?thesis unfolding retain_field_def by (simp only: option.case)
qed

lemma extract_and_remove_tags_spec:
  assumes "distinct (map fst m)"
  shows "map_of (fst (extract_and_remove_tags m tags)) t =
           (case Option.bind (map_of m (tags_prefix @ t)) tag_text of Some x \<Rightarrow> Some x | None \<Rightarrow> map_of tags t) \<and>
         map_of (snd (extract_and_remove_tags m tags)) k =
           (case map_of m k of None \<Rightarrow> None | Some v \<Rightarrow> if fst (retain_field k v) then Some v else None)"
  using assms
proof (induction m tags arbitrary: t k rule: extract_and_remove_tags.induct)
  case (2 k' v m tags)
  obtain stays tag where r: "retain_field k' v = (stays, tag)" by fastforce
  define tags1 where "tags1 = (case tag of Some (t, x) \<Rightarrow> sm_insert t x tags | None \<Rightarrow> tags)"
  obtain tags' rest where x: "extract_and_remove_tags m tags1 = (tags', rest)" by fastforce
  have fresh: "map_of m k' = None" and d: "distinct (map fst m)"
    using 2(2) by (auto simp: map_of_eq_None_iff)
  have here: "map_of tags1 t = (case if k' = tags_prefix @ t then tag_text v else None of
      Some x \<Rightarrow> Some x | None \<Rightarrow> map_of tags t)" for t
  proof (cases "\<exists>t'. k' = tags_prefix @ t'")
    case True
    then obtain t' where k': "k' = tags_prefix @ t'" by blast
    then have "tag = map_option (Pair t') (tag_text v)" using r by simp
    then show ?thesis using k' by (cases "tag_text v") (auto simp: tags1_def)
  next
    case False
    then show ?thesis using r retain_field_other [of k' v] by (auto simp: tags1_def)
  qed
  note IH = 2(1) [OF r [symmetric] d, folded tags1_def, unfolded x]
  have out: "extract_and_remove_tags ((k', v) # m) tags = (tags', if stays then (k', v) # rest else rest)"
    using x by (simp add: r tags1_def)
  have tags: "map_of tags' t =
      (case Option.bind (map_of ((k', v) # m) (tags_prefix @ t)) tag_text of Some x \<Rightarrow> Some x | None \<Rightarrow> map_of tags t)"
  proof (cases "k' = tags_prefix @ t")
    case True
    then show ?thesis using IH [of t k] fresh here [of t] by simp
  next
    case False
    then have "map_of tags1 t = map_of tags t" using here [of t] by simp
    with False show ?thesis using IH [of t k] by (simp split: option.split)
  qed
  have "map_of (if stays then (k', v) # rest else rest) k =
      (case map_of ((k', v) # m) k of None \<Rightarrow> None | Some v \<Rightarrow> if fst (retain_field k v) then Some v else None)"
    using IH [of t k] fresh r by (cases "k = k'"; cases stays) (simp_all del: retain_field_tag)
  with tags show ?case by (simp only: out fst_conv snd_conv)
qed simp_all

lemma record_value_sorted: "sm_sorted (fv_json_values fv) \<Longrightarrow> sm_sorted (fv_json_values (record_value env kv fv))"
  by (cases "(env, kv, fv)" rule: record_value.cases)
    (auto simp: fv_record_def record_error_def Let_def)

lemma fold_sorted:
  assumes "\<And>x m. sm_sorted (g m) \<Longrightarrow> sm_sorted (g (f x m))"
  shows "sm_sorted (g m) \<Longrightarrow> sm_sorted (g (fold f xs m))"
  by (induction xs arbitrary: m) (simp_all add: assms)

lemma extract_event_data_sorted: "sm_sorted (fv_json_values (snd (extract_event_data env e store)))"
proof -
  have "sm_sorted (fv_json_values (fold (record_value env) (te_fields e)
      \<lparr>fv_json_values = [], fv_exceptions = [], fv_store_errors_in_values = store\<rparr>))"
    by (rule fold_sorted) (simp_all add: record_value_sorted)
  then show ?thesis
    by (auto simp: extract_event_data_def Let_def split: option.split)
qed

lemma add_span_fields_sorted: "sm_sorted m \<Longrightarrow> sm_sorted (add_span_fields s x m)"
  unfolding add_span_fields_def
  by (auto split: option.split intro!: fold_sorted [where g = "\<lambda>m. m"])

lemma extract_with_context_sorted:
  "sm_sorted (fv_json_values (snd (extract_event_data_with_context env ctx s e store)))"
  using extract_event_data_sorted [of env e store]
  by (auto simp: extract_event_data_with_context_def Let_def split: prod.split
      intro!: fold_sorted [where g = "\<lambda>m. m"] add_span_fields_sorted)

text \<open>The fields that an event has kept.\<close>

definition event_fields :: "event \<Rightarrow> json smap" where
  "event_fields ev =
     (case map_of (ev_contexts ev) ''Rust Tracing Fields'' of Some (CtxOther m) \<Rightarrow> m | _ \<Rightarrow> [])"

lemma event_fields_contexts:
  "ev_contexts ev = contexts_from_event md m \<Longrightarrow> event_fields ev = m"
  by (simp add: event_fields_def contexts_from_event_def Let_def)

lemma mark_last_value: "xs \<noteq> [] \<Longrightarrow> exc_value (last (mark_last xs)) = exc_value (last xs) \<and> mark_last xs \<noteq> []"
  by (simp add: mark_last_def)

lemma wrap_message_keeps:
  "wrap_message env s md (msg, xs) = (msg', xs') \<Longrightarrow>
   msg' = msg \<or> (msg' = None \<and> xs' \<noteq> [] \<and> exc_value (last xs') = msg)"
  by (auto simp: wrap_message_def split: if_splits option.splits)

section \<open>Properties\<close>

text \<open>
  Every field of a \<open>tracing\<close> event that is not its message reaches the event in one place.
  A field named \<open>tags.t\<close> with a text, a number or a truth value is the tag \<open>t\<close>, a null one is
  dropped, and all others are in the context of fields under their own name. The message
  is the event's, or the value of its last exception.
\<close>

theorem tracing_event_fields:
  "let (message, fv) = extract_event_data_with_context env ctx s e False;
       ev = event_from_event env ctx s e
   in (\<forall>t. map_of (ev_tags ev) t = Option.bind (map_of (fv_json_values fv) (tags_prefix @ t)) tag_text) \<and>
      (\<forall>k. map_of (event_fields ev) k =
         (case map_of (fv_json_values fv) k of
            None \<Rightarrow> None
          | Some v \<Rightarrow>
              if \<exists>t. k = tags_prefix @ t
              then (case v of JArray _ \<Rightarrow> Some v | JObject _ \<Rightarrow> Some v | _ \<Rightarrow> None) else Some v)) \<and>
      (ev_message ev = message \<or>
       (ev_message ev = None \<and> exc_value (last (ev_exception ev)) = message))"
proof -
  obtain message fv where x: "extract_event_data_with_context env ctx s e False = (message, fv)" by fastforce
  obtain msg xs where w: "wrap_message env s (te_metadata e) (message, fv_exceptions fv) = (msg, xs)"
    by fastforce
  obtain tags rest where t: "extract_and_remove_tags (fv_json_values fv) [] = (tags, rest)" by fastforce
  let ?ev = "event_from_event env ctx s e"
  have ev: "ev_tags ?ev = tags" "ev_message ?ev = msg" "ev_exception ?ev = mark_last xs"
    "ev_contexts ?ev = contexts_from_event (te_metadata e) rest"
    by (simp_all add: event_from_event_def x w t)
  have "distinct (map fst (fv_json_values fv))"
    using extract_with_context_sorted [of env ctx s e False] x
    by (simp add: sm_sorted_def strict_sorted_iff)
  note spec = extract_and_remove_tags_spec [OF this, where tags = "[]", unfolded t]
  have "map_of tags t = Option.bind (map_of (fv_json_values fv) (tags_prefix @ t)) tag_text" for t
    using spec by (simp split: option.splits)
  moreover have "(if fst (retain_field k v) then Some v else None) =
      (if \<exists>t. k = tags_prefix @ t then (case v of JArray _ \<Rightarrow> Some v | JObject _ \<Rightarrow> Some v | _ \<Rightarrow> None)
       else Some v)" for k v
    by (cases "\<exists>t. k = tags_prefix @ t"; cases v) (auto simp: retain_field_other)
  then have "map_of rest k = (case map_of (fv_json_values fv) k of None \<Rightarrow> None
      | Some v \<Rightarrow> if \<exists>t. k = tags_prefix @ t
          then (case v of JArray _ \<Rightarrow> Some v | JObject _ \<Rightarrow> Some v | _ \<Rightarrow> None) else Some v)" for k
    using spec [where k = k] by (simp cong: option.case_cong)
  moreover have "msg = message \<or> (msg = None \<and> exc_value (last (mark_last xs)) = message)"
    using wrap_message_keeps [OF w] mark_last_value [of xs] by auto
  ultimately show ?thesis
    by (simp add: x ev(1-3) event_fields_contexts [OF ev(4)])
qed

section \<open>Which events are sent\<close>

lemma run_on_hub_id [simp]: "run_span (OnHub (\<lambda>hw. hw)) s = s"
  by simp

lemma send_item_inactive: "\<not> is_active_and_usage_safe (fst hw) (snd hw) \<Longrightarrow> send_item env m hw = hw"
  by (cases m) (simp_all add: api_add_breadcrumb_def api_capture_event_def on_active_def)

lemma fold_send_inactive: "\<not> is_active_and_usage_safe (fst hw) (snd hw) \<Longrightarrow> fold (send_item env) ms hw = hw"
  by (induction ms) (simp_all add: send_item_inactive)

lemma default_contains:
  "contains (default_event_filter l) EventFilter_Breadcrumb \<longleftrightarrow> l \<in> {TWarn, TInfo}"
  "contains (default_event_filter l) EventFilter_Event \<longleftrightarrow> l = TError"
  "contains (default_event_filter l) EventFilter_Log \<longleftrightarrow> l \<in> {TError, TWarn, TInfo}"
  by (cases l; simp add: contains_def EventFilter_Ignore_def EventFilter_Breadcrumb_def EventFilter_Event_def
      EventFilter_Log_def)+

text \<open>
  What the default layer does with an event: debug output is ignored, information and warnings leave a breadcrumb
  and are logged, an error is captured as an event and logged; without an active client, nothing
  happens, whatever filter or mapper is set.
\<close>

theorem default_layer_on_event:
  "on_event env sentry_layer_default e s =
     (let send = (\<lambda>ms. run_span (OnHub (fold (send_item env) ms)) s);
          l = MapLog (log_from_event env False s e)
      in case md_level (te_metadata e) of
           TError \<Rightarrow> send [MapEvent (event_from_event env False s e), l]
         | TWarn \<Rightarrow> send [MapBreadcrumb (breadcrumb_from_event env False s e), l]
         | TInfo \<Rightarrow> send [MapBreadcrumb (breadcrumb_from_event env False s e), l]
         | _ \<Rightarrow> s) \<and>
   (is_active_and_usage_safe (tl_hubs s (tl_current s)) (tl_world s) \<or> on_event env cfg e s = s)"
proof -
  have "on_event env cfg e s = s" if "\<not> is_active_and_usage_safe (tl_hubs s (tl_current s)) (tl_world s)"
    using fold_send_inactive [of "(tl_hubs s (tl_current s), tl_world s)"] that by (simp add: on_event_def)
  then show ?thesis
    by (auto simp: on_event_def event_mappings_def sentry_layer_default_def default_contains Let_def
        simp del: default_event_filter.simps split: tracing_level.split)
qed

end
