(* ===== verification/Logging.thy ===== *)
theory Logging
  imports Backtrace TracingEvents
begin

text \<open>
  Records of the \<open>log\<close> and \<open>slog\<close> crates as breadcrumbs, events and logs
  (\<open>sentry-log/src/\<close>, \<open>sentry-slog/src/\<close>), panics (\<open>sentry-panic/src/lib.rs\<close>) and errors of the
  \<open>anyhow\<close> crate (\<open>sentry-anyhow/src/lib.rs\<close>). What the loggers hand over is an input: a value
  is known by the readings it offers. Wrapped loggers and drains are functions on a state of
  their own.
\<close>

section \<open>Records of the log crate\<close>

datatype log_crate_level = CrateError | CrateWarn | CrateInfo | CrateDebug | CrateTrace

fun convert_log_level :: "log_crate_level \<Rightarrow> level" where
  "convert_log_level CrateError = Error"
| "convert_log_level CrateWarn = Warning"
| "convert_log_level CrateInfo = Info"
| "convert_log_level CrateDebug = Debug"
| "convert_log_level CrateTrace = Debug"

fun convert_log_level_to_sentry_log_level :: "log_crate_level \<Rightarrow> log_level" where
  "convert_log_level_to_sentry_log_level CrateError = LError"
| "convert_log_level_to_sentry_log_level CrateWarn = LWarn"
| "convert_log_level_to_sentry_log_level CrateInfo = LInfo"
| "convert_log_level_to_sentry_log_level CrateDebug = LDebug"
| "convert_log_level_to_sentry_log_level CrateTrace = LTrace"

text \<open>The readings of a value, in the order they are tried; an \<open>f64\<close> comes as the JSON it converts to.\<close>

record kv_value =
  kv_borrowed_str :: "string option"
  kv_u64 :: "u64 option"
  kv_f64 :: "json option"
  kv_bool :: "bool option"
  kv_debug :: string

record log_record =
  lr_level :: log_crate_level
  lr_target :: string
  lr_args :: string
  lr_module_path :: "string option"
  lr_file :: "string option"
  lr_line :: "nat option"
  lr_key_values :: "(string \<times> kv_value) list"

definition visit_pair :: "kv_value \<Rightarrow> json" where
  "visit_pair v =
     (case kv_borrowed_str v of Some s \<Rightarrow> JString s | None \<Rightarrow>
       (case kv_u64 v of Some n \<Rightarrow> JNumber (show_nat (unat n)) | None \<Rightarrow>
         (case kv_f64 v of Some j \<Rightarrow> j | None \<Rightarrow>
           (case kv_bool v of Some b \<Rightarrow> JBool b | None \<Rightarrow> JString (kv_debug v)))))"

definition extract_record_attributes :: "log_record \<Rightarrow> json smap" where
  "extract_record_attributes r = foldl (\<lambda>m (k, v). sm_insert k (visit_pair v) m) [] (lr_key_values r)"

definition log_breadcrumb_from_record :: "systime \<Rightarrow> log_record \<Rightarrow> breadcrumb" where
  "log_breadcrumb_from_record now r =
     (breadcrumb_default now)
       \<lparr>bc_ty := ''log'', bc_level := convert_log_level (lr_level r), bc_category := Some (lr_target r),
        bc_message := Some (lr_args r), bc_data := extract_record_attributes r\<rparr>"

text \<open>Where the record comes from, added to a map.\<close>

definition logger_metadata :: "log_record \<Rightarrow> json smap \<Rightarrow> json smap" where
  "logger_metadata r m =
     opt_insert ''logger.line'' (map_option (\<lambda>n. JNumber (show_nat n)) (lr_line r))
       (opt_insert ''logger.file'' (map_option JString (lr_file r))
         (opt_insert ''logger.module_path'' (map_option JString (lr_module_path r))
           (sm_insert ''logger.target'' (JString (lr_target r)) m)))"

definition log_event_from_record :: "uuid \<Rightarrow> systime \<Rightarrow> log_record \<Rightarrow> event" where
  "log_event_from_record fresh now r =
     (let attributes = extract_record_attributes r;
          contexts1 = sm_insert ''Rust Log Metadata'' (CtxOther (logger_metadata r [])) [];
          contexts = (if attributes \<noteq> [] then sm_insert ''Rust Log Attributes'' (CtxOther attributes) contexts1
                      else contexts1)
      in (event_default fresh now)
           \<lparr>ev_logger := Some (lr_target r), ev_level := convert_log_level (lr_level r),
            ev_message := Some (lr_args r), ev_contexts := contexts\<rparr>)"

definition log_exception_from_record :: "uuid \<Rightarrow> systime \<Rightarrow> log_record \<Rightarrow> event" where
  "log_exception_from_record fresh now r = log_event_from_record fresh now r"

definition log_from_record :: "systime \<Rightarrow> log_record \<Rightarrow> log" where
  "log_from_record now r =
     \<lparr>log_level = convert_log_level_to_sentry_log_level (lr_level r), log_body = lr_args r,
      log_trace_id = None, log_timestamp = now, log_severity_number = None,
      log_attributes = sm_insert ''sentry.origin'' (JString ''auto.log.log'')
        (logger_metadata r (extract_record_attributes r))\<rparr>"

section \<open>The logger\<close>

type_synonym log_filter = "32 word"

definition LogFilter_Ignore :: log_filter where "LogFilter_Ignore = 0"

definition LogFilter_Breadcrumb :: log_filter where "LogFilter_Breadcrumb = 1"

definition LogFilter_Event :: log_filter where "LogFilter_Event = 2"

definition LogFilter_Exception :: log_filter where "LogFilter_Exception = 4"

definition LogFilter_Log :: log_filter where "LogFilter_Log = 8"

fun default_log_filter :: "log_crate_level \<Rightarrow> log_filter" where
  "default_log_filter CrateError = or LogFilter_Exception LogFilter_Log"
| "default_log_filter CrateWarn = or LogFilter_Breadcrumb LogFilter_Log"
| "default_log_filter CrateInfo = or LogFilter_Breadcrumb LogFilter_Log"
| "default_log_filter CrateDebug = LogFilter_Ignore"
| "default_log_filter CrateTrace = LogFilter_Ignore"

text \<open>
  The mapping of a record uses the items of the tracing layer, whose constructors are the same. A
  wrapped logger answers whether it is enabled and changes a state; flushing may panic.
\<close>

record 'd dest_logger =
  dl_enabled :: "log_record \<Rightarrow> bool"
  dl_log :: "log_record \<Rightarrow> 'd \<Rightarrow> 'd"
  dl_flush :: "'d \<Rightarrow> 'd option"

text \<open>The logger that ignores everything; its \<open>flush\<close> is \<open>todo!()\<close>.\<close>

definition noop_logger :: "unit dest_logger" where
  "noop_logger = \<lparr>dl_enabled = (\<lambda>_. False), dl_log = (\<lambda>_ d. d), dl_flush = (\<lambda>_. None)\<rparr>"

record 'd sentry_logger =
  lg_dest :: "'d dest_logger"
  lg_filter :: "log_record \<Rightarrow> log_filter"
  lg_mapper :: "(log_record \<Rightarrow> event_mapping list) option"

definition sentry_logger_with_dest :: "'d dest_logger \<Rightarrow> 'd sentry_logger" where
  "sentry_logger_with_dest dest =
     \<lparr>lg_dest = dest, lg_filter = (\<lambda>r. default_log_filter (lr_level r)), lg_mapper = None\<rparr>"

definition sentry_logger_new :: "unit sentry_logger" where
  "sentry_logger_new = sentry_logger_with_dest noop_logger"

definition logger_enabled :: "'d sentry_logger \<Rightarrow> log_record \<Rightarrow> bool" where
  "logger_enabled lg r = (dl_enabled (lg_dest lg) r \<or> lg_filter lg r \<noteq> LogFilter_Ignore)"

definition logger_items :: "uuid \<Rightarrow> systime \<Rightarrow> 'd sentry_logger \<Rightarrow> log_record \<Rightarrow> event_mapping list" where
  "logger_items fresh now lg r =
     (case lg_mapper lg of
        Some mapper \<Rightarrow> mapper r
      | None \<Rightarrow>
          (let f = lg_filter lg r in
           (if contains f LogFilter_Breadcrumb then [MapBreadcrumb (log_breadcrumb_from_record now r)] else []) @
           (if contains f LogFilter_Event then [MapEvent (log_event_from_record fresh now r)] else []) @
           (if contains f LogFilter_Exception then [MapEvent (log_exception_from_record fresh now r)] else []) @
           (if contains f LogFilter_Log then [MapLog (log_from_record now r)] else [])))"

definition logger_log ::
  "event_env \<Rightarrow> 'd sentry_logger \<Rightarrow> log_record \<Rightarrow> 'd \<times> hub \<times> world \<Rightarrow> 'd \<times> hub \<times> world" where
  "logger_log env lg r s =
     (dl_log (lg_dest lg) r (fst s),
      fold (send_item env) (logger_items (ee_event_id env) (ee_now env) lg r) (snd s))"

definition logger_flush :: "'d sentry_logger \<Rightarrow> 'd \<Rightarrow> 'd option" where
  "logger_flush lg d = dl_flush (lg_dest lg) d"

section \<open>Records of the slog crate\<close>

datatype slog_level = SlogCritical | SlogError | SlogWarning | SlogInfo | SlogDebug | SlogTrace

fun slog_convert_log_level :: "slog_level \<Rightarrow> level" where
  "slog_convert_log_level SlogTrace = Debug"
| "slog_convert_log_level SlogDebug = Debug"
| "slog_convert_log_level SlogInfo = Info"
| "slog_convert_log_level SlogWarning = Warning"
| "slog_convert_log_level SlogError = Error"
| "slog_convert_log_level SlogCritical = Error"

text \<open>
  A record with the key-value lists of itself and of the logger. \<open>None\<close> is a value that cannot be
  serialised: the list is left there, and what follows in it is not added.
\<close>

record slog_record =
  sr_level :: slog_level
  sr_msg :: string
  sr_kv :: "(string \<times> json option) list"
  sr_values :: "(string \<times> json option) list"

fun serialize_kv :: "(string \<times> json option) list \<Rightarrow> json smap \<Rightarrow> json smap" where
  "serialize_kv [] m = m"
| "serialize_kv ((k, None) # kvs) m = m"
| "serialize_kv ((k, Some v) # kvs) m = serialize_kv kvs (sm_insert k v m)"

definition add_kv_to_map :: "slog_record \<Rightarrow> json smap \<Rightarrow> json smap" where
  "add_kv_to_map r m = serialize_kv (sr_values r) (serialize_kv (sr_kv r) m)"

definition slog_breadcrumb_from_record :: "systime \<Rightarrow> slog_record \<Rightarrow> breadcrumb" where
  "slog_breadcrumb_from_record now r =
     (breadcrumb_default now)
       \<lparr>bc_ty := ''log'', bc_message := Some (sr_msg r), bc_level := slog_convert_log_level (sr_level r),
        bc_data := add_kv_to_map r []\<rparr>"

definition slog_event_from_record :: "uuid \<Rightarrow> systime \<Rightarrow> slog_record \<Rightarrow> event" where
  "slog_event_from_record fresh now r =
     (event_default fresh now)
       \<lparr>ev_message := Some (sr_msg r), ev_level := slog_convert_log_level (sr_level r),
        ev_extra := add_kv_to_map r []\<rparr>"

datatype level_filter = FilterIgnore | FilterBreadcrumb | FilterEvent | FilterException

fun default_slog_filter :: "slog_level \<Rightarrow> level_filter" where
  "default_slog_filter SlogCritical = FilterException"
| "default_slog_filter SlogError = FilterEvent"
| "default_slog_filter SlogWarning = FilterEvent"
| "default_slog_filter SlogInfo = FilterBreadcrumb"
| "default_slog_filter SlogDebug = FilterBreadcrumb"
| "default_slog_filter SlogTrace = FilterBreadcrumb"

record ('d, 'r) sentry_drain =
  dr_drain_enabled :: "slog_level \<Rightarrow> bool"
  dr_drain_log :: "slog_record \<Rightarrow> 'd \<Rightarrow> 'r \<times> 'd"
  dr_filter :: "slog_level \<Rightarrow> level_filter"
  dr_mapper :: "(slog_record \<Rightarrow> event_mapping) option"

definition drain_item :: "uuid \<Rightarrow> systime \<Rightarrow> ('d, 'r) sentry_drain \<Rightarrow> slog_record \<Rightarrow> event_mapping" where
  "drain_item fresh now dr r =
     (case dr_mapper dr of
        Some mapper \<Rightarrow> mapper r
      | None \<Rightarrow>
          (case dr_filter dr (sr_level r) of
             FilterIgnore \<Rightarrow> MapIgnore
           | FilterBreadcrumb \<Rightarrow> MapBreadcrumb (slog_breadcrumb_from_record now r)
           | FilterEvent \<Rightarrow> MapEvent (slog_event_from_record fresh now r)
           | FilterException \<Rightarrow> MapEvent (slog_event_from_record fresh now r)))"

definition drain_log ::
  "event_env \<Rightarrow> ('d, 'r) sentry_drain \<Rightarrow> slog_record \<Rightarrow> 'd \<times> hub \<times> world \<Rightarrow> 'r \<times> 'd \<times> hub \<times> world" where
  "drain_log env dr r s =
     (let hw = send_item env (drain_item (ee_event_id env) (ee_now env) dr r) (snd s);
          (res, d) = dr_drain_log dr r (fst s)
      in (res, d, hw))"

definition drain_is_enabled :: "('d, 'r) sentry_drain \<Rightarrow> slog_level \<Rightarrow> bool" where
  "drain_is_enabled dr l = (dr_drain_enabled dr l \<or> dr_filter dr l \<noteq> FilterIgnore)"

section \<open>Panics and anyhow errors\<close>

text \<open>The payload of a panic: a \<open>&str\<close>, a \<open>String\<close>, or something else.\<close>

datatype panic_payload = PayloadStr string | PayloadString string | PayloadOther

fun message_from_panic_info :: "panic_payload \<Rightarrow> string" where
  "message_from_panic_info (PayloadStr s) = s"
| "message_from_panic_info (PayloadString s) = s"
| "message_from_panic_info PayloadOther = ''Box<Any>''"

definition panic_exception :: "stacktrace option \<Rightarrow> string \<Rightarrow> exception" where
  "panic_exception current_stacktrace msg =
     exception_default
       \<lparr>exc_ty := ''panic'', exc_value := Some msg, exc_stacktrace := current_stacktrace,
        exc_mechanism := Some (mechanism_default\<lparr>mech_ty := ''panic'', mech_handled := Some False\<rparr>)\<rparr>"

definition event_from_panic_info ::
  "('i \<Rightarrow> event option) list \<Rightarrow> ('i \<Rightarrow> panic_payload) \<Rightarrow> stacktrace option \<Rightarrow> uuid \<Rightarrow> systime \<Rightarrow> 'i \<Rightarrow> event" where
  "event_from_panic_info extractors payload current_stacktrace fresh now info =
     (case first_some (map (\<lambda>extractor. extractor info) extractors) of
        Some e \<Rightarrow> e
      | None \<Rightarrow>
          (event_default fresh now)
            \<lparr>ev_exception := [panic_exception current_stacktrace (message_from_panic_info (payload info))],
             ev_level := Fatal\<rparr>)"

text \<open>
  The hook, when the integration is installed on the active hub: the event is captured, then the
  client flushed; \<open>answer\<close> is the transport's.
\<close>

definition panic_handler :: "event_env \<Rightarrow> bool \<Rightarrow> event \<Rightarrow> hub \<times> world \<Rightarrow> hub \<times> world" where
  "panic_handler env answer e s =
     (let s1 = snd (hub_capture_event (ee_now env) (ee_fresh env) (ee_random env) e s)
      in case hub_client (fst s1) of
           None \<Rightarrow> s1
         | Some a \<Rightarrow>
             (fst s1, on_client a (\<lambda>cw. snd (client_flush (ee_now env) answer None cw)) (snd s1)))"

text \<open>
  \<open>bt\<close> is the text of the backtrace, if one was captured; \<open>parse_stacktrace\<close> is that of the
  backtrace crate and may panic.
\<close>

definition event_from_anyhow ::
  "event_env \<Rightarrow> (string \<Rightarrow> stacktrace option option) \<Rightarrow> rust_error \<Rightarrow> string option \<Rightarrow> event option" where
  "event_from_anyhow env parse err bt =
     (let e = event_from_error (ee_debug_str env) (ee_event_id env) (ee_now env) err in
      case bt of
        None \<Rightarrow> Some e
      | Some text \<Rightarrow>
          (if ev_exception e = [] then Some e
           else map_option (\<lambda>st. e\<lparr>ev_exception :=
             butlast (ev_exception e) @ [(last (ev_exception e))\<lparr>exc_stacktrace := st\<rparr>]\<rparr>) (parse text)))"

definition capture_anyhow ::
  "event_env \<Rightarrow> (string \<Rightarrow> stacktrace option option) \<Rightarrow> rust_error \<Rightarrow> string option \<Rightarrow> hub \<times> world \<Rightarrow>
   (uuid \<times> hub \<times> world) option" where
  "capture_anyhow env parse err bt s =
     (if is_active_and_usage_safe (fst s) (snd s)
      then map_option (\<lambda>e. hub_capture_event (ee_now env) (ee_fresh env) (ee_random env) e s)
             (event_from_anyhow env parse err bt)
      else Some (nil_uuid, s))"

section \<open>Lemmas\<close>

text \<open>What each level becomes by default.\<close>

lemma default_log_contains:
  "contains (default_log_filter l) LogFilter_Breadcrumb \<longleftrightarrow> l \<in> {CrateWarn, CrateInfo}"
  "contains (default_log_filter l) LogFilter_Event \<longleftrightarrow> False"
  "contains (default_log_filter l) LogFilter_Exception \<longleftrightarrow> l = CrateError"
  "contains (default_log_filter l) LogFilter_Log \<longleftrightarrow> l \<in> {CrateError, CrateWarn, CrateInfo}"
  by (cases l; simp add: contains_def LogFilter_Ignore_def LogFilter_Breadcrumb_def LogFilter_Event_def
      LogFilter_Exception_def LogFilter_Log_def)+

text \<open>
  A logger passes every record on to the one it wraps, and sends to Sentry exactly what its
  filter asks for; without an active client only the wrapped logger sees it.
\<close>

theorem logger_passes_on:
  "logger_log env (sentry_logger_with_dest dest) r (d, hw) =
     (dl_log dest r d,
      (let l = MapLog (log_from_record (ee_now env) r);
           send = (\<lambda>ms. fold (send_item env) ms hw)
       in case lr_level r of
            CrateError \<Rightarrow> send [MapEvent (log_event_from_record (ee_event_id env) (ee_now env) r), l]
          | CrateWarn \<Rightarrow> send [MapBreadcrumb (log_breadcrumb_from_record (ee_now env) r), l]
          | CrateInfo \<Rightarrow> send [MapBreadcrumb (log_breadcrumb_from_record (ee_now env) r), l]
          | _ \<Rightarrow> hw)) \<and>
   (is_active_and_usage_safe (fst hw) (snd hw) \<or> logger_log env lg r (d, hw) = (dl_log (lg_dest lg) r d, hw)) \<and>
   logger_flush sentry_logger_new () = None"
proof (intro conjI)
  show "is_active_and_usage_safe (fst hw) (snd hw) \<or> logger_log env lg r (d, hw) = (dl_log (lg_dest lg) r d, hw)"
    using fold_send_inactive [of hw] by (simp add: logger_log_def) blast
  show "logger_flush sentry_logger_new () = None"
    by (simp add: logger_flush_def sentry_logger_new_def sentry_logger_with_dest_def noop_logger_def)
qed (simp add: logger_log_def sentry_logger_with_dest_def logger_items_def default_log_contains Let_def
    log_exception_from_record_def del: default_log_filter.simps split: log_crate_level.split)

end
