(* ===== verification/Attributes.thy ===== *)
theory Attributes
  imports Hub
begin

text \<open>
  Typed values of the protocol (\<open>sentry-types/src/protocol/v7.rs\<close>): the attributes of logs and metrics
  as they are written and read, severity numbers, contexts whose type is inferred when they are
  read, and what the log macros (\<open>sentry-core/src/logger.rs\<close>) build. The printing of JSON
  and the reading of a context from JSON are parameters.
\<close>

section \<open>Numbers\<close>

text \<open>
  The readings of a \<open>serde_json::Number\<close> that is kept as its text: whole numbers are printed
  without point and exponent, all others are an \<open>f64\<close>.
\<close>

definition number_as_u64 :: "string \<Rightarrow> int option" where
  "number_as_u64 t = (if t \<noteq> [] \<and> list_all is_digit t \<and> digits_val t < 2 ^ 64 then Some (digits_val t) else None)"

definition number_as_i64 :: "string \<Rightarrow> int option" where
  "number_as_i64 t =
     (case t of
        CHR ''-'' # ds \<Rightarrow>
          if ds \<noteq> [] \<and> list_all is_digit ds \<and> digits_val ds \<le> 2 ^ 63 then Some (- digits_val ds) else None
      | _ \<Rightarrow> if t \<noteq> [] \<and> list_all is_digit t \<and> digits_val t < 2 ^ 63 then Some (digits_val t) else None)"

definition number_is_f64 :: "string \<Rightarrow> bool" where
  "number_is_f64 t = (number_as_i64 t = None \<and> number_as_u64 t = None)"

section \<open>Log attributes\<close>

text \<open>\<open>Serialize for LogAttribute\<close>: the fields, in order. \<open>show_json\<close> is \<open>Display\<close> for values.\<close>

definition attribute_fields :: "json \<Rightarrow> string \<Rightarrow> (string \<times> json) list" where
  "attribute_fields v ty = [(''value'', v), (''type'', JString ty)]"

fun serialize_attribute :: "(json \<Rightarrow> string) \<Rightarrow> json \<Rightarrow> (string \<times> json) list" where
  "serialize_attribute show_json (JString s) = attribute_fields (JString s) ''string''"
| "serialize_attribute show_json (JNumber n) =
     (if number_as_i64 n \<noteq> None then attribute_fields (JNumber n) ''integer''
      else if number_as_u64 n \<noteq> None then attribute_fields (JString n) ''string''
      else attribute_fields (JNumber n) ''double'')"
| "serialize_attribute show_json (JBool b) = attribute_fields (JBool b) ''boolean''"
| "serialize_attribute show_json v = attribute_fields (JString (show_json v)) ''string''"

datatype attribute_error =
    DuplicateField string | MissingField string | NotAString | TypeMismatch string | UnknownType string

text \<open>The loop of the visitor, with what it has found so far.\<close>

fun visit_attribute ::
  "json option \<Rightarrow> string option \<Rightarrow> (string \<times> json) list \<Rightarrow> attribute_error + json option \<times> string option" where
  "visit_attribute value type_str [] = Inr (value, type_str)"
| "visit_attribute value type_str ((key, v) # rest) =
     (if key = ''value'' then
        (if value \<noteq> None then Inl (DuplicateField ''value'') else visit_attribute (Some v) type_str rest)
      else if key = ''type'' then
        (if type_str \<noteq> None then Inl (DuplicateField ''type'')
         else (case v of JString t \<Rightarrow> visit_attribute value (Some t) rest | _ \<Rightarrow> Inl NotAString))
      else visit_attribute value type_str rest)"

fun is_json_string :: "json \<Rightarrow> bool" where
  "is_json_string (JString _) = True" | "is_json_string _ = False"

fun is_json_i64 :: "json \<Rightarrow> bool" where
  "is_json_i64 (JNumber n) = (number_as_i64 n \<noteq> None)" | "is_json_i64 _ = False"

fun is_json_f64 :: "json \<Rightarrow> bool" where
  "is_json_f64 (JNumber n) = number_is_f64 n" | "is_json_f64 _ = False"

fun is_json_boolean :: "json \<Rightarrow> bool" where
  "is_json_boolean (JBool _) = True" | "is_json_boolean _ = False"

text \<open>The match on the type, and its error for a value of another one.\<close>

definition check_type :: "string \<Rightarrow> json \<Rightarrow> attribute_error option" where
  "check_type type_str value =
     (if type_str = ''string'' then (if is_json_string value then None else Some (TypeMismatch ''string''))
      else if type_str = ''integer'' then (if is_json_i64 value then None else Some (TypeMismatch ''integer''))
      else if type_str = ''double'' then (if is_json_f64 value then None else Some (TypeMismatch ''double''))
      else if type_str = ''boolean'' then (if is_json_boolean value then None else Some (TypeMismatch ''boolean''))
      else Some (UnknownType type_str))"

definition deserialize_attribute :: "(string \<times> json) list \<Rightarrow> attribute_error + json" where
  "deserialize_attribute entries =
     result_bind (visit_attribute None None entries) (\<lambda>(value, type_str).
       case value of
         None \<Rightarrow> Inl (MissingField ''value'')
       | Some value \<Rightarrow>
           (case type_str of
              None \<Rightarrow> Inl (MissingField ''type'')
            | Some type_str \<Rightarrow>
                (case check_type type_str value of Some e \<Rightarrow> Inl e | None \<Rightarrow> Inr value)))"

section \<open>Severity numbers\<close>

definition severity_min :: u8 where "severity_min = 1"

definition severity_max :: u8 where "severity_max = 24"

definition severity_try_from :: "u8 \<Rightarrow> string + u8" where
  "severity_try_from value =
     (if severity_min \<le> value \<and> value \<le> severity_max then Inr value
      else Inl (''Log severity number must be between '' @ show_nat (unat severity_min) @ '' and ''
        @ show_nat (unat severity_max)))"

section \<open>Reading contexts\<close>

definition inferable_contexts :: "string list" where
  "inferable_contexts =
     [''device'', ''os'', ''runtime'', ''app'', ''browser'', ''trace'', ''gpu'', ''otel'', ''response'']"

text \<open>The object with its type, which is inferred from the key when it has none.\<close>

definition typed_context :: "string \<Rightarrow> json smap \<Rightarrow> json smap" where
  "typed_context key ctx =
     (if sm_has ''type'' ctx then ctx
      else sm_insert ''type'' (JString (if key \<in> set inferable_contexts then key else ''unknown'')) ctx)"

datatype context_error = NotAnObject | InvalidContext string

text \<open>\<open>from_value\<close> reads a tagged context; entries come in the order of the text.\<close>

fun visit_contexts ::
  "(json smap \<Rightarrow> string + ctx) \<Rightarrow> ctx smap \<Rightarrow> (string \<times> json) list \<Rightarrow> context_error + ctx smap" where
  "visit_contexts from_value m [] = Inr m"
| "visit_contexts from_value m ((key, value) # rest) =
     (case value of
        JObject ctx \<Rightarrow>
          (case from_value (typed_context key ctx) of
             Inr context \<Rightarrow> visit_contexts from_value (sm_insert key context m) rest
           | Inl e \<Rightarrow> Inl (InvalidContext e))
      | _ \<Rightarrow> Inl NotAnObject)"

definition deserialize_contexts ::
  "(json smap \<Rightarrow> string + ctx) \<Rightarrow> (string \<times> json) list \<Rightarrow> context_error + ctx smap" where
  "deserialize_contexts from_value = visit_contexts from_value []"

section \<open>The log macros\<close>

definition parameter_key :: "nat \<Rightarrow> string" where
  "parameter_key i = ''sentry.message.parameter.'' @ show_nat i"

fun insert_parameters :: "nat \<Rightarrow> json list \<Rightarrow> json smap \<Rightarrow> json smap" where
  "insert_parameters i [] m = m"
| "insert_parameters i (arg # args) m =
     insert_parameters (Suc i) args (sm_insert (parameter_key i) arg m)"

text \<open>
  A call of a macro: attributes, the literal, and, unless it is a plain message, the arguments
  with the text they are formatted to.
\<close>

definition macro_log ::
  "systime \<Rightarrow> log_level \<Rightarrow> (string \<times> json) list \<Rightarrow> string \<Rightarrow> (json list \<times> string) option \<Rightarrow> log" where
  "macro_log now lvl attrs fmt args =
     (let m = foldl (\<lambda>m (k, v). sm_insert k v m) [] attrs;
          (body, m') = (case args of
             None \<Rightarrow> (fmt, m)
           | Some (values, formatted) \<Rightarrow>
               (formatted, insert_parameters 0 values (sm_insert ''sentry.message.template'' (JString fmt) m)))
      in \<lparr>log_level = lvl, log_body = body, log_trace_id = None, log_timestamp = now,
          log_severity_number = None, log_attributes = m'\<rparr>)"

definition capture_macro_log ::
  "systime \<Rightarrow> hex_codec \<Rightarrow> log_level \<Rightarrow> (string \<times> json) list \<Rightarrow> string \<Rightarrow> (json list \<times> string) option \<Rightarrow>
   hub \<Rightarrow> world \<Rightarrow> world" where
  "capture_macro_log now hx lvl attrs fmt args = hub_capture_log now hx (macro_log now lvl attrs fmt args)"

section \<open>Lemmas\<close>

text \<open>The types of attributes and the values that have them.\<close>

inductive has_type :: "json \<Rightarrow> string \<Rightarrow> bool" where
  string: "has_type (JString s) ''string''"
| integer: "number_as_i64 n = Some i \<Longrightarrow> has_type (JNumber n) ''integer''"
| double: "number_is_f64 n \<Longrightarrow> has_type (JNumber n) ''double''"
| boolean: "has_type (JBool b) ''boolean''"

inductive_simps has_type_simps: "has_type v ty"

lemma check_type_iff: "check_type ty v = None \<longleftrightarrow> has_type v ty"
  by (cases v) (auto simp: check_type_def has_type_simps)

text \<open>The value that is written for an attribute.\<close>

fun written_value :: "(json \<Rightarrow> string) \<Rightarrow> json \<Rightarrow> json" where
  "written_value show_json (JString s) = JString s"
| "written_value show_json (JNumber n) =
     (if number_as_i64 n = None \<and> number_as_u64 n \<noteq> None then JString n else JNumber n)"
| "written_value show_json (JBool b) = JBool b"
| "written_value show_json v = JString (show_json v)"

lemma serialize_attribute_typed:
  "\<exists>ty. serialize_attribute show_json v = attribute_fields (written_value show_json v) ty \<and>
     has_type (written_value show_json v) ty"
  by (cases v) (auto simp: has_type_simps number_is_f64_def)

text \<open>Only the entries for the two fields count, and there must be one of each.\<close>

definition field_entries :: "(string \<times> json) list \<Rightarrow> (string \<times> json) list" where
  "field_entries entries = filter (\<lambda>(k, _). k \<in> {''value'', ''type''}) entries"

lemma visit_attribute_fields: "visit_attribute v0 t0 entries = visit_attribute v0 t0 (field_entries entries)"
  by (induction v0 t0 entries rule: visit_attribute.induct) (auto simp: field_entries_def split: json.split)

lemma visit_attribute_full:
  "set (map fst entries) \<subseteq> {''value'', ''type''} \<Longrightarrow>
   visit_attribute (Some v0) (Some t0) entries = Inr (Some v, Some ty) \<longleftrightarrow> entries = [] \<and> v0 = v \<and> t0 = ty"
  by (cases entries) auto

lemma visit_attribute_iff:
  assumes "set (map fst entries) \<subseteq> {''value'', ''type''}"
  shows "visit_attribute None None entries = Inr (Some v, Some ty) \<longleftrightarrow>
    entries \<in> {attribute_fields v ty, rev (attribute_fields v ty)}"
proof (cases entries)
  case (Cons x xs)
  show ?thesis
  proof (cases xs)
    case Nil
    with assms Cons show ?thesis
      by (cases x) (auto simp: attribute_fields_def split: json.split)
  next
    case (Cons y ys)
    with assms \<open>entries = x # xs\<close> visit_attribute_full [of ys] show ?thesis
      by (cases x; cases y) (auto simp: attribute_fields_def split: json.split)
  qed
qed (simp add: attribute_fields_def)

lemma field_entries_keys: "set (map fst (field_entries entries)) \<subseteq> {''value'', ''type''}"
  by (auto simp: field_entries_def)

lemma deserialize_attribute_iff:
  "deserialize_attribute entries = Inr v \<longleftrightarrow>
     (\<exists>ty. field_entries entries \<in> {attribute_fields v ty, rev (attribute_fields v ty)} \<and> has_type v ty)"
proof -
  have "deserialize_attribute entries = Inr v \<longleftrightarrow>
      (\<exists>ty. visit_attribute None None (field_entries entries) = Inr (Some v, Some ty) \<and> check_type ty v = None)"
    unfolding deserialize_attribute_def visit_attribute_fields [of None None entries]
    by (auto simp: result_bind_def split: sum.splits option.splits prod.splits)
  then show ?thesis
    unfolding visit_attribute_iff [OF field_entries_keys] check_type_iff .
qed

lemma show_nat_inject: "show_nat m = show_nat n \<Longrightarrow> m = n"
  by (metis digits_val_show_nat of_nat_eq_iff)

lemma parameter_key_inject [simp]: "parameter_key m = parameter_key n \<longleftrightarrow> m = n"
proof
  assume "parameter_key m = parameter_key n"
  then have "show_nat m = show_nat n" unfolding parameter_key_def by (rule same_append_eq [THEN iffD1])
  then show "m = n" by (rule show_nat_inject)
qed (rule arg_cong)

lemma parameters_other:
  "k < i \<Longrightarrow> map_of (insert_parameters i args m) (parameter_key k) = map_of m (parameter_key k)"
  by (induction i args m rule: insert_parameters.induct) auto

lemma insert_parameters_values:
  "map (\<lambda>k. map_of (insert_parameters i args m) (parameter_key k)) [i..<i + length args] = map Some args"
proof (induction i args m rule: insert_parameters.induct)
  case (2 i arg args m)
  have "[i..<i + length (arg # args)] = i # [Suc i..<Suc i + length args]"
    by (subst upt_conv_Cons) simp_all
  then show ?case unfolding insert_parameters.simps using 2 by (simp only: list.map) (simp add: parameters_other)
qed simp

text \<open>Reading contexts: the last object of a key is read, with a type of its own or the inferred one.\<close>

lemma visit_contexts_last:
  "visit_contexts from_value m0 entries = Inr m \<Longrightarrow>
   (case map_of (rev entries) k of
      None \<Rightarrow> map_of m k = map_of m0 k
    | Some v \<Rightarrow> (\<exists>ctx c. v = JObject ctx \<and> from_value (typed_context k ctx) = Inr c \<and> map_of m k = Some c))"
  by (induction from_value m0 entries rule: visit_contexts.induct)
    (auto simp: map_add_def split: json.splits sum.splits option.splits if_splits)

lemma typed_context_type:
  "map_of (typed_context k ctx) ''type'' =
     Some (case map_of ctx ''type'' of Some t \<Rightarrow> t
       | None \<Rightarrow> JString (if k \<in> set inferable_contexts then k else ''unknown''))"
  "k' \<noteq> ''type'' \<Longrightarrow> map_of (typed_context k ctx) k' = map_of ctx k'"
  by (auto simp: typed_context_def sm_has_def split: option.split)

section \<open>Properties\<close>

text \<open>
  C38: Attributes are written and read with their type. What is written for any attribute is a value
  with the name of its type, and the value has that type; reading it gives the value that was written:
  the attribute itself when it is a string, a truth value or a number other than a whole one above
  \<open>i64::MAX\<close>, and its text otherwise. An object is accepted exactly when it has one value and one
  type, in any order and among any other entries, and the value has the type.
\<close>

theorem log_attribute_typed:
  "(\<exists>ty. serialize_attribute show_json a =
        [(''value'', written_value show_json a), (''type'', JString ty)] \<and>
      has_type (written_value show_json a) ty) \<and>
   deserialize_attribute (serialize_attribute show_json a) = Inr (written_value show_json a) \<and>
   (written_value show_json a = a \<longleftrightarrow>
      (case a of JString _ \<Rightarrow> True | JBool _ \<Rightarrow> True
       | JNumber n \<Rightarrow> \<not> (number_as_i64 n = None \<and> number_as_u64 n \<noteq> None) | _ \<Rightarrow> False)) \<and>
   (deserialize_attribute entries = Inr v \<longleftrightarrow>
     (\<exists>ty. field_entries entries \<in> {[(''value'', v), (''type'', JString ty)], [(''type'', JString ty), (''value'', v)]} \<and>
        has_type v ty))"
proof (intro conjI)
  obtain ty where ty: "serialize_attribute show_json a = attribute_fields (written_value show_json a) ty"
    "has_type (written_value show_json a) ty" using serialize_attribute_typed by blast
  then show "\<exists>ty. serialize_attribute show_json a =
        [(''value'', written_value show_json a), (''type'', JString ty)] \<and>
      has_type (written_value show_json a) ty" by (auto simp: attribute_fields_def)
  have "field_entries (serialize_attribute show_json a) = serialize_attribute show_json a"
    unfolding ty by (simp add: field_entries_def attribute_fields_def)
  with ty show "deserialize_attribute (serialize_attribute show_json a) = Inr (written_value show_json a)"
    unfolding deserialize_attribute_iff by auto
  show "written_value show_json a = a \<longleftrightarrow>
      (case a of JString _ \<Rightarrow> True | JBool _ \<Rightarrow> True
       | JNumber n \<Rightarrow> \<not> (number_as_i64 n = None \<and> number_as_u64 n \<noteq> None) | _ \<Rightarrow> False)"
    by (cases a) simp_all
qed (simp add: deserialize_attribute_iff attribute_fields_def)

text \<open>
  The log of a macro call. Its attributes are those of the call, later ones of a name winning, and for a
  formatted message the template and the arguments, numbered from zero in order.
\<close>

theorem macro_log_parameters:
  "map_of (log_attributes (macro_log now lvl attrs msg None)) = map_of (rev attrs) \<and>
   log_body (macro_log now lvl attrs msg None) = msg \<and>
   log_body (macro_log now lvl attrs fmt (Some (args, formatted))) = formatted \<and>
   map (\<lambda>i. map_of (log_attributes (macro_log now lvl attrs fmt (Some (args, formatted))))
      (parameter_key i)) [0..<length args] = map Some args"
proof -
  have "map_of (foldl (\<lambda>m (k, v). sm_insert k v m) m attrs) = map_of m ++ map_of (rev attrs)" for m :: "json smap"
    by (induction attrs arbitrary: m) (auto simp: fun_eq_iff map_add_def split: option.split)
  then show ?thesis
    using insert_parameters_values [of 0 args] by (simp add: macro_log_def Let_def)
qed

end
