(* ===== verification/Timestamps.thy ===== *)
theory Timestamps
  imports Auth
begin

text \<open>
  Times on the wire (\<open>sentry-types/src/utils.rs\<close>): seconds since the epoch, as a whole number or an
  \<open>f64\<close>, RFC 3339 texts, and optional values as text. A value is what the serializer is called
  with, and what a visitor is called with when it is read; formatting and parsing of RFC 3339 belong to
  the \<open>time\<close> crate and are parameters.
\<close>

section \<open>Values on the wire\<close>

datatype wire = WireNone | WireU64 u64 | WireI64 "64 word" | WireF64 flt | WireStr string

datatype time_error = InvalidInstance | InvalidTimestamp | NegativeSeconds | ParseFailed | UnexpectedValue

text \<open>
  \<open>rf_format\<close>: the text of a duration since the epoch, when it is in range. \<open>rf_parse\<close>: seconds since
  the epoch, perhaps negative, and nanoseconds.
\<close>

record rfc3339 =
  rf_format :: "duration \<Rightarrow> string option"
  rf_parse :: "string \<Rightarrow> (int \<times> int) option"

definition to_rfc3339 :: "rfc3339 \<Rightarrow> systime \<Rightarrow> string" where
  "to_rfc3339 rf st = (case Option.bind (duration_since st 0) (rf_format rf) of Some s \<Rightarrow> s | None \<Rightarrow> [])"

section \<open>Seconds\<close>

definition serialize_seconds :: "systime \<Rightarrow> time_error + wire" where
  "serialize_seconds st =
     (case duration_since st 0 of
        Some duration \<Rightarrow>
          Inr (if duration mod nanos_per_sec = 0 then WireU64 (word_of_int (duration div nanos_per_sec))
               else WireF64 (as_secs_f64 duration))
      | None \<Rightarrow> Inl InvalidInstance)"

definition serialize_rfc3339 :: "rfc3339 \<Rightarrow> systime \<Rightarrow> time_error + wire" where
  "serialize_rfc3339 rf st =
     (case Option.bind (duration_since st 0) (rf_format rf) of
        Some formatted \<Rightarrow> Inr (WireStr formatted) | None \<Rightarrow> Inl InvalidInstance)"

definition visit_rfc3339_str :: "rfc3339 \<Rightarrow> string \<Rightarrow> time_error + systime" where
  "visit_rfc3339_str rf v =
     (case rf_parse rf v of
        None \<Rightarrow> Inl ParseFailed
      | Some (secs, nanos) \<Rightarrow>
          (if secs < 0 then Inl NegativeSeconds
           else (case systime_checked_add 0 (secs * nanos_per_sec + nanos) of
                   Some st \<Rightarrow> Inr st | None \<Rightarrow> Inl InvalidTimestamp)))"

definition visit_seconds :: "int \<Rightarrow> time_error + systime" where
  "visit_seconds value =
     (case systime_checked_add 0 (from_secs value) of Some st \<Rightarrow> Inr st | None \<Rightarrow> Inl InvalidTimestamp)"

text \<open>The visitors; a \<open>None\<close> is not one of the values they accept.\<close>

fun deserialize_seconds :: "rfc3339 \<Rightarrow> wire \<Rightarrow> time_error + systime" where
  "deserialize_seconds rf (WireF64 value) =
     (case timestamp_to_datetime value of Some st \<Rightarrow> Inr st | None \<Rightarrow> Inl InvalidTimestamp)"
| "deserialize_seconds rf (WireI64 value) =
     (if sint value < 0 then Inl NegativeSeconds else visit_seconds (sint value))"
| "deserialize_seconds rf (WireU64 value) = visit_seconds (uint value)"
| "deserialize_seconds rf (WireStr value) = visit_rfc3339_str rf value"
| "deserialize_seconds rf WireNone = Inl UnexpectedValue"

fun deserialize_rfc3339 :: "rfc3339 \<Rightarrow> wire \<Rightarrow> time_error + systime" where
  "deserialize_rfc3339 rf (WireStr v) = visit_rfc3339_str rf v"
| "deserialize_rfc3339 rf _ = Inl UnexpectedValue"

section \<open>Optional values\<close>

definition serialize_rfc3339_opt :: "rfc3339 \<Rightarrow> systime option \<Rightarrow> time_error + wire" where
  "serialize_rfc3339_opt rf st = (case st of Some st \<Rightarrow> serialize_rfc3339 rf st | None \<Rightarrow> Inr WireNone)"

definition deserialize_rfc3339_opt :: "rfc3339 \<Rightarrow> wire \<Rightarrow> time_error + systime option" where
  "deserialize_rfc3339_opt rf d = result_bind (deserialize_rfc3339 rf d) (\<lambda>st. Inr (Some st))"

definition serialize_display_opt :: "('a \<Rightarrow> string) \<Rightarrow> 'a option \<Rightarrow> wire" where
  "serialize_display_opt to_string value = (case value of Some t \<Rightarrow> WireStr (to_string t) | None \<Rightarrow> WireNone)"

fun deserialize_display_opt :: "(string \<Rightarrow> 'e + 'a) \<Rightarrow> wire \<Rightarrow> ('e + time_error) + 'a option" where
  "deserialize_display_opt from_str (WireStr s) =
     (case from_str s of Inr v \<Rightarrow> Inr (Some v) | Inl e \<Rightarrow> Inl (Inl e))"
| "deserialize_display_opt from_str WireNone = Inr None"
| "deserialize_display_opt from_str _ = Inl (Inr UnexpectedValue)"

section \<open>Rounding\<close>

lemma ilog2_bounds: "1 \<le> n \<Longrightarrow> 0 \<le> ilog2 n \<and> 2 ^ nat (ilog2 n) \<le> n \<and> n < 2 ^ nat (ilog2 n + 1)"
proof (induction n rule: ilog2.induct)
  case (1 n)
  show ?case
  proof (cases "n \<le> 1")
    case True
    with 1 show ?thesis by (subst (1 2 3) ilog2.simps) simp
  next
    case False
    let ?k = "ilog2 (n div 2)"
    have IH: "0 \<le> ?k" "2 ^ nat ?k \<le> n div 2" "n div 2 < 2 ^ nat (?k + 1)" using 1 False by simp_all
    then have "2 * 2 ^ nat ?k \<le> n" "n < 2 * 2 ^ nat (?k + 1)" by linarith+
    moreover have "ilog2 n = 1 + ?k" using False by (subst ilog2.simps) simp
    ultimately show ?thesis using IH(1) by (simp add: nat_add_distrib)
  qed
qed

lemma round_half_even_error:
  assumes "0 < d"
  shows "\<bar>of_int (round_half_even n d) - of_int n / of_int d\<bar> \<le> (1 / 2 :: rat)"
proof -
  define m r where "m = n div d" and "r = n mod d"
  have n: "n = m * d + r" "0 \<le> r" "r < d" using assms by (simp_all add: m_def r_def)
  define x :: rat where "x = of_int r / of_int d"
  have "of_int n / of_int d = of_int m + x"
    using assms by (simp add: x_def n(1) add_divide_distrib)
  moreover have "x < 1" "0 \<le> x"
    using n assms by (simp_all add: x_def divide_less_eq)
  moreover have "1 / 2 \<le> x \<longleftrightarrow> d \<le> 2 * r" "x \<le> 1 / 2 \<longleftrightarrow> 2 * r \<le> d"
    using assms by (simp_all add: x_def field_simps of_int_le_iff [symmetric, where 'a = rat] del: of_int_le_iff)
  ultimately show ?thesis
    by (auto simp: round_half_even_def Let_def abs_le_iff simp flip: m_def r_def)
qed

lemma round_half_even_nonneg: "0 \<le> n \<Longrightarrow> 0 < d \<Longrightarrow> 0 \<le> round_half_even n d"
  by (simp add: round_half_even_def Let_def pos_imp_zdiv_nonneg_iff)

lemma floor_log2_less:
  assumes "1 \<le> num" and "1 \<le> den" and "num < den * 2 ^ k"
  shows "floor_log2 num den < int k"
proof -
  let ?a = "ilog2 num" and ?b = "ilog2 den"
  have a: "0 \<le> ?a" "2 ^ nat ?a \<le> num" using ilog2_bounds [OF assms(1)] by simp_all
  have b: "0 \<le> ?b" "den < 2 ^ nat (?b + 1)" using ilog2_bounds [OF assms(2)] by simp_all
  have "num < 2 ^ nat (?b + 1) * 2 ^ k" using assms(3) b(2)
    by (meson less_le_trans mult_right_mono less_imp_le zero_le_numeral zero_le_power order_less_trans mult_strict_right_mono zero_less_numeral zero_less_power)
  also have "\<dots> = 2 ^ (nat (?b + 1) + k)" by (simp add: power_add)
  finally have "(2 :: int) ^ nat ?a < 2 ^ (nat (?b + 1) + k)" using a(2) by linarith
  then have "nat ?a < nat (?b + 1) + k" by (rule power_less_imp_less_exp [rotated]) simp
  then have le: "?a - ?b \<le> int k" using a(1) b(1) by linarith
  show ?thesis
  proof (cases "?a - ?b = int k")
    case True
    with assms(3) show ?thesis by (simp add: floor_log2_def)
  next
    case False
    with le show ?thesis by (simp add: floor_log2_def Let_def)
  qed
qed

lemma round_f64_error:
  assumes "1 \<le> num" and "1 \<le> den" and "num < den * 2 ^ k" and "k \<le> 52"
  shows "\<exists>v. round_f64 False num den = Fin v \<and> 0 \<le> v \<and> \<bar>v - of_int num / of_int den\<bar> \<le> 1 / 2 ^ (54 - k)"
proof -
  define q where "q = max (floor_log2 num den - 52) (- 1074)"
  have q: "q \<le> int k - 53" using floor_log2_less [OF assms(1-3)] assms(4) by (simp add: q_def)
  define j where "j = nat (- q)"
  have j: "53 - k \<le> j" "\<not> 0 \<le> q" using q assms(4) by (simp_all add: j_def)
  define v :: rat where "v = of_int (round_half_even (num * 2 ^ j) den) / 2 ^ j"
  let ?e = "(of_int (round_half_even (num * 2 ^ j) den) - of_int (num * 2 ^ j) / of_int den) / 2 ^ j :: rat"
  have "round_f64 False num den = Fin v"
    using assms(1) j(2) unfolding round_f64_def q_def [symmetric] Let_def j_def [symmetric] v_def by simp
  moreover have "v - of_int num / of_int den = ?e"
    by (simp add: v_def diff_divide_distrib)
  moreover have "\<bar>?e\<bar> \<le> 1 / 2 / 2 ^ j"
  proof -
    have "0 < den" using assms(2) by simp
    from divide_right_mono [OF round_half_even_error [OF this, of "num * 2 ^ j"], of "2 ^ j"]
    show ?thesis unfolding abs_divide by simp
  qed
  moreover have "1 / 2 / 2 ^ j \<le> (1 / 2 ^ (54 - k) :: rat)"
  proof -
    have "(2 :: rat) ^ (54 - k) \<le> 2 ^ Suc j" using j(1) assms(4) by (intro power_increasing) auto
    then show ?thesis by (simp add: field_simps)
  qed
  moreover have "0 \<le> v"
    using round_half_even_nonneg [of "num * 2 ^ j" den] assms(1,2) by (simp add: v_def)
  ultimately have "round_f64 False num den = Fin v \<and> 0 \<le> v \<and> \<bar>v - of_int num / of_int den\<bar> \<le> 1 / 2 ^ (54 - k)"
    by simp
  then show ?thesis ..
qed

lemma f64_of_rat_error:
  assumes "0 \<le> r" and "r < 2 ^ k" and "k \<le> 52"
  shows "\<exists>v. f64_of_rat r = Fin v \<and> 0 \<le> v \<and> \<bar>v - r\<bar> \<le> 1 / 2 ^ (54 - k)"
proof -
  obtain num den where quot: "quotient_of r = (num, den)" by fastforce
  have den: "0 < den" and r: "r = of_int num / of_int den"
    using quotient_of_denom_pos [OF quot] quotient_of_div [OF quot] by simp_all
  have num: "0 \<le> num" using assms(1) den by (simp add: r zero_le_divide_iff)
  have round: "f64_of_rat r = round_f64 False num den"
    using num by (simp add: f64_of_rat_def quot)
  show ?thesis
  proof (cases "num = 0")
    case True
    have "f64_of_rat r = Fin 0" unfolding round by (simp add: True round_f64_def)
    moreover have "r = 0" by (simp add: r True)
    ultimately show ?thesis by simp
  next
    case False
    have "(of_int num :: rat) < of_int (den * 2 ^ k)"
      using assms(2) den by (simp add: r divide_less_eq mult.commute)
    then have "num < den * 2 ^ k" by (simp only: of_int_less_iff)
    with round_f64_error [of num den k] False num den assms(3) show ?thesis
      by (simp add: round, simp add: r)
  qed
qed

text \<open>Whole numbers of seconds are exact.\<close>

lemma f64_of_int:
  assumes "0 \<le> n" and "n < 2 ^ 52"
  shows "f64_of_rat (of_int n) = Fin (of_int n)"
proof (cases "n = 0")
  case False
  define j where "j = nat (- max (floor_log2 n 1 - 52) (- 1074))"
  have neg: "\<not> 0 \<le> max (floor_log2 n 1 - 52) (- 1074)"
    using floor_log2_less [of n 1 52] assms False by simp
  have "round_half_even (n * 2 ^ j) 1 = n * 2 ^ j" by (simp add: round_half_even_def)
  with neg False assms(1) show ?thesis
    by (simp add: f64_of_rat_def round_f64_def Let_def j_def quotient_of_int)
qed (simp add: f64_of_rat_def round_f64_def)

section \<open>Writing and reading\<close>

lemma as_secs_f64_close:
  assumes "0 \<le> st" and "st div nanos_per_sec < 2 ^ 33"
  shows "\<exists>x. as_secs_f64 st = Fin x \<and> 0 \<le> x
      \<and> \<bar>x - of_int st / of_int nanos_per_sec\<bar> \<le> 1 / 2 ^ 20 + 1 / 2 ^ 54"
proof -
  define s n where "s = st div nanos_per_sec" and "n = st mod nanos_per_sec"
  define fr :: rat where "fr = of_int n / of_int nanos_per_sec"
  have sn: "0 \<le> s" "s < 2 ^ 33" "0 \<le> n" "n < nanos_per_sec" "st = s * nanos_per_sec + n"
    using assms by (simp_all add: s_def n_def nanos_per_sec_def pos_imp_zdiv_nonneg_iff)
  have "0 < (of_int nanos_per_sec :: rat)" by (simp add: nanos_per_sec_def)
  then have fr: "0 \<le> fr" "fr < 1" "of_int st / of_int nanos_per_sec = of_int s + fr"
    using sn(3,4) unfolding sn(5) by (simp_all add: fr_def add_divide_distrib)
  obtain u where u: "f64_of_rat fr = Fin u" "0 \<le> u" "\<bar>u - fr\<bar> \<le> 1 / 2 ^ 54"
    using f64_of_rat_error [of fr 0] fr by auto
  have "(of_int s :: rat) < of_int (2 ^ 33)" using sn(2) by (simp only: of_int_less_iff)
  moreover have "u \<le> fr + 1" using abs_le_D1 [OF u(3)] by simp
  ultimately have sum: "0 \<le> of_int s + u" "of_int s + u < 2 ^ 34" using u(2) fr(2) sn(1) by simp_all
  obtain x where x: "f64_of_rat (of_int s + u) = Fin x" "0 \<le> x" "\<bar>x - (of_int s + u)\<bar> \<le> 1 / 2 ^ 20"
    using f64_of_rat_error [OF sum] by auto
  have "f64_of_rat (of_int s) = Fin (of_int s)" using sn(1,2) by (intro f64_of_int) simp_all
  then have "as_secs_f64 st = Fin x"
    using u(1) x(1) by (simp add: as_secs_f64_def fr_def s_def n_def)
  moreover have "\<bar>x - (of_int s + fr)\<bar> \<le> 1 / 2 ^ 20 + 1 / 2 ^ 54"
    using x(3) u(3) by linarith
  ultimately show ?thesis using x(2) fr(3) by auto
qed

lemma seconds_f64_close:
  assumes "0 \<le> st" and "st div nanos_per_sec < 2 ^ 33"
  shows "\<exists>st'. timestamp_to_datetime (as_secs_f64 st) = Some st' \<and> \<bar>st' - st\<bar> < 1000"
proof -
  obtain x where x: "as_secs_f64 st = Fin x" "0 \<le> x"
    "\<bar>x - of_int st / of_int nanos_per_sec\<bar> \<le> 1 / 2 ^ 20 + 1 / 2 ^ 54"
    using as_secs_f64_close [OF assms] by blast
  obtain num den where quot: "quotient_of (x * of_int nanos_per_sec) = (num, den)" by fastforce
  have den: "0 < den" and eq: "of_int num / of_int den = x * of_int nanos_per_sec"
    using quotient_of_denom_pos [OF quot] quotient_of_div [OF quot] by simp_all
  define d where "d = round_half_even num den"
  have "\<bar>of_int d - x * of_int nanos_per_sec\<bar> \<le> 1 / 2"
    using round_half_even_error [OF den, of num] by (simp add: d_def eq)
  moreover have "\<bar>x * of_int nanos_per_sec - of_int st\<bar> \<le> 999"
  proof -
    define y :: rat where "y = of_int st / of_int nanos_per_sec"
    have "of_int st = y * 1000000000" by (simp add: y_def nanos_per_sec_def)
    moreover have "\<bar>x - y\<bar> \<le> 1 / 2 ^ 20 + 1 / 2 ^ 54" using x(3) by (simp only: y_def)
    moreover have "1 / 2 ^ 20 + 1 / 2 ^ 54 \<le> (999 / 1000000000 :: rat)" by simp
    ultimately show ?thesis unfolding nanos_per_sec_def of_int_numeral by linarith
  qed
  ultimately have "\<bar>of_int d - of_int st :: rat\<bar> < 1000" by linarith
  then have close: "\<bar>d - st\<bar> < 1000"
    by (metis of_int_diff of_int_abs of_int_less_iff of_int_numeral)
  have "st < 2 ^ 33 * nanos_per_sec" using assms(2) by (simp add: nanos_per_sec_def div_less_iff_less_mult)
  then have "d div nanos_per_sec < 2 ^ 63"
    using close by (simp add: nanos_per_sec_def abs_less_iff) linarith
  then have "timestamp_to_datetime (as_secs_f64 st) = Some d"
    using x(2) by (simp add: timestamp_to_datetime_def try_from_secs_f64_def x(1) quot systime_checked_add_def
        flip: d_def)
  with close show ?thesis by blast
qed

text \<open>
  C39: Times survive the wire. A time of at least the epoch and before the year 2242 that is a whole number
  of seconds is written as an integer and comes out exactly; any other is written as a float and comes out
  less than a microsecond off. Its RFC 3339 text is written as it is and read exactly by both visitors and through the
  optional forms, when the \<open>time\<close> crate formats it and parses what it formats. A time before the epoch is an error in both forms.
\<close>

theorem timestamps_kept:
  assumes "0 \<le> st" and "st div nanos_per_sec < 2 ^ 33" and "early < 0"
    and "rf_format rf st = Some formatted"
    and "rf_parse rf formatted = Some (st div nanos_per_sec, st mod nanos_per_sec)"
  shows "(if st mod nanos_per_sec = 0
      then (\<exists>n. serialize_seconds st = Inr (WireU64 n) \<and> uint n = st div nanos_per_sec \<and>
        deserialize_seconds rf (WireU64 n) = Inr st)
      else (\<exists>x st'. serialize_seconds st = Inr (WireF64 x) \<and> deserialize_seconds rf (WireF64 x) = Inr st' \<and>
        \<bar>st' - st\<bar> < 1000))
    \<and> serialize_rfc3339 rf st = Inr (WireStr formatted)
    \<and> deserialize_rfc3339 rf (WireStr formatted) = Inr st \<and> deserialize_seconds rf (WireStr formatted) = Inr st
    \<and> result_bind (serialize_rfc3339_opt rf (Some st)) (deserialize_rfc3339_opt rf) = Inr (Some st)
    \<and> to_rfc3339 rf st = formatted
    \<and> serialize_seconds early = Inl InvalidInstance \<and> serialize_rfc3339 rf early = Inl InvalidInstance"
proof -
  have add: "systime_checked_add 0 st = Some st"
    using assms(2) by (simp add: systime_checked_add_def)
  have parsed: "visit_rfc3339_str rf formatted = Inr st"
    using assms(1,5) add by (simp add: visit_rfc3339_str_def pos_imp_zdiv_neg_iff nanos_per_sec_def)
  have secs: "uint (word_of_int (st div nanos_per_sec) :: u64) = st div nanos_per_sec \<and> from_secs (st div nanos_per_sec) = st"
    if "st mod nanos_per_sec = 0"
    using that assms(1,2)
    by (simp add: uint_word_of_int nanos_per_sec_def pos_imp_zdiv_nonneg_iff from_secs_def)
      (simp add: minus_mod_eq_div_mult [symmetric])
  obtain st' where close: "timestamp_to_datetime (as_secs_f64 st) = Some st'" "\<bar>st' - st\<bar> < 1000"
    using seconds_f64_close [OF assms(1,2)] by blast
  have "if st mod nanos_per_sec = 0
      then (\<exists>n. serialize_seconds st = Inr (WireU64 n) \<and> uint n = st div nanos_per_sec \<and>
        deserialize_seconds rf (WireU64 n) = Inr st)
      else (\<exists>x st'. serialize_seconds st = Inr (WireF64 x) \<and> deserialize_seconds rf (WireF64 x) = Inr st' \<and>
        \<bar>st' - st\<bar> < 1000)"
    using assms(1) add secs close by (simp add: serialize_seconds_def duration_since_def visit_seconds_def)
  with parsed show ?thesis
    using assms(1,3,4)
    by (simp add: serialize_seconds_def serialize_rfc3339_def serialize_rfc3339_opt_def
        deserialize_rfc3339_opt_def to_rfc3339_def duration_since_def)
qed

definition sample_rfc3339 :: rfc3339 where
  "sample_rfc3339 = \<lparr>rf_format = (\<lambda>_. Some ''1970-01-01T00:00:01.5Z''), rf_parse = (\<lambda>_. Some (1, 500000000))\<rparr>"

theorem timestamps_kept_witness:
  "serialize_rfc3339 sample_rfc3339 1500000000 = Inr (WireStr ''1970-01-01T00:00:01.5Z'')
   \<and> deserialize_rfc3339 sample_rfc3339 (WireStr ''1970-01-01T00:00:01.5Z'') = Inr 1500000000
   \<and> (\<exists>x st'. serialize_seconds 1500000000 = Inr (WireF64 x) \<and>
        deserialize_seconds sample_rfc3339 (WireF64 x) = Inr st' \<and> \<bar>st' - 1500000000\<bar> < 1000)"
proof -
  have "1500000000 div nanos_per_sec = 1" "1500000000 mod nanos_per_sec = 500000000"
    by (simp_all add: nanos_per_sec_def)
  with timestamps_kept [of 1500000000 "- 1" sample_rfc3339 "''1970-01-01T00:00:01.5Z''"]
  show ?thesis by (simp add: sample_rfc3339_def)
qed

end
