(* ===== verification/TokioThread.thy ===== *)
theory TokioThread
  imports TransportThread
begin

text \<open>
  The tokio variant of the transport thread (\<open>sentry/src/transports/tokio_thread.rs\<close>): the send function
  is asynchronous, takes the rate limiter by value and gives it back. While its future is pending the worker is
  suspended and callers go on, so a send is not one action. It refines the std thread.
\<close>

section \<open>The state\<close>

text \<open>The future of a send: how often it is still pending, and what it is ready with.\<close>

type_synonym async_send =
  "envelope list \<Rightarrow> envelope \<Rightarrow> rate_limiter \<Rightarrow> nat \<times> rate_limiter \<times> transport_loss_reason option"

record tokio_pipe =
  tk_pipe :: pipe
  tk_sending :: "(nat \<times> rate_limiter \<times> transport_loss_reason option \<times> envelope) option"

definition tokio_thread_new :: "bool \<Rightarrow> recorder \<Rightarrow> tokio_pipe" where
  "tokio_thread_new spawned rec = \<lparr>tk_pipe = transport_thread_new spawned rec, tk_sending = None\<rparr>"

section \<open>The worker\<close>

text \<open>The send future is created, with the limiter moved into it; \<open>await\<close> polls it.\<close>

definition tokio_send :: "async_send \<Rightarrow> (nat \<Rightarrow> systime) \<Rightarrow> envelope \<Rightarrow> pipe \<Rightarrow> tokio_pipe" where
  "tokio_send send clock envelope p =
     (case is_disabled (tt_rl p) RlAny (clock 0) (clock 1) of
        Some time_left \<Rightarrow>
          \<lparr>tk_pipe = record_lost_envelope envelope TlrRatelimitBackoff p, tk_sending = None\<rparr>
      | None \<Rightarrow>
          (case rl_filter (tt_rl p) (\<lambda>i. clock (i + 2)) (tt_rec p) envelope of
             (rec, None) \<Rightarrow> \<lparr>tk_pipe = p\<lparr>tt_rec := rec\<rparr>, tk_sending = None\<rparr>
           | (rec, Some envelope') \<Rightarrow>
               (case send (tt_sent p) envelope' (tt_rl p) of
                  (n, rl, loss) \<Rightarrow>
                    \<lparr>tk_pipe = p\<lparr>tt_rec := rec, tt_sent := tt_sent p @ [envelope']\<rparr>,
                     tk_sending = Some (n, rl, loss, envelope')\<rparr>)))"

text \<open>The loop body after the load of the shutdown flag.\<close>

definition tokio_handle :: "async_send \<Rightarrow> (nat \<Rightarrow> systime) \<Rightarrow> pipe \<Rightarrow> tokio_pipe option" where
  "tokio_handle send clock p =
     (if tt_checked p then
        (case tt_current p of
           None \<Rightarrow> None
         | Some task \<Rightarrow>
             (let p' = p\<lparr>tt_current := None, tt_checked := False\<rparr> in
              Some (case task of
                      SendEnvelope envelope \<Rightarrow> tokio_send send clock envelope p'
                    | FlushTask answer \<Rightarrow>
                        \<lparr>tk_pipe = p'\<lparr>tt_acks := insert answer (tt_acks p)\<rparr>, tk_sending = None\<rparr>
                    | ShutdownTask \<Rightarrow> \<lparr>tk_pipe = worker_exit p', tk_sending = None\<rparr>)))
      else None)"

text \<open>The limiter comes back, and a failed send has been recorded.\<close>

definition send_ready :: "rate_limiter \<Rightarrow> transport_loss_reason option \<Rightarrow> envelope \<Rightarrow> pipe \<Rightarrow> pipe" where
  "send_ready rl loss envelope p =
     (case loss of None \<Rightarrow> p\<lparr>tt_rl := rl\<rparr> | Some rsn \<Rightarrow> record_lost_envelope envelope rsn (p\<lparr>tt_rl := rl\<rparr>))"

definition tokio_poll :: "tokio_pipe \<Rightarrow> tokio_pipe option" where
  "tokio_poll s =
     (case tk_sending s of
        None \<Rightarrow> None
      | Some (Suc n, ready) \<Rightarrow> Some (s\<lparr>tk_sending := Some (n, ready)\<rparr>)
      | Some (0, rl, loss, envelope) \<Rightarrow>
          Some \<lparr>tk_pipe = send_ready rl loss envelope (tk_pipe s), tk_sending = None\<rparr>)"

section \<open>Runs\<close>

datatype tokio_op = Common pipe_op | Poll

text \<open>Callers act as on the std thread; the worker takes and handles tasks while it is not sending.\<close>

fun tokio_do :: "async_send \<Rightarrow> tokio_op \<Rightarrow> tokio_pipe \<Rightarrow> tokio_pipe option" where
  "tokio_do send Poll s = tokio_poll s"
| "tokio_do send (Common (Handle clock)) s =
     (if tk_sending s = None then tokio_handle send clock (tk_pipe s) else None)"
| "tokio_do send (Common Recv) s =
     (if tk_sending s = None then map_option (\<lambda>p. s\<lparr>tk_pipe := p\<rparr>) (worker_recv (tk_pipe s)) else None)"
| "tokio_do send (Common Load) s =
     (if tk_sending s = None then map_option (\<lambda>p. s\<lparr>tk_pipe := p\<rparr>) (worker_load (tk_pipe s)) else None)"
| "tokio_do send (Common (Submit envelope)) s = Some (s\<lparr>tk_pipe := thread_send envelope (tk_pipe s)\<rparr>)"
| "tokio_do send (Common (Flush answer)) s = map_option (\<lambda>p. s\<lparr>tk_pipe := p\<rparr>) (thread_flush answer (tk_pipe s))"
| "tokio_do send (Common StoreFlag) s = Some (s\<lparr>tk_pipe := drop_store_flag (tk_pipe s)\<rparr>)"
| "tokio_do send (Common SendShutdown) s = map_option (\<lambda>p. s\<lparr>tk_pipe := p\<rparr>) (drop_send_task (tk_pipe s))"

inductive tokio_steps :: "async_send \<Rightarrow> tokio_pipe \<Rightarrow> tokio_op list \<Rightarrow> tokio_pipe \<Rightarrow> bool"
  for send s where
  nil: "tokio_steps send s [] s"
| snoc: "tokio_steps send s ops t \<Longrightarrow> tokio_do send op t = Some u \<Longrightarrow> tokio_steps send s (ops @ [op]) u"

section \<open>The abstraction\<close>

text \<open>A send in progress counts as done; polls are not seen.\<close>

definition tokio_abs :: "tokio_pipe \<Rightarrow> pipe" where
  "tokio_abs s = (case tk_sending s of None \<Rightarrow> tk_pipe s
     | Some (n, rl, loss, envelope) \<Rightarrow> send_ready rl loss envelope (tk_pipe s))"

definition awaited :: "async_send \<Rightarrow> send_fn" where
  "awaited send = (\<lambda>calls envelope rl. snd (send calls envelope rl))"

fun common_of :: "tokio_op \<Rightarrow> pipe_op option" where
  "common_of (Common op) = Some op" | "common_of Poll = None"

section \<open>Lemmas\<close>

text \<open>Losses are recorded in any order.\<close>

lemma counts_commute:
  fixes xs :: "u64 list"
  shows "(xs[i := xs ! i + p])[j := xs[i := xs ! i + p] ! j + q] = (xs[j := xs ! j + q])[i := xs[j := xs ! j + q] ! i + p]"
  by (cases "i = j"; cases "j < length xs") (simp_all add: list_update_swap list_update_beyond add_ac)

lemma record_loss_commute:
  "record_loss c r q (record_loss c' r' q' a) = record_loss c' r' q' (record_loss c r q a)"
  unfolding record_loss_def by (simp add: counts_commute [of "agg_counts a" "agg_index c' r'"])

lemma record_one_commute: "record_one r (record_one r' a y) x = record_one r' (record_one r a x) y"
  unfolding record_one_def by (rule record_loss_commute)

lemma record_lost_data_commute:
  "record_lost_data xs r (record_lost_data ys r' a) = record_lost_data ys r' (record_lost_data xs r a)"
proof -
  have one: "foldl (record_one r) (record_one r' a y) xs = record_one r' (foldl (record_one r) a xs) y" for a y
    by (induction xs arbitrary: a) (simp_all add: record_one_commute [of r])
  show ?thesis
    unfolding record_lost_data_def by (induction ys arbitrary: a) (simp_all add: one)
qed

lemma record_lost_envelope_commute:
  "record_lost_envelope e r (record_lost_envelope e' r' p) = record_lost_envelope e' r' (record_lost_envelope e r p)"
  by (cases "tt_rec p")
    (simp_all add: record_lost_envelope_def recorder_record_lost_data_def record_lost_data_commute)

text \<open>Being ready commutes with everything a caller does.\<close>

lemma send_ready_fields [simp]:
  "tt_queue (send_ready rl loss e p) = tt_queue p" "tt_current (send_ready rl loss e p) = tt_current p"
  "tt_checked (send_ready rl loss e p) = tt_checked p"
  "tt_shutdown (send_ready rl loss e p) = tt_shutdown p" "tt_alive (send_ready rl loss e p) = tt_alive p"
  "tt_sent (send_ready rl loss e p) = tt_sent p" "tt_acks (send_ready rl loss e p) = tt_acks p"
  by (simp_all add: send_ready_def record_lost_envelope_def split: option.split)

lemma send_ready_update:
  "send_ready rl loss e (p\<lparr>tt_queue := q\<rparr>) = (send_ready rl loss e p)\<lparr>tt_queue := q\<rparr>"
  "send_ready rl loss e (p\<lparr>tt_shutdown := b\<rparr>) = (send_ready rl loss e p)\<lparr>tt_shutdown := b\<rparr>"
  by (simp_all add: send_ready_def record_lost_envelope_def split: option.split)

lemma send_ready_lost:
  "send_ready rl loss e (record_lost_envelope e' r p) = record_lost_envelope e' r (send_ready rl loss e p)"
proof -
  have "(record_lost_envelope e' r p)\<lparr>tt_rl := rl\<rparr> = record_lost_envelope e' r (p\<lparr>tt_rl := rl\<rparr>)"
    by (simp add: record_lost_envelope_def)
  then show ?thesis
    by (simp add: send_ready_def record_lost_envelope_commute [of e] split: option.split)
qed

lemma send_ready_send: "send_ready rl loss e (thread_send e' p) = thread_send e' (send_ready rl loss e p)"
  by (simp add: thread_send_def send_ready_lost send_ready_update)

lemma send_ready_blocking:
  "map_option (send_ready rl loss e) (blocking_send task p) = blocking_send task (send_ready rl loss e p)"
  by (simp add: blocking_send_def send_ready_update)

text \<open>An asynchronous send, its future awaited at once, is the send of the std thread.\<close>

lemma tokio_send_abs: "tokio_abs (tokio_send send clock envelope p) = worker_send (awaited send) clock envelope p"
  by (auto simp: tokio_send_def worker_send_def tokio_abs_def awaited_def send_ready_def record_lost_envelope_def
      Let_def split: option.split prod.split)

lemma tokio_abs_idle [simp]: "tokio_abs \<lparr>tk_pipe = p, tk_sending = None\<rparr> = p"
  by (simp add: tokio_abs_def)

lemma tokio_handle_abs:
  "map_option tokio_abs (tokio_handle send clock p) = worker_handle (awaited send) clock p"
  by (simp add: tokio_handle_def worker_handle_def tokio_send_abs Let_def split: option.split task.split)

lemma tokio_do_abs:
  assumes "tokio_do send op s = Some t"
  shows "case op of Common op' \<Rightarrow> pipe_do (awaited send) op' (tokio_abs s) = Some (tokio_abs t)
    | Poll \<Rightarrow> tokio_abs t = tokio_abs s"
proof (cases op)
  case Poll
  with assms show ?thesis
    by (auto simp: tokio_poll_def tokio_abs_def split: option.splits nat.splits prod.splits)
next
  case (Common op')
  show ?thesis
  proof (cases op')
    case (Handle clock)
    then have "tk_sending s = None" "tokio_handle send clock (tk_pipe s) = Some t"
      using assms Common by (simp_all split: if_splits)
    then show ?thesis
      using tokio_handle_abs [of send clock "tk_pipe s"] Common Handle by (simp add: tokio_abs_def)
  next
    case Recv
    then show ?thesis using assms Common by (auto simp: tokio_abs_def split: if_splits)
  next
    case Load
    then show ?thesis using assms Common by (auto simp: tokio_abs_def split: if_splits)
  next
    case (Submit envelope)
    then show ?thesis using assms Common
      by (auto simp: tokio_abs_def send_ready_send split: option.split)
  next
    case StoreFlag
    then show ?thesis using assms Common
      by (auto simp: tokio_abs_def drop_store_flag_def send_ready_update split: option.split)
  next
    case (Flush answer)
    then obtain p where "thread_flush answer (tk_pipe s) = Some p" "t = s\<lparr>tk_pipe := p\<rparr>"
      using assms Common by auto
    then show ?thesis using Common Flush
      by (auto simp: tokio_abs_def thread_flush_def simp flip: send_ready_blocking split: option.split)
  next
    case SendShutdown
    then obtain p where "drop_send_task (tk_pipe s) = Some p" "t = s\<lparr>tk_pipe := p\<rparr>"
      using assms Common by auto
    then show ?thesis using Common SendShutdown
      by (auto simp: tokio_abs_def drop_send_task_def simp flip: send_ready_blocking split: option.split if_splits)
  qed
qed

lemma tokio_steps_abs:
  "tokio_steps send s ops t \<Longrightarrow>
   pipe_steps (awaited send) (tokio_abs s) (List.map_filter common_of ops) (tokio_abs t)"
proof (induction rule: tokio_steps.induct)
  case (snoc ops t op u)
  show ?case
  proof (cases op)
    case (Common op')
    with snoc tokio_do_abs [OF snoc.hyps(2)] show ?thesis
      by (auto simp: map_filter_append List.map_filter_simps intro: pipe_steps.snoc)
  next
    case Poll
    with snoc tokio_do_abs [OF snoc.hyps(2)] show ?thesis
      by (simp add: map_filter_append List.map_filter_simps)
  qed
qed (simp add: List.map_filter_simps pipe_steps.nil)

text \<open>A send ends when its future has been polled often enough.\<close>

lemma tokio_steps_trans:
  "tokio_steps send t ops' u \<Longrightarrow> tokio_steps send s ops t \<Longrightarrow> tokio_steps send s (ops @ ops') u"
  by (induction rule: tokio_steps.induct) (auto intro: tokio_steps.snoc simp flip: append_assoc)

lemma tokio_send_completes:
  "tk_sending s = Some (n, ready) \<Longrightarrow>
   tokio_steps send s (replicate (Suc n) Poll) \<lparr>tk_pipe = tokio_abs s, tk_sending = None\<rparr>"
proof (induction n arbitrary: s)
  case 0
  obtain rl loss e where "ready = (rl, loss, e)" by (cases ready)
  with 0 have "tokio_do send Poll s = Some \<lparr>tk_pipe = tokio_abs s, tk_sending = None\<rparr>"
    by (simp add: tokio_poll_def tokio_abs_def)
  from tokio_steps.snoc [OF tokio_steps.nil this] show ?case by simp
next
  case (Suc n)
  let ?t = "s\<lparr>tk_sending := Some (n, ready)\<rparr>"
  have "tokio_do send Poll s = Some ?t" using Suc.prems by (simp add: tokio_poll_def)
  from tokio_steps.snoc [OF tokio_steps.nil this] have one: "tokio_steps send s [Poll] ?t" by simp
  have "tokio_abs ?t = tokio_abs s" using Suc.prems by (cases ready) (simp add: tokio_abs_def)
  with tokio_steps_trans [OF Suc.IH [of ?t] one] show ?case by simp
qed

section \<open>Properties\<close>

text \<open>
  C11: The tokio thread refines the std thread. Every run of it, with its sends suspended and resumed
  at any time between what callers do, is a run of the std thread with the same actions, when a send
  counts as done from its start; the queue, the answered flushes and the calls of the send function are
  the same. So no item vanishes here either. A send in progress ends after as many polls as its future
  needs, and the state is then the one the std thread has.
\<close>

theorem tokio_thread_refines:
  assumes "tokio_steps send (tokio_thread_new spawned rec) ops s"
  shows "pipe_steps (awaited send) (transport_thread_new spawned rec) (List.map_filter common_of ops) (tokio_abs s) \<and>
    tt_queue (tk_pipe s) = tt_queue (tokio_abs s) \<and> tt_acks (tk_pipe s) = tt_acks (tokio_abs s) \<and>
    tt_sent (tk_pipe s) = tt_sent (tokio_abs s) \<and> tt_alive (tk_pipe s) = tt_alive (tokio_abs s) \<and>
    (\<exists>fates abandoned.
       tt_rec (tokio_abs s) = foldl record_fate rec fates \<and>
       sum_list (map submitted (List.map_filter common_of ops)) =
         pending_items (tk_pipe s) + sent_items (tt_sent (tk_pipe s)) + sum_list (map dropped_items fates) + abandoned \<and>
       (abandoned = {#} \<or> tt_shutdown (tk_pipe s))) \<and>
    (case tk_sending s of
       None \<Rightarrow> tokio_abs s = tk_pipe s
     | Some (n, ready) \<Rightarrow>
         tokio_steps send s (replicate (Suc n) Poll) \<lparr>tk_pipe = tokio_abs s, tk_sending = None\<rparr>)"
proof -
  have "tokio_abs (tokio_thread_new spawned rec) = transport_thread_new spawned rec"
    by (simp add: tokio_abs_def tokio_thread_new_def)
  with tokio_steps_abs [OF assms]
  have run: "pipe_steps (awaited send) (transport_thread_new spawned rec) (List.map_filter common_of ops) (tokio_abs s)"
    by simp
  have same: "tt_queue (tokio_abs s) = tt_queue (tk_pipe s)" "tt_acks (tokio_abs s) = tt_acks (tk_pipe s)"
    "tt_sent (tokio_abs s) = tt_sent (tk_pipe s)" "tt_alive (tokio_abs s) = tt_alive (tk_pipe s)"
    "tt_shutdown (tokio_abs s) = tt_shutdown (tk_pipe s)" "pending_items (tokio_abs s) = pending_items (tk_pipe s)"
    by (simp_all add: tokio_abs_def pending_items_def split: option.split prod.split)
  have "case tk_sending s of
       None \<Rightarrow> tokio_abs s = tk_pipe s
     | Some (n, ready) \<Rightarrow>
         tokio_steps send s (replicate (Suc n) Poll) \<lparr>tk_pipe = tokio_abs s, tk_sending = None\<rparr>"
    using tokio_send_completes [of s _ _ send] by (auto simp: tokio_abs_def simp del: replicate_Suc split: option.split)
  with run same pipe_reach(2) [OF run] show ?thesis
    unfolding pipe_accounts_def by (auto simp: same)
qed

lemma tokio_thread_refines_witness:
  "\<exists>s. tokio_steps (\<lambda>_ _ rl. (2, rl, None)) (tokio_thread_new True None) [Common (Submit envelope_new)] s \<and>
     pipe_steps (awaited (\<lambda>_ _ rl. (2, rl, None))) (transport_thread_new True None) [Submit envelope_new] (tokio_abs s) \<and>
     tt_queue (tokio_abs s) = [SendEnvelope envelope_new]"
proof -
  let ?s = "\<lparr>tk_pipe = thread_send envelope_new (transport_thread_new True None), tk_sending = None\<rparr>"
  have steps: "tokio_steps (\<lambda>_ _ rl. (2, rl, None)) (tokio_thread_new True None) ([] @ [Common (Submit envelope_new)]) ?s"
    by (rule tokio_steps.snoc [OF tokio_steps.nil]) (simp add: tokio_thread_new_def)
  have "tt_queue (tk_pipe ?s) = [SendEnvelope envelope_new]"
    by (simp add: thread_send_def transport_thread_new_def channel_capacity_def)
  with steps tokio_thread_refines [OF steps] show ?thesis
    by (intro exI [of _ ?s]) (simp add: List.map_filter_simps)
qed

end
