(* ===== verification/HttpClients.thy ===== *)
theory HttpClients
  imports HttpTransport TokioThread Auth EnvelopeCodec
begin

text \<open>
  The HTTP transports from options to request (\<open>sentry/src/transports/\<close>: \<open>ureq.rs\<close>, \<open>curl.rs\<close>, \<open>reqwest.rs\<close>,
  \<open>embedded_svc_http.rs\<close>, \<open>mod.rs\<close>): which proxy and TLS settings a client is built with, the
  request for an envelope, what is recorded of its loss, and the choice of the default transport. The
  clients themselves are not part of the repository: what an exchange gives is an input.
\<close>

section \<open>Requests\<close>

text \<open>The proxies a client goes through, by the scheme of the request they apply to.\<close>

datatype proxy_scope = ProxyAll | ProxyHttp | ProxyHttps

record http_client =
  hc_proxies :: "(proxy_scope \<times> string) list"
  hc_accept_invalid_certs :: bool

record http_request =
  rq_method :: string
  rq_url :: string
  rq_headers :: "(string \<times> string) list"
  rq_body :: string

text \<open>
  What the transports share: the options, the parser and printer of the url crate, the printer of \<open>f64\<close>, the
  JSON codec, and which proxies are valid.
\<close>

record http_env =
  he_parse_url :: url_parser
  he_show_url :: "url \<Rightarrow> string"
  he_show_float :: "flt \<Rightarrow> string"
  he_codec :: codec
  he_valid_proxy :: "string \<Rightarrow> bool"

text \<open>Built once, with the clock reading of the construction; \<open>None\<close> is the panic of an invalid URL.\<close>

definition transport_auth :: "http_env \<Rightarrow> systime \<Rightarrow> transport_options \<Rightarrow> string" where
  "transport_auth he now o' = auth_display (he_show_float he) (to_auth now (to_dsn o') (Some (to_user_agent o')))"

definition transport_url :: "http_env \<Rightarrow> transport_options \<Rightarrow> string option" where
  "transport_url he o' = map_option (he_show_url he) (envelope_api_url (he_parse_url he) (to_dsn o'))"

section \<open>ureq\<close>

definition scheme_proxy :: "http_env \<Rightarrow> scheme \<Rightarrow> string option \<Rightarrow> string option \<Rightarrow> string option" where
  "scheme_proxy he s http_proxy https_proxy =
     (let valid = (\<lambda>proxy. if he_valid_proxy he proxy then Some proxy else None) in
      case (s, http_proxy, https_proxy) of
        (Https, _, Some proxy) \<Rightarrow> valid proxy
      | (_, Some proxy, _) \<Rightarrow> valid proxy
      | _ \<Rightarrow> None)"

text \<open>The agent, unless one was given; without a TLS feature certificates are always verified.\<close>

definition ureq_agent :: "http_env \<Rightarrow> bool \<Rightarrow> http_client option \<Rightarrow> transport_options \<Rightarrow> http_client" where
  "ureq_agent he tls agent o' =
     (case agent of Some a \<Rightarrow> a
      | None \<Rightarrow>
          \<lparr>hc_proxies = (case scheme_proxy he (dsn_scheme (to_dsn o')) (to_http_proxy o') (to_https_proxy o') of
               Some proxy \<Rightarrow> [(ProxyAll, proxy)] | None \<Rightarrow> []),
           hc_accept_invalid_certs = (tls \<and> to_accept_invalid_certs o')\<rparr>)"

text \<open>\<open>Inl\<close>: the envelope is recorded as lost for this reason and the send function panics.\<close>

definition ureq_request :: "http_env \<Rightarrow> string \<Rightarrow> string \<Rightarrow> envelope \<Rightarrow> transport_loss_reason + http_request" where
  "ureq_request he url auth envelope =
     (case to_writer (he_codec he) envelope of
        None \<Rightarrow> Inl TlrInternalError
      | Some body \<Rightarrow> Inr \<lparr>rq_method = ''POST'', rq_url = url, rq_headers = [(''X-Sentry-Auth'', auth)], rq_body = body\<rparr>)"

section \<open>reqwest\<close>

definition reqwest_client :: "http_env \<Rightarrow> http_client option \<Rightarrow> transport_options \<Rightarrow> http_client" where
  "reqwest_client he client o' =
     (let valid = (\<lambda>scope proxy. case proxy of
            Some url \<Rightarrow> if he_valid_proxy he url then [(scope, url)] else [] | None \<Rightarrow> []) in
      case client of Some c \<Rightarrow> c
      | None \<Rightarrow>
          \<lparr>hc_proxies = valid ProxyHttp (to_http_proxy o') @ valid ProxyHttps (to_https_proxy o'),
           hc_accept_invalid_certs = to_accept_invalid_certs o'\<rparr>)"

definition reqwest_request :: "http_env \<Rightarrow> string \<Rightarrow> string \<Rightarrow> envelope \<Rightarrow> transport_loss_reason + http_request" where
  "reqwest_request he url auth envelope =
     (case to_writer (he_codec he) envelope of
        None \<Rightarrow> Inl TlrInternalError
      | Some body \<Rightarrow> Inr \<lparr>rq_method = ''POST'', rq_url = url, rq_headers = [(''X-Sentry-Auth'', auth)], rq_body = body\<rparr>)"

section \<open>curl\<close>

text \<open>The handle is reset for every envelope, so its settings are made with the request.\<close>

definition curl_request ::
  "http_env \<Rightarrow> transport_options \<Rightarrow> string \<Rightarrow> string \<Rightarrow> envelope \<Rightarrow>
   transport_loss_reason + http_client \<times> http_request \<times> nat" where
  "curl_request he o' url auth envelope =
     (let client = \<lparr>hc_proxies =
            (case scheme_proxy he (dsn_scheme (to_dsn o')) (to_http_proxy o') (to_https_proxy o') of
               Some proxy \<Rightarrow> [(ProxyAll, proxy)] | None \<Rightarrow> []),
          hc_accept_invalid_certs = to_accept_invalid_certs o'\<rparr> in
      case to_writer (he_codec he) envelope of
        None \<Rightarrow> Inl TlrInternalError
      | Some body \<Rightarrow>
          Inr (client,
            \<lparr>rq_method = ''POST'', rq_url = url,
             rq_headers = [(''X-Sentry-Auth'', auth), (''Expect'', [])], rq_body = body\<rparr>,
            length body))"

section \<open>Sending\<close>

text \<open>The send functions: the exchange may depend on all requests made before.\<close>

type_synonym 'r exchange = "http_client \<Rightarrow> http_request list \<Rightarrow> http_request \<Rightarrow> 'r \<times> (nat \<Rightarrow> systime)"

definition ureq_send ::
  "http_env \<Rightarrow> (string \<Rightarrow> systime option) \<Rightarrow> http_result exchange \<Rightarrow> http_client \<Rightarrow> string \<Rightarrow> string \<Rightarrow>
   http_request list \<Rightarrow> envelope \<Rightarrow> rate_limiter \<Rightarrow>
   transport_loss_reason + rate_limiter \<times> transport_loss_reason option" where
  "ureq_send he parse_date exchange agent url auth earlier envelope rl =
     result_bind (ureq_request he url auth envelope) (\<lambda>request.
       case exchange agent earlier request of (result, clock) \<Rightarrow> Inr (ureq_outcome parse_date clock result rl))"

definition reqwest_send ::
  "http_env \<Rightarrow> (string \<Rightarrow> systime option) \<Rightarrow> (http_client \<Rightarrow> http_request list \<Rightarrow> http_request \<Rightarrow>
     nat \<times> http_result \<times> (nat \<Rightarrow> systime)) \<Rightarrow> http_client \<Rightarrow> string \<Rightarrow> string \<Rightarrow>
   http_request list \<Rightarrow> envelope \<Rightarrow> rate_limiter \<Rightarrow>
   transport_loss_reason + nat \<times> rate_limiter \<times> transport_loss_reason option" where
  "reqwest_send he parse_date exchange client url auth earlier envelope rl =
     result_bind (reqwest_request he url auth envelope) (\<lambda>request.
       case exchange client earlier request of (n, result, clock) \<Rightarrow>
         Inr (n, reqwest_outcome parse_date clock result rl))"

definition curl_send ::
  "http_env \<Rightarrow> (string \<Rightarrow> systime option) \<Rightarrow> curl_result exchange \<Rightarrow> transport_options \<Rightarrow> string \<Rightarrow> string \<Rightarrow>
   http_request list \<Rightarrow> envelope \<Rightarrow> rate_limiter \<Rightarrow>
   transport_loss_reason + rate_limiter \<times> transport_loss_reason option" where
  "curl_send he parse_date exchange o' url auth earlier envelope rl =
     result_bind (curl_request he o' url auth envelope) (\<lambda>(client, request, size).
       case exchange client earlier request of (result, clock) \<Rightarrow> Inr (curl_outcome parse_date clock result rl))"

text \<open>
  The transports around a thread: submitting, and shutting down by a flush. What a flush answers within its
  timeout depends on the worker.
\<close>

definition thread_transport :: "(duration \<Rightarrow> pipe \<Rightarrow> bool \<times> pipe) \<Rightarrow> pipe transport" where
  "thread_transport flush =
     \<lparr>tp_send_envelope = thread_send, tp_flush = flush, tp_shutdown = default_shutdown flush\<rparr>"

section \<open>Embedded\<close>

text \<open>
  The transport for ESP-IDF sends from the calling thread. \<open>exchange\<close> is the status of the response or the
  error of one of its steps; errors are only logged.
\<close>

definition embedded_send_envelope ::
  "http_env \<Rightarrow> systime \<Rightarrow> (http_request \<Rightarrow> string + nat) \<Rightarrow> transport_options option \<Rightarrow> envelope \<Rightarrow>
   (string + unit) option" where
  "embedded_send_envelope he now exchange o' envelope =
     (case o' of
        None \<Rightarrow> Some (Inl ''No DSN specified'')
      | Some o' \<Rightarrow>
          (case transport_url he o' of
             None \<Rightarrow> None
           | Some url \<Rightarrow>
               Some (case to_writer (he_codec he) envelope of
                  None \<Rightarrow> Inl ''write''
                | Some body \<Rightarrow>
                    (case exchange \<lparr>rq_method = ''POST'', rq_url = url,
                         rq_headers = [(''X-Sentry-Auth'', transport_auth he now o')], rq_body = body\<rparr> of
                       Inl e \<Rightarrow> Inl e | Inr status \<Rightarrow> Inr ()))))"

section \<open>The default transport\<close>

record transport_features =
  tf_reqwest :: bool
  tf_curl :: bool
  tf_ureq :: bool
  tf_embedded :: bool

datatype transport_kind = KindReqwest | KindCurl | KindUreq | KindEmbedded

text \<open>The type aliases, of which several or none may be left.\<close>

definition default_transports :: "transport_features \<Rightarrow> transport_kind list" where
  "default_transports f =
     (if tf_reqwest f then [KindReqwest] else [])
     @ (if tf_curl f \<and> \<not> tf_embedded f \<and> \<not> tf_reqwest f \<and> \<not> tf_ureq f then [KindCurl] else [])
     @ (if tf_ureq f \<and> \<not> tf_embedded f \<and> \<not> tf_reqwest f \<and> \<not> tf_curl f then [KindUreq] else [])
     @ (if tf_embedded f \<and> \<not> tf_reqwest f \<and> \<not> tf_curl f \<and> \<not> tf_ureq f then [KindEmbedded] else [])"

definition any_http_transport :: "transport_features \<Rightarrow> bool" where
  "any_http_transport f = (tf_reqwest f \<or> tf_curl f \<or> tf_ureq f \<or> tf_embedded f)"

datatype factory_result = Creates transport_kind | PanicsWithoutTransport | DoesNotCompile

definition default_factory :: "transport_features \<Rightarrow> factory_result" where
  "default_factory f =
     (if any_http_transport f
      then (case default_transports f of [kind] \<Rightarrow> Creates kind | _ \<Rightarrow> DoesNotCompile)
      else PanicsWithoutTransport)"

section \<open>Lemmas\<close>

text \<open>The proxy that a client goes through for a scheme.\<close>

fun scope_covers :: "proxy_scope \<Rightarrow> scheme \<Rightarrow> bool" where
  "scope_covers ProxyAll s = True"
| "scope_covers ProxyHttp s = (s = Http)"
| "scope_covers ProxyHttps s = (s = Https)"

definition proxy_of :: "scheme \<Rightarrow> http_client \<Rightarrow> string option" where
  "proxy_of s c = map_option snd (List.find (\<lambda>(scope, _). scope_covers scope s) (hc_proxies c))"

lemma ureq_proxy:
  "proxy_of (dsn_scheme (to_dsn o')) (ureq_agent he tls None o') =
     scheme_proxy he (dsn_scheme (to_dsn o')) (to_http_proxy o') (to_https_proxy o')"
  by (simp add: proxy_of_def ureq_agent_def split: option.split)

text \<open>Where the clients differ: with only an HTTP proxy, reqwest goes to an https DSN directly.\<close>

lemma reqwest_proxy:
  "proxy_of s (reqwest_client he None o') =
     (if s = Https \<and> to_https_proxy o' = None then None
      else scheme_proxy he s (to_http_proxy o') (to_https_proxy o'))"
  by (cases s; cases "to_http_proxy o'"; cases "to_https_proxy o'")
    (simp_all add: proxy_of_def reqwest_client_def scheme_proxy_def)

lemma ureq_proxy_cases:
  "proxy_of (dsn_scheme (to_dsn o')) (ureq_agent he tls None o') =
     (case (if dsn_scheme (to_dsn o') = Https \<and> to_https_proxy o' \<noteq> None then to_https_proxy o' else to_http_proxy o') of
        Some proxy \<Rightarrow> if he_valid_proxy he proxy then Some proxy else None | None \<Rightarrow> None)"
  unfolding ureq_proxy
  by (cases "dsn_scheme (to_dsn o')"; cases "to_http_proxy o'"; cases "to_https_proxy o'")
    (simp_all add: scheme_proxy_def)

lemma reqwest_proxy_cases:
  "proxy_of s (reqwest_client he None o') =
     (case (if s = Https then to_https_proxy o' else to_http_proxy o') of
        Some proxy \<Rightarrow> if he_valid_proxy he proxy then Some proxy else None | None \<Rightarrow> None)"
  by (cases s; cases "to_http_proxy o'"; cases "to_https_proxy o'")
    (simp_all add: proxy_of_def reqwest_client_def)

text \<open>An envelope that cannot be written is recorded, and its send function panics, in all of them.\<close>

lemma unwritable_envelope:
  "to_writer (he_codec he) envelope = None \<Longrightarrow>
   ureq_send he pd ex agent url auth earlier envelope rl = Inl TlrInternalError \<and>
   reqwest_send he pd ex' client url auth earlier envelope rl = Inl TlrInternalError \<and>
   curl_send he pd ex'' o' url auth earlier envelope rl = Inl TlrInternalError"
  by (simp add: ureq_send_def reqwest_send_def curl_send_def ureq_request_def reqwest_request_def curl_request_def)

text \<open>There is one default transport exactly when reqwest or a single other one is compiled in.\<close>

lemma default_factory_iff:
  "default_factory f = DoesNotCompile \<longleftrightarrow> \<not> tf_reqwest f \<and> 1 < length (filter id [tf_curl f, tf_ureq f, tf_embedded f])"
  "tf_reqwest f \<Longrightarrow> default_factory f = Creates KindReqwest"
  by (cases "tf_reqwest f"; cases "tf_curl f"; cases "tf_ureq f"; cases "tf_embedded f";
      simp add: default_factory_def default_transports_def any_http_transport_def)+

section \<open>Properties\<close>

text \<open>
  C33: What reaches the server is what was captured. ureq, reqwest and curl make the same request for an
  item envelope that can be written, a POST to the given URL, curl with one header more: parsing its body gives the
  envelope back (under the assumptions on the JSON library of the wire format), and parsing its authorization header gives
  the keys of the DSN, the user agent of the
  options and the protocol version, with the time the transport was built, when keys and user agent are texts that the
  header can carry and the printed time reads back. ureq and curl go through the https proxy of the options for an https
  DSN, if there is one, and through the http proxy otherwise; reqwest goes through the proxy of the scheme only; a proxy that
  is not valid is left out.
\<close>

theorem request_carries_envelope:
  assumes "env_wf env" and "codec_ok (he_codec he) env" and "env_items env = EnvelopeItems items"
    and "to_writer (he_codec he) env = Some body" and "length body \<le> isize_max"
    and "dsn_public_key (to_dsn o') \<noteq> []" and "header_value (dsn_public_key (to_dsn o'))"
    and "header_value (to_user_agent o')"
    and "\<And>secret. dsn_secret_key (to_dsn o') = Some secret \<Longrightarrow> header_value secret"
    and "header_value (he_show_float he (datetime_to_timestamp now))"
    and "parse_f64 (he_show_float he (datetime_to_timestamp now)) = Some (datetime_to_timestamp now)"
  shows "\<exists>rq auth client.
    ureq_request he url (transport_auth he now o') env = Inr rq \<and>
    reqwest_request he url (transport_auth he now o') env = Inr rq \<and>
    curl_request he o' url (transport_auth he now o') env =
      Inr (client, rq\<lparr>rq_headers := rq_headers rq @ [(''Expect'', [])]\<rparr>, length (rq_body rq)) \<and>
    rq_method rq = ''POST'' \<and> rq_url rq = url \<and>
    from_slice (he_codec he) (rq_body rq) =
      Inr (env\<lparr>env_items := EnvelopeItems (map norm_item (filter (\<lambda>it. it \<noteq> IRaw) items))\<rparr>) \<and>
    rq_headers rq = [(''X-Sentry-Auth'', auth)] \<and>
    auth_from_str auth = Inr \<lparr>au_timestamp = timestamp_to_datetime (datetime_to_timestamp now),
      au_client = Some (to_user_agent o'), au_version = 7,
      au_key = dsn_public_key (to_dsn o'), au_secret = dsn_secret_key (to_dsn o')\<rparr> \<and>
    (\<forall>c \<in> {client, ureq_agent he tls None o'}. proxy_of (dsn_scheme (to_dsn o')) c =
      (case (if dsn_scheme (to_dsn o') = Https \<and> to_https_proxy o' \<noteq> None then to_https_proxy o' else to_http_proxy o') of
         Some proxy \<Rightarrow> if he_valid_proxy he proxy then Some proxy else None | None \<Rightarrow> None)) \<and>
    (\<forall>s. proxy_of s (reqwest_client he None o') =
      (case (if s = Https then to_https_proxy o' else to_http_proxy o') of
         Some proxy \<Rightarrow> if he_valid_proxy he proxy then Some proxy else None | None \<Rightarrow> None))"
proof -
  let ?a = "to_auth now (to_dsn o') (Some (to_user_agent o'))"
  have fields: "au_timestamp ?a = Some now" "au_client ?a = Some (to_user_agent o')" "au_version ?a = 7"
    "au_key ?a = dsn_public_key (to_dsn o')" "au_secret ?a = dsn_secret_key (to_dsn o')"
    by (simp_all add: to_auth_def auth_from_dsn_and_client_def protocol_latest_def)
  have auth: "auth_from_str (transport_auth he now o') =
      Inr (?a\<lparr>au_timestamp := timestamp_to_datetime (datetime_to_timestamp now)\<rparr>)"
    using auth_roundtrip [of ?a "he_show_float he"] assms(6-11) by (simp add: transport_auth_def fields)
  note parsed = from_slice_written [OF assms(1-5)]
  obtain client rq where rq: "ureq_request he url (transport_auth he now o') env = Inr rq"
    "reqwest_request he url (transport_auth he now o') env = Inr rq"
    "curl_request he o' url (transport_auth he now o') env =
      Inr (client, rq\<lparr>rq_headers := rq_headers rq @ [(''Expect'', [])]\<rparr>, length (rq_body rq))"
    "rq = \<lparr>rq_method = ''POST'', rq_url = url, rq_headers = [(''X-Sentry-Auth'', transport_auth he now o')], rq_body = body\<rparr>"
    "proxy_of (dsn_scheme (to_dsn o')) client = proxy_of (dsn_scheme (to_dsn o')) (ureq_agent he tls None o')"
    using assms(4) by (simp add: ureq_request_def reqwest_request_def curl_request_def proxy_of_def ureq_agent_def)
  note proxies = ureq_proxy_cases [of o' he tls] reqwest_proxy_cases [of _ he o']
  show ?thesis
    using rq parsed auth proxies
    by (intro exI [of _ rq] exI [of _ "transport_auth he now o'"] exI [of _ client])
      (simp add: to_auth_def auth_from_dsn_and_client_def protocol_latest_def)
qed

definition sample_env :: http_env where
  "sample_env = \<lparr>he_parse_url = (\<lambda>_. Some sample_url), he_show_url = (\<lambda>_. ''u''), he_show_float = (\<lambda>_. ''5''),
     he_codec = sample_codec, he_valid_proxy = (\<lambda>_. True)\<rparr>"

definition sample_transport_options :: transport_options where
  "sample_transport_options = \<lparr>to_dsn = sample_dsn, to_user_agent = ''rust/1'', to_http_proxy = None,
     to_https_proxy = Some ''p'', to_accept_invalid_certs = False, to_recorder = None\<rparr>"

lemma request_carries_envelope_witness:
  "\<exists>rq. ureq_request sample_env ''u'' (transport_auth sample_env (from_secs 5) sample_transport_options) sample_envelope
      = Inr rq \<and> rq_method rq = ''POST''
    \<and> proxy_of Https (reqwest_client sample_env None sample_transport_options) = Some ''p''"
proof -
  have t: "datetime_to_timestamp (from_secs 5) = Fin 5" by code_simp
  have v: "header_value ''key''" "header_value ''rust/1''" "header_value ''5''" "parse_f64 ''5'' = Some (Fin 5)"
    by code_simp+
  have e: "he_codec sample_env = sample_codec" "he_show_float sample_env (Fin 5) = ''5''"
    "dsn_public_key (to_dsn sample_transport_options) = ''key''" "to_user_agent sample_transport_options = ''rust/1''"
    "dsn_secret_key (to_dsn sample_transport_options) = None" "to_https_proxy sample_transport_options = Some ''p''"
    "he_valid_proxy sample_env ''p''" "dsn_scheme (to_dsn sample_transport_options) = Https"
    by (simp_all add: sample_env_def sample_transport_options_def sample_dsn_def)
  have "length sample_bytes \<le> isize_max"
    by (simp add: sample_bytes_def item_line_def quote_def show_nat.simps isize_max_def)
  then show ?thesis
    using request_carries_envelope [of sample_envelope sample_env "[IEvent sample_event, sample_attachment]" sample_bytes sample_transport_options "from_secs 5"
        "''u''" True, unfolded e(1-5) t] sample_wf sample_codec_ok
      sample_envelope_items sample_written v e(6-8)
    by (auto simp: sample_event_def)
qed

end
