(* ===== verification/Values.thy ===== *)
theory Values
  imports TraceHeaders Backtrace Timestamps
begin

text \<open>
  The small types of \<open>sentry-types/src/protocol/v7.rs\<close>: collections of values, conversions of numbers and
  identifiers, addresses, display texts, and what the macros \<open>impl_str_serde!\<close> and \<open>impl_hex_serde!\<close>
  (\<open>sentry-types/src/macros.rs\<close>) make of them on the wire. IP addresses are printed and parsed by the
  standard library, which is a parameter here.
\<close>

section \<open>Collections\<close>

record 'a values_list =
  vl_values :: "'a list"

definition values_new :: "'a values_list" where
  "values_new = \<lparr>vl_values = []\<rparr>"

definition values_is_empty :: "'a values_list \<Rightarrow> bool" where
  "values_is_empty v = (vl_values v = [])"

definition values_from :: "'a list \<Rightarrow> 'a values_list" where
  "values_from xs = \<lparr>vl_values = xs\<rparr>"

definition values_extend :: "'a list \<Rightarrow> 'a values_list \<Rightarrow> 'a values_list" where
  "values_extend xs v = v\<lparr>vl_values := vl_values v @ xs\<rparr>"

section \<open>Numbers\<close>

text \<open>\<open>as u64\<close>: unsigned types are extended with zeros, signed ones with their sign.\<close>

definition u64_from_i32 :: "32 word \<Rightarrow> u64" where "u64_from_i32 n = word_of_int (sint n)"

definition u64_from_i64 :: "64 word \<Rightarrow> u64" where "u64_from_i64 n = word_of_int (sint n)"

definition u64_from_u32 :: "u32 \<Rightarrow> u64" where "u64_from_u32 n = of_nat (unat n)"

definition u64_from_u16 :: "u16 \<Rightarrow> u64" where "u64_from_u16 n = of_nat (unat n)"

definition addr_is_null :: "u64 \<Rightarrow> bool" where "addr_is_null a = (a = 0)"

definition thread_id_default :: thread_id where "thread_id_default = ThreadInt 0"

definition thread_id_from_i64 :: "64 word \<Rightarrow> thread_id" where
  "thread_id_from_i64 n = ThreadInt (u64_from_i64 n)"

definition thread_id_from_u16 :: "u16 \<Rightarrow> thread_id" where
  "thread_id_from_u16 n = ThreadInt (u64_from_u16 n)"

definition thread_id_from_string :: "string \<Rightarrow> thread_id" where "thread_id_from_string s = ThreadString s"

definition c_error_from_i32 :: "32 word \<Rightarrow> c_error" where
  "c_error_from_i32 n = \<lparr>ce_number = n, ce_name = None\<rparr>"

definition i32_from_c_error :: "c_error \<Rightarrow> 32 word" where "i32_from_c_error err = ce_number err"

definition posix_signal_from_i32 :: "32 word \<Rightarrow> posix_signal" where
  "posix_signal_from_i32 n = \<lparr>ps_number = n, ps_code = None, ps_name = None, ps_code_name = None\<rparr>"

definition posix_signal_from_pair :: "32 word \<times> 32 word \<Rightarrow> posix_signal" where
  "posix_signal_from_pair t =
     (case t of (n, code) \<Rightarrow> \<lparr>ps_number = n, ps_code = Some code, ps_name = None, ps_code_name = None\<rparr>)"

definition i32_from_posix_signal :: "posix_signal \<Rightarrow> 32 word" where "i32_from_posix_signal sig = ps_number sig"

definition mechanism_meta_is_empty :: "mechanism_meta \<Rightarrow> bool" where
  "mechanism_meta_is_empty m = (mm_errno m = None \<and> mm_signal m = None \<and> mm_mach_exception m = None)"

section \<open>Levels, breadcrumbs, events\<close>

definition is_debug :: "level \<Rightarrow> bool" where "is_debug l = (l = Debug)"
definition is_info :: "level \<Rightarrow> bool" where "is_info l = (l = Info)"
definition is_warning :: "level \<Rightarrow> bool" where "is_warning l = (l = Warning)"
definition is_error :: "level \<Rightarrow> bool" where "is_error l = (l = Error)"
definition is_fatal :: "level \<Rightarrow> bool" where "is_fatal l = (l = Fatal)"

definition breadcrumb_default_type :: string where "breadcrumb_default_type = ''default''"

definition breadcrumb_is_default_type :: "string \<Rightarrow> bool" where
  "breadcrumb_is_default_type ty = (ty = ''default'')"

definition breadcrumb_default_level :: level where "breadcrumb_default_level = Info"

definition event_default_level :: level where "event_default_level = Error"

definition event_default_platform :: string where "event_default_platform = ''other''"

definition event_is_default_platform :: "string \<Rightarrow> bool" where
  "event_is_default_platform v = (v = ''other'')"

definition event_default_fingerprint :: "string list" where
  "event_default_fingerprint = [''{{ default }}'']"

definition event_display :: "(uuid \<Rightarrow> string) \<Rightarrow> rfc3339 \<Rightarrow> event \<Rightarrow> string" where
  "event_display show_uuid rf e =
     ''Event(id: '' @ show_uuid (ev_event_id e) @ '', ts: '' @ to_rfc3339 rf (ev_timestamp e) @ '')''"

definition span_display :: "hex_codec \<Rightarrow> rfc3339 \<Rightarrow> pspan \<Rightarrow> string" where
  "span_display hx rf s =
     ''Span(id: '' @ span_id_display hx (sp_span_id s) @ '', ts: '' @ to_rfc3339 rf (sp_start_timestamp s) @ '')''"

definition transaction_display :: "(uuid \<Rightarrow> string) \<Rightarrow> rfc3339 \<Rightarrow> ptransaction \<Rightarrow> string" where
  "transaction_display show_uuid rf t =
     ''Transaction(id: '' @ show_uuid (tx_event_id t) @ '', ts: '' @ to_rfc3339 rf (tx_start_timestamp t) @ '')''"

definition pspan_finish :: "systime \<Rightarrow> pspan \<Rightarrow> pspan" where
  "pspan_finish now s = s\<lparr>sp_timestamp := Some now\<rparr>"

definition ptransaction_finish :: "systime \<Rightarrow> ptransaction \<Rightarrow> ptransaction" where
  "ptransaction_finish now t = t\<lparr>tx_timestamp := Some now\<rparr>"

section \<open>IP addresses\<close>

record ip_text =
  ip_show :: "ip_addr \<Rightarrow> string"
  ip_parse :: "string \<Rightarrow> ip_addr option"

fun ip_address_eq :: "ip_address \<Rightarrow> ip_addr \<Rightarrow> bool" where
  "ip_address_eq IpAuto other = False"
| "ip_address_eq (IpExact addr) other = (addr = other)"

text \<open>The order of addresses: those of version 4 first, then by their bits; \<open>None\<close> is incomparable.\<close>

datatype ordering = Less | Equal | Greater

fun ip_addr_rank :: "ip_addr \<Rightarrow> nat \<times> nat" where
  "ip_addr_rank (IpV4 w) = (0, unat w)"
| "ip_addr_rank (IpV6 w) = (1, unat w)"

definition ip_addr_cmp :: "ip_addr \<Rightarrow> ip_addr \<Rightarrow> ordering" where
  "ip_addr_cmp a b =
     (case (ip_addr_rank a, ip_addr_rank b) of ((i, m), (j, n)) \<Rightarrow>
        if i < j \<or> (i = j \<and> m < n) then Less else if i = j \<and> m = n then Equal else Greater)"

fun ip_address_partial_cmp :: "ip_address \<Rightarrow> ip_addr \<Rightarrow> ordering option" where
  "ip_address_partial_cmp IpAuto other = None"
| "ip_address_partial_cmp (IpExact addr) other = Some (ip_addr_cmp addr other)"

fun ip_address_display :: "ip_text \<Rightarrow> ip_address \<Rightarrow> string" where
  "ip_address_display it IpAuto = ''{{auto}}''"
| "ip_address_display it (IpExact addr) = ip_show it addr"

definition ip_address_from :: "ip_addr \<Rightarrow> ip_address" where "ip_address_from addr = IpExact addr"

definition ip_address_from_str :: "ip_text \<Rightarrow> string \<Rightarrow> ip_address option" where
  "ip_address_from_str it s = (if s = ''{{auto}}'' then Some IpAuto else map_option IpExact (ip_parse it s))"

section \<open>On the wire\<close>

text \<open>\<open>impl_str_serde!\<close>: the display text, and only texts back.\<close>

definition str_serialize :: "('a \<Rightarrow> string) \<Rightarrow> 'a \<Rightarrow> wire" where
  "str_serialize display a = WireStr (display a)"

fun str_deserialize :: "(string \<Rightarrow> 'a option) \<Rightarrow> wire \<Rightarrow> 'a option" where
  "str_deserialize from_str (WireStr s) = from_str s"
| "str_deserialize from_str _ = None"

text \<open>\<open>impl_hex_serde!\<close>: the hexadecimal text, and numbers or texts back.\<close>

definition hex_serialize :: "u64 \<Rightarrow> wire" where
  "hex_serialize a = WireStr (addr_display a)"

fun hex_deserialize :: "wire \<Rightarrow> u64 option" where
  "hex_deserialize (WireI64 v) = Some (u64_from_i64 v)"
| "hex_deserialize (WireU64 v) = Some v"
| "hex_deserialize (WireStr s) = addr_from_str s"
| "hex_deserialize _ = None"

text \<open>The ids are texts through \<open>try_from\<close> and \<open>into\<close>.\<close>

definition span_id_into_string :: "hex_codec \<Rightarrow> span_id \<Rightarrow> string" where
  "span_id_into_string hx s = span_id_display hx s"

definition span_id_try_from :: "hex_codec \<Rightarrow> string \<Rightarrow> span_id option" where
  "span_id_try_from hx v = span_id_from_str hx v"

definition trace_id_into_string :: "hex_codec \<Rightarrow> trace_id \<Rightarrow> string" where
  "trace_id_into_string hx t = trace_id_display hx t"

definition trace_id_try_from :: "hex_codec \<Rightarrow> string \<Rightarrow> trace_id option" where
  "trace_id_try_from hx v = trace_id_from_str hx v"

section \<open>The deprecated trace\<close>

record sentry_trace =
  str_trace_id :: trace_id
  str_span_id :: span_id
  str_sampled :: "bool option"

definition sentry_trace_new :: "trace_id \<Rightarrow> span_id \<Rightarrow> bool option \<Rightarrow> sentry_trace" where
  "sentry_trace_new t s sampled = \<lparr>str_trace_id = t, str_span_id = s, str_sampled = sampled\<rparr>"

definition sentry_trace_into_context :: "sentry_trace \<Rightarrow> propagation" where
  "sentry_trace_into_context tr =
     \<lparr>pc_trace_id = str_trace_id tr, pc_span_id = str_span_id tr, pc_sampled = str_sampled tr, pc_org_id = None\<rparr>"

definition sentry_trace_display :: "hex_codec \<Rightarrow> sentry_trace \<Rightarrow> string" where
  "sentry_trace_display hx tr =
     trace_id_display hx (str_trace_id tr) @ ''-'' @ span_id_display hx (str_span_id tr)
     @ (case str_sampled tr of None \<Rightarrow> [] | Some sampled \<Rightarrow> ''-'' @ (if sampled then ''1'' else ''0''))"

fun header_parse_error_display :: "header_parse_error \<Rightarrow> string" where
  "header_parse_error_display Missing = ''missing sentry-trace header''"
| "header_parse_error_display Invalid = ''invalid sentry-trace header''"

definition parse_sentry_trace_header :: "hex_codec \<Rightarrow> (string \<times> string) list \<Rightarrow> sentry_trace option" where
  "parse_sentry_trace_header hx headers =
     (case try_from_headers hx headers of
        Inl _ \<Rightarrow> None
      | Inr p \<Rightarrow> Some \<lparr>str_trace_id = pc_trace_id p, str_span_id = pc_span_id p, str_sampled = pc_sampled p\<rparr>)"

section \<open>Lemmas\<close>

lemma values_simps [simp]:
  "values_extend xs (values_from ys) = values_from (ys @ xs)"
  "values_is_empty (values_from xs) = (xs = [])" "values_new = values_from []"
  by (simp_all add: values_extend_def values_from_def values_is_empty_def values_new_def)

text \<open>Conversions to 64 bits lose nothing: the narrow value is read back, and so is its sign.\<close>

lemma u64_from_i32_back: "ucast (u64_from_i32 n) = n"
  unfolding u64_from_i32_def by transfer (simp add: take_bit_signed_take_bit)

lemma u64_from_i32_sign: "sint (u64_from_i32 n) = sint n"
proof -
  have "- (2 ^ 31) \<le> sint n" "sint n < 2 ^ 31"
    using sint_greater_eq [of n] sint_less [of n] by simp_all
  then show ?thesis
    unfolding u64_from_i32_def signed_of_int by (simp add: signed_take_bit_int_eq_self)
qed

lemma u64_from_unsigned: "unat (u64_from_u32 m) = unat m" "unat (u64_from_u16 k) = unat k"
proof -
  have "unat m < 2 ^ LENGTH(32)" "unat k < 2 ^ LENGTH(16)" by (rule unsigned_less)+
  then show "unat (u64_from_u32 m) = unat m" "unat (u64_from_u16 k) = unat k"
    by (simp_all add: u64_from_u32_def u64_from_u16_def unsigned_ucast_eq take_bit_nat_eq_self)
qed

lemma ip_addr_cmp_total: "ip_addr_cmp a b = Equal \<longleftrightarrow> a = b"
  by (cases a; cases b) (auto simp: ip_addr_cmp_def unsigned_word_eqI)

lemma ip_address_roundtrip:
  assumes "\<And>addr. a = IpExact addr \<Longrightarrow> ip_parse it (ip_show it addr) = Some addr \<and> ip_show it addr \<noteq> ''{{auto}}''"
  shows "ip_address_from_str it (ip_address_display it a) = Some a"
  using assms by (cases a) (simp_all add: ip_address_from_str_def)

text \<open>The deprecated type prints and parses as the context it converts into.\<close>

lemma sentry_trace_display_header: "sentry_trace_display hx tr = sentry_trace_header hx (sentry_trace_into_context tr)"
  by (simp add: sentry_trace_display_def sentry_trace_header_def sentry_trace_into_context_def)

lemma parse_displayed_trace:
  assumes "hex_ok hx 16 (str_trace_id tr)" and "hex_ok hx 8 (str_span_id tr)"
  shows "parse_sentry_trace_header hx [(''sentry-trace'', sentry_trace_display hx tr)] = Some tr"
proof -
  have "try_from_headers hx ([] @ (''sentry-trace'', sentry_trace_header hx (sentry_trace_into_context tr)) # []) =
      Inr ((sentry_trace_into_context tr)\<lparr>pc_org_id := None\<rparr>)"
    by (rule header_roundtrip) (use assms in \<open>simp_all add: sentry_trace_into_context_def trace_values_def baggage_values_def\<close>)
  then show ?thesis
    by (simp add: parse_sentry_trace_header_def sentry_trace_display_header sentry_trace_into_context_def)
qed

section \<open>Properties\<close>

text \<open>
  Values written with the two macros are read back: addresses and register values from their
  hexadecimal text and from plain numbers, levels and statuses from their names; a negative number stands for its
  bits. Conversions of narrow integers keep value and sign.
\<close>

theorem wire_values_kept:
  "hex_deserialize (hex_serialize a) = Some a \<and> hex_deserialize (WireU64 a) = Some a \<and>
   map_option sint (hex_deserialize (WireI64 v)) = Some (sint v) \<and>
   str_deserialize level_from_str (str_serialize level_display l) = Some l \<and>
   str_deserialize span_status_from_str (str_serialize span_status_display st) = Some st \<and>
   sint (u64_from_i32 n) = sint n \<and> unat (u64_from_u32 m) = unat m \<and>
   i32_from_posix_signal (posix_signal_from_i32 n) = n \<and> i32_from_c_error (c_error_from_i32 n) = n"
proof -
  have "sint (u64_from_i64 v) = sint v" by (simp add: u64_from_i64_def)
  then show ?thesis
    using addr_roundtrip [of a] level_roundtrip [of l] span_status_roundtrip [of st]
    by (simp add: hex_serialize_def str_serialize_def u64_from_i32_sign u64_from_unsigned
        i32_from_posix_signal_def posix_signal_from_i32_def i32_from_c_error_def c_error_from_i32_def)
qed

end
