(* ===== verification/MetricsApi.thy ===== *)
theory MetricsApi
  imports Hub Units
begin

text \<open>
  The metrics an application builds (\<open>sentry-core/src/metrics.rs\<close>): counters, gauges and distributions
  with attributes and, except for counters, a unit, and their capture through the current hub. What they
  become, and what the scope adds, is in \<open>Scope\<close>.
\<close>

section \<open>Building\<close>

definition counter :: "string \<Rightarrow> flt \<Rightarrow> user_metric" where
  "counter n value = UCounter (metric_inner_new n value)"

definition gauge :: "string \<Rightarrow> flt \<Rightarrow> user_metric" where
  "gauge n value = UGauge (metric_inner_new n value) None"

definition distribution :: "string \<Rightarrow> flt \<Rightarrow> user_metric" where
  "distribution n value = UDistribution (metric_inner_new n value) None"

fun metric_attribute :: "string \<Rightarrow> json \<Rightarrow> user_metric \<Rightarrow> user_metric" where
  "metric_attribute k v (UCounter m) = UCounter (metric_inner_attribute k v m)"
| "metric_attribute k v (UGauge m u) = UGauge (metric_inner_attribute k v m) u"
| "metric_attribute k v (UDistribution m u) = UDistribution (metric_inner_attribute k v m) u"

text \<open>The type of a counter has no such method: \<open>None\<close> does not compile.\<close>

fun metric_set_unit :: "munit \<Rightarrow> user_metric \<Rightarrow> user_metric option" where
  "metric_set_unit u (UCounter m) = None"
| "metric_set_unit u (UGauge m u') = Some (UGauge m (Some (unit_serialize u)))"
| "metric_set_unit u (UDistribution m u') = Some (UDistribution m (Some (unit_serialize u)))"

definition metric_capture :: "systime \<Rightarrow> user_metric \<Rightarrow> hub \<Rightarrow> world \<Rightarrow> world" where
  "metric_capture now m hb W = hub_capture_metric now m hb W"

section \<open>Lemmas\<close>

fun metric_parts :: "user_metric \<Rightarrow> metric_type \<times> metric_inner \<times> string option" where
  "metric_parts (UCounter m) = (Counter, m, None)"
| "metric_parts (UGauge m u) = (Gauge, m, u)"
| "metric_parts (UDistribution m u) = (Distribution, m, u)"

lemma into_protocol_metric_parts:
  "into_protocol_metric now t s m = (case metric_parts m of (ty, inner, u) \<Rightarrow>
     \<lparr>met_type = ty, met_name = mi_name inner, met_value = mi_value inner, met_timestamp = now,
      met_trace_id = t, met_span_id = s, met_unit = u, met_attributes = mi_attributes inner\<rparr>)"
  by (cases m) (simp_all add: metric_inner_into_protocol_def)

lemma metric_attribute_parts:
  "metric_parts (metric_attribute k v m) =
     (case metric_parts m of (ty, inner, u) \<Rightarrow> (ty, inner\<lparr>mi_attributes := sm_insert k v (mi_attributes inner)\<rparr>, u))"
  by (cases m) (simp_all add: metric_inner_attribute_def)

lemma metric_attributes_parts:
  "metric_parts (foldl (\<lambda>m (k, v). metric_attribute k v m) m attrs) =
     (case metric_parts m of (ty, inner, u) \<Rightarrow>
        (ty, inner\<lparr>mi_attributes := foldl (\<lambda>as (k, v). sm_insert k v as) (mi_attributes inner) attrs\<rparr>, u))"
  by (induction attrs arbitrary: m) (auto simp: metric_attribute_parts split: prod.split)

lemma map_of_inserts: "map_of (foldl (\<lambda>m (k, v). sm_insert k v m) m attrs) = map_of m ++ map_of (rev attrs)"
  by (induction attrs arbitrary: m) (auto simp: fun_eq_iff map_add_def split: option.split)

lemma apply_user_attributes_fields:
  "met_type (apply_user_attributes us m) = met_type m" "met_name (apply_user_attributes us m) = met_name m"
  "met_value (apply_user_attributes us m) = met_value m" "met_unit (apply_user_attributes us m) = met_unit m"
  "met_timestamp (apply_user_attributes us m) = met_timestamp m"
  "k \<notin> {''user.id'', ''user.name'', ''user.email''} \<Longrightarrow>
     map_of (met_attributes (apply_user_attributes us m)) k = map_of (met_attributes m) k"
  by (cases "user_id us"; cases "user_username us"; cases "user_email us";
      simp add: apply_user_attributes_def insert_opt_def)+

section \<open>Properties\<close>

text \<open>
  What is built is what is captured: the metric that the scope passes on has the type, name, value and unit it
  was built with, and every attribute set on it, the last of a name; the scope adds nothing but the
  trace and, when personal data may be sent and the metric names no user, the three user attributes.
\<close>

theorem built_metric_kept:
  assumes "metric_parts m = (ty, inner, u)"
  shows "(let m' = apply_to_metric now sc h pii (foldl (\<lambda>m (k, v). metric_attribute k v m) m attrs) in
     met_type m' = ty \<and> met_name m' = mi_name inner \<and> met_value m' = mi_value inner \<and> met_unit m' = u \<and>
     met_timestamp m' = now \<and>
     map_of (mi_attributes inner) ++ map_of (rev attrs) \<subseteq>\<^sub>m map_of (met_attributes m') \<and>
     dom (map_of (met_attributes m')) \<subseteq>
       dom (map_of (mi_attributes inner) ++ map_of (rev attrs)) \<union>
       (if pii then {''user.id'', ''user.name'', ''user.email''} else {}))"
proof -
  define b where "b = foldl (\<lambda>m (k, v). metric_attribute k v m) m attrs"
  obtain t sp where m': "apply_to_metric now sc h pii b =
      (let m0 = into_protocol_metric now t sp b in
       if pii \<and> \<not> has_any_user_attributes m0
       then (case sc_user sc of Some us \<Rightarrow> apply_user_attributes us m0 | None \<Rightarrow> m0) else m0)"
    by (rule that, unfold apply_to_metric_def Let_def, rule prod.case_eq_if)
  define m0 where "m0 = into_protocol_metric now t sp b"
  have m0: "met_type m0 = ty" "met_name m0 = mi_name inner" "met_value m0 = mi_value inner" "met_unit m0 = u"
    "met_timestamp m0 = now" "map_of (met_attributes m0) = map_of (mi_attributes inner) ++ map_of (rev attrs)"
    using assms by (simp_all add: m0_def into_protocol_metric_parts b_def metric_attributes_parts map_of_inserts)
  have user: "k \<notin> {''user.id'', ''user.name'', ''user.email''}"
    if "\<not> has_any_user_attributes m0" "k \<in> dom (map_of (met_attributes m0))" for k
    using that by (auto simp: has_any_user_attributes_def sm_has_def)
  show ?thesis
  proof (cases "pii \<and> \<not> has_any_user_attributes m0 \<and> sc_user sc \<noteq> None")
    case True
    then obtain us where us: "sc_user sc = Some us" and pii by auto
    then have r: "apply_to_metric now sc h pii b = apply_user_attributes us m0"
      using True unfolding m' by (simp flip: m0_def)
    have le: "map_of (met_attributes m0) \<subseteq>\<^sub>m map_of (met_attributes (apply_user_attributes us m0))"
      using user True by (auto simp: map_le_def apply_user_attributes_fields)
    have "k \<in> dom (map_of (met_attributes m0)) \<union> {''user.id'', ''user.name'', ''user.email''}"
      if "k \<in> dom (map_of (met_attributes (apply_user_attributes us m0)))" for k
      using that apply_user_attributes_fields(6) [of k us m0]
      by (cases "k \<in> {''user.id'', ''user.name'', ''user.email''}") (blast, simp add: domIff)
    with le m0 \<open>pii\<close> show ?thesis
      unfolding b_def [symmetric] r by (auto simp: apply_user_attributes_fields)
  next
    case False
    then have "apply_to_metric now sc h pii b = m0"
      by (auto simp: m' Let_def simp flip: m0_def split: option.split)
    with m0 show ?thesis by (simp flip: b_def)
  qed
qed

end
