(* ===== verification/Visitor.thy ===== *)
theory Visitor
  imports TracingEvents Otel
begin

text \<open>
  How the tracing layer records the fields of a span and is configured
  (\<open>sentry-tracing/src/layer/mod.rs\<close>): typed values become JSON, \<open>Debug\<close> values by way of a buffer that all
  visits on a thread share; the builder methods of the layer.
\<close>

section \<open>Values\<close>

text \<open>A \<open>Debug\<close> value is the text it formats to.\<close>

datatype tracing_value =
    TvI64 "64 word" | TvU64 u64 | TvBool bool | TvF64 flt | TvStr string | TvDebug string

text \<open>\<open>Into<Value>\<close>; a float that is not a number has no JSON.\<close>

fun value_from :: "(flt \<Rightarrow> string) \<Rightarrow> tracing_value \<Rightarrow> json" where
  "value_from show_float (TvI64 v) = JNumber (show_i64 v)"
| "value_from show_float (TvU64 v) = JNumber (show_nat (unat v))"
| "value_from show_float (TvBool v) = JBool v"
| "value_from show_float (TvF64 v) = (case number_from_f64 show_float v of Some n \<Rightarrow> n | None \<Rightarrow> JNull)"
| "value_from show_float (TvStr v) = JString v"
| "value_from show_float (TvDebug v) = JString v"

section \<open>The visitor\<close>

record span_visitor =
  sv_debug_buffer :: string
  sv_json_values :: "json smap"

definition sv_record :: "string \<Rightarrow> json \<Rightarrow> span_visitor \<Rightarrow> span_visitor" where
  "sv_record k v s = s\<lparr>sv_json_values := sm_insert k v (sv_json_values s)\<rparr>"

definition sv_record_debug :: "string \<Rightarrow> string \<Rightarrow> span_visitor \<Rightarrow> span_visitor" where
  "sv_record_debug k text' s =
     (let buffer = sv_debug_buffer s @ text' in
      \<lparr>sv_debug_buffer = [], sv_json_values = sm_insert k (JString buffer) (sv_json_values s)\<rparr>)"

fun sv_visit :: "(flt \<Rightarrow> string) \<Rightarrow> string \<times> tracing_value \<Rightarrow> span_visitor \<Rightarrow> span_visitor" where
  "sv_visit show_float (k, TvDebug v) s = sv_record_debug k v s"
| "sv_visit show_float (k, v) s = sv_record k (value_from show_float v) s"

text \<open>\<open>attrs.record(&mut visitor)\<close> with the buffer of the thread: the values, and the buffer after.\<close>

definition visit_span_fields ::
  "(flt \<Rightarrow> string) \<Rightarrow> (string \<times> tracing_value) list \<Rightarrow> string \<Rightarrow> json smap \<times> string" where
  "visit_span_fields show_float flds buffer =
     (let s = fold (sv_visit show_float) flds \<lparr>sv_debug_buffer = buffer, sv_json_values = []\<rparr>
      in (sv_json_values s, sv_debug_buffer s))"

section \<open>Configuring the layer\<close>

definition layer_event_filter :: "(metadata \<Rightarrow> event_filter) \<Rightarrow> sentry_layer \<Rightarrow> sentry_layer" where
  "layer_event_filter f cfg = cfg\<lparr>sl_event_filter := f\<rparr>"

definition layer_event_mapper :: "(tracing_event \<Rightarrow> layer \<Rightarrow> event_mapping) \<Rightarrow> sentry_layer \<Rightarrow> sentry_layer" where
  "layer_event_mapper f cfg = cfg\<lparr>sl_event_mapper := Some f\<rparr>"

definition layer_span_filter :: "(metadata \<Rightarrow> bool) \<Rightarrow> sentry_layer \<Rightarrow> sentry_layer" where
  "layer_span_filter f cfg = cfg\<lparr>sl_span_filter := f\<rparr>"

definition layer_enable_span_attributes :: "sentry_layer \<Rightarrow> sentry_layer" where
  "layer_enable_span_attributes cfg = cfg\<lparr>sl_with_span_attributes := True\<rparr>"

section \<open>Lemmas\<close>

lemma sv_visit_empty:
  "sv_debug_buffer s = [] \<Longrightarrow>
   sv_visit show_float kv s = \<lparr>sv_debug_buffer = [],
     sv_json_values = sm_insert (fst kv) (value_from show_float (snd kv)) (sv_json_values s)\<rparr>"
  by (cases "(show_float, kv, s)" rule: sv_visit.cases) (simp_all add: sv_record_def sv_record_debug_def)

lemma visit_fold:
  "sv_debug_buffer s = [] \<Longrightarrow>
   fold (sv_visit show_float) flds s = \<lparr>sv_debug_buffer = [],
     sv_json_values = fold (\<lambda>(k, v). sm_insert k (value_from show_float v)) flds (sv_json_values s)\<rparr>"
  by (induction flds arbitrary: s) (auto simp: sv_visit_empty split: prod.split)

section \<open>Properties\<close>

text \<open>
  Sharing the buffer is invisible: each visit leaves it empty, so every field of a span is recorded with its
  own value, the last of a name, whatever was recorded before on the thread; the result is sorted.
\<close>

theorem visits_are_independent:
  "snd (visit_span_fields show_float flds []) = [] \<and>
   map_of (fst (visit_span_fields show_float flds [])) =
     map_option (value_from show_float) \<circ> map_of (rev flds) \<and>
   sm_sorted (fst (visit_span_fields show_float flds []))"
proof -
  have fold_map: "map_of (fold (\<lambda>(k, v). sm_insert k (value_from show_float v)) flds m) =
      map_of m ++ (map_option (value_from show_float) \<circ> map_of (rev flds))" for m
    by (induction flds arbitrary: m) (auto simp: fun_eq_iff map_add_def split: option.split)
  have "sm_sorted m \<Longrightarrow> sm_sorted (fold (\<lambda>(k, v). sm_insert k (value_from show_float v)) flds m)" for m
    by (induction flds arbitrary: m) (auto simp: sm_sorted_insert)
  then show ?thesis
    using fold_map [of "[]"] by (simp add: visit_span_fields_def visit_fold)
qed

end
