(* ===== verification/TestSupport.thy ===== *)
theory TestSupport
  imports Api
begin

text \<open>
  The test support of \<open>sentry-core/src/test.rs\<close>: a transport that collects envelopes, and a block of code
  that runs on a hub of its own with a client on such a transport. When the block ends the hub goes, and
  with it its scopes, their sessions and the client, which hand over what they still have.
\<close>

section \<open>The transport\<close>

type_synonym test_transport = "envelope list"

definition test_transport_new :: test_transport where "test_transport_new = []"

definition test_send_envelope :: "envelope \<Rightarrow> test_transport \<Rightarrow> test_transport" where
  "test_send_envelope envelope collected = collected @ [envelope]"

definition fetch_and_clear_envelopes :: "test_transport \<Rightarrow> envelope list \<times> test_transport" where
  "fetch_and_clear_envelopes collected = (collected, [])"

definition fetch_and_clear_events :: "test_transport \<Rightarrow> event list \<times> test_transport" where
  "fetch_and_clear_events collected =
     (case fetch_and_clear_envelopes collected of
        (envelopes, collected') \<Rightarrow> (List.map_filter envelope_event envelopes, collected'))"

text \<open>What the calls a client made leave in the transport \<open>t\<close>; flush and shutdown are the trait's own.\<close>

fun test_call :: "nat \<Rightarrow> transport_call \<Rightarrow> test_transport \<Rightarrow> test_transport" where
  "test_call t (CallSend t' envelope) collected =
     (if t' = t then test_send_envelope envelope collected else collected)"
| "test_call t (CallFlush t' timeout) collected = collected"
| "test_call t (CallShutdown t' timeout) collected = collected"

section \<open>The end of a hub\<close>

text \<open>
  The scopes go in the order of the stack, each with its reference to a session cell; the last reference
  drops the session. Nothing else holds references to the scopes of this hub.
\<close>

fun drop_layers :: "systime \<Rightarrow> systime \<Rightarrow> stack_layer list \<Rightarrow> world \<Rightarrow> world option" where
  "drop_layers now instant [] W = Some W"
| "drop_layers now instant (l # ls) W =
     (let cell = sc_session (ly_scope l) in
      if list_ex (\<lambda>l'. sc_session (ly_scope l') = cell) ls then drop_layers now instant ls W
      else (case wd_cells W cell of
              None \<Rightarrow> drop_layers now instant ls W
            | Some os \<Rightarrow>
                (case drop_session now instant os (W\<lparr>wd_cells := (wd_cells W)(cell := None)\<rparr>) of
                   None \<Rightarrow> None
                 | Some W' \<Rightarrow> drop_layers now instant ls W')))"

text \<open>The fields of a client in their order.\<close>

definition client_drop :: "systime \<Rightarrow> client \<times> net \<Rightarrow> client \<times> net" where
  "client_drop now s =
     (let s1 = on_flusher (flusher_drop now) s;
          s2 = on_logs (batcher_drop item_of_logs now) ((fst s1)\<lparr>cl_session_flusher := None\<rparr>, snd s1);
          s3 = on_metrics (batcher_drop item_of_metrics now) ((fst s2)\<lparr>cl_logs_batcher := None\<rparr>, snd s2)
      in ((fst s3)\<lparr>cl_metrics_batcher := None\<rparr>, snd s3))"

section \<open>Running a block\<close>

text \<open>
  The client at address \<open>a\<close> has a family \<open>fam\<close> of its own and the transport \<open>t\<close>. The block acts on the hub
  that is current while it runs, and keeps no reference to it or its client. \<open>None\<close> is a panic.
\<close>

definition test_options :: "dsn \<Rightarrow> nat \<Rightarrow> client_options \<Rightarrow> client_options" where
  "test_options test_dsn t o' =
     o'\<lparr>co_dsn := Some (case co_dsn o' of Some d \<Rightarrow> d | None \<Rightarrow> test_dsn), co_transport := Some t\<rparr>"

definition with_captured_envelopes_options ::
  "dsn \<Rightarrow> sdk_info \<Rightarrow> event \<Rightarrow> systime \<Rightarrow> systime \<Rightarrow> nat \<Rightarrow> nat \<Rightarrow> nat \<Rightarrow> scope \<Rightarrow> (hub \<times> world \<Rightarrow> hub \<times> world) \<Rightarrow>
   client_options \<times> integration list \<Rightarrow> world \<Rightarrow> (envelope list \<times> world) option" where
  "with_captured_envelopes_options test_dsn sdk fresh_event now instant t a fam sc f options W =
     (let o' = test_options test_dsn t (fst options);
          (c, w) = with_options sdk fresh_event now o' (snd options) net_empty;
          W1 = W\<lparr>wd_clients := (wd_clients W)(a := c), wd_family := (wd_family W)(a := fam),
                 wd_nets := (wd_nets W)(fam := w)\<rparr>;
          (hb, W2) = f (hub_new (Some a) sc, W1)
      in case drop_layers now instant (sk_top (hb_stack hb) # sk_layers (hb_stack hb)) W2 of
           None \<Rightarrow> None
         | Some W3 \<Rightarrow>
             (let W4 = on_client a (client_drop now) W3 in
              Some (fst (fetch_and_clear_envelopes (fold (test_call t) (net_calls (net_of W4 a)) test_transport_new)), W4)))"

definition with_captured_events_options ::
  "dsn \<Rightarrow> sdk_info \<Rightarrow> event \<Rightarrow> systime \<Rightarrow> systime \<Rightarrow> nat \<Rightarrow> nat \<Rightarrow> nat \<Rightarrow> scope \<Rightarrow> (hub \<times> world \<Rightarrow> hub \<times> world) \<Rightarrow>
   client_options \<times> integration list \<Rightarrow> world \<Rightarrow> event list option" where
  "with_captured_events_options test_dsn sdk fresh_event now instant t a fam sc f options W =
     map_option (List.map_filter envelope_event \<circ> fst)
       (with_captured_envelopes_options test_dsn sdk fresh_event now instant t a fam sc f options W)"

section \<open>Lemmas\<close>

text \<open>The envelopes a transport was given.\<close>

fun call_envelopes :: "nat \<Rightarrow> transport_call \<Rightarrow> envelope list" where
  "call_envelopes t (CallSend t' envelope) = (if t' = t then [envelope] else [])"
| "call_envelopes t _ = []"

lemma test_calls: "fold (test_call t) cs collected = collected @ concat (map (call_envelopes t) cs)"
proof (induction cs arbitrary: collected)
  case (Cons c cs)
  then show ?case by (cases c) (simp_all add: test_send_envelope_def)
qed simp

lemma client_drop_items:
  assumes "client_wf c" and "net_slots w (cl_sender c) \<noteq> None"
  shows "sent_items (snd (client_drop now (c, w))) = sent_items w @ queued_items c"
  using round_items(1) [where now = now and fl = None and lb = None,
      OF assms flushes_batcher(1) flushes_batcher(1) refl refl refl refl refl, of now now]
  by (simp add: client_drop_def Let_def flusher_drop_def [abs_def] on_flusher_eq on_logs_eq on_metrics_eq)

lemma call_items_envelopes:
  assumes "\<And>c t' env. c \<in> set cs \<Longrightarrow> c = CallSend t' env \<Longrightarrow> t' = t"
  shows "concat (map (\<lambda>env. filter (\<lambda>it. item_type it \<noteq> Some TyClientReport) (items_of env))
      (concat (map (call_envelopes t) cs))) = concat (map call_items cs)"
  using assms
proof (induction cs)
  case (Cons c cs)
  then have IH: "concat (map (\<lambda>env. filter (\<lambda>it. item_type it \<noteq> Some TyClientReport) (items_of env))
      (concat (map (call_envelopes t) cs))) = concat (map call_items cs)" by (meson list.set_intros(2))
  show ?case
  proof (cases c)
    case (CallSend t' env)
    then have "t' = t" using Cons.prems [of c t' env] by simp
    with CallSend IH show ?thesis by simp
  qed (use IH in simp_all)
qed simp

lemma event_defaults_keep:
  "ev_message (event_defaults o' e) = ev_message e" "ev_level (event_defaults o' e) = ev_level e"
  unfolding event_defaults_def Let_def by simp_all

lemma event_ids_keep:
  "ev_message (event_ids fresh c e) = ev_message e" "ev_level (event_ids fresh c e) = ev_level e"
  unfolding event_ids_def Let_def by simp_all

lemma plain_scope_message:
  "ev_message (event_defaults o' (apply_scope_data (scope_default cell tr sp) h (event_ids fresh c e))) = ev_message e"
  "ev_level (event_defaults o' (apply_scope_data (scope_default cell tr sp) h (event_ids fresh c e))) = ev_level e"
  by (simp_all only: event_defaults_keep event_ids_keep apply_scope_data_fields) (simp_all add: scope_default_def)

lemma envelope_event_first: "envelope_event (add_items (IEvent e # its) envelope_new) = Some e"
  by (simp add: envelope_event_def add_items_new)

lemma client_drop_idle:
  assumes "cl_session_flusher c = Some f" "flusher_items f = []" "cl_logs_batcher c = Some l" "bt_queue l = []"
    and "cl_metrics_batcher c = Some m" "bt_queue m = []"
  shows "snd (client_drop now (c, w)) = w"
proof -
  have fl: "snd (flusher_flush now (f, w)) = w"
    using assms(2) by (simp add: flusher_items_def flusher_flush_def Let_def split: option.splits)
  have idle: "snd (on_batcher (batcher_drop into now) (Some b, w)) = w" if "bt_queue b = []" for b :: "'x batcher" and into
    using that by (simp add: on_batcher_def batcher_drop_def flush_queue_internal_def)
  show ?thesis
    by (simp add: client_drop_def Let_def on_flusher_eq on_logs_eq on_metrics_eq flusher_drop_def assms fl idle)
qed

section \<open>Properties\<close>

text \<open>
  A test sees everything. When the block leaves a client whose transport is the test's, the envelopes that
  are returned hold, in order, every item sent while the block ran and every session, log and metric that
  was still queued when it ended.
\<close>

theorem test_sees_everything:
  assumes "f (hub_new (Some a) sc, W\<lparr>wd_clients := (wd_clients W)(a := c), wd_family := (wd_family W)(a := fam),
      wd_nets := (wd_nets W)(fam := w)\<rparr>) = (hb, W2)"
    and "with_options sdk fresh_event now (test_options test_dsn t o') is net_empty = (c, w)"
    and "drop_layers now instant (sk_top (hb_stack hb) # sk_layers (hb_stack hb)) W2 = Some W3"
    and "client_wf (wd_clients W3 a)" and "net_slots (net_of W3 a) (cl_sender (wd_clients W3 a)) = Some t"
    and "\<And>c t' env. c \<in> set (net_calls (net_of (on_client a (client_drop now) W3) a)) \<Longrightarrow>
      c = CallSend t' env \<Longrightarrow> t' = t"
    and "with_captured_envelopes_options test_dsn sdk fresh_event now instant t a fam sc f (o', is) W =
      Some (envelopes, W4)"
  shows "concat (map (\<lambda>env. filter (\<lambda>it. item_type it \<noteq> Some TyClientReport) (items_of env)) envelopes) =
      sent_items (net_of W3 a) @ queued_items (wd_clients W3 a)"
proof -
  let ?W4 = "on_client a (client_drop now) W3"
  have "envelopes = concat (map (call_envelopes t) (net_calls (net_of ?W4 a)))"
    using assms(1,2,3,7)
    by (auto simp: with_captured_envelopes_options_def fetch_and_clear_envelopes_def test_transport_new_def
        test_calls Let_def del: drop_layers.simps)
  then have "concat (map (\<lambda>env. filter (\<lambda>it. item_type it \<noteq> Some TyClientReport) (items_of env)) envelopes) =
      sent_items (net_of ?W4 a)"
    using call_items_envelopes [OF assms(6)] by (simp add: sent_items_def)
  moreover have "net_of ?W4 a = snd (client_drop now (wd_clients W3 a, net_of W3 a))"
    by (simp add: on_client_def net_of_def set_net_def split: prod.split)
  ultimately show ?thesis
    using client_drop_items [OF assms(4)] assms(5) by simp
qed

text \<open>
  The example of the documentation: a message captured in a block on default options is the one event that is
  returned, with its text and level and the id it was given.
\<close>

theorem captured_message_seen:
  assumes "wd_cells W cell = None"
  shows "\<exists>e. with_captured_events_options test_dsn sdk fresh_event now instant t a fam (scope_default cell tr sp)
      (\<lambda>s. snd (api_capture_message now fresh draw ''Hello World!'' Warning s)) (options_default ua, []) W = Some [e] \<and>
    ev_message e = Some ''Hello World!'' \<and> ev_level e = Warning"
proof -
  let ?o = "test_options test_dsn t (options_default ua)"
  obtain c w where cw: "with_options sdk fresh_event now ?o [] net_empty = (c, w)" by fastforce
  have c: "cl_options c = ?o" "cl_sender c = 0" "cl_integrations c = []"
      "cl_session_flusher c = Some (flusher_new 0 Application)" "cl_logs_batcher c = Some (batcher_new now 0)"
      "cl_metrics_batcher c = Some (batcher_new now 0)"
    and w: "net_slots w 0 = Some t" "net_calls w = []" "net_agg w = aggregator_new" "net_inv w"
    using cw by (auto simp: with_options_def build_envelope_sender_def test_options_def sender_new_def
        slot_new_def net_empty_def options_default_def Let_def net_inv_def)


  let ?sc = "scope_default cell tr sp"
  let ?e0 = "(event_default fresh now)\<lparr>ev_message := Some ''Hello World!'', ev_level := Warning\<rparr>"
  let ?W1 = "W\<lparr>wd_clients := (wd_clients W)(a := c), wd_family := (wd_family W)(a := fam), wd_nets := (wd_nets W)(fam := w)\<rparr>"
  let ?hb = "hub_new (Some a) ?sc"
  define e where "e = event_defaults ?o (apply_scope_data ?sc (wd_heap W) (event_ids fresh c ?e0))"
  have e: "ev_message e = Some ''Hello World!''" "ev_level e = Warning"
    by (simp_all add: e_def plain_scope_message)
  have pipeline: "event_pipeline fresh c (Some ?sc) (wd_heap W) ?e0 = Inr e"
    by (simp add: event_pipeline_def c run_integrations_def apply_to_event_def e_def)
      (simp add: scope_default_def test_options_def options_default_def c)
  have sampled: "event_sampled draw c"
    by (simp add: event_sampled_def c test_options_def options_default_def event_sample_rate_def sample_should_send_def flt_le_def)
  obtain reports where send: "net_calls (sender_send now 0 (add_items [IEvent e] envelope_new) w) =
      [CallSend t (add_items (IEvent e # map IClientReport reports) envelope_new)]"
    using sender_send_items [OF w(1), of now "[IEvent e]"] w(2) by auto
  define w' where "w' = sender_send now 0 (add_items [IEvent e] envelope_new) w"
  have capture: "capture_event now fresh draw c (Some ?sc) (wd_heap W) ?e0 (w, wd_cells W) = ((w', wd_cells W), ev_event_id e)"
    using assms pipeline sampled w(1)
    by (simp add: capture_event_eq c session_seen_def update_session_from_event_def session_item_def
        event_envelope_eq w'_def) (simp add: scope_default_def)
  have run: "snd (api_capture_message now fresh draw ''Hello World!'' Warning (?hb, ?W1)) =
      (?hb\<lparr>hb_last_event_id := Some (ev_event_id e)\<rparr>, (set_net a w' ?W1)\<lparr>wd_cells := wd_cells W\<rparr>)"
    using capture w(1)
    by (simp add: api_capture_message_def on_active_def is_active_and_usage_safe_def hub_client_def hub_top_def
        hub_new_def from_client_and_scope_def client_is_enabled_def c sender_is_enabled_def is_occupied_def
        net_of_def hub_capture_message_def hub_capture_event_def test_options_def)
  let ?W2 = "(set_net a w' ?W1)\<lparr>wd_cells := wd_cells W\<rparr>"
  have layers: "drop_layers now instant [\<lparr>ly_client = Some a, ly_scope = ?sc\<rparr>] ?W2 = Some ?W2"
    using assms by (simp add: scope_default_def)
  have "net_of (on_client a (client_drop now) ?W2) a = snd (client_drop now (c, w'))"
    by (simp add: on_client_def net_of_def set_net_def split: prod.split)
  also have "\<dots> = w'"
    by (rule client_drop_idle [OF c(4) _ c(5) _ c(6)]) (simp_all add: flusher_items_def flusher_new_def batcher_new_def)
  finally have last: "net_of (on_client a (client_drop now) ?W2) a = w'" .
  have stack: "hb_stack ?hb = \<lparr>sk_top = \<lparr>ly_client = Some a, ly_scope = ?sc\<rparr>, sk_layers = []\<rparr>"
    by (simp add: hub_new_def from_client_and_scope_def)
  have "with_captured_events_options test_dsn sdk fresh_event now instant t a fam ?sc
      (\<lambda>s. snd (api_capture_message now fresh draw ''Hello World!'' Warning s)) (options_default ua, []) W = Some [e]"
    using layers last send [folded w'_def]
    by (simp add: with_captured_events_options_def with_captured_envelopes_options_def cw run
        fetch_and_clear_envelopes_def test_transport_new_def test_calls envelope_event_first
        stack Let_def List.map_filter_simps del: drop_layers.simps)
  with e show ?thesis by blast
qed

end
