(* ===== verification/LossIter.thy ===== *)
theory LossIter
  imports Envelope
begin

text \<open>
  The iterator behind the losses of a payload (\<open>ItemLossIter\<close> in
  \<open>sentry-types/src/protocol/client_report/envelope_losses.rs\<close>): it holds up to two losses or an iterator over
  the items of a client report, and each \<open>next\<close> replaces it. \<open>Losses\<close> states what the losses are, as
  lists; here the iterator is shown to yield them.
\<close>

section \<open>The iterator\<close>

text \<open>A slice iterator is the list of the elements still to come.\<close>

datatype loss_iter = LiEmpty | LiOne loss | LiTwo loss loss | LiReport "item list"

fun loss_iter_next :: "loss_iter \<Rightarrow> loss option \<times> loss_iter" where
  "loss_iter_next LiEmpty = (None, LiEmpty)"
| "loss_iter_next (LiOne info) = (Some info, LiEmpty)"
| "loss_iter_next (LiTwo info1 info2) = (Some info1, LiOne info2)"
| "loss_iter_next (LiReport []) = (None, LiReport [])"
| "loss_iter_next (LiReport (it # its)) = (Some (loss_from_item it), LiReport its)"

text \<open>\<open>From\<close> arrays of three lengths, and from the iterator of a report.\<close>

definition loss_iter_0 :: loss_iter where "loss_iter_0 = LiEmpty"

definition loss_iter_1 :: "loss \<Rightarrow> loss_iter" where "loss_iter_1 info = LiOne info"

definition loss_iter_2 :: "loss \<Rightarrow> loss \<Rightarrow> loss_iter" where "loss_iter_2 info1 info2 = LiTwo info1 info2"

definition loss_iter_report :: "item list \<Rightarrow> loss_iter" where "loss_iter_report its = LiReport its"

section \<open>Who makes one\<close>

definition container_loss_iter :: "item_container \<Rightarrow> loss_iter" where
  "container_loss_iter c =
     (case c of
        Logs logs \<Rightarrow> loss_iter_2 (loss_new CatLogItem (clamp_u64 (length logs)))
          (loss_new CatLogByte (foldl (\<lambda>s l. saturating_add s (log_byte_size l)) 0 logs))
      | Metrics ms \<Rightarrow> loss_iter_2 (loss_new CatTraceMetric (clamp_u64 (length ms)))
          (loss_new CatTraceMetricByte (foldl (\<lambda>s m. saturating_add s (metric_byte_size m)) 0 ms)))"

fun item_loss_iter :: "envelope_item \<Rightarrow> loss_iter" where
  "item_loss_iter (IEvent e) = loss_iter_1 (loss_new CatError 1)"
| "item_loss_iter (ISessionUpdate u) = loss_iter_1 (loss_new CatSession 1)"
| "item_loss_iter (ISessionAggregates a) = loss_iter_1 (loss_new CatSession
     (case session_aggregate_counts a of [] \<Rightarrow> 0 | q # qs \<Rightarrow> foldl saturating_add q qs))"
| "item_loss_iter (ITransaction t) = loss_iter_2 (loss_new CatTransaction 1)
     (loss_new CatSpan (saturating_add (clamp_u64 (length (tx_spans t))) 1))"
| "item_loss_iter (IAttachment a) = loss_iter_1 (loss_new CatAttachment (clamp_u64 (length (att_buffer a))))"
| "item_loss_iter (IMonitorCheckIn c) = loss_iter_1 (loss_new CatMonitor 1)"
| "item_loss_iter (IClientReport r) = loss_iter_report (rep_discarded_events r)"
| "item_loss_iter (IItemContainer c) = container_loss_iter c"
| "item_loss_iter IRaw = loss_iter_0"

section \<open>Driving it\<close>

text \<open>The \<open>for\<close> loop: what \<open>next\<close> yields until it yields nothing; it ends because each step leaves less.\<close>

fun losses_left :: "loss_iter \<Rightarrow> nat" where
  "losses_left LiEmpty = 0"
| "losses_left (LiOne _) = 1"
| "losses_left (LiTwo _ _) = 2"
| "losses_left (LiReport its) = length its"

lemma next_decreases: "loss_iter_next it = (Some l, it') \<Longrightarrow> losses_left it' < losses_left it"
  by (cases it rule: loss_iter_next.cases) auto

function collect_losses :: "loss_iter \<Rightarrow> loss list" where
  "collect_losses it = (case loss_iter_next it of (None, _) \<Rightarrow> [] | (Some l, it') \<Rightarrow> l # collect_losses it')"
  by pat_completeness auto

termination
  by (relation "measure losses_left") (auto dest: next_decreases [OF sym])

declare collect_losses.simps [simp del]

text \<open>\<open>flat_map\<close> over the items of an envelope.\<close>

definition envelope_loss_iter :: "envelope \<Rightarrow> loss list" where
  "envelope_loss_iter env = concat (map (collect_losses \<circ> item_loss_iter) (items_of env))"

section \<open>Lemmas\<close>

lemma collect_LiReport: "collect_losses (LiReport its) = map loss_from_item its"
  by (induction its) (simp_all add: collect_losses.simps [of "LiReport (a # as)" for a as]
      collect_losses.simps [of "LiReport []"])

lemma collect_small:
  "collect_losses LiEmpty = []" "collect_losses (LiOne a) = [a]" "collect_losses (LiTwo a b) = [a, b]"
  by (simp_all add: collect_losses.simps [of LiEmpty] collect_losses.simps [of "LiOne x" for x]
      collect_losses.simps [of "LiTwo x y" for x y])

lemma exhausted_stays: "loss_iter_next it = (None, it') \<Longrightarrow> it' = it"
  by (cases it rule: loss_iter_next.cases) auto

section \<open>Properties\<close>

text \<open>
  The iterator of an item yields the losses of the item, all of them, in order and then nothing for ever; the
  one of an envelope yields those of its items. It takes as many steps as it yields losses.
\<close>

theorem iterators_yield_losses:
  "collect_losses (item_loss_iter item) = envelope_item_losses item \<and>
   losses_left (item_loss_iter item) = length (envelope_item_losses item) \<and>
   envelope_loss_iter env = envelope_losses env \<and>
   (losses_left it = 0 \<longleftrightarrow> loss_iter_next it = (None, it))"
proof (intro conjI)
  have *: "collect_losses (item_loss_iter x) = envelope_item_losses x" for x
    by (cases x rule: item_loss_iter.cases)
      (simp_all add: loss_iter_0_def loss_iter_1_def loss_iter_2_def loss_iter_report_def container_loss_iter_def
        collect_small collect_LiReport event_losses_def session_update_losses_def session_aggregate_losses_def
        transaction_losses_def attachment_losses_def monitor_check_in_losses_def client_report_losses_def
        log_losses_def metric_losses_def split: item_container.split)
  then show "collect_losses (item_loss_iter item) = envelope_item_losses item" .
  show "envelope_loss_iter env = envelope_losses env"
    by (simp add: envelope_loss_iter_def envelope_losses_def * comp_def)
  show "losses_left (item_loss_iter item) = length (envelope_item_losses item)"
    unfolding * [symmetric]
    by (cases "item_loss_iter item") (simp_all add: collect_small collect_LiReport)
  show "losses_left it = 0 \<longleftrightarrow> loss_iter_next it = (None, it)"
    by (cases it rule: loss_iter_next.cases) auto
qed

end
