(* ===== verification/Handles.thy ===== *)
theory Handles
  imports Transactions Values EnvelopeCodec
begin

text \<open>
  The rest of the handles and headers: access to a transaction or span through its lock
  (\<open>TransactionData\<close>, \<open>Data\<close>), finishing now, the trace headers as an iterator, transactions of builds without
  the client (\<open>sentry-core/src/performance/mod.rs\<close>), builder methods of envelope headers and envelopes
  from files (\<open>sentry-types/src/protocol/envelope.rs\<close>).
\<close>

section \<open>Locked data\<close>

text \<open>\<open>data()\<close> holds the lock of the cell, so what it sees and sets is the cell's.\<close>

definition transaction_data_iter :: "transaction_inner \<Rightarrow> json smap" where
  "transaction_data_iter inner = (if in_transaction inner \<noteq> None then tc_data (in_context inner) else [])"

definition transaction_data_set_data :: "string \<Rightarrow> json \<Rightarrow> transaction_inner \<Rightarrow> transaction_inner" where
  "transaction_data_set_data key value inner =
     (if in_transaction inner \<noteq> None
      then inner\<lparr>in_context := (in_context inner)\<lparr>tc_data := sm_insert key value (tc_data (in_context inner))\<rparr>\<rparr>
      else inner)"

definition transaction_data_set_tag :: "string \<Rightarrow> string \<Rightarrow> transaction_inner \<Rightarrow> transaction_inner" where
  "transaction_data_set_tag key value inner =
     (case in_transaction inner of
        Some t \<Rightarrow> inner\<lparr>in_transaction := Some (t\<lparr>tx_tags := sm_insert key value (tx_tags t)\<rparr>)\<rparr>
      | None \<Rightarrow> inner)"

definition span_data_set_data :: "string \<Rightarrow> json \<Rightarrow> pspan \<Rightarrow> pspan" where
  "span_data_set_data key value s = s\<lparr>sp_data := sm_insert key value (sp_data s)\<rparr>"

definition span_data_set_tag :: "string \<Rightarrow> string \<Rightarrow> pspan \<Rightarrow> pspan" where
  "span_data_set_tag key value s = s\<lparr>sp_tags := sm_insert key value (sp_tags s)\<rparr>"

text \<open>Using the guard: lock, change, unlock.\<close>

definition with_transaction_data ::
  "(transaction_inner \<Rightarrow> transaction_inner) \<Rightarrow> transaction_handle \<Rightarrow> heap \<Rightarrow> heap" where
  "with_transaction_data f t h = upd_txn (th_inner t) f h"

definition with_span_data :: "(pspan \<Rightarrow> pspan) \<Rightarrow> span_handle \<Rightarrow> heap \<Rightarrow> heap" where
  "with_span_data f s h = upd_span (sh_span s) f h"

section \<open>Handles\<close>

text \<open>Equality is identity of the cells.\<close>

definition transaction_eq :: "transaction_handle \<Rightarrow> transaction_handle \<Rightarrow> bool" where
  "transaction_eq a b = (th_inner a = th_inner b)"

definition span_eq :: "span_handle \<Rightarrow> span_handle \<Rightarrow> bool" where
  "span_eq a b = (sh_span a = sh_span b)"

definition finish_transaction :: "systime \<Rightarrow> scope \<Rightarrow> transaction_handle \<Rightarrow> world \<Rightarrow> world" where
  "finish_transaction now sc t W = transaction_finish now now sc t W"

definition finish_span :: "systime \<Rightarrow> span_handle \<Rightarrow> world \<Rightarrow> world" where
  "finish_span now s W = span_finish now s W"

fun finish_transaction_or_span :: "systime \<Rightarrow> scope \<Rightarrow> transaction_or_span \<Rightarrow> world \<Rightarrow> world" where
  "finish_transaction_or_span now sc (TxHandle t) W = finish_transaction now sc t W"
| "finish_transaction_or_span now sc (SpHandle s) W = finish_span now s W"

definition continue_from_sentry_trace ::
  "span_id \<Rightarrow> string \<Rightarrow> string \<Rightarrow> sentry_trace \<Rightarrow> span_id option \<Rightarrow> transaction_context" where
  "continue_from_sentry_trace fresh_span name op trace sid =
     (let context' = sentry_trace_into_context trace in continue_from_propagation fresh_span name op context' sid)"

text \<open>Without the client a transaction has its trace, but nothing that could be sent.\<close>

definition transaction_new_noop :: "span_id \<Rightarrow> transaction_context \<Rightarrow> heap \<Rightarrow> nat \<times> heap" where
  "transaction_new_noop fresh_span ctx h =
     (let context' = (trace_context_default fresh_span (tcx_trace_id ctx))
            \<lparr>tc_parent_span_id := tcx_parent_span_id ctx, tc_op := Some (tcx_op ctx)\<rparr>;
          sampled = (case tcx_sampled ctx of Some b \<Rightarrow> b | None \<Rightarrow> False)
      in alloc_txn \<lparr>in_client = None, in_sampled = sampled, in_context = context', in_transaction = None\<rparr> h)"

section \<open>Trace headers\<close>

record trace_headers_iter =
  thi_sentry_trace :: "string option"

definition trace_headers_new :: "string \<Rightarrow> trace_headers_iter" where
  "trace_headers_new sentry_trace = \<lparr>thi_sentry_trace = Some sentry_trace\<rparr>"

definition trace_headers_next :: "trace_headers_iter \<Rightarrow> (string \<times> string) option \<times> trace_headers_iter" where
  "trace_headers_next it =
     (map_option (Pair ''sentry-trace'') (thi_sentry_trace it), it\<lparr>thi_sentry_trace := None\<rparr>)"

section \<open>Envelopes\<close>

definition with_dsn :: "dsn \<Rightarrow> envelope_headers \<Rightarrow> envelope_headers" where
  "with_dsn d h = h\<lparr>eh_dsn := Some d\<rparr>"

definition with_sdk :: "sdk_info \<Rightarrow> envelope_headers \<Rightarrow> envelope_headers" where
  "with_sdk s h = h\<lparr>eh_sdk := Some s\<rparr>"

definition with_sent_at :: "systime \<Rightarrow> envelope_headers \<Rightarrow> envelope_headers" where
  "with_sent_at t h = h\<lparr>eh_sent_at := Some t\<rparr>"

fun container_is_empty :: "item_container \<Rightarrow> bool" where
  "container_is_empty (Logs logs) = (logs = [])"
| "container_is_empty (Metrics ms) = (ms = [])"

text \<open>\<open>contents\<close> is what reading the file gives.\<close>

definition from_path :: "codec \<Rightarrow> string option \<Rightarrow> failure + envelope" where
  "from_path c contents =
     (case contents of None \<Rightarrow> Inl (Failed UnexpectedEof) | Some bytes \<Rightarrow> from_slice c bytes)"

definition from_path_raw :: "string option \<Rightarrow> failure + envelope" where
  "from_path_raw contents =
     (case contents of None \<Rightarrow> Inl (Failed UnexpectedEof) | Some bytes \<Rightarrow> Inr (from_bytes_raw bytes))"

lemma in_transaction_same: "in_transaction i = None \<Longrightarrow> i\<lparr>in_transaction := None\<rparr> = i"
  by (cases i) simp

section \<open>Properties\<close>

text \<open>
  Changing a transaction or span through its locked data is the same as through its handle, and finishing
  through the enumeration the same as through what it holds.
\<close>

theorem locked_data_agrees:
  "with_transaction_data (transaction_data_set_data key value) t h = txn_set_data key value t h \<and>
   with_transaction_data (transaction_data_set_tag key text') t h = txn_set_tag key text' t h \<and>
   transaction_data_iter (hp_txns h (th_inner t)) = txn_data_iter t h \<and>
   with_span_data (span_data_set_data key value) s h = span_set_data key value s h \<and>
   with_span_data (span_data_set_tag key text') s h = span_set_tag key text' s h \<and>
   finish_transaction_or_span now sc ts W = ts_finish now now sc ts W"
  by (cases ts; cases "in_transaction (hp_txns h (th_inner t))")
    (simp_all add: with_transaction_data_def transaction_data_set_data_def [abs_def] txn_set_data_def upd_ctx_def
      transaction_data_set_tag_def txn_set_tag_def upd_ptx_def upd_txn_def transaction_data_iter_def
      txn_data_iter_def with_span_data_def span_data_set_data_def [abs_def] span_set_data_def
      span_data_set_tag_def [abs_def] span_set_tag_def finish_transaction_def finish_span_def Let_def in_transaction_same)

text \<open>
  A transaction without the client cannot be sent: finishing it reaches no client and sends nothing, whatever
  its sampling decision; yet it carries the trace of its context on.
\<close>

theorem noop_transaction_sends_nothing:
  assumes "transaction_new_noop fresh_span ctx (wd_heap W) = (r, h)" and "th_inner t = r"
  shows "wd_nets (finish_transaction now sc t (set_heap h W)) = wd_nets W \<and>
    wd_clients (finish_transaction now sc t (set_heap h W)) = wd_clients W \<and>
    tc_trace_id (txn_get_trace_context t h) = tcx_trace_id ctx \<and>
    tc_parent_span_id (txn_get_trace_context t h) = tcx_parent_span_id ctx \<and>
    (txn_is_sampled t h \<longleftrightarrow> tcx_sampled ctx = Some True)"
proof -
  have h: "hp_txns h r = \<lparr>in_client = None, in_sampled = (tcx_sampled ctx = Some True),
      in_context = (trace_context_default fresh_span (tcx_trace_id ctx))
        \<lparr>tc_parent_span_id := tcx_parent_span_id ctx, tc_op := Some (tcx_op ctx)\<rparr>, in_transaction = None\<rparr>"
    using assms(1) by (auto simp: transaction_new_noop_def alloc_txn_def Let_def split: option.split)
  then show ?thesis
    using assms(2)
    by (simp add: finish_transaction_def transaction_finish_def Let_def txn_get_trace_context_def
        txn_is_sampled_def trace_context_default_def)
qed

end
