(* ===== verification/ThreadHubs.thy ===== *)
theory ThreadHubs
  imports Hub
begin

text \<open>
  Which hub is current on which thread (\<open>sentry-core/src/hub_impl.rs\<close>). The hub of the process is made by the
  thread that first asks for a hub and is that thread's own; every other thread gets, at its first use, a new
  hub from the top of the process's. Guards switch the hub of a thread and switch it back. Hubs are
  \<open>Arc\<close>s: they live at addresses, and threads may share them by switching to the same one.
\<close>

section \<open>State\<close>

record process_hub =
  ph_hub :: nat
  ph_thread :: nat

record threads =
  th_hubs :: "nat \<Rightarrow> hub"
  th_next :: nat
  th_process :: "process_hub option"
  th_local :: "nat \<Rightarrow> nat option"
  th_guards :: "nat \<Rightarrow> nat option list"

definition threads_init :: threads where
  "threads_init = \<lparr>th_hubs = (\<lambda>_. hub_new None (scope_default 0 [] [])), th_next = 0, th_process = None,
     th_local = (\<lambda>_. None), th_guards = (\<lambda>_. [])\<rparr>"

definition arc_hub :: "hub \<Rightarrow> threads \<Rightarrow> nat \<times> threads" where
  "arc_hub hb s = (th_next s, s\<lparr>th_hubs := (th_hubs s)(th_next s := hb), th_next := Suc (th_next s)\<rparr>)"

section \<open>The current hub\<close>

text \<open>The lazy statics: \<open>sc\<close> is the default scope (with its random ids) of a first use by thread \<open>x\<close>.\<close>

definition process_hub_force :: "scope \<Rightarrow> nat \<Rightarrow> threads \<Rightarrow> process_hub \<times> threads" where
  "process_hub_force sc x s =
     (case th_process s of
        Some ph \<Rightarrow> (ph, s)
      | None \<Rightarrow>
          (case arc_hub (hub_new None sc) s of
             (a, s') \<Rightarrow> (let ph = \<lparr>ph_hub = a, ph_thread = x\<rparr> in (ph, s'\<lparr>th_process := Some ph\<rparr>))))"

definition thread_hub :: "scope \<Rightarrow> nat \<Rightarrow> threads \<Rightarrow> nat \<times> threads" where
  "thread_hub sc x s =
     (case th_local s x of
        Some a \<Rightarrow> (a, s)
      | None \<Rightarrow>
          (case process_hub_force sc x s of
             (ph, s1) \<Rightarrow>
               (case (if x = ph_thread ph then (ph_hub ph, s1)
                      else arc_hub (hub_new_from_top (th_hubs s1 (ph_hub ph))) s1) of
                  (a, s2) \<Rightarrow> (a, s2\<lparr>th_local := (th_local s2)(x := Some a)\<rparr>))))"

definition hub_current :: "scope \<Rightarrow> nat \<Rightarrow> threads \<Rightarrow> nat \<times> threads" where
  "hub_current sc x s = thread_hub sc x s"

definition hub_main :: "scope \<Rightarrow> nat \<Rightarrow> threads \<Rightarrow> nat \<times> threads" where
  "hub_main sc x s = (case process_hub_force sc x s of (ph, s') \<Rightarrow> (ph_hub ph, s'))"

text \<open>\<open>Hub::with\<close> and \<open>with_current\<close>, for a callback that changes the hub.\<close>

definition hub_with :: "scope \<Rightarrow> nat \<Rightarrow> (hub \<Rightarrow> hub) \<Rightarrow> threads \<Rightarrow> threads" where
  "hub_with sc x f s =
     (case thread_hub sc x s of (a, s') \<Rightarrow> s'\<lparr>th_hubs := (th_hubs s')(a := f (th_hubs s' a))\<rparr>)"

section \<open>Switching\<close>

text \<open>A thread keeps its guards, the newest first; the one it drops is the newest.\<close>

definition enter_hub :: "scope \<Rightarrow> nat \<Rightarrow> nat \<Rightarrow> threads \<Rightarrow> threads" where
  "enter_hub sc x hb s =
     (case thread_hub sc x s of
        (a, s1) \<Rightarrow>
          (case switch_guard_new hb a of
             (g, installed) \<Rightarrow> s1\<lparr>th_local := (th_local s1)(x := Some installed),
                th_guards := (th_guards s1)(x := g # th_guards s1 x)\<rparr>))"

definition leave_hub :: "nat \<Rightarrow> threads \<Rightarrow> threads" where
  "leave_hub x s =
     (case (th_guards s x, th_local s x) of
        (g # gs, Some a) \<Rightarrow> s\<lparr>th_local := (th_local s)(x := Some (switch_guard_drop g a)),
           th_guards := (th_guards s)(x := gs)\<rparr>
      | _ \<Rightarrow> s)"

section \<open>Threads at work\<close>

datatype thread_op =
    Access scope
  | Main scope
  | Change scope "hub \<Rightarrow> hub"
  | NewHub hub
  | Enter scope nat
  | Leave

fun thread_do :: "nat \<times> thread_op \<Rightarrow> threads \<Rightarrow> threads" where
  "thread_do (x, Access sc) s = snd (hub_current sc x s)"
| "thread_do (x, Main sc) s = snd (hub_main sc x s)"
| "thread_do (x, Change sc f) s = hub_with sc x f s"
| "thread_do (x, NewHub hb) s = snd (arc_hub hb s)"
| "thread_do (x, Enter sc hb) s = enter_hub sc x hb s"
| "thread_do (x, Leave) s = leave_hub x s"

text \<open>A hub can be entered once it exists.\<close>

fun possible :: "nat \<times> thread_op \<Rightarrow> threads \<Rightarrow> bool" where
  "possible (x, Enter sc hb) s = (hb < th_next s)"
| "possible _ s = True"

inductive threads_reachable :: "threads \<Rightarrow> bool" where
  reachable_init: "threads_reachable threads_init"
| reachable_do: "threads_reachable s \<Longrightarrow> possible op s \<Longrightarrow> threads_reachable (thread_do op s)"

text \<open>Every address that is held exists, and before the process has a hub no thread has one.\<close>

definition threads_ok :: "threads \<Rightarrow> bool" where
  "threads_ok s \<longleftrightarrow>
     (\<forall>x a. th_local s x = Some a \<longrightarrow> a < th_next s) \<and>
     (\<forall>x a. Some a \<in> set (th_guards s x) \<longrightarrow> a < th_next s) \<and>
     (case th_process s of None \<Rightarrow> (\<forall>x. th_local s x = None \<and> th_guards s x = []) | Some ph \<Rightarrow> ph_hub ph < th_next s)"

lemma threads_ok_init: "threads_ok threads_init"
  by (simp add: threads_ok_def threads_init_def)

lemma arc_hub_ok: "threads_ok s \<Longrightarrow> threads_ok (snd (arc_hub hb s))"
  by (fastforce simp: threads_ok_def arc_hub_def split: option.splits)

lemma process_hub_force_ok:
  assumes "threads_ok s" and "process_hub_force sc x s = (ph, s')"
  shows "threads_ok s'" "th_process s' = Some ph" "th_local s' = th_local s" "th_guards s' = th_guards s"
    "th_next s \<le> th_next s'" "b < th_next s \<Longrightarrow> th_hubs s' b = th_hubs s b"
  using assms by (auto simp: process_hub_force_def arc_hub_def threads_ok_def Let_def split: option.splits)

lemma thread_hub_ok:
  assumes "threads_ok s" and "thread_hub sc x s = (a, s')"
  shows "threads_ok s'" "th_local s' x = Some a" "th_process s' \<noteq> None" "th_guards s' = th_guards s"
    "y \<noteq> x \<Longrightarrow> th_local s' y = th_local s y" "th_next s \<le> th_next s'"
    "b < th_next s \<Longrightarrow> th_hubs s' b = th_hubs s b"
proof -
  obtain ph s1 where force: "process_hub_force sc x s = (ph, s1)" by fastforce
  note f = process_hub_force_ok [OF assms(1) force]
  have "threads_ok s' \<and> th_local s' x = Some a \<and> th_process s' \<noteq> None \<and> th_guards s' = th_guards s \<and>
    (y \<noteq> x \<longrightarrow> th_local s' y = th_local s y) \<and> th_next s \<le> th_next s' \<and> (b < th_next s \<longrightarrow> th_hubs s' b = th_hubs s b)"
  proof (cases "th_local s x")
    case None
    then show ?thesis
      using assms(2) f
      by (auto simp: thread_hub_def force arc_hub_def threads_ok_def less_Suc_eq split: if_splits)
  next
    case (Some a')
    then have "th_process s \<noteq> None"
      using assms(1) by (auto simp: threads_ok_def split: option.splits)
    then show ?thesis using assms Some by (auto simp: thread_hub_def)
  qed
  then show "threads_ok s'" "th_local s' x = Some a" "th_process s' \<noteq> None" "th_guards s' = th_guards s"
    "y \<noteq> x \<Longrightarrow> th_local s' y = th_local s y" "th_next s \<le> th_next s'"
    "b < th_next s \<Longrightarrow> th_hubs s' b = th_hubs s b" by auto
qed

lemma hub_main_ok:
  assumes "threads_ok s"
  shows "threads_ok (snd (hub_main sc x s))" "th_local (snd (hub_main sc x s)) = th_local s"
    "th_guards (snd (hub_main sc x s)) = th_guards s" "th_next s \<le> th_next (snd (hub_main sc x s))"
    "b < th_next s \<Longrightarrow> th_hubs (snd (hub_main sc x s)) b = th_hubs s b"
proof -
  obtain ph s' where "process_hub_force sc x s = (ph, s')" by fastforce
  then show "threads_ok (snd (hub_main sc x s))" "th_local (snd (hub_main sc x s)) = th_local s"
    "th_guards (snd (hub_main sc x s)) = th_guards s" "th_next s \<le> th_next (snd (hub_main sc x s))"
    "b < th_next s \<Longrightarrow> th_hubs (snd (hub_main sc x s)) b = th_hubs s b"
    using process_hub_force_ok [OF assms] by (simp_all add: hub_main_def)
qed

lemma threads_ok_do: "threads_ok s \<Longrightarrow> possible op s \<Longrightarrow> threads_ok (thread_do op s)"
proof (induction op s rule: thread_do.induct)
  case (1 x sc s)
  then show ?case using thread_hub_ok(1) [of s sc x "fst (thread_hub sc x s)" "snd (thread_hub sc x s)"]
    by (simp add: hub_current_def)
next
  case (2 x sc s)
  then show ?case by (simp add: hub_main_ok)
next
  case (3 x sc f s)
  obtain a s1 where r: "thread_hub sc x s = (a, s1)" by fastforce
  have "threads_ok (s1\<lparr>th_hubs := hs\<rparr>) = threads_ok s1" for hs by (simp add: threads_ok_def split: option.split)
  then show ?case using thread_hub_ok(1) [OF 3(1) r] by (simp add: hub_with_def r)
next
  case (4 x hb s)
  then show ?case by (simp add: arc_hub_ok)
next
  case (5 x sc hb s)
  obtain a s1 where r: "thread_hub sc x s = (a, s1)" by fastforce
  note ok = thread_hub_ok [OF 5(1) r]
  have "a < th_next s1" using ok(1,2) by (auto simp: threads_ok_def)
  moreover have "hb < th_next s1" using 5(2) ok(6) by simp
  ultimately show ?case
    using ok(1,3) by (auto simp: enter_hub_def r switch_guard_new_def threads_ok_def split: option.splits)
next
  case (6 x s)
  then show ?case
  proof (cases "th_guards s x")
    case (Cons g gs)
    then have "\<forall>a. g = Some a \<longrightarrow> a < th_next s" "\<forall>a. Some a \<in> set gs \<longrightarrow> a < th_next s" "th_process s \<noteq> None"
      using 6(1) by (auto simp: threads_ok_def split: option.splits) (metis list.set_intros)+
    then show ?thesis
      using 6(1) Cons by (auto simp: leave_hub_def threads_ok_def switch_guard_drop_def split: option.splits)
  qed (simp add: leave_hub_def)
qed

lemma reachable_ok: "threads_reachable s \<Longrightarrow> threads_ok s"
  by (induction rule: threads_reachable.induct) (simp_all add: threads_ok_init threads_ok_do)

section \<open>Isolation\<close>

text \<open>The hub at \<open>a\<close> is current on \<open>x\<close> and held by no other thread, nor is it the process's.\<close>

definition private_hub :: "nat \<Rightarrow> nat \<Rightarrow> threads \<Rightarrow> bool" where
  "private_hub a x s \<longleftrightarrow>
     threads_ok s \<and> th_local s x = Some a \<and>
     (\<exists>ph. th_process s = Some ph \<and> ph_hub ph \<noteq> a) \<and>
     (\<forall>y. y \<noteq> x \<longrightarrow> th_local s y \<noteq> Some a \<and> Some a \<notin> set (th_guards s y))"

text \<open>A thread other than \<open>x\<close> that is not handed the hub at \<open>a\<close>.\<close>

fun stranger :: "nat \<Rightarrow> nat \<Rightarrow> nat \<times> thread_op \<Rightarrow> bool" where
  "stranger a x (y, Enter sc hb) = (y \<noteq> x \<and> hb \<noteq> a)"
| "stranger a x (y, _) = (y \<noteq> x)"

lemma private_thread_hub:
  assumes "private_hub a x s" and "thread_hub sc y s = (b, s')" and "y \<noteq> x"
  shows "private_hub a x s' \<and> b \<noteq> a \<and> th_hubs s' a = th_hubs s a"
proof -
  have ok: "threads_ok s" and a: "a < th_next s"
    using assms(1) by (auto simp: private_hub_def threads_ok_def)
  note t = thread_hub_ok [OF ok assms(2)]
  show ?thesis
  proof (cases "th_local s y")
    case (Some c)
    then show ?thesis using assms by (auto simp: thread_hub_def private_hub_def)
  next
    case None
    obtain ph where ph: "th_process s = Some ph" "ph_hub ph \<noteq> a"
      using assms(1) by (auto simp: private_hub_def)
    have "b \<noteq> a" using None ph a assms(2)
      by (auto simp: thread_hub_def process_hub_force_def arc_hub_def split: if_splits)
    moreover have "th_process s' = Some ph" using None ph assms(2)
      by (auto simp: thread_hub_def process_hub_force_def arc_hub_def split: if_splits)
    moreover have "th_local s' z \<noteq> Some a" if "z \<noteq> x" for z
      using that assms(1) t(2,5) \<open>b \<noteq> a\<close> by (cases "z = y") (auto simp: private_hub_def)
    ultimately show ?thesis
      using assms(1,3) t(1,4,5,7) ph(2) a by (auto simp: private_hub_def)
  qed
qed

lemma private_step:
  assumes "private_hub a x s" and "stranger a x op" and "possible op s"
  shows "private_hub a x (thread_do op s) \<and> th_hubs (thread_do op s) a = th_hubs s a"
proof -
  have ok: "threads_ok s" and a: "a < th_next s"
    using assms(1) by (auto simp: private_hub_def threads_ok_def)
  obtain y o' where op: "op = (y, o')" by fastforce
  then have y: "y \<noteq> x" using assms(2) by (cases o') simp_all
  show ?thesis
  proof (cases o')
    case (Access sc)
    then show ?thesis
      using private_thread_hub [OF assms(1) _ y, of sc "fst (thread_hub sc y s)" "snd (thread_hub sc y s)"]
      by (simp add: op hub_current_def)
  next
    case (Main sc)
    then show ?thesis using assms(1) by (auto simp: op hub_main_def process_hub_force_def private_hub_def)
  next
    case (Change sc f)
    obtain b s' where r: "thread_hub sc y s = (b, s')" by fastforce
    show ?thesis
      using private_thread_hub [OF assms(1) r y]
      by (auto simp: op Change hub_with_def r private_hub_def threads_ok_def)
  next
    case (NewHub hb)
    then show ?thesis
      using assms(1) a arc_hub_ok [OF ok, of hb] by (auto simp: op private_hub_def arc_hub_def)
  next
    case (Enter sc hb)
    obtain b s' where r: "thread_hub sc y s = (b, s')" by fastforce
    note p = private_thread_hub [OF assms(1) r y]
    have "hb \<noteq> a" using assms(2) by (simp add: op Enter)
    moreover have "threads_ok (thread_do op s)" using threads_ok_do [OF ok assms(3)] .
    ultimately show ?thesis
      using p y by (auto simp: op Enter enter_hub_def r switch_guard_new_def private_hub_def)
  next
    case Leave
    have "threads_ok (thread_do op s)" using threads_ok_do [OF ok assms(3)] .
    then show ?thesis
      using assms(1) y by (auto simp: op Leave leave_hub_def switch_guard_drop_def private_hub_def
          split: list.split option.split)
  qed
qed

text \<open>A run of several threads, interleaved in any way.\<close>

inductive threads_run :: "(nat \<times> thread_op) list \<Rightarrow> threads \<Rightarrow> threads \<Rightarrow> bool" where
  run_none: "threads_run [] s s"
| run_some: "possible op s \<Longrightarrow> threads_run ops (thread_do op s) s' \<Longrightarrow> threads_run (op # ops) s s'"

inductive_simps threads_run_simps [simp]: "threads_run [] s s'" "threads_run (op # ops) s s'"

lemma private_run:
  assumes "threads_run ops s s'" and "private_hub a x s" and "\<forall>op \<in> set ops. stranger a x op"
  shows "private_hub a x s' \<and> th_hubs s' a = th_hubs s a"
  using assms
proof (induction rule: threads_run.induct)
  case (run_some op s ops s')
  then have "private_hub a x (thread_do op s) \<and> th_hubs (thread_do op s) a = th_hubs s a"
    by (intro private_step) auto
  with run_some show ?case by auto
qed simp

lemma first_use_private:
  assumes "threads_ok s" and "th_process s = Some ph" and "ph_thread ph \<noteq> x" and "th_local s x = None"
  shows "private_hub (th_next s) x (thread_do (x, Access sc) s)"
    "th_hubs (thread_do (x, Access sc) s) = (th_hubs s)(th_next s := hub_new_from_top (th_hubs s (ph_hub ph)))"
proof -
  have eq: "thread_hub sc x s = (th_next s, (snd (arc_hub (hub_new_from_top (th_hubs s (ph_hub ph))) s))
      \<lparr>th_local := (th_local s)(x := Some (th_next s))\<rparr>)"
    using assms(2-4) by (simp add: thread_hub_def process_hub_force_def arc_hub_def)
  show "th_hubs (thread_do (x, Access sc) s) = (th_hubs s)(th_next s := hub_new_from_top (th_hubs s (ph_hub ph)))"
    by (simp add: hub_current_def eq arc_hub_def)
  show "private_hub (th_next s) x (thread_do (x, Access sc) s)"
    using assms thread_hub_ok(1) [OF assms(1) eq]
    by (fastforce simp: private_hub_def hub_current_def eq arc_hub_def threads_ok_def)
qed

section \<open>Properties\<close>

text \<open>
  C23: A thread inherits once and is then on its own. When a thread other than the one that made the process's
  hub first asks for its hub, it gets a new hub with the client and the scope that are on top of the process's
  hub at that moment, at an address nobody had. However the other threads go on from there, interleaved in any way (using, changing,
  creating, entering and leaving hubs, the process's among them), unless they are handed that very hub it stays
  the thread's current hub and stays as it was; and what the thread then changes in it changes no other hub.
\<close>

theorem thread_inherits_once:
  assumes "threads_reachable s" and "th_process s = Some ph" and "x \<noteq> ph_thread ph" and "th_local s x = None"
    and "threads_run ops (thread_do (x, Access sc) s) s'" and "\<forall>op \<in> set ops. stranger (th_next s) x op"
  shows "(\<forall>y. th_local s y \<noteq> Some (th_next s) \<and> Some (th_next s) \<notin> set (th_guards s y)) \<and>
    th_local s' x = Some (th_next s) \<and>
    th_hubs s' (th_next s) = hub_new_from_top (th_hubs s (ph_hub ph)) \<and>
    th_hubs (thread_do (x, Change sc' f) s') =
      (th_hubs s')(th_next s := f (hub_new_from_top (th_hubs s (ph_hub ph))))"
proof -
  have ok: "threads_ok s" using assms(1) by (rule reachable_ok)
  note first = first_use_private [OF ok assms(2) assms(3) [symmetric] assms(4), of sc]
  have run: "private_hub (th_next s) x s'" "th_hubs s' (th_next s) = hub_new_from_top (th_hubs s (ph_hub ph))"
    using private_run [OF assms(5) first(1) assms(6)] by (simp_all add: first(2) del: thread_do.simps)
  then have local': "th_local s' x = Some (th_next s)" by (simp add: private_hub_def)
  then have "th_hubs (thread_do (x, Change sc' f) s') = (th_hubs s')(th_next s := f (th_hubs s' (th_next s)))"
    by (simp add: hub_with_def thread_hub_def)
  moreover have "th_local s y \<noteq> Some (th_next s) \<and> Some (th_next s) \<notin> set (th_guards s y)" for y
    using ok unfolding threads_ok_def by blast
  ultimately show ?thesis using run(2) local' by simp
qed

text \<open>Thread 0 binds a client to its hub; thread 1 starts; thread 0 unbinds its client.\<close>

definition sample_scope :: scope where "sample_scope = scope_default 0 [] []"

definition sample_threads :: threads where
  "sample_threads = thread_do (0, Change sample_scope (bind_client (Some 3))) threads_init"

lemma sample_threads_eq:
  "th_process sample_threads = Some \<lparr>ph_hub = 0, ph_thread = 0\<rparr>" "th_next sample_threads = 1"
  "th_local sample_threads = (\<lambda>_. None)(0 := Some 0)" "th_hubs sample_threads 0 = hub_new (Some 3) sample_scope"
  by (simp_all add: sample_threads_def threads_init_def hub_with_def thread_hub_def process_hub_force_def arc_hub_def Let_def
      bind_client_def top_mut_def hub_new_def from_client_and_scope_def)

lemma thread_inherits_once_witness:
  "hub_client (th_hubs (thread_do (0, Change sample_scope (bind_client None))
     (thread_do (1, Access sample_scope) sample_threads)) 1) = Some 3"
proof -
  let ?s' = "thread_do (0, Change sample_scope (bind_client None)) (thread_do (1, Access sample_scope) sample_threads)"
  have "threads_reachable sample_threads"
    unfolding sample_threads_def by (intro reachable_do reachable_init) simp
  moreover have "threads_run [(0, Change sample_scope (bind_client None))]
      (thread_do (1, Access sample_scope) sample_threads) ?s'"
    by simp
  ultimately have "th_hubs ?s' (th_next sample_threads) = hub_new_from_top (th_hubs sample_threads 0)"
    using thread_inherits_once [of sample_threads "\<lparr>ph_hub = 0, ph_thread = 0\<rparr>" 1
        "[(0, Change sample_scope (bind_client None))]" sample_scope ?s'] by (simp add: sample_threads_eq)
  then show ?thesis
    by (simp add: sample_threads_eq hub_new_from_top_def hub_new_def hub_top_def hub_client_def
        from_client_and_scope_def)
qed

end
