(* ===== verification/FlusherWorker.thy ===== *)
theory FlusherWorker
  imports Session "HOL-Library.Sublist"
begin

text \<open>
  The background thread of the session flusher (\<open>SessionFlusher::new\<close> in \<open>sentry-core/src/session.rs\<close>) and the
  end of a flusher. A flush takes the queue under its lock and gives the lock back before it sends, so the
  sends of several flushes interleave; each is a step of its own here. The thread holds the lock of the shutdown flag
  except while it waits. A flusher is dropped by setting the flag, joining the thread and flushing once more.
\<close>

section \<open>Flushing in steps\<close>

text \<open>The envelopes that \<open>flush_queue_internal\<close> fills, in the order in which it sends them.\<close>

fun fill_loop :: "envelope \<Rightarrow> nat \<Rightarrow> session_update list \<Rightarrow> envelope list" where
  "fill_loop envelope items [] = [envelope]"
| "fill_loop envelope items (u # us) =
     (if items \<ge> max_session_items then envelope # fill_loop (add_item (ISessionUpdate u) envelope_new) 1 us
      else fill_loop (add_item (ISessionUpdate u) envelope) (items + 1) us)"

definition flush_envelopes :: "session_flusher \<Rightarrow> envelope list" where
  "flush_envelopes f =
     (case fl_aggregated f of Some a \<Rightarrow> [add_item (aggregates_item a) envelope_new] | None \<Rightarrow> []) @
     (if fl_individual f = [] then [] else fill_loop envelope_new 0 (fl_individual f))"

text \<open>Under the lock: what is queued is taken.\<close>

definition take_queue :: "session_flusher \<Rightarrow> session_flusher \<times> envelope list" where
  "take_queue f = (f\<lparr>fl_individual := [], fl_aggregated := None\<rparr>, flush_envelopes f)"

definition enqueue_locked :: "session_update \<Rightarrow> session_flusher \<Rightarrow> (session_flusher \<times> envelope list) option" where
  "enqueue_locked u f =
     (if fl_mode f = Application \<or> \<not> su_init u then
        (let f' = f\<lparr>fl_individual := fl_individual f @ [u]\<rparr> in
         Some (if length (fl_individual f') \<ge> max_session_items then take_queue f' else (f', [])))
      else
        (let aggregate = (case fl_aggregated f of
               Some a \<Rightarrow> a
             | None \<Rightarrow> \<lparr>as_buckets = [], as_attributes = su_attributes u\<rparr>)
         in map_option (\<lambda>key. (f\<lparr>fl_aggregated := Some (aggregate\<lparr>as_buckets :=
                update_bucket key (count_session u) (as_buckets aggregate)\<rparr>)\<rparr>, []))
              (aggregation_key_of u)))"

section \<open>The thread\<close>

definition session_flush_interval :: duration where "session_flush_interval = from_secs 60"

text \<open>\<open>Instant::elapsed\<close> saturates.\<close>

definition elapsed_since :: "systime \<Rightarrow> systime \<Rightarrow> duration" where
  "elapsed_since since t = max 0 (t - since)"

text \<open>How long the thread waits if nobody wakes it.\<close>

definition wait_timeout :: "systime \<Rightarrow> systime \<Rightarrow> duration" where
  "wait_timeout since t =
     (let elapsed = elapsed_since since t in
      if elapsed \<le> session_flush_interval then session_flush_interval - elapsed else 0)"

datatype flusher_worker = FwStarting | FwWaiting systime | FwFlushing | FwDone

text \<open>Those who flush: the thread and any number of other threads, of which one may drop the flusher.\<close>

datatype agent = Worker | Caller nat

datatype flusher_phase = FpUsed | FpDropping | FpLastFlush nat | FpDropped

text \<open>\<open>fm_unsent\<close> is what the flush of an agent has yet to send; \<open>fm_queued\<close> the sessions queued so far.\<close>

record flusher_machine =
  fm_flusher :: session_flusher
  fm_net :: net
  fm_unsent :: "agent \<Rightarrow> envelope list"
  fm_shutdown :: bool
  fm_worker :: flusher_worker
  fm_phase :: flusher_phase
  fm_queued :: "session_update list"

definition flusher_spawn :: "sender \<Rightarrow> session_mode \<Rightarrow> net \<Rightarrow> flusher_machine" where
  "flusher_spawn sl mode w =
     \<lparr>fm_flusher = flusher_new sl mode, fm_net = w, fm_unsent = (\<lambda>_. []), fm_shutdown = False,
      fm_worker = FwStarting, fm_phase = FpUsed, fm_queued = []\<rparr>"

definition start_flush :: "agent \<Rightarrow> flusher_machine \<Rightarrow> flusher_machine" where
  "start_flush ag m =
     (case take_queue (fm_flusher m) of (f, es) \<Rightarrow>
        m\<lparr>fm_flusher := f, fm_unsent := (fm_unsent m)(ag := es)\<rparr>)"

definition send_next :: "systime \<Rightarrow> agent \<Rightarrow> flusher_machine \<Rightarrow> flusher_machine option" where
  "send_next now ag m =
     (case fm_unsent m ag of
        [] \<Rightarrow> None
      | e # es \<Rightarrow> Some (m\<lparr>fm_net := sender_send now (fl_sender (fm_flusher m)) e (fm_net m),
           fm_unsent := (fm_unsent m)(ag := es)\<rparr>))"

text \<open>
  A turn of the thread, which reads the clock at \<open>t\<close>: the check at the start, or what follows
  \<open>wait_timeout\<close>, whether that returned in time, early or by notification. A flush that is due is started. When it
  has sent everything, the clock is read again and the thread waits.
\<close>

definition worker_turn :: "systime \<Rightarrow> flusher_machine \<Rightarrow> flusher_machine" where
  "worker_turn t m =
     (case fm_worker m of
        FwStarting \<Rightarrow> m\<lparr>fm_worker := (if fm_shutdown m then FwDone else FwWaiting t)\<rparr>
      | FwWaiting since \<Rightarrow>
          (if fm_shutdown m then m\<lparr>fm_worker := FwDone\<rparr>
           else if elapsed_since since t < session_flush_interval then m
           else (start_flush Worker m)\<lparr>fm_worker := FwFlushing\<rparr>)
      | FwFlushing \<Rightarrow> (if fm_unsent m Worker = [] then m\<lparr>fm_worker := FwWaiting t\<rparr> else m)
      | FwDone \<Rightarrow> m)"

section \<open>The handle\<close>

definition handle_enqueue :: "nat \<Rightarrow> session_update \<Rightarrow> flusher_machine \<Rightarrow> flusher_machine option" where
  "handle_enqueue i u m =
     map_option (\<lambda>(f, es). m\<lparr>fm_flusher := f, fm_unsent := (fm_unsent m)(Caller i := es),
         fm_queued := fm_queued m @ [u]\<rparr>)
       (enqueue_locked u (fm_flusher m))"

definition handle_flush :: "nat \<Rightarrow> flusher_machine \<Rightarrow> flusher_machine" where
  "handle_flush i m = start_flush (Caller i) m"

text \<open>
  \<open>Drop\<close>: the flag is set under its lock, which the thread holds while it flushes, and the thread notified;
  joining waits until it is done; then the last flush.
\<close>

definition drop_signal :: "flusher_machine \<Rightarrow> flusher_machine option" where
  "drop_signal m =
     (if fm_worker m = FwFlushing then None else Some (m\<lparr>fm_shutdown := True, fm_phase := FpDropping\<rparr>))"

definition drop_join :: "nat \<Rightarrow> flusher_machine \<Rightarrow> flusher_machine option" where
  "drop_join i m =
     (if fm_worker m = FwDone then Some ((start_flush (Caller i) m)\<lparr>fm_phase := FpLastFlush i\<rparr>) else None)"

definition drop_return :: "flusher_machine \<Rightarrow> flusher_machine option" where
  "drop_return m =
     (case fm_phase m of
        FpLastFlush i \<Rightarrow> (if fm_unsent m (Caller i) = [] then Some (m\<lparr>fm_phase := FpDropped\<rparr>) else None)
      | _ \<Rightarrow> None)"

section \<open>Interleaving\<close>

text \<open>
  The handle is used by shared reference, by each thread for one call at a time; dropping takes it, when no call
  is running.
\<close>

inductive flusher_step :: "flusher_machine \<Rightarrow> flusher_machine \<Rightarrow> bool" where
  turn: "flusher_step m (worker_turn t m)"
| send: "send_next now ag m = Some m' \<Longrightarrow> flusher_step m m'"
| enqueue: "fm_phase m = FpUsed \<Longrightarrow> fm_unsent m (Caller i) = [] \<Longrightarrow> handle_enqueue i u m = Some m' \<Longrightarrow> flusher_step m m'"
| flush: "fm_phase m = FpUsed \<Longrightarrow> fm_unsent m (Caller i) = [] \<Longrightarrow> flusher_step m (handle_flush i m)"
| signal: "fm_phase m = FpUsed \<Longrightarrow> (\<And>i. fm_unsent m (Caller i) = []) \<Longrightarrow> drop_signal m = Some m' \<Longrightarrow> flusher_step m m'"
| join: "fm_phase m = FpDropping \<Longrightarrow> drop_join i m = Some m' \<Longrightarrow> flusher_step m m'"
| return: "drop_return m = Some m' \<Longrightarrow> flusher_step m m'"

inductive flusher_reachable :: "net \<Rightarrow> flusher_machine \<Rightarrow> bool" for w where
  spawned: "net_slots w sl \<noteq> None \<Longrightarrow> flusher_reachable w (flusher_spawn sl Application w)"
| stepped: "flusher_reachable w m \<Longrightarrow> flusher_step m m' \<Longrightarrow> flusher_reachable w m'"

section \<open>One flush alone\<close>

text \<open>A flush that nobody interrupts is the flush of the sequential model, and so is queueing.\<close>

lemma fill_loop_sends:
  "(case send_loop now sl envelope items us w of (e, w') \<Rightarrow> sender_send now sl e w') =
     fold (sender_send now sl) (fill_loop envelope items us) w"
  by (induction us arbitrary: envelope items w) simp_all

lemma take_queue_sends:
  "flusher_flush now (f, w) =
     (case take_queue f of (f', es) \<Rightarrow> (f', fold (sender_send now (fl_sender f)) es w))"
proof -
  have "(case send_loop now sl envelope_new 0 us w of (e, w') \<Rightarrow> (x, sender_send now sl e w')) =
      (x, fold (sender_send now sl) (fill_loop envelope_new 0 us) w)" for sl us x w
    by (simp flip: fill_loop_sends split: prod.split)
  then show ?thesis by (auto simp: flusher_flush_def take_queue_def flush_envelopes_def Let_def split: option.split)
qed

lemma enqueue_locked_sends:
  "flusher_enqueue now u (f, w) =
     map_option (\<lambda>(f', es). (f', fold (sender_send now (fl_sender f)) es w)) (enqueue_locked u f)"
  by (auto simp: flusher_enqueue_def enqueue_locked_def take_queue_sends take_queue_def Let_def split: option.split)

section \<open>What is sent, in flight and queued\<close>

definition envelope_sessions :: "envelope \<Rightarrow> session_update list" where
  "envelope_sessions e = List.map_filter updates_of (items_of e)"

text \<open>An envelope of the flusher: of sessions queued one after the other, at most 100, or of none.\<close>

definition piece_ok :: "session_update list \<Rightarrow> envelope \<Rightarrow> bool" where
  "piece_ok queued e \<longleftrightarrow>
     (\<exists>its. e = add_items its envelope_new) \<and>
     (envelope_sessions e = [] \<or> chunk_ok (envelope_sessions e)) \<and> sublist (envelope_sessions e) queued"

definition unsent_sessions :: "agent set \<Rightarrow> flusher_machine \<Rightarrow> session_update multiset" where
  "unsent_sessions A m = (\<Sum>ag\<in>A. mset (concat (map envelope_sessions (fm_unsent m ag))))"

definition sessions_inv :: "net \<Rightarrow> flusher_machine \<Rightarrow> bool" where
  "sessions_inv w m \<longleftrightarrow>
     flusher_inv (fm_flusher m, fm_net m) \<and> suffix (fl_individual (fm_flusher m)) (fm_queued m) \<and>
     (\<forall>ag. list_all (piece_ok (fm_queued m)) (fm_unsent m ag)) \<and>
     (\<exists>bs A. sent_sessions (fm_net m) = sent_sessions w @ bs \<and> list_all chunk_ok bs \<and>
        (\<forall>b \<in> set bs. sublist b (fm_queued m)) \<and> finite A \<and> (\<forall>ag. ag \<notin> A \<longrightarrow> fm_unsent m ag = []) \<and>
        mset (fm_queued m) = mset (concat bs) + unsent_sessions A m + mset (fl_individual (fm_flusher m)))"

text \<open>Who may be flushing when.\<close>

definition control_inv :: "flusher_machine \<Rightarrow> bool" where
  "control_inv m \<longleftrightarrow>
     (fm_shutdown m \<longleftrightarrow> fm_phase m \<noteq> FpUsed) \<and>
     (fm_worker m \<noteq> FwFlushing \<longrightarrow> fm_unsent m Worker = []) \<and>
     (case fm_phase m of
        FpUsed \<Rightarrow> fm_worker m \<noteq> FwDone
      | FpDropping \<Rightarrow> fm_worker m \<noteq> FwFlushing \<and> (\<forall>i. fm_unsent m (Caller i) = [])
      | FpLastFlush i \<Rightarrow> fm_worker m = FwDone \<and> fl_individual (fm_flusher m) = [] \<and>
          (\<forall>j. j \<noteq> i \<longrightarrow> fm_unsent m (Caller j) = [])
      | FpDropped \<Rightarrow> fm_worker m = FwDone \<and> fl_individual (fm_flusher m) = [] \<and> (\<forall>ag. fm_unsent m ag = []))"

section \<open>Lemmas\<close>

lemma fill_loop_chunks:
  "length chunk \<le> max_session_items \<Longrightarrow>
   \<exists>bs. fill_loop (add_items (map ISessionUpdate chunk) envelope_new) (length chunk) us =
       map (\<lambda>b. add_items (map ISessionUpdate b) envelope_new) bs \<and>
     concat bs = chunk @ us \<and> (chunk @ us \<noteq> [] \<longrightarrow> list_all chunk_ok bs)"
proof (induction us arbitrary: chunk)
  case Nil
  then show ?case by (intro exI [of _ "[chunk]"]) (simp add: chunk_ok_def)
next
  case (Cons u us)
  have snoc: "add_item (ISessionUpdate u) (add_items (map ISessionUpdate c) envelope_new)
      = add_items (map ISessionUpdate (c @ [u])) envelope_new" for c
    by (simp add: add_items_def)
  show ?case
  proof (cases "length chunk \<ge> max_session_items")
    case False
    then show ?thesis using Cons.IH [of "chunk @ [u]"] snoc [of chunk] by simp
  next
    case True
    obtain bs where bs: "fill_loop (add_items (map ISessionUpdate [u]) envelope_new) (length [u]) us =
        map (\<lambda>b. add_items (map ISessionUpdate b) envelope_new) bs" "concat bs = [u] @ us" "list_all chunk_ok bs"
      using Cons.IH [of "[u]"] by (auto simp: max_session_items_def)
    have "chunk_ok chunk" using True Cons.prems by (auto simp: chunk_ok_def max_session_items_def)
    then show ?thesis
      using True bs snoc [of "[]"] by (intro exI [of _ "chunk # bs"]) simp
  qed
qed

lemma flush_envelopes_pieces:
  "concat (map envelope_sessions (flush_envelopes f)) = fl_individual f"
  "sublist (fl_individual f) queued \<Longrightarrow> list_all (piece_ok queued) (flush_envelopes f)"
proof -
  let ?env = "\<lambda>b. add_items (map ISessionUpdate b) envelope_new"
  have aggregate: "envelope_sessions (add_item (aggregates_item a) envelope_new) = []"
    and "piece_ok queued (add_item (aggregates_item a) envelope_new)" for a
  proof -
    have "add_item (aggregates_item a) envelope_new = add_items [aggregates_item a] envelope_new"
      by (simp add: add_items_Cons)
    then show "envelope_sessions (add_item (aggregates_item a) envelope_new) = []"
      "piece_ok queued (add_item (aggregates_item a) envelope_new)"
      unfolding piece_ok_def envelope_sessions_def
      by (auto simp: aggregates_item_def List.map_filter_simps)
  qed
  note aggregate = this
  obtain bs where bs: "fl_individual f \<noteq> [] \<Longrightarrow> fill_loop envelope_new 0 (fl_individual f) = map ?env bs"
    "concat bs = fl_individual f" "fl_individual f \<noteq> [] \<Longrightarrow> list_all chunk_ok bs"
    using fill_loop_chunks [of "[]" "fl_individual f"] by auto
  have sessions: "envelope_sessions (?env b) = b" for b by (simp add: envelope_sessions_def)
  then have "concat (map envelope_sessions (map ?env bs)) = fl_individual f" using bs(2) by (simp add: comp_def)
  then show "concat (map envelope_sessions (flush_envelopes f)) = fl_individual f"
    using bs(1) by (auto simp: flush_envelopes_def aggregate split: option.split)
  show "list_all (piece_ok queued) (flush_envelopes f)" if "sublist (fl_individual f) queued"
  proof -
    have "sublist b queued" if "b \<in> set bs" for b
    proof -
      from that have "sublist b (concat bs)" by (metis concat.simps(2) concat_append split_list sublist_appendI)
      then show ?thesis using \<open>sublist (fl_individual f) queued\<close> bs(2) sublist_order.order_trans by metis
    qed
    then have "list_all (piece_ok queued) (map ?env bs)" if "fl_individual f \<noteq> []"
      using bs(3) [OF that] by (auto simp: list_all_iff piece_ok_def sessions)
    then show ?thesis using bs(1) aggregate(2) by (auto simp: flush_envelopes_def split: option.split)
  qed
qed

lemma send_piece:
  assumes "piece_ok queued e" and "net_slots w sl \<noteq> None"
  shows "sent_sessions (sender_send now sl e w) =
      sent_sessions w @ (if envelope_sessions e = [] then [] else [envelope_sessions e])"
    and "net_slots (sender_send now sl e w) = net_slots w"
proof -
  obtain its where "e = add_items its envelope_new" using assms(1) by (auto simp: piece_ok_def)
  then show "sent_sessions (sender_send now sl e w) =
      sent_sessions w @ (if envelope_sessions e = [] then [] else [envelope_sessions e])"
    using sent_sessions_send [OF assms(2), of now its] by (simp add: envelope_sessions_def Let_def)
qed simp

lemma piece_ok_mono: "piece_ok queued e \<Longrightarrow> piece_ok (queued @ us) e"
  by (auto simp: piece_ok_def intro: sublist_order.order_trans)

lemma unsent_sessions_upd:
  assumes "finite A" and "\<And>ag. ag \<notin> A \<Longrightarrow> fm_unsent m ag = []" and "fm_unsent m' = (fm_unsent m)(ag := es)"
  shows "mset (concat (map envelope_sessions (fm_unsent m ag))) + unsent_sessions (insert ag A) m' =
    unsent_sessions A m + mset (concat (map envelope_sessions es))"
proof -
  let ?s = "\<lambda>es. mset (concat (map envelope_sessions es))"
  have "unsent_sessions (insert ag A) m' = ?s es + (\<Sum>a\<in>A - {ag}. ?s (fm_unsent m a))"
    unfolding unsent_sessions_def using assms(1,3) by (simp add: sum.insert_remove)
  moreover have "unsent_sessions A m = ?s (fm_unsent m ag) + (\<Sum>a\<in>A - {ag}. ?s (fm_unsent m a))"
    unfolding unsent_sessions_def using assms(1,2) by (cases "ag \<in> A") (simp_all add: sum.remove)
  ultimately show ?thesis by simp
qed

lemma sessions_inv_cong:
  "sessions_inv w m \<Longrightarrow> fm_flusher m' = fm_flusher m \<Longrightarrow> fm_net m' = fm_net m \<Longrightarrow> fm_unsent m' = fm_unsent m \<Longrightarrow>
   fm_queued m' = fm_queued m \<Longrightarrow> sessions_inv w m'"
  by (simp add: sessions_inv_def unsent_sessions_def)

text \<open>A session is queued; the queue is taken, unless it goes on filling.\<close>

lemma sessions_inv_queue:
  assumes "sessions_inv w m" and "length (fl_individual (fm_flusher m) @ us) < max_session_items"
  shows "sessions_inv w (m\<lparr>fm_flusher := (fm_flusher m)\<lparr>fl_individual := fl_individual (fm_flusher m) @ us\<rparr>,
    fm_queued := fm_queued m @ us\<rparr>)"
proof -
  let ?m = "m\<lparr>fm_flusher := (fm_flusher m)\<lparr>fl_individual := fl_individual (fm_flusher m) @ us\<rparr>, fm_queued := fm_queued m @ us\<rparr>"
  obtain bs A where inv: "sent_sessions (fm_net m) = sent_sessions w @ bs" "list_all chunk_ok bs"
    "\<forall>b \<in> set bs. sublist b (fm_queued m)" "finite A" "\<forall>ag. ag \<notin> A \<longrightarrow> fm_unsent m ag = []"
    "mset (fm_queued m) = mset (concat bs) + unsent_sessions A m + mset (fl_individual (fm_flusher m))"
    using assms(1) by (auto simp: sessions_inv_def)
  have "list_all (piece_ok (fm_queued m @ us)) (fm_unsent m ag)" for ag
    using assms(1) piece_ok_mono by (auto simp: sessions_inv_def list_all_iff)
  moreover have "\<forall>b \<in> set bs. sublist b (fm_queued m @ us)"
    using inv(3) by (auto intro: sublist_order.order_trans)
  moreover have "suffix (fl_individual (fm_flusher m) @ us) (fm_queued m @ us)"
    using assms(1) by (auto simp: sessions_inv_def suffix_def)
  moreover have "unsent_sessions A ?m = unsent_sessions A m" by (simp add: unsent_sessions_def)
  ultimately show ?thesis
    using assms inv by (simp add: sessions_inv_def flusher_inv_def) (intro exI [of _ bs] conjI exI [of _ A]; simp)
qed

lemma sessions_inv_take:
  assumes "sessions_inv w m" and "fm_unsent m ag = []"
    and "fm_flusher m' = (fm_flusher m)\<lparr>fl_individual := [], fl_aggregated := None\<rparr>" and "fm_net m' = fm_net m"
    and "fm_unsent m' = (fm_unsent m)(ag := flush_envelopes ((fm_flusher m)\<lparr>fl_individual := fl_individual (fm_flusher m) @ us\<rparr>))"
    and "fm_queued m' = fm_queued m @ us"
  shows "sessions_inv w m'"
proof -
  let ?f = "(fm_flusher m)\<lparr>fl_individual := fl_individual (fm_flusher m) @ us\<rparr>"
  obtain bs A where inv: "sent_sessions (fm_net m) = sent_sessions w @ bs" "list_all chunk_ok bs"
    "\<forall>b \<in> set bs. sublist b (fm_queued m)" "finite A" "\<forall>ag. ag \<notin> A \<longrightarrow> fm_unsent m ag = []"
    "mset (fm_queued m) = mset (concat bs) + unsent_sessions A m + mset (fl_individual (fm_flusher m))"
    using assms(1) by (auto simp: sessions_inv_def)
  have "suffix (fl_individual ?f) (fm_queued m @ us)"
    using assms(1) by (auto simp: sessions_inv_def suffix_def)
  then have "list_all (piece_ok (fm_queued m @ us)) (flush_envelopes ?f)"
    by (intro flush_envelopes_pieces(2)) (rule suffix_imp_sublist)
  then have "list_all (piece_ok (fm_queued m')) (fm_unsent m' ag')" for ag'
    using assms(1,5,6) piece_ok_mono by (auto simp: sessions_inv_def list_all_iff)
  moreover have "mset (fm_queued m') = mset (concat bs) + unsent_sessions (insert ag A) m' + mset (fl_individual (fm_flusher m'))"
    using unsent_sessions_upd [OF inv(4) _ assms(5)] inv(5,6) assms(2,3,6)
    by (simp add: flush_envelopes_pieces(1))
  moreover have "\<forall>b \<in> set bs. sublist b (fm_queued m')"
    using inv(3) assms(6) by (auto intro: sublist_order.order_trans)
  ultimately show ?thesis
    using assms(1,3-6) inv(1,2,4,5) unfolding sessions_inv_def
    by (intro conjI exI [of _ bs] exI [of _ "insert ag A"]) (simp_all add: flusher_inv_def max_session_items_def)
qed

lemma sessions_inv_start: "sessions_inv w m \<Longrightarrow> fm_unsent m ag = [] \<Longrightarrow> sessions_inv w (start_flush ag m)"
  by (rule sessions_inv_take [of w m ag _ "[]"]) (simp_all add: start_flush_def take_queue_def)

lemma sessions_inv_enqueue:
  assumes "sessions_inv w m" and "fm_unsent m (Caller i) = []" and "handle_enqueue i u m = Some m'"
  shows "sessions_inv w m'"
proof -
  have mode: "fl_mode (fm_flusher m) = Application" using assms(1) by (simp add: sessions_inv_def flusher_inv_def)
  let ?f = "(fm_flusher m)\<lparr>fl_individual := fl_individual (fm_flusher m) @ [u]\<rparr>"
  show ?thesis
  proof (cases "length (fl_individual ?f) \<ge> max_session_items")
    case True
    then have "m' = m\<lparr>fm_flusher := ?f\<lparr>fl_individual := [], fl_aggregated := None\<rparr>,
        fm_unsent := (fm_unsent m)(Caller i := flush_envelopes ?f), fm_queued := fm_queued m @ [u]\<rparr>"
      using assms(3) mode by (simp add: handle_enqueue_def enqueue_locked_def take_queue_def Let_def)
    then show ?thesis by (intro sessions_inv_take [OF assms(1,2), of _ "[u]"]) simp_all
  next
    case False
    then have "m' = m\<lparr>fm_flusher := ?f, fm_unsent := (fm_unsent m)(Caller i := []), fm_queued := fm_queued m @ [u]\<rparr>"
      using assms(3) mode by (simp add: handle_enqueue_def enqueue_locked_def Let_def)
    moreover have "(fm_unsent m)(Caller i := []) = fm_unsent m" using assms(2) by (simp add: fun_upd_idem)
    ultimately show ?thesis
      using False by (intro sessions_inv_cong [OF sessions_inv_queue [OF assms(1), of "[u]"]]) simp_all
  qed
qed

lemma sessions_inv_send:
  assumes "sessions_inv w m" and "send_next now ag m = Some m'"
  shows "sessions_inv w m'"
proof -
  obtain e es where ees: "fm_unsent m ag = e # es"
    and m': "m' = m\<lparr>fm_net := sender_send now (fl_sender (fm_flusher m)) e (fm_net m), fm_unsent := (fm_unsent m)(ag := es)\<rparr>"
    using assms(2) by (auto simp: send_next_def split: list.splits)
  obtain bs A where inv: "sent_sessions (fm_net m) = sent_sessions w @ bs" "list_all chunk_ok bs"
    "\<forall>b \<in> set bs. sublist b (fm_queued m)" "finite A" "\<forall>ag. ag \<notin> A \<longrightarrow> fm_unsent m ag = []"
    "mset (fm_queued m) = mset (concat bs) + unsent_sessions A m + mset (fl_individual (fm_flusher m))"
    using assms(1) by (auto simp: sessions_inv_def)
  have pieces: "list_all (piece_ok (fm_queued m)) (fm_unsent m ag')" for ag'
    using assms(1) by (simp add: sessions_inv_def)
  then have e: "piece_ok (fm_queued m) e" and es: "list_all (piece_ok (fm_queued m)) es"
    using ees pieces [of ag] by simp_all
  have slot: "net_slots (fm_net m) (fl_sender (fm_flusher m)) \<noteq> None"
    using assms(1) by (simp add: sessions_inv_def flusher_inv_def)
  define cs where "cs = (if envelope_sessions e = [] then [] else [envelope_sessions e])"
  have sent: "sent_sessions (fm_net m') = sent_sessions w @ (bs @ cs)" "net_slots (fm_net m') = net_slots (fm_net m)"
    using send_piece [OF e slot, of now] inv(1) by (simp_all add: m' cs_def)
  have cs: "concat cs = envelope_sessions e" "list_all chunk_ok cs" "\<forall>b \<in> set cs. sublist b (fm_queued m)"
    using e by (auto simp: cs_def piece_ok_def)
  have "unsent_sessions (insert ag A) m' + mset (envelope_sessions e) = unsent_sessions A m"
    using unsent_sessions_upd [of A m m' ag es] inv(4,5) ees by (simp add: m' add.commute)
  then have "mset (fm_queued m) = mset (concat (bs @ cs)) + unsent_sessions (insert ag A) m' + mset (fl_individual (fm_flusher m))"
    using inv(6) cs(1) by (simp flip: \<open>_ = unsent_sessions A m\<close>)
  moreover have "list_all (piece_ok (fm_queued m)) (fm_unsent m' ag')" for ag'
    using pieces es by (simp add: m')
  ultimately show ?thesis
    using assms(1) sent cs inv(2-5) unfolding sessions_inv_def
    by (intro conjI exI [of _ "bs @ cs"] exI [of _ "insert ag A"]) (auto simp: m' flusher_inv_def)
qed

lemma start_flush_simps [simp]:
  "fm_phase (start_flush ag m) = fm_phase m" "fm_worker (start_flush ag m) = fm_worker m"
  "fm_shutdown (start_flush ag m) = fm_shutdown m" "fm_queued (start_flush ag m) = fm_queued m"
  "fl_individual (fm_flusher (start_flush ag m)) = []"
  "fm_unsent (start_flush ag m) = (fm_unsent m)(ag := flush_envelopes (fm_flusher m))"
  by (simp_all add: start_flush_def take_queue_def)

lemma same_worker: "\<exists>x. m = m\<lparr>fm_worker := x\<rparr>"
  by (rule exI [of _ "fm_worker m"]) simp

lemma worker_turn_cases:
  "(\<exists>x. worker_turn t m = m\<lparr>fm_worker := x\<rparr>) \<or>
   worker_turn t m = (start_flush Worker m)\<lparr>fm_worker := FwFlushing\<rparr> \<and> (\<exists>since. fm_worker m = FwWaiting since)"
  using same_worker [of m] by (cases "fm_worker m") (auto simp: worker_turn_def)

lemma reachable_inv: "flusher_reachable w m \<Longrightarrow> sessions_inv w m \<and> control_inv m"
proof (induction rule: flusher_reachable.induct)
  case (spawned sl)
  then show ?case
    by (auto simp: sessions_inv_def control_inv_def flusher_spawn_def flusher_new_def flusher_inv_def
        max_session_items_def unsent_sessions_def intro!: exI [of _ "{}"])
next
  case (stepped m m')
  then have inv: "sessions_inv w m" "control_inv m" by blast+
  from stepped.hyps(2) show ?case
  proof cases
    case (turn t)
    have "sessions_inv w m'"
      using worker_turn_cases [of t m]
    proof (elim disjE exE conjE)
      fix x assume "worker_turn t m = m\<lparr>fm_worker := x\<rparr>"
      then show ?thesis using turn by (intro sessions_inv_cong [OF inv(1)]) simp_all
    next
      fix since assume t: "worker_turn t m = (start_flush Worker m)\<lparr>fm_worker := FwFlushing\<rparr>" "fm_worker m = FwWaiting since"
      then have "fm_unsent m Worker = []" using inv(2) by (simp add: control_inv_def)
      then show ?thesis using turn t by (intro sessions_inv_cong [OF sessions_inv_start [OF inv(1)]]) simp_all
    qed
    moreover have "control_inv m'"
      using inv(2) unfolding turn control_inv_def worker_turn_def
      by (auto split: flusher_worker.splits flusher_phase.splits)
    ultimately show ?thesis by blast
  next
    case (send now ag)
    then obtain e es where "fm_unsent m ag = e # es"
      "m' = m\<lparr>fm_net := sender_send now (fl_sender (fm_flusher m)) e (fm_net m), fm_unsent := (fm_unsent m)(ag := es)\<rparr>"
      by (auto simp: send_next_def split: list.splits)
    then have "control_inv m'"
      using inv(2) by (auto simp: control_inv_def split: flusher_phase.splits)
    with sessions_inv_send [OF inv(1) send] show ?thesis by blast
  next
    case (enqueue i u)
    then have "fm_phase m' = fm_phase m" "fm_worker m' = fm_worker m" "fm_shutdown m' = fm_shutdown m"
      "fm_unsent m' Worker = fm_unsent m Worker" by (auto simp: handle_enqueue_def)
    then have "control_inv m'" using inv(2) enqueue(1) by (auto simp: control_inv_def)
    with sessions_inv_enqueue [OF inv(1) enqueue(2,3)] show ?thesis by blast
  next
    case (flush i)
    then show ?thesis using inv sessions_inv_start [OF inv(1)] by (auto simp: handle_flush_def control_inv_def)
  next
    case signal
    then have m': "m' = m\<lparr>fm_shutdown := True, fm_phase := FpDropping\<rparr>" "fm_worker m \<noteq> FwFlushing"
      by (auto simp: drop_signal_def split: if_splits)
    then have "sessions_inv w m'" by (intro sessions_inv_cong [OF inv(1)]) simp_all
    then show ?thesis using inv(2) signal(2) m' by (simp add: control_inv_def)
  next
    case (join i)
    then have m': "m' = (start_flush (Caller i) m)\<lparr>fm_phase := FpLastFlush i\<rparr>" "fm_worker m = FwDone"
      by (auto simp: drop_join_def split: if_splits)
    have "fm_unsent m (Caller i) = []" using inv(2) join(1) by (simp add: control_inv_def)
    then have "sessions_inv w m'" using m' by (intro sessions_inv_cong [OF sessions_inv_start [OF inv(1)]]) simp_all
    then show ?thesis using inv(2) join(1) m' by (simp add: control_inv_def)
  next
    case return
    then obtain i where i: "fm_phase m = FpLastFlush i" "fm_unsent m (Caller i) = []" "m' = m\<lparr>fm_phase := FpDropped\<rparr>"
      by (auto simp: drop_return_def split: flusher_phase.splits if_splits)
    then have "fm_unsent m ag = []" for ag using inv(2) by (cases ag) (auto simp: control_inv_def)
    moreover have "sessions_inv w m'" using i by (intro sessions_inv_cong [OF inv(1)]) simp_all
    ultimately show ?thesis using inv(2) i by (simp add: control_inv_def)
  qed
qed

text \<open>Waiting as long as the thread means to wait brings the next flush due.\<close>

lemma wait_timeout_due: "since \<le> t0 \<Longrightarrow> t0 + wait_timeout since t0 \<le> t \<Longrightarrow> \<not> elapsed_since since t < session_flush_interval"
  by (auto simp: wait_timeout_def elapsed_since_def Let_def split: if_splits)

lemma worker_turn_ends:
  "fm_shutdown m \<Longrightarrow> fm_worker m \<noteq> FwFlushing \<Longrightarrow> fm_worker (worker_turn t m) = FwDone"
  by (simp add: worker_turn_def split: flusher_worker.split)

section \<open>Properties\<close>

text \<open>
  C25: The session flusher with its thread, in application mode with its transport in place. However turns of the
  thread, single sends of flushes and of queueing callers, and the drop of the handle interleave, the individual
  sessions sent, those that some flush has taken and not sent yet, and those still queued are the ones
  queued so far, each once; what is sent goes out in envelopes of at most 100, each of sessions queued one after the
  other. A flush that has something to send can send, and has one envelope less afterwards. Once
  the drop has signalled, the next turn of the thread is its last, after which joining succeeds; when the
  drop is over everything queued was sent. While the flusher is in use, a thread that started a wait at
  \<open>t0\<close> and waited its whole timeout takes everything queued at that turn, and waits again once it has sent it; one
  that is woken within 60 seconds of the last flush leaves everything as it is.
\<close>

theorem flusher_thread_delivers:
  assumes "flusher_reachable w m"
  shows "(\<exists>bs A. sent_sessions (fm_net m) = sent_sessions w @ bs \<and> list_all chunk_ok bs \<and>
      (\<forall>b \<in> set bs. sublist b (fm_queued m)) \<and> finite A \<and> (\<forall>ag. ag \<notin> A \<longrightarrow> fm_unsent m ag = []) \<and>
      mset (fm_queued m) = mset (concat bs) +
        (\<Sum>ag\<in>A. mset (concat (map envelope_sessions (fm_unsent m ag)))) + mset (fl_individual (fm_flusher m)) \<and>
      (fm_phase m = FpDropped \<longrightarrow> mset (concat bs) = mset (fm_queued m))) \<and>
    (fm_unsent m ag \<noteq> [] \<longrightarrow>
      (\<exists>m'. send_next now ag m = Some m' \<and> length (fm_unsent m' ag) < length (fm_unsent m ag))) \<and>
    (fm_phase m = FpDropping \<longrightarrow> fm_worker (worker_turn t m) = FwDone \<and> drop_join i (worker_turn t m) \<noteq> None) \<and>
    (fm_phase m = FpUsed \<and> fm_worker m = FwWaiting since \<and> since \<le> t0 \<and> t0 + wait_timeout since t0 \<le> t \<longrightarrow>
      fl_individual (fm_flusher (worker_turn t m)) = [] \<and> fm_worker (worker_turn t m) = FwFlushing \<and>
      concat (map envelope_sessions (fm_unsent (worker_turn t m) Worker)) = fl_individual (fm_flusher m)) \<and>
    (fm_worker m = FwFlushing \<and> fm_unsent m Worker = [] \<longrightarrow> fm_worker (worker_turn t m) = FwWaiting t) \<and>
    (fm_phase m = FpUsed \<and> fm_worker m = FwWaiting since \<and> t < since + session_flush_interval \<longrightarrow>
      worker_turn t m = m)"
proof -
  have inv: "sessions_inv w m" "control_inv m" using reachable_inv [OF assms] by blast+
  obtain bs A where sent: "sent_sessions (fm_net m) = sent_sessions w @ bs" "list_all chunk_ok bs"
    "\<forall>b \<in> set bs. sublist b (fm_queued m)" "finite A" "\<forall>ag. ag \<notin> A \<longrightarrow> fm_unsent m ag = []"
    "mset (fm_queued m) = mset (concat bs) + unsent_sessions A m + mset (fl_individual (fm_flusher m))"
    using inv(1) by (auto simp: sessions_inv_def)
  have all: "mset (concat bs) = mset (fm_queued m)" if "fm_phase m = FpDropped"
    using that inv(2) sent(6) by (simp add: control_inv_def unsent_sessions_def)
  have next': "\<exists>m'. send_next now ag m = Some m' \<and> length (fm_unsent m' ag) < length (fm_unsent m ag)"
    if "fm_unsent m ag \<noteq> []"
    using that by (cases "fm_unsent m ag") (simp_all add: send_next_def)
  have stop: "fm_worker (worker_turn t m) = FwDone" if "fm_phase m = FpDropping"
    using that inv(2) by (intro worker_turn_ends) (simp_all add: control_inv_def)
  have due: "worker_turn t m = (start_flush Worker m)\<lparr>fm_worker := FwFlushing\<rparr>"
    if "fm_phase m = FpUsed" "fm_worker m = FwWaiting since" "since \<le> t0" "t0 + wait_timeout since t0 \<le> t"
    using that inv(2) wait_timeout_due [of since t0 t] by (simp add: worker_turn_def control_inv_def)
  have early: "worker_turn t m = m"
    if "fm_phase m = FpUsed" "fm_worker m = FwWaiting since" "t < since + session_flush_interval"
    using that inv(2) by (simp add: worker_turn_def control_inv_def elapsed_since_def session_flush_interval_def
        from_secs_def nanos_per_sec_def)
  have again: "fm_worker (worker_turn t m) = FwWaiting t" if "fm_worker m = FwFlushing" "fm_unsent m Worker = []"
    using that by (simp add: worker_turn_def)
  show ?thesis
    using sent(1-5) sent(6) [unfolded unsent_sessions_def] all next' stop due early again
    by (intro conjI exI [of _ bs] exI [of _ A] impI) (auto simp: drop_join_def flush_envelopes_pieces(1))
qed

lemma flusher_thread_delivers_witness:
  "\<exists>m. drop_signal (flusher_spawn 0 Application one_slot) = Some m \<and> drop_join 0 (worker_turn 0 m) \<noteq> None"
proof -
  let ?m = "(flusher_spawn 0 Application one_slot)\<lparr>fm_shutdown := True, fm_phase := FpDropping\<rparr>"
  have signal: "drop_signal (flusher_spawn 0 Application one_slot) = Some ?m"
    by (simp add: drop_signal_def flusher_spawn_def)
  have "flusher_reachable one_slot ?m"
    by (rule stepped [OF spawned [of one_slot 0] flusher_step.signal [OF _ _ signal]]) (simp_all add: flusher_spawn_def)
  from flusher_thread_delivers [OF this, of Worker 0 0 0] signal show ?thesis by simp
qed

end
