(* ===== verification/Conversions.thy ===== *)
theory Conversions
  imports Api
begin

text \<open>
  What callers may pass instead of breadcrumbs, DSNs and options (\<open>breadcrumbs.rs\<close>, \<open>intodsn.rs\<close>,
  \<open>clientoptions.rs\<close> in \<open>sentry-core/src\<close>), and finding an integration by its type (\<open>client/mod.rs\<close>,
  \<open>hub.rs\<close>, \<open>api.rs\<close>). The type of an integration is a number that a parameter reads off it.
\<close>

section \<open>Breadcrumbs\<close>

datatype crumb_source =
    CrumbOne breadcrumb
  | CrumbVec "breadcrumb list"
  | CrumbOption "breadcrumb option"
  | CrumbFn "unit \<Rightarrow> crumb_source"

primrec into_breadcrumbs :: "crumb_source \<Rightarrow> breadcrumb list" where
  "into_breadcrumbs (CrumbOne b) = [b]"
| "into_breadcrumbs (CrumbVec bs) = bs"
| "into_breadcrumbs (CrumbOption b) = (case b of Some b \<Rightarrow> [b] | None \<Rightarrow> [])"
| "into_breadcrumbs (CrumbFn f) = into_breadcrumbs (f ())"

section \<open>DSNs and options\<close>

datatype dsn_source =
    DsnUnit
  | DsnOption "dsn_source option"
  | DsnStr string
  | DsnSelf dsn

primrec into_dsn :: "url_parser \<Rightarrow> dsn_source \<Rightarrow> parse_dsn_error + dsn option" where
  "into_dsn parse DsnUnit = Inr None"
| "into_dsn parse (DsnOption v) = (case map_option (into_dsn parse) v of Some r \<Rightarrow> r | None \<Rightarrow> Inr None)"
| "into_dsn parse (DsnStr s) = into_dsn_str parse s"
| "into_dsn parse (DsnSelf d) = Inr (Some d)"

text \<open>\<open>expect\<close>: \<open>None\<close> is a panic.\<close>

definition options_from_pair :: "url_parser \<Rightarrow> dsn_source \<times> client_options \<Rightarrow> client_options option" where
  "options_from_pair parse p =
     (case into_dsn parse (fst p) of Inl _ \<Rightarrow> None | Inr d \<Rightarrow> Some ((snd p)\<lparr>co_dsn := d\<rparr>))"

definition options_from_dsn :: "url_parser \<Rightarrow> string \<Rightarrow> dsn_source \<Rightarrow> client_options option" where
  "options_from_dsn parse user_agent d =
     (case into_dsn parse d of Inl _ \<Rightarrow> None | Inr d' \<Rightarrow> Some ((options_default user_agent)\<lparr>co_dsn := d'\<rparr>))"

section \<open>Integrations by type\<close>

text \<open>The options' list of integrations.\<close>

definition options_integrations :: "integration list \<Rightarrow> integration list \<Rightarrow> integration list" where
  "options_integrations is old = is"

definition options_add_integration :: "integration \<Rightarrow> integration list \<Rightarrow> integration list" where
  "options_add_integration i is = is @ [i]"

definition get_integration :: "(integration \<Rightarrow> nat) \<Rightarrow> nat \<Rightarrow> client \<Rightarrow> integration option" where
  "get_integration type_id ty c = List.find (\<lambda>i. type_id i = ty) (cl_integrations c)"

text \<open>The callback reads or changes hub and world; \<open>deflt\<close> is the default of its result.\<close>

definition hub_with_integration ::
  "(integration \<Rightarrow> nat) \<Rightarrow> nat \<Rightarrow> 'r \<Rightarrow> (integration \<Rightarrow> hub \<times> world \<Rightarrow> 'r \<times> hub \<times> world) \<Rightarrow> hub \<times> world \<Rightarrow>
   'r \<times> hub \<times> world" where
  "hub_with_integration type_id ty deflt f s =
     (case hub_client (fst s) of
        None \<Rightarrow> (deflt, s)
      | Some a \<Rightarrow>
          (case get_integration type_id ty (wd_clients (snd s) a) of
             Some i \<Rightarrow> f i s
           | None \<Rightarrow> (deflt, s)))"

definition api_with_integration ::
  "(integration \<Rightarrow> nat) \<Rightarrow> nat \<Rightarrow> 'r \<Rightarrow> (integration \<Rightarrow> hub \<times> world \<Rightarrow> 'r \<times> hub \<times> world) \<Rightarrow> hub \<times> world \<Rightarrow>
   'r \<times> hub \<times> world" where
  "api_with_integration type_id ty deflt f = on_active deflt (hub_with_integration type_id ty deflt f)"

section \<open>Properties\<close>

lemma find_append: "List.find P (xs @ ys) = (case List.find P xs of Some x \<Rightarrow> Some x | None \<Rightarrow> List.find P ys)"
  by (induction xs) auto

text \<open>
  The callback of \<open>with_integration\<close> is called exactly when the hub has an enabled client with an integration
  of the type, with the first one registered: one that is added to a client's options later is never seen.
\<close>

theorem with_integration_first:
  assumes "hub_client hb = Some a" and "cl_integrations (wd_clients W a) = options_add_integration i is"
  shows "api_with_integration type_id (type_id i) deflt f (hb, W) =
    (if \<not> client_is_enabled (wd_clients W a, net_of W a) then (deflt, hb, W)
     else case List.find (\<lambda>j. type_id j = type_id i) is of
            Some j \<Rightarrow> f j (hb, W)
          | None \<Rightarrow> f i (hb, W))"
  using assms
  by (simp add: api_with_integration_def on_active_def is_active_and_usage_safe_def hub_with_integration_def
      get_integration_def options_add_integration_def find_append split: option.split)

end
