(* ===== verification/TowerHub.thy ===== *)
theory TowerHub
  imports ThreadHubs Middleware
begin

text \<open>
  The tower layer that gives each request a hub of its own (\<open>sentry-tower/src/lib.rs\<close>), over the hubs of
  threads: the providers of hubs, the layer and its services, calling a service and polling the future it
  returns on whatever thread. With it what the HTTP service reads off a request (\<open>http.rs\<close>): its path and
  its URL.
\<close>

section \<open>Providers\<close>

text \<open>A provider is a function of the request, a given hub, or asks for a new hub from the top of the current one.\<close>

datatype 'q hub_provider =
    FnProvider "'q \<Rightarrow> threads \<Rightarrow> nat \<times> threads"
  | ArcProvider nat
  | NewFromTopProvider

fun provider_hub :: "scope \<Rightarrow> nat \<Rightarrow> 'q hub_provider \<Rightarrow> 'q \<Rightarrow> threads \<Rightarrow> nat \<times> threads" where
  "provider_hub sc x (FnProvider f) request s = f request s"
| "provider_hub sc x (ArcProvider hb) request s = (hb, s)"
| "provider_hub sc x NewFromTopProvider request s =
     (case hub_current sc x s of (a, s1) \<Rightarrow> arc_hub (hub_new_from_top (th_hubs s1 a)) s1)"

section \<open>Layers and services\<close>

record 'q sentry_layer =
  sl_provider :: "'q hub_provider"

record ('s, 'q) sentry_service =
  ss_service :: 's
  ss_provider :: "'q hub_provider"

definition sentry_layer_new :: "'q hub_provider \<Rightarrow> 'q sentry_layer" where
  "sentry_layer_new p = \<lparr>sl_provider = p\<rparr>"

definition sentry_layer_layer :: "'s \<Rightarrow> 'q sentry_layer \<Rightarrow> ('s, 'q) sentry_service" where
  "sentry_layer_layer svc l = \<lparr>ss_service = svc, ss_provider = sl_provider l\<rparr>"

definition sentry_layer_clone :: "'q sentry_layer \<Rightarrow> 'q sentry_layer" where
  "sentry_layer_clone l = \<lparr>sl_provider = sl_provider l\<rparr>"

definition sentry_service_new :: "'q hub_provider \<Rightarrow> 's \<Rightarrow> ('s, 'q) sentry_service" where
  "sentry_service_new p svc = sentry_layer_layer svc (sentry_layer_new p)"

definition sentry_service_clone :: "('s \<Rightarrow> 's) \<Rightarrow> ('s, 'q) sentry_service \<Rightarrow> ('s, 'q) sentry_service" where
  "sentry_service_clone clone_inner t = \<lparr>ss_service = clone_inner (ss_service t), ss_provider = ss_provider t\<rparr>"

definition sentry_service_poll_ready :: "('s \<Rightarrow> 'r \<times> 's) \<Rightarrow> ('s, 'q) sentry_service \<Rightarrow> 'r \<times> ('s, 'q) sentry_service" where
  "sentry_service_poll_ready poll_inner t =
     (case poll_inner (ss_service t) of (r, svc) \<Rightarrow> (r, t\<lparr>ss_service := svc\<rparr>))"

definition layer_new_from_top :: "'q sentry_layer" where
  "layer_new_from_top = \<lparr>sl_provider = NewFromTopProvider\<rparr>"

definition service_new_from_top :: "'s \<Rightarrow> ('s, 'q) sentry_service" where
  "service_new_from_top svc = \<lparr>ss_service = svc, ss_provider = NewFromTopProvider\<rparr>"

section \<open>Calling and polling\<close>

text \<open>\<open>Hub::run\<close> on thread \<open>x\<close>: the guard lives as long as the callback.\<close>

definition run_on_hub :: "scope \<Rightarrow> nat \<Rightarrow> nat \<Rightarrow> (threads \<Rightarrow> 'r \<times> threads) \<Rightarrow> threads \<Rightarrow> 'r \<times> threads" where
  "run_on_hub sc x hb f s =
     (case f (enter_hub sc x hb s) of (r, s') \<Rightarrow> (r, leave_hub x s'))"

definition tower_call ::
  "scope \<Rightarrow> nat \<Rightarrow> ('s \<Rightarrow> 'q \<Rightarrow> threads \<Rightarrow> ('f \<times> 's) \<times> threads) \<Rightarrow> ('s, 'q) sentry_service \<Rightarrow> 'q \<Rightarrow> threads \<Rightarrow>
   ('f sentry_future \<times> ('s, 'q) sentry_service) \<times> threads" where
  "tower_call sc x call_inner t request s =
     (case provider_hub sc x (ss_provider t) request s of
        (hb, s1) \<Rightarrow>
          (case run_on_hub sc x hb (call_inner (ss_service t) request) s1 of
             ((fut, svc), s2) \<Rightarrow> ((sentry_future_new hb fut, t\<lparr>ss_service := svc\<rparr>), s2)))"

definition bound_poll ::
  "scope \<Rightarrow> nat \<Rightarrow> ('f \<Rightarrow> threads \<Rightarrow> ('r \<times> 'f) \<times> threads) \<Rightarrow> 'f sentry_future \<Rightarrow> threads \<Rightarrow>
   ('r \<times> 'f sentry_future) \<times> threads" where
  "bound_poll sc x poll_inner fut s =
     (case run_on_hub sc x (sf_hub fut) (poll_inner (sf_future fut)) s of
        ((r, f'), s') \<Rightarrow> ((r, fut\<lparr>sf_future := f'\<rparr>), s'))"

section \<open>The HTTP service around another\<close>

record 's http_wrapped =
  hw_service :: 's
  hw_start_transaction :: bool
  hw_with_pii :: bool

text \<open>The deprecated constructor, and the layer put around a service.\<close>

definition http_layer_with_transaction :: http_service where
  "http_layer_with_transaction = \<lparr>hs_start_transaction = True, hs_with_pii = False\<rparr>"

definition http_layer_layer :: "'s \<Rightarrow> http_service \<Rightarrow> 's http_wrapped" where
  "http_layer_layer svc l =
     \<lparr>hw_service = svc, hw_start_transaction = hs_start_transaction l, hw_with_pii = hs_with_pii l\<rparr>"

definition http_wrapped_poll_ready :: "('s \<Rightarrow> 'r \<times> 's) \<Rightarrow> 's http_wrapped \<Rightarrow> 'r \<times> 's http_wrapped" where
  "http_wrapped_poll_ready poll_inner h =
     (case poll_inner (hw_service h) of (r, svc) \<Rightarrow> (r, h\<lparr>hw_service := svc\<rparr>))"

section \<open>Reading a request\<close>

text \<open>
  With the feature \<open>axum-matched-path\<close> the router may have left the matched path among the extensions. A URI
  of the \<open>http\<close> crate comes in parts; an authority is made of the bytes of the \<open>Host\<close> header, and the
  parts are put together and parsed again by the two crates.
\<close>

definition path_from_request :: "bool \<Rightarrow> string option \<Rightarrow> string \<Rightarrow> string" where
  "path_from_request axum_matched_path matched uri_path =
     (case matched of Some p \<Rightarrow> if axum_matched_path then p else uri_path | None \<Rightarrow> uri_path)"

record ('sch, 'auth) uri_parts =
  up_scheme :: "'sch option"
  up_authority :: "'auth option"
  up_path_and_query :: "string option"

record ('sch, 'auth) uri_crate =
  uc_http :: 'sch
  uc_authority :: "string \<Rightarrow> 'auth option"
  uc_from_parts :: "('sch, 'auth) uri_parts \<Rightarrow> string option"
  uc_parse_url :: "string \<Rightarrow> url option"

definition get_url_from_request ::
  "('sch, 'auth) uri_crate \<Rightarrow> ('sch, 'auth) uri_parts \<Rightarrow> string option \<Rightarrow> url option" where
  "get_url_from_request uc parts host =
     (let parts1 = parts\<lparr>up_scheme := Some (case up_scheme parts of Some sch \<Rightarrow> sch | None \<Rightarrow> uc_http uc)\<rparr>;
          parts2 = (if up_authority parts1 = None
            then Option.bind host (\<lambda>h. Option.bind (uc_authority uc h) (\<lambda>a. Some (parts1\<lparr>up_authority := Some a\<rparr>)))
            else Some parts1)
      in Option.bind parts2 (\<lambda>p. Option.bind (uc_from_parts uc p) (uc_parse_url uc)))"

lemma url_from_target: "up_authority parts = Some a \<Longrightarrow> get_url_from_request uc parts host = get_url_from_request uc parts host'"
  by (simp add: get_url_from_request_def)

lemma url_needs_host:
  "up_authority parts = None \<Longrightarrow> Option.bind host (uc_authority uc) = None \<Longrightarrow> get_url_from_request uc parts host = None"
  by (cases host) (simp_all add: get_url_from_request_def)

section \<open>Requests in flight\<close>

text \<open>
  A server with the layer \<open>new_from_top\<close>. A request arrives on a thread: its service is called, which may
  change the hub it finds; the future is then polled on any threads, each poll changing the hub it finds; and
  threads do anything else in between. \<open>None\<close> is a poll of a request that never arrived.
\<close>

datatype server_step =
    Arrive nat scope "hub \<Rightarrow> hub"
  | PollRequest nat scope nat "hub \<Rightarrow> hub"
  | Elsewhere "nat \<times> thread_op"

definition app_call :: "scope \<Rightarrow> nat \<Rightarrow> (hub \<Rightarrow> hub) \<Rightarrow> unit \<Rightarrow> unit \<Rightarrow> threads \<Rightarrow> (unit \<times> unit) \<times> threads" where
  "app_call sc x f svc request s = (((), ()), hub_with sc x f s)"

definition app_poll :: "scope \<Rightarrow> nat \<Rightarrow> (hub \<Rightarrow> hub) \<Rightarrow> unit \<Rightarrow> threads \<Rightarrow> (unit \<times> unit) \<times> threads" where
  "app_poll sc x f fut s = (((), ()), hub_with sc x f s)"

fun server_do ::
  "server_step \<Rightarrow> threads \<times> unit sentry_future list \<Rightarrow> (threads \<times> unit sentry_future list) option" where
  "server_do (Arrive x sc f) (s, futs) =
     (case tower_call sc x (app_call sc x f) (service_new_from_top ()) () s of
        ((fut, _), s') \<Rightarrow> Some (s', futs @ [fut]))"
| "server_do (PollRequest x sc i f) (s, futs) =
     (if i < length futs
      then (case bound_poll sc x (app_poll sc x f) (futs ! i) s of ((_, fut), s') \<Rightarrow> Some (s', futs[i := fut]))
      else None)"
| "server_do (Elsewhere op) (s, futs) = (if possible op s then Some (thread_do op s, futs) else None)"

fun server_run ::
  "server_step list \<Rightarrow> threads \<times> unit sentry_future list \<Rightarrow> (threads \<times> unit sentry_future list) option" where
  "server_run [] c = Some c"
| "server_run (st # sts) c = Option.bind (server_do st c) (server_run sts)"

text \<open>What the polls of one request do to the hub they find.\<close>

fun polls_of :: "nat \<Rightarrow> server_step list \<Rightarrow> (hub \<Rightarrow> hub) list" where
  "polls_of i [] = []"
| "polls_of i (PollRequest x sc j f # sts) = (if j = i then f # polls_of i sts else polls_of i sts)"
| "polls_of i (_ # sts) = polls_of i sts"

text \<open>Nobody is handed the hub at \<open>a\<close>.\<close>

fun keeps_away :: "nat \<Rightarrow> server_step \<Rightarrow> bool" where
  "keeps_away a (Elsewhere (y, Enter sc hb)) = (hb \<noteq> a)"
| "keeps_away a _ = True"

section \<open>Lemmas\<close>

text \<open>The hub at \<open>a\<close> exists, is current on no thread, held by no guard, and is not the process's.\<close>

definition free_hub :: "nat \<Rightarrow> threads \<Rightarrow> bool" where
  "free_hub a s \<longleftrightarrow>
     threads_ok s \<and> a < th_next s \<and> (\<forall>y. th_local s y \<noteq> Some a) \<and> (\<forall>y. Some a \<notin> set (th_guards s y)) \<and>
     (\<exists>ph. th_process s = Some ph \<and> ph_hub ph \<noteq> a)"

lemma free_hub_upd [simp]: "free_hub a (s\<lparr>th_hubs := hs\<rparr>) = free_hub a s"
  by (simp add: free_hub_def threads_ok_def split: option.split)

lemma free_thread_hub:
  assumes "free_hub a s" and "thread_hub sc y s = (b, s')"
  shows "free_hub a s' \<and> b \<noteq> a \<and> th_hubs s' a = th_hubs s a"
proof -
  have ok: "threads_ok s" and a: "a < th_next s" using assms(1) by (auto simp: free_hub_def)
  note t = thread_hub_ok [OF ok assms(2)]
  show ?thesis
  proof (cases "th_local s y")
    case (Some c)
    then show ?thesis using assms by (auto simp: thread_hub_def free_hub_def)
  next
    case None
    obtain ph where ph: "th_process s = Some ph" "ph_hub ph \<noteq> a" using assms(1) by (auto simp: free_hub_def)
    have "b \<noteq> a" and "th_process s' = Some ph"
      using None ph a assms(2) by (auto simp: thread_hub_def process_hub_force_def arc_hub_def split: if_splits)
    moreover have "th_local s' z \<noteq> Some a" for z
      using assms(1) t(2,5) \<open>b \<noteq> a\<close> by (cases "z = y") (auto simp: free_hub_def)
    ultimately show ?thesis using assms(1) t(1,4,6,7) ph(2) a by (auto simp: free_hub_def)
  qed
qed

lemma free_step:
  assumes "free_hub a s" and "possible op s" and "keeps_away a (Elsewhere op)"
  shows "free_hub a (thread_do op s) \<and> th_hubs (thread_do op s) a = th_hubs s a"
proof -
  have ok: "threads_ok s" and a: "a < th_next s" using assms(1) by (auto simp: free_hub_def)
  note ok' = threads_ok_do [OF ok assms(2)]
  obtain y o' where op: "op = (y, o')" by fastforce
  show ?thesis
  proof (cases o')
    case (Access sc)
    then show ?thesis
      using free_thread_hub [OF assms(1), of sc y "fst (thread_hub sc y s)" "snd (thread_hub sc y s)"]
      by (simp add: op hub_current_def)
  next
    case (Main sc)
    then show ?thesis using assms(1) by (auto simp: op hub_main_def process_hub_force_def free_hub_def)
  next
    case (Change sc f)
    obtain b s' where "thread_hub sc y s = (b, s')" by fastforce
    with free_thread_hub [OF assms(1) this] show ?thesis by (simp add: op Change hub_with_def)
  next
    case (NewHub hb)
    then show ?thesis using assms(1) a ok' by (auto simp: op free_hub_def arc_hub_def)
  next
    case (Enter sc hb)
    obtain b s' where r: "thread_hub sc y s = (b, s')" by fastforce
    then show ?thesis
      using free_thread_hub [OF assms(1) r] ok' assms(3)
      by (auto simp: op Enter enter_hub_def switch_guard_new_def free_hub_def)
  next
    case Leave
    have "Some a \<notin> set (th_guards s y)" using assms(1) by (simp add: free_hub_def)
    then show ?thesis
      using assms(1) ok' by (cases "th_guards s y"; cases "th_local s y")
        (auto simp: op Leave leave_hub_def switch_guard_drop_def free_hub_def split: option.split)
  qed
qed

lemma next_grows: "threads_ok s \<Longrightarrow> possible op s \<Longrightarrow> th_next s \<le> th_next (thread_do op s)"
proof (induction op s rule: thread_do.induct)
  case (1 x sc s)
  then show ?case using thread_hub_ok(6) [of s sc x "fst (thread_hub sc x s)" "snd (thread_hub sc x s)"]
    by (simp add: hub_current_def)
next
  case (3 x sc f s)
  then show ?case using thread_hub_ok(6) [of s sc x "fst (thread_hub sc x s)" "snd (thread_hub sc x s)"]
    by (cases "thread_hub sc x s") (simp add: hub_with_def)
next
  case (5 x sc hb s)
  then show ?case using thread_hub_ok(6) [of s sc x "fst (thread_hub sc x s)" "snd (thread_hub sc x s)"]
    by (cases "thread_hub sc x s"; cases "switch_guard_new hb (fst (thread_hub sc x s))") (simp add: enter_hub_def)
qed (simp_all add: hub_main_ok arc_hub_def leave_hub_def split: list.split option.split)

text \<open>Running an application on a hub changes that hub and, at the thread's first use, makes the thread's own.\<close>

lemma run_app:
  assumes "threads_ok s" and "thread_hub sc x s = (b, s1)"
  shows "run_on_hub sc x hb (\<lambda>s. (r, hub_with sc x f s)) s =
    (r, s1\<lparr>th_hubs := (th_hubs s1)(hb := f (th_hubs s1 hb))\<rparr>)"
proof -
  have local': "th_local s1 x = Some b" using thread_hub_ok(2) [OF assms] .
  then have own: "(th_local s1)(x := Some b) = th_local s1" by (simp add: fun_upd_idem)
  let ?g = "if b = hb then None else Some b"
  let ?in = "s1\<lparr>th_local := (th_local s1)(x := Some hb), th_guards := (th_guards s1)(x := ?g # th_guards s1 x)\<rparr>"
  have enter: "enter_hub sc x hb s = ?in"
    by (simp add: enter_hub_def assms(2) switch_guard_new_def)
  have work: "hub_with sc x f ?in = ?in\<lparr>th_hubs := (th_hubs s1)(hb := f (th_hubs s1 hb))\<rparr>"
    by (simp add: hub_with_def thread_hub_def)
  have leave: "leave_hub x (?in\<lparr>th_hubs := hs\<rparr>) = s1\<lparr>th_hubs := hs\<rparr>" for hs
    using own local' by (cases "b = hb") (simp_all add: leave_hub_def switch_guard_drop_def)
  show ?thesis by (simp add: run_on_hub_def enter work leave)
qed

lemma app_eq:
  "app_call sc x f () () = (\<lambda>s. (((), ()), hub_with sc x f s))"
  "app_poll sc x f () = (\<lambda>s. (((), ()), hub_with sc x f s))"
  by (simp_all add: fun_eq_iff app_call_def app_poll_def)

lemma arrive_eq:
  assumes "threads_ok s" and "hub_current sc x s = (b, s1)"
  shows "server_do (Arrive x sc f) (s, futs) =
    Some (s1\<lparr>th_hubs := (th_hubs s1)(th_next s1 := f (hub_new_from_top (th_hubs s1 b))), th_next := Suc (th_next s1)\<rparr>,
      futs @ [\<lparr>sf_hub = th_next s1, sf_future = ()\<rparr>])"
proof -
  have cur: "thread_hub sc x s = (b, s1)" using assms(2) by (simp add: hub_current_def)
  let ?s2 = "snd (arc_hub (hub_new_from_top (th_hubs s1 b)) s1)"
  have "thread_hub sc x ?s2 = (b, ?s2)"
    using thread_hub_ok(2) [OF assms(1) cur] by (simp add: thread_hub_def arc_hub_def)
  then show ?thesis
    using run_app [OF arc_hub_ok [OF thread_hub_ok(1) [OF assms(1) cur]], where r = "((), ())"]
    by (simp add: tower_call_def service_new_from_top_def assms(2) app_eq sentry_future_new_def arc_hub_def)
qed

lemma poll_eq:
  assumes "threads_ok s" and "thread_hub sc x s = (b, s1)" and "i < length futs"
  shows "server_do (PollRequest x sc i f) (s, futs) =
    Some (s1\<lparr>th_hubs := (th_hubs s1)(sf_hub (futs ! i) := f (th_hubs s1 (sf_hub (futs ! i))))\<rparr>, futs)"
proof -
  have same: "fut\<lparr>sf_future := ()\<rparr> = fut" for fut :: "unit sentry_future" by (cases fut) simp
  show ?thesis using run_app [OF assms(1,2), where r = "((), ())"] assms(3)
    by (simp add: bound_poll_def app_eq same)
qed

lemma threads_ok_hubs [simp]: "threads_ok (s\<lparr>th_hubs := hs\<rparr>) = threads_ok s"
  by (simp add: threads_ok_def split: option.split)

text \<open>The hubs of the requests exist; that of request \<open>i\<close> is at \<open>a\<close>, free, and no other request's.\<close>

definition server_ok :: "threads \<times> unit sentry_future list \<Rightarrow> bool" where
  "server_ok c \<longleftrightarrow> threads_ok (fst c) \<and> (\<forall>fut \<in> set (snd c). sf_hub fut < th_next (fst c))"

definition owns :: "nat \<Rightarrow> nat \<Rightarrow> threads \<times> unit sentry_future list \<Rightarrow> bool" where
  "owns i a c \<longleftrightarrow> server_ok c \<and> free_hub a (fst c) \<and> i < length (snd c) \<and>
     (\<forall>j < length (snd c). sf_hub (snd c ! j) = a \<longleftrightarrow> j = i)"

lemma server_step_ok:
  assumes "server_ok (s, futs)" and "server_do st (s, futs) = Some (s', futs')"
  shows "server_ok (s', futs') \<and> th_next s \<le> th_next s' \<and> length futs \<le> length futs' \<and>
    (\<forall>j < length futs. futs' ! j = futs ! j)"
proof (cases st)
  case (Arrive x sc f)
  obtain b s1 where cur: "hub_current sc x s = (b, s1)" by fastforce
  have ok: "threads_ok s" using assms(1) by (simp add: server_ok_def)
  note t = thread_hub_ok [OF ok cur [unfolded hub_current_def]]
  have "threads_ok (s1\<lparr>th_hubs := hs, th_next := Suc (th_next s1)\<rparr>)" for hs
    using t(1) by (fastforce simp: threads_ok_def split: option.splits)
  moreover have "sf_hub fut < th_next s1" if "fut \<in> set futs" for fut
    using that assms(1) t(6) by (fastforce simp: server_ok_def)
  ultimately show ?thesis
    using assms(2) arrive_eq [OF ok cur, of f futs] t(6) by (auto simp: Arrive server_ok_def nth_append less_Suc_eq)
next
  case (PollRequest x sc i f)
  obtain b s1 where cur: "thread_hub sc x s = (b, s1)" by fastforce
  have ok: "threads_ok s" using assms(1) by (simp add: server_ok_def)
  note t = thread_hub_ok [OF ok cur]
  have i: "i < length futs" using assms(2) by (simp add: PollRequest split: if_splits)
  have "sf_hub fut < th_next s1" if "fut \<in> set futs" for fut
    using that assms(1) t(6) by (fastforce simp: server_ok_def)
  then show ?thesis
    using assms(2) poll_eq [OF ok cur i, of f] t(1,6) by (auto simp: PollRequest server_ok_def)
next
  case (Elsewhere op)
  then show ?thesis
    using assms threads_ok_do next_grows by (fastforce simp: server_ok_def split: if_splits)
qed

lemma server_run_ok: "server_ok c \<Longrightarrow> server_run sts c = Some c' \<Longrightarrow> server_ok c'"
proof (induction sts arbitrary: c)
  case (Cons st sts)
  then obtain c1 where "server_do st c = Some c1" "server_run sts c1 = Some c'"
    by (auto simp: bind_eq_Some_conv)
  with Cons server_step_ok show ?case by (cases c; cases c1) blast
qed simp

lemma owns_step:
  assumes "owns i a (s, futs)" and "server_do st (s, futs) = Some (s', futs')" and "keeps_away a st"
  shows "owns i a (s', futs')" "th_hubs s' a = foldl (\<lambda>hb g. g hb) (th_hubs s a) (polls_of i [st])"
proof -
  have sok: "server_ok (s, futs)" and ok: "threads_ok s" and free: "free_hub a s" and i: "i < length futs"
    and only: "j < length futs \<Longrightarrow> sf_hub (futs ! j) = a \<longleftrightarrow> j = i" for j
    using assms(1) by (auto simp: owns_def server_ok_def)
  note kept = server_step_ok [OF sok assms(2)]
  have "owns i a (s', futs') \<and> th_hubs s' a = foldl (\<lambda>hb g. g hb) (th_hubs s a) (polls_of i [st])"
  proof (cases st)
    case (Arrive x sc f)
    obtain b s1 where cur: "hub_current sc x s = (b, s1)" by fastforce
    note t = free_thread_hub [OF free cur [unfolded hub_current_def]]
    have a: "a < th_next s1" using t by (simp add: free_hub_def)
    have s': "s' = s1\<lparr>th_hubs := (th_hubs s1)(th_next s1 := f (hub_new_from_top (th_hubs s1 b))), th_next := Suc (th_next s1)\<rparr>"
      "futs' = futs @ [\<lparr>sf_hub = th_next s1, sf_future = ()\<rparr>]"
      using assms(2) arrive_eq [OF ok cur, of f futs] by (simp_all add: Arrive)
    have "free_hub a s'" using t kept by (simp add: s' free_hub_def server_ok_def)
    moreover have "sf_hub (futs' ! j) = a \<longleftrightarrow> j = i" if "j < length futs'" for j
      using that a only i by (auto simp: s' nth_append less_Suc_eq)
    ultimately show ?thesis unfolding owns_def fst_conv snd_conv using kept t a i by (simp add: s' Arrive)
  next
    case (PollRequest x sc j f)
    obtain b s1 where cur: "thread_hub sc x s = (b, s1)" by fastforce
    have j: "j < length futs" using assms(2) by (simp add: PollRequest split: if_splits)
    have s': "s' = s1\<lparr>th_hubs := (th_hubs s1)(sf_hub (futs ! j) := f (th_hubs s1 (sf_hub (futs ! j))))\<rparr>" "futs' = futs"
      using assms(2) poll_eq [OF ok cur j, of f] by (simp_all add: PollRequest)
    have "owns i a (s', futs')" using free_thread_hub [OF free cur] kept only i s' by (simp add: owns_def)
    then show ?thesis
      using free_thread_hub [OF free cur] only [OF j] s' by (cases "j = i") (simp_all add: PollRequest)
  next
    case (Elsewhere op)
    then have s': "s' = thread_do op s" "futs' = futs" "possible op s" using assms(2) by (simp_all split: if_splits)
    have "keeps_away a (Elsewhere op)" using assms(3) by (simp only: Elsewhere)
    from free_step [OF free s'(3) this] show ?thesis
      unfolding owns_def fst_conv snd_conv using kept i only by (simp add: s' Elsewhere)
  qed
  then show "owns i a (s', futs')" "th_hubs s' a = foldl (\<lambda>hb g. g hb) (th_hubs s a) (polls_of i [st])" by simp_all
qed

lemma polls_of_Cons: "polls_of i (st # sts) = polls_of i [st] @ polls_of i sts"
  by (cases st) simp_all

lemma owns_run:
  assumes "owns i a (s, futs)" and "server_run sts (s, futs) = Some (s', futs')" and "\<forall>st \<in> set sts. keeps_away a st"
  shows "owns i a (s', futs') \<and> th_hubs s' a = foldl (\<lambda>hb g. g hb) (th_hubs s a) (polls_of i sts)"
  using assms
proof (induction sts arbitrary: s futs)
  case (Cons st sts)
  obtain s1 futs1 where st: "server_do st (s, futs) = Some (s1, futs1)" "server_run sts (s1, futs1) = Some (s', futs')"
    using Cons(3) by (auto simp: bind_eq_Some_conv)
  note o' = owns_step [OF Cons(2) st(1)]
  show ?case using Cons(1) [OF o'(1) st(2)] Cons(4) o'(2) by (subst polls_of_Cons) simp
qed simp

lemma arrive_owns:
  assumes "server_ok (s, futs)" and "hub_current sc x s = (b, s1)"
    and "server_do (Arrive x sc f) (s, futs) = Some (s', futs')"
  shows "owns (length futs) (th_next s1) (s', futs')" "th_hubs s' (th_next s1) = f (hub_new_from_top (th_hubs s1 b))"
    "sf_hub (futs' ! length futs) = th_next s1"
proof -
  have ok: "threads_ok s" using assms(1) by (simp add: server_ok_def)
  note t = thread_hub_ok [OF ok assms(2) [unfolded hub_current_def]]
  have s': "s' = s1\<lparr>th_hubs := (th_hubs s1)(th_next s1 := f (hub_new_from_top (th_hubs s1 b))), th_next := Suc (th_next s1)\<rparr>"
    "futs' = futs @ [\<lparr>sf_hub = th_next s1, sf_future = ()\<rparr>]"
    using assms(3) arrive_eq [OF ok assms(2), of f futs] by simp_all
  show "th_hubs s' (th_next s1) = f (hub_new_from_top (th_hubs s1 b))" "sf_hub (futs' ! length futs) = th_next s1"
    by (simp_all add: s')
  have sok: "server_ok (s', futs')" using server_step_ok [OF assms(1,3)] by simp
  have "free_hub (th_next s1) s'"
    using t(1,3) sok by (fastforce simp: s' free_hub_def server_ok_def threads_ok_def)
  moreover have "sf_hub (futs ! j) \<noteq> th_next s1" if "j < length futs" for j
    using that assms(1) t(6) by (fastforce simp: server_ok_def dest: nth_mem)
  ultimately show "owns (length futs) (th_next s1) (s', futs')"
    using sok unfolding owns_def by (auto simp: s' nth_append less_Suc_eq)
qed

text \<open>Requests can always arrive, and those that did can always be polled.\<close>

lemma arrive_total:
  "\<exists>s' futs'. server_do (Arrive x sc f) (s, futs) = Some (s', futs') \<and> length futs' = Suc (length futs)"
  by (auto split: prod.split)

lemma poll_total: "i < length futs \<Longrightarrow> \<exists>s' futs'. server_do (PollRequest x sc i f) (s, futs) = Some (s', futs')"
  by (auto split: prod.split)

section \<open>Properties\<close>

text \<open>
  C24: Requests are isolated from each other. With the layer that makes a new hub for each request, a request gets a
  hub at an address nobody had, with the client and the scope on top of the hub that is current where it arrives.
  However requests arrive and are polled, on any threads and in any order, and whatever threads do in
  between short of entering that very hub, it is afterwards what the request's own call and polls made of it, in their
  order; it is current on no thread; and another poll, on any thread, changes this hub and no other and leaves
  every thread with the hub it had.
\<close>

theorem requests_isolated:
  assumes "server_run before (threads_init, []) = Some (s, futs)" and "hub_current sc x s = (b, s1)"
    and "server_run (Arrive x sc f # steps) (s, futs) = Some (s', futs')"
    and "\<forall>st \<in> set steps. keeps_away (th_next s1) st"
  shows "th_hubs s' (th_next s1) =
      foldl (\<lambda>hb g. g hb) (f (hub_new_from_top (th_hubs s1 b))) (polls_of (length futs) steps) \<and>
    (\<forall>y. th_local s' y \<noteq> Some (th_next s1)) \<and>
    server_do (PollRequest y sc' (length futs) g) (s', futs') =
      (let own = snd (hub_current sc' y s')
       in Some (own\<lparr>th_hubs := (th_hubs own)(th_next s1 := g (th_hubs s' (th_next s1)))\<rparr>, futs'))"
proof -
  have "server_ok (threads_init, [])" by (simp add: server_ok_def threads_ok_init)
  from server_run_ok [OF this assms(1)] have sok: "server_ok (s, futs)" .
  obtain s2 futs2 where arrive: "server_do (Arrive x sc f) (s, futs) = Some (s2, futs2)"
    and run: "server_run steps (s2, futs2) = Some (s', futs')"
    using assms(3) by (auto simp: bind_eq_Some_conv)
  note a = arrive_owns [OF sok assms(2) arrive]
  note o' = owns_run [OF a(1) run assms(4)]
  then have ok: "threads_ok s'" and i: "length futs < length futs'" and hub: "sf_hub (futs' ! length futs) = th_next s1"
    and free: "free_hub (th_next s1) s'"
    by (auto simp: owns_def server_ok_def)
  obtain c own where own: "thread_hub sc' y s' = (c, own)" by fastforce
  show ?thesis
    using o' a(2) free poll_eq [OF ok own i, of g] free_thread_hub [OF free own]
    by (simp add: hub free_hub_def hub_current_def own del: server_do.simps)
qed

text \<open>
  Thread 0 binds a client; a request arrives there and one on thread 1; the first binds no client, and is polled
  on thread 1, while the second binds another one.
\<close>

lemma requests_isolated_witness:
  "\<exists>s' futs'. server_run [Elsewhere (0, Change sample_scope (bind_client (Some 3))), Arrive 0 sample_scope id,
      Arrive 1 sample_scope (bind_client (Some 7)), PollRequest 1 sample_scope 0 (bind_client None)] (threads_init, []) =
    Some (s', futs') \<and> hub_client (th_hubs s' 1) = None"
proof -
  let ?steps = "[Arrive 1 sample_scope (bind_client (Some 7)), PollRequest 1 sample_scope 0 (bind_client None)]"
  have cur: "hub_current sample_scope 0 sample_threads = (0, sample_threads)"
    by (simp add: hub_current_def thread_hub_def sample_threads_eq)
  have start: "server_run [Elsewhere (0, Change sample_scope (bind_client (Some 3)))] (threads_init, []) =
      Some (sample_threads, [])"
    by (simp add: sample_threads_def)
  obtain s1 futs1 where "server_do (Arrive 0 sample_scope id) (sample_threads, []) = Some (s1, futs1)" "length futs1 = 1"
    using arrive_total [of 0 sample_scope id sample_threads "[]"] by auto
  moreover obtain s2 futs2 where "server_do (Arrive 1 sample_scope (bind_client (Some 7))) (s1, futs1) = Some (s2, futs2)"
    "length futs2 = Suc (length futs1)"
    using arrive_total by blast
  moreover obtain s' futs' where "server_do (PollRequest 1 sample_scope 0 (bind_client None)) (s2, futs2) = Some (s', futs')"
    using poll_total [of 0 futs2] calculation by (metis zero_less_Suc)
  ultimately have run: "server_run (Arrive 0 sample_scope id # ?steps) (sample_threads, []) = Some (s', futs')"
    by (simp del: server_do.simps)
  have "th_hubs s' 1 = bind_client None (hub_new_from_top (th_hubs sample_threads 0))"
    using requests_isolated [OF start cur run] by (simp add: sample_threads_eq)
  moreover have "server_run (Elsewhere (0, Change sample_scope (bind_client (Some 3))) # Arrive 0 sample_scope id # ?steps)
      (threads_init, []) = Some (s', futs')"
    using run by (simp add: sample_threads_def)
  ultimately show ?thesis
    by (intro exI [of _ s'] exI [of _ futs'] conjI) (simp_all add: hub_client_def bind_client_def)
qed

end
