(* ===== verification/Builds.thy ===== *)
theory Builds
  imports Api Handles Attributes
begin

text \<open>
  Builds of the crate: the features \<open>client\<close> and debug assertions (\<open>sentry-core/src/macros.rs\<close>), the
  scope of builds without the client (\<open>scope/noop.rs\<close>), whose methods panic because nothing should reach
  them, and the global functions in either build (\<open>hub.rs\<close>, \<open>api.rs\<close>, \<open>error.rs\<close>). Programs over the global
  functions show that nothing does, and that leaving the client out is the same as not binding one.
  With it the constants (\<open>constants.rs\<close>) and the log macros of each level (\<open>logger.rs\<close>).
\<close>

section \<open>Macros\<close>

text \<open>\<open>with_client_impl!\<close>: the body with the feature, the default of its type without. \<open>None\<close> is a panic.\<close>

definition with_client_impl :: "bool \<Rightarrow> 'r option \<Rightarrow> 'r \<Rightarrow> 'r option" where
  "with_client_impl client body deflt = (if client then body else Some deflt)"

text \<open>What is printed to the standard error stream.\<close>

definition sentry_debug :: "hub \<Rightarrow> world \<Rightarrow> string \<Rightarrow> string list" where
  "sentry_debug hb W msg =
     (if (case hub_client hb of None \<Rightarrow> False | Some a \<Rightarrow> co_debug (cl_options (wd_clients W a)))
      then [''[sentry] '' @ msg] else [])"

definition debug_panic_or_log :: "bool \<Rightarrow> hub \<Rightarrow> world \<Rightarrow> string \<Rightarrow> string list option" where
  "debug_panic_or_log debug_assertions hb W msg =
     (if debug_assertions then None else Some (sentry_debug hb W msg))"

definition debug_assert_or_log :: "bool \<Rightarrow> hub \<Rightarrow> world \<Rightarrow> bool \<Rightarrow> string \<Rightarrow> string list option" where
  "debug_assert_or_log debug_assertions hb W condition msg =
     (if \<not> condition then debug_panic_or_log debug_assertions hb W msg else Some [])"

text \<open>The release from the variables that cargo sets for a build.\<close>

definition release_name :: "string option \<Rightarrow> string option \<Rightarrow> string option" where
  "release_name pkg_name pkg_version =
     Option.bind pkg_name (\<lambda>name. map_option (\<lambda>version. name @ ''@'' @ version) pkg_version)"

section \<open>Constants\<close>

definition user_agent_const :: "string \<Rightarrow> string" where
  "user_agent_const version = ''sentry.rust/'' @ version"

definition sdk_info_const :: "string \<Rightarrow> sdk_info" where
  "sdk_info_const version =
     \<lparr>sdk_name = ''sentry.rust'', sdk_version = version, sdk_integrations = [],
      sdk_packages = [(''cargo:sentry'', version)]\<rparr>"

section \<open>Log macros\<close>

definition logger_trace :: "(log_level \<Rightarrow> 'a) \<Rightarrow> 'a" where "logger_trace logger_log = logger_log LTrace"

definition logger_debug :: "(log_level \<Rightarrow> 'a) \<Rightarrow> 'a" where "logger_debug logger_log = logger_log LDebug"

definition logger_info :: "(log_level \<Rightarrow> 'a) \<Rightarrow> 'a" where "logger_info logger_log = logger_log LInfo"

definition logger_warn :: "(log_level \<Rightarrow> 'a) \<Rightarrow> 'a" where "logger_warn logger_log = logger_log LWarn"

definition logger_error :: "(log_level \<Rightarrow> 'a) \<Rightarrow> 'a" where "logger_error logger_log = logger_log LError"

definition logger_fatal :: "(log_level \<Rightarrow> 'a) \<Rightarrow> 'a" where "logger_fatal logger_log = logger_log LFatal"

section \<open>The minimal scope\<close>

text \<open>The methods of the scope that has no state; all but the last panic.\<close>

datatype noop_call =
    NoopClear
  | NoopSetLevel "level option"
  | NoopSetFingerprint "string list option"
  | NoopSetTransaction "string option"
  | NoopSetUser "user option"
  | NoopSetTag string string
  | NoopRemoveTag string
  | NoopSetContext string ctx
  | NoopRemoveContext string
  | NoopSetExtra string json
  | NoopRemoveExtra string
  | NoopAddEventProcessor "event \<Rightarrow> event option"
  | NoopApplyToEvent event
  | NoopApplyToLog log
  | NoopSetSpan "transaction_or_span option"
  | NoopGetSpan

definition minimal_unreachable :: "'r option" where
  "minimal_unreachable = None"

fun noop_scope :: "noop_call \<Rightarrow> transaction_or_span option option" where
  "noop_scope NoopGetSpan = Some None"
| "noop_scope NoopClear = minimal_unreachable"
| "noop_scope (NoopSetLevel l) = minimal_unreachable"
| "noop_scope (NoopSetFingerprint fp) = minimal_unreachable"
| "noop_scope (NoopSetTransaction tx) = minimal_unreachable"
| "noop_scope (NoopSetUser u) = minimal_unreachable"
| "noop_scope (NoopSetTag k v) = minimal_unreachable"
| "noop_scope (NoopRemoveTag k) = minimal_unreachable"
| "noop_scope (NoopSetContext k c) = minimal_unreachable"
| "noop_scope (NoopRemoveContext k) = minimal_unreachable"
| "noop_scope (NoopSetExtra k v) = minimal_unreachable"
| "noop_scope (NoopRemoveExtra k) = minimal_unreachable"
| "noop_scope (NoopAddEventProcessor f) = minimal_unreachable"
| "noop_scope (NoopApplyToEvent e) = minimal_unreachable"
| "noop_scope (NoopApplyToLog l) = minimal_unreachable"
| "noop_scope (NoopSetSpan s) = minimal_unreachable"

section \<open>Programs over the global functions\<close>

text \<open>
  A closure over a scope is compiled against the scope of the build: what it does to the real one, and the
  methods it calls on the minimal one. What a call draws comes with it.
\<close>

record scope_closure =
  cb_real :: "scope \<Rightarrow> scope"
  cb_noop :: "noop_call list"

record api_draws =
  ad_now :: systime
  ad_instant :: systime
  ad_id :: uuid
  ad_random :: flt
  ad_cell :: nat
  ad_held :: "nat \<Rightarrow> bool"

datatype 's api_prog =
    AppStep "'s \<Rightarrow> 's"
  | CaptureEvent api_draws event "uuid \<Rightarrow> 's \<Rightarrow> 's"
  | CaptureMessage api_draws string level "uuid \<Rightarrow> 's \<Rightarrow> 's"
  | CaptureError api_draws "string \<Rightarrow> string" rust_error "uuid \<Rightarrow> 's \<Rightarrow> 's"
  | AddBreadcrumb "breadcrumb list"
  | ConfigureScope scope_closure
  | WithScope scope_closure "'s api_prog list"
  | WithActive "'s api_prog list"
  | LastEventId "uuid option \<Rightarrow> 's \<Rightarrow> 's"
  | StartSession api_draws
  | EndSession api_draws session_status

definition continue_with :: "('r \<Rightarrow> 's \<Rightarrow> 's) \<Rightarrow> 's \<Rightarrow> 'r \<times> hub \<times> world \<Rightarrow> 's \<times> hub \<times> world" where
  "continue_with k s out = (k (fst out) s, snd out)"

text \<open>\<open>configure_scope\<close> of a hub, which calls the closure on the scope of the build.\<close>

definition call_closure :: "bool \<Rightarrow> scope_closure \<Rightarrow> hub \<times> world \<Rightarrow> (hub \<times> world) option" where
  "call_closure client cb hw =
     (if client then Some (configure_scope (cb_real cb) (fst hw), snd hw)
      else map_option (\<lambda>_. hw) (those (map noop_scope (cb_noop cb))))"

text \<open>
  Each call in the build with (\<open>True\<close>) and without the client. The callback of \<open>with_scope\<close> runs in both;
  closures that take a scope are handed over, but run only where the code runs them.
\<close>

fun run_api :: "bool \<Rightarrow> 's api_prog \<Rightarrow> 's \<times> hub \<times> world \<Rightarrow> ('s \<times> hub \<times> world) option"
  and run_apis :: "bool \<Rightarrow> 's api_prog list \<Rightarrow> 's \<times> hub \<times> world \<Rightarrow> ('s \<times> hub \<times> world) option" where
  "run_api client (AppStep f) (s, hb, W) = Some (f s, hb, W)"
| "run_api client (CaptureEvent d e k) (s, hb, W) =
     map_option (continue_with k s)
       (with_client_impl client (Some (api_capture_event (ad_now d) (ad_id d) (ad_random d) e (hb, W))) (nil_uuid, hb, W))"
| "run_api client (CaptureMessage d msg lvl k) (s, hb, W) =
     map_option (continue_with k s)
       (with_client_impl client (Some (api_capture_message (ad_now d) (ad_id d) (ad_random d) msg lvl (hb, W)))
         (nil_uuid, hb, W))"
| "run_api client (CaptureError d debug_str err k) (s, hb, W) =
     map_option (continue_with k s)
       (with_client_impl client (Some (api_capture_error debug_str (ad_now d) (ad_id d) (ad_random d) err (hb, W)))
         (nil_uuid, hb, W))"
| "run_api client (AddBreadcrumb new) (s, hb, W) =
     map_option (Pair s) (with_client_impl client (Some (snd (api_add_breadcrumb new (hb, W)))) (hb, W))"
| "run_api client (ConfigureScope cb) (s, hb, W) =
     map_option (Pair s) (with_client_impl client
       (if is_active_and_usage_safe hb W then call_closure client cb (hb, W) else Some (hb, W)) (hb, W))"
| "run_api client (WithScope cb body) (s, hb, W) =
     (if client \<and> is_active_and_usage_safe hb W
      then (case push_scope hb of
              (depth, hb1) \<Rightarrow>
                Option.bind (call_closure client cb (hb1, W)) (\<lambda>hw.
                  Option.bind (run_apis client body (s, hw)) (\<lambda>(s', hb2, W').
                    case drop_guard depth hb2 of (GuardOk, hb3) \<Rightarrow> Some (s', hb3, W') | _ \<Rightarrow> None)))
      else run_apis client body (s, hb, W))"
| "run_api client (WithActive body) (s, hb, W) =
     (if client then (if is_active_and_usage_safe hb W then run_apis client body (s, hb, W) else Some (s, hb, W))
      else Some (s, hb, W))"
| "run_api client (LastEventId k) (s, hb, W) =
     map_option (\<lambda>i. (k i s, hb, W)) (with_client_impl client (Some (api_last_event_id hb)) None)"
| "run_api client (StartSession d) (s, hb, W) =
     map_option (Pair s)
       (with_client_impl client (api_start_session (ad_now d) (ad_instant d) (ad_id d) (ad_cell d) (ad_held d) (hb, W))
         (hb, W))"
| "run_api client (EndSession d st) (s, hb, W) =
     map_option (Pair s)
       (with_client_impl client (api_end_session_with_status (ad_now d) (ad_instant d) st (hb, W)) (hb, W))"
| "run_apis client [] s = Some s"
| "run_apis client (p # ps) s = Option.bind (run_api client p s) (run_apis client ps)"

section \<open>Lemmas\<close>

text \<open>What the application itself does when every call gives its default.\<close>

fun app_effect :: "'s api_prog \<Rightarrow> 's \<Rightarrow> 's" and app_effects :: "'s api_prog list \<Rightarrow> 's \<Rightarrow> 's" where
  "app_effect (AppStep f) s = f s"
| "app_effect (CaptureEvent d e k) s = k nil_uuid s"
| "app_effect (CaptureMessage d msg lvl k) s = k nil_uuid s"
| "app_effect (CaptureError d debug_str err k) s = k nil_uuid s"
| "app_effect (AddBreadcrumb new) s = s"
| "app_effect (ConfigureScope cb) s = s"
| "app_effect (WithScope cb body) s = app_effects body s"
| "app_effect (WithActive body) s = s"
| "app_effect (LastEventId k) s = k None s"
| "app_effect (StartSession d) s = s"
| "app_effect (EndSession d st) s = s"
| "app_effects [] s = s"
| "app_effects (p # ps) s = app_effects ps (app_effect p s)"

lemma minimal_run:
  "run_api False p (s, hb, W) = Some (app_effect p s, hb, W)"
  "run_apis False ps (s, hb, W) = Some (app_effects ps s, hb, W)"
  by (induction p s and ps s rule: app_effect_app_effects.induct)
    (simp_all add: with_client_impl_def continue_with_def)

lemma inactive_run:
  assumes "\<not> is_active_and_usage_safe hb W" and "hb_last_event_id hb = None"
  shows "run_api True p (s, hb, W) = Some (app_effect p s, hb, W)"
    "run_apis True ps (s, hb, W) = Some (app_effects ps s, hb, W)"
  using assms
  by (induction p s and ps s rule: app_effect_app_effects.induct)
    (simp_all add: with_client_impl_def continue_with_def api_capture_event_def api_capture_message_def
      api_capture_error_def api_add_breadcrumb_def api_last_event_id_def
      api_start_session_def api_end_session_with_status_def on_active_def)

text \<open>
  The two ways to start a transaction when there is no client differ in one thing: without the feature the
  transaction gets a span id of its own, not the one of its context.
\<close>

lemma noop_transaction_other_span:
  assumes "transaction_new fresh_trace fresh now draw None ctx W = (th, W')"
    and "transaction_new_noop fresh_span ctx (wd_heap W) = (r, h)"
  shows "r = th_inner th"
    and "hp_txns h r = (hp_txns (wd_heap W') r)\<lparr>in_context :=
      (in_context (hp_txns (wd_heap W') r))\<lparr>tc_span_id := fresh_span\<rparr>\<rparr>"
    and "tc_span_id (in_context (hp_txns (wd_heap W') r)) = tcx_span_id ctx"
  using assms
  by (auto simp: transaction_new_def transaction_new_noop_def alloc_txn_def set_heap_def trace_context_default_def Let_def)

text \<open>With the client, configuring a scope is the global function of the full build.\<close>

lemma full_configure: "run_api True (ConfigureScope cb) (s, hb, W) = Some (s, snd (api_configure_scope (cb_real cb) (hb, W)))"
  by (simp add: with_client_impl_def call_closure_def api_configure_scope_def on_active_def)

section \<open>Equivalence of builds\<close>

text \<open>
  Leaving the client out is the same as not having one. Whatever an application does over the global
  functions, in a build without the client it never panics (no method of the minimal scope is
  reached, although its closures call them), no hub and nothing behind one changes, and the application ends in
  the state it reaches in the full build on a hub whose client is missing or disabled and that captured nothing before.
\<close>

theorem minimal_build_equivalent:
  assumes "\<not> is_active_and_usage_safe hb W" and "hb_last_event_id hb = None"
  shows "run_apis True ps (s, hb, W) = run_apis False ps (s, hb, W)
    \<and> (\<exists>s'. \<forall>hb' W'. run_apis False ps (s, hb', W') = Some (s', hb', W'))"
  using inactive_run(2) [OF assms] by (auto simp: minimal_run)

end
