(* ===== verification/Recorders.thy ===== *)
theory Recorders
  imports ClientReport
begin

text \<open>
  Who keeps the counters of lost data alive (\<open>sentry-core/src/client/client_reports/mod.rs\<close>,
  \<open>recorder.rs\<close>): aggregators are strong references to shared counters, recorders weak ones, which a transport
  may hold longer than the client lives. On platforms without the atomics there are no counters at all.
\<close>

section \<open>State\<close>

text \<open>The counters at each address with the number of strong references to them.\<close>

record agg_heap =
  ah_inner :: "nat \<Rightarrow> aggregator"
  ah_strong :: "nat \<Rightarrow> nat"
  ah_next :: nat

text \<open>A strong reference, unless the platform has none, and a weak one, which may point nowhere.\<close>

type_synonym agg_handle = "nat option"
type_synonym weak_recorder = "nat option"

definition agg_heap_empty :: agg_heap where
  "agg_heap_empty = \<lparr>ah_inner = (\<lambda>_. aggregator_new), ah_strong = (\<lambda>_. 0), ah_next = 0\<rparr>"

definition upd_inner :: "nat \<Rightarrow> (aggregator \<Rightarrow> aggregator) \<Rightarrow> agg_heap \<Rightarrow> agg_heap" where
  "upd_inner a f h = h\<lparr>ah_inner := (ah_inner h)(a := f (ah_inner h a))\<rparr>"

section \<open>Aggregators\<close>

definition handle_new :: "bool \<Rightarrow> agg_heap \<Rightarrow> agg_handle \<times> agg_heap" where
  "handle_new atomics h =
     (if atomics
      then (Some (ah_next h),
        h\<lparr>ah_inner := (ah_inner h)(ah_next h := aggregator_new), ah_strong := (ah_strong h)(ah_next h := 1),
          ah_next := Suc (ah_next h)\<rparr>)
      else (None, h))"

definition handle_clone :: "agg_handle \<Rightarrow> agg_heap \<Rightarrow> agg_handle \<times> agg_heap" where
  "handle_clone ag h =
     (ag, case ag of None \<Rightarrow> h | Some a \<Rightarrow> h\<lparr>ah_strong := (ah_strong h)(a := Suc (ah_strong h a))\<rparr>)"

definition handle_drop :: "agg_handle \<Rightarrow> agg_heap \<Rightarrow> agg_heap" where
  "handle_drop ag h = (case ag of None \<Rightarrow> h | Some a \<Rightarrow> h\<lparr>ah_strong := (ah_strong h)(a := ah_strong h a - 1)\<rparr>)"

definition handle_record_loss :: "category \<Rightarrow> reason \<Rightarrow> u64 \<Rightarrow> agg_handle \<Rightarrow> agg_heap \<Rightarrow> agg_heap" where
  "handle_record_loss c r q ag h = (case ag of None \<Rightarrow> h | Some a \<Rightarrow> upd_inner a (record_loss c r q) h)"

definition handle_record_lost_data :: "loss list \<Rightarrow> reason \<Rightarrow> agg_handle \<Rightarrow> agg_heap \<Rightarrow> agg_heap" where
  "handle_record_lost_data losses rsn ag h =
     (case ag of None \<Rightarrow> h
      | Some a \<Rightarrow> foldl (\<lambda>h l. handle_record_loss (loss_category l)
          (case loss_reason l of None \<Rightarrow> rsn | Some r \<Rightarrow> r) (loss_quantity l) ag h) h losses)"

definition handle_take_pending_report :: "systime \<Rightarrow> agg_handle \<Rightarrow> agg_heap \<Rightarrow> report option \<times> agg_heap" where
  "handle_take_pending_report now ag h =
     (case ag of
        None \<Rightarrow> (None, h)
      | Some a \<Rightarrow> (case take_pending_report now (ah_inner h a) of (r, g) \<Rightarrow> (r, upd_inner a (\<lambda>_. g) h)))"

section \<open>Recorders\<close>

definition recorder_new_no_op :: weak_recorder where "recorder_new_no_op = None"

definition recorder_new :: "agg_handle \<Rightarrow> weak_recorder" where "recorder_new ag = ag"

definition handle_recorder :: "agg_handle \<Rightarrow> weak_recorder" where "handle_recorder ag = recorder_new ag"

text \<open>\<open>upgrade\<close> makes a strong reference as long as there is one.\<close>

definition recorder_aggregator :: "weak_recorder \<Rightarrow> agg_heap \<Rightarrow> agg_handle \<times> agg_heap" where
  "recorder_aggregator w h =
     (case w of
        None \<Rightarrow> (None, h)
      | Some a \<Rightarrow> if ah_strong h a = 0 then (None, h) else handle_clone (Some a) h)"

definition weak_record_lost_data :: "loss list \<Rightarrow> transport_loss_reason \<Rightarrow> weak_recorder \<Rightarrow> agg_heap \<Rightarrow> agg_heap" where
  "weak_record_lost_data losses rsn w h =
     (case recorder_aggregator w h of
        (None, h1) \<Rightarrow> h1
      | (Some a, h1) \<Rightarrow> handle_drop (Some a) (handle_record_lost_data losses (into_reason rsn) (Some a) h1))"

section \<open>Lemmas\<close>

text \<open>What a recorder records into, as the other theories see it.\<close>

definition recorder_view :: "weak_recorder \<Rightarrow> agg_heap \<Rightarrow> recorder" where
  "recorder_view w h = Option.bind w (\<lambda>a. if ah_strong h a = 0 then None else Some (ah_inner h a))"

lemma upd_inner_simps [simp]:
  "ah_strong (upd_inner a f h) = ah_strong h" "ah_next (upd_inner a f h) = ah_next h"
  "ah_inner (upd_inner a f h) = (ah_inner h)(a := f (ah_inner h a))"
  "upd_inner a g (upd_inner a f h) = upd_inner a (\<lambda>x. g (f x)) h"
  by (simp_all add: upd_inner_def)

lemma handle_record_lost_data_eq:
  "handle_record_lost_data losses rsn (Some a) h = upd_inner a (record_lost_data losses rsn) h"
proof -
  have "foldl (\<lambda>h l. handle_record_loss (loss_category l) (case loss_reason l of None \<Rightarrow> rsn | Some r \<Rightarrow> r)
      (loss_quantity l) (Some a) h) h losses = upd_inner a (\<lambda>g. foldl (record_one rsn) g losses) h"
  proof (induction losses arbitrary: h)
    case Nil
    then show ?case by (simp add: upd_inner_def)
  next
    case (Cons l losses)
    then show ?case by (simp add: handle_record_loss_def record_one_def)
  qed
  then show ?thesis by (simp add: handle_record_lost_data_def record_lost_data_def)
qed

lemma weak_record_eq:
  "weak_record_lost_data losses rsn w h =
     (case w of None \<Rightarrow> h | Some a \<Rightarrow>
        if ah_strong h a = 0 then h else upd_inner a (record_lost_data losses (into_reason rsn)) h)"
  by (cases w) (simp_all add: weak_record_lost_data_def recorder_aggregator_def handle_clone_def
      handle_record_lost_data_eq handle_drop_def upd_inner_def)

text \<open>
  The handle with its weak reference implements the recorder of the other theories: recording through it is
  recording into the aggregator while that lives, and nothing afterwards; it changes no other counters and keeps
  nothing alive.
\<close>

lemma recorder_refines:
  "recorder_view w (weak_record_lost_data losses rsn w h) = recorder_record_lost_data losses rsn (recorder_view w h)"
  "ah_strong (weak_record_lost_data losses rsn w h) = ah_strong h"
  "w \<noteq> Some b \<Longrightarrow> ah_inner (weak_record_lost_data losses rsn w h) b = ah_inner h b"
  by (cases w; simp add: weak_record_eq recorder_view_def recorder_record_lost_data_def)+

text \<open>Operations on references: a strong one can be cloned, dropped and used while it is held.\<close>

datatype agg_op =
    OpNew
  | OpClone nat
  | OpDrop nat
  | OpRecord nat "loss list" reason
  | OpTake nat systime
  | OpWeakRecord weak_recorder "loss list" transport_loss_reason

fun agg_do :: "agg_op \<Rightarrow> agg_heap \<Rightarrow> agg_heap" where
  "agg_do OpNew h = snd (handle_new True h)"
| "agg_do (OpClone a) h = snd (handle_clone (Some a) h)"
| "agg_do (OpDrop a) h = handle_drop (Some a) h"
| "agg_do (OpRecord a losses rsn) h = handle_record_lost_data losses rsn (Some a) h"
| "agg_do (OpTake a now) h = snd (handle_take_pending_report now (Some a) h)"
| "agg_do (OpWeakRecord w losses rsn) h = weak_record_lost_data losses rsn w h"

fun op_held :: "agg_op \<Rightarrow> agg_heap \<Rightarrow> bool" where
  "op_held (OpClone a) h = (0 < ah_strong h a)"
| "op_held (OpDrop a) h = (0 < ah_strong h a)"
| "op_held (OpRecord a losses rsn) h = (0 < ah_strong h a)"
| "op_held (OpTake a now) h = (0 < ah_strong h a)"
| "op_held _ h = True"

inductive agg_run :: "agg_op list \<Rightarrow> agg_heap \<Rightarrow> agg_heap \<Rightarrow> bool" where
  agg_none: "agg_run [] h h"
| agg_some: "op_held op h \<Longrightarrow> agg_run ops (agg_do op h) h' \<Longrightarrow> agg_run (op # ops) h h'"

inductive_simps agg_run_simps [simp]: "agg_run [] h h'" "agg_run (op # ops) h h'"

definition agg_heap_ok :: "agg_heap \<Rightarrow> bool" where
  "agg_heap_ok h \<longleftrightarrow> (\<forall>a. ah_next h \<le> a \<longrightarrow> ah_strong h a = 0) \<and> (\<forall>a. 0 < ah_strong h a \<longrightarrow> agg_inv (ah_inner h a))"

lemma agg_do_eqs:
  "ah_next h \<le> ah_next (agg_do op h)"
  "ah_strong (agg_do op h) = (case op of
      OpNew \<Rightarrow> (ah_strong h)(ah_next h := 1)
    | OpClone a \<Rightarrow> (ah_strong h)(a := Suc (ah_strong h a))
    | OpDrop a \<Rightarrow> (ah_strong h)(a := ah_strong h a - 1)
    | _ \<Rightarrow> ah_strong h)"
  by (cases op; auto simp: handle_new_def handle_clone_def handle_drop_def handle_record_lost_data_eq
      handle_take_pending_report_def recorder_refines(2) weak_record_eq split: prod.split option.split)+

text \<open>Counters that nobody holds any more are gone for good: no operation brings them back.\<close>

lemma dead_stays_dead:
  assumes "agg_run ops h h'" and "a < ah_next h" and "ah_strong h a = 0"
  shows "a < ah_next h' \<and> recorder_view (Some a) h' = None"
proof -
  have "a < ah_next h' \<and> ah_strong h' a = 0"
    using assms
  proof (induction rule: agg_run.induct)
    case (agg_some op h ops h')
    have "ah_strong (agg_do op h) a = 0"
      using agg_some(1,4,5) by (cases op) (auto simp: agg_do_eqs(2) simp del: agg_do.simps)
    moreover have "a < ah_next (agg_do op h)" using agg_some(4) agg_do_eqs(1) [of h op] by simp
    ultimately show ?case using agg_some(3) by simp
  qed simp
  then show ?thesis by (simp add: recorder_view_def)
qed

text \<open>
  However references are made, cloned, dropped and used, the counters that are held satisfy the invariant of
  the aggregator, so a report taken through any handle is exact.
\<close>

lemma agg_heap_ok_empty: "agg_heap_ok agg_heap_empty"
  by (simp add: agg_heap_ok_def agg_heap_empty_def)

lemma agg_heap_ok_do:
  assumes "agg_heap_ok h" and "op_held op h"
  shows "agg_heap_ok (agg_do op h)"
proof -
  have inv: "0 < ah_strong h a \<Longrightarrow> agg_inv (ah_inner h a)" and fresh: "ah_next h \<le> a \<Longrightarrow> ah_strong h a = 0" for a
    using assms(1) by (auto simp: agg_heap_ok_def)
  have take: "take_pending_report now g = (r, g') \<Longrightarrow> agg_inv g \<Longrightarrow> agg_inv g'" for now g r g'
    by (metis agg_inv_take snd_conv)
  have "ah_strong (agg_do op h) a = 0" if "ah_next (agg_do op h) \<le> a" for a
    using that fresh assms(2) agg_do_eqs(1) [of h op]
    by (cases op) (auto simp: handle_new_def handle_clone_def handle_drop_def handle_record_lost_data_eq
        handle_take_pending_report_def weak_record_eq split: prod.splits option.splits if_splits)
  moreover have "agg_inv (ah_inner (agg_do op h) a)" if "0 < ah_strong (agg_do op h) a" for a
    using that inv assms(2)
    by (cases op) (auto intro: take simp: handle_new_def handle_clone_def handle_drop_def handle_record_lost_data_eq
        handle_take_pending_report_def weak_record_eq split: prod.splits option.splits if_splits)
  ultimately show ?thesis by (simp add: agg_heap_ok_def)
qed

lemma agg_heap_ok_run: "agg_run ops h h' \<Longrightarrow> agg_heap_ok h \<Longrightarrow> agg_heap_ok h'"
  by (induction rule: agg_run.induct) (auto intro: agg_heap_ok_do simp del: agg_do.simps)

end
