(* ===== verification/TextForms.thy ===== *)
theory TextForms
  imports Values Units Dsn
begin

text \<open>
  Types with a text form: \<open>Display\<close> and \<open>FromStr\<close> with the law that parsing undoes printing, stated once
  and proved for each type of \<open>sentry-types\<close> that has both (\<open>protocol/v7.rs\<close>, \<open>protocol/session.rs\<close>,
  \<open>protocol/unit.rs\<close>, \<open>project_id.rs\<close>, \<open>dsn.rs\<close>). What \<open>impl_str_serde!\<close> and \<open>display_from_str_opt\<close> make
  of such a type survives the wire.
\<close>

section \<open>Ids of projects and organizations, units\<close>

definition project_id_new :: "string \<Rightarrow> project_id" where "project_id_new s = s"

definition project_id_value :: "project_id \<Rightarrow> string" where "project_id_value p = p"

definition project_id_display :: "project_id \<Rightarrow> string" where "project_id_display p = p"

definition organization_id_from :: "u64 \<Rightarrow> organization_id" where "organization_id_from n = n"

definition organization_id_display :: "organization_id \<Rightarrow> string" where
  "organization_id_display i = show_nat (unat i)"

text \<open>\<open>From\<close> for the kinds of strings, and from the wire.\<close>

definition unit_from_text :: "string \<Rightarrow> munit" where "unit_from_text s = unit_new s"

fun unit_deserialize :: "wire \<Rightarrow> munit option" where
  "unit_deserialize (WireStr s) = Some (unit_new s)"
| "unit_deserialize _ = None"

text \<open>\<open>impl_str_serde!\<close>: both directions.\<close>

definition impl_str_serde :: "('a \<Rightarrow> string) \<Rightarrow> (string \<Rightarrow> 'a option) \<Rightarrow> ('a \<Rightarrow> wire) \<times> (wire \<Rightarrow> 'a option)" where
  "impl_str_serde display from_str = (str_serialize display, str_deserialize from_str)"

section \<open>The contract\<close>

definition ok_of :: "'e + 'a \<Rightarrow> 'a option" where
  "ok_of r = (case r of Inl _ \<Rightarrow> None | Inr a \<Rightarrow> Some a)"

definition or_error :: "'e \<Rightarrow> 'a option \<Rightarrow> 'e + 'a" where
  "or_error e v = (case v of None \<Rightarrow> Inl e | Some a \<Rightarrow> Inr a)"

locale text_form =
  fixes display :: "'a \<Rightarrow> string"
    and from_str :: "string \<Rightarrow> 'a option"
    and printable :: "'a \<Rightarrow> bool"
  assumes from_str_display: "printable a \<Longrightarrow> from_str (display a) = Some a"
begin

lemma display_inject: "printable a \<Longrightarrow> printable b \<Longrightarrow> display a = display b \<longleftrightarrow> a = b"
  using from_str_display by (metis option.inject)

lemma on_the_wire: "printable a \<Longrightarrow> snd (impl_str_serde display from_str) (fst (impl_str_serde display from_str) a) = Some a"
  by (simp add: impl_str_serde_def str_serialize_def from_str_display)

lemma optional_on_the_wire:
  "(\<And>a. v = Some a \<Longrightarrow> printable a) \<Longrightarrow>
   deserialize_display_opt (\<lambda>s. or_error e (from_str s)) (serialize_display_opt display v) = Inr v"
  by (cases v) (simp_all add: serialize_display_opt_def or_error_def from_str_display)

end

text \<open>Where everything that parses can be printed, reading is idempotent.\<close>

locale normal_text_form = text_form +
  assumes parsed_printable: "from_str s = Some a \<Longrightarrow> printable a"
begin

lemma reread: "from_str s = Some a \<Longrightarrow> from_str (display a) = from_str s"
  using from_str_display parsed_printable by simp

lemma same_value: "from_str s = Some a \<Longrightarrow> from_str t = Some b \<Longrightarrow> display a = display b \<longleftrightarrow> from_str s = from_str t"
  using display_inject parsed_printable by simp

end

section \<open>The types\<close>

interpretation level_text: normal_text_form level_display level_from_str "\<lambda>_. True"
  by unfold_locales (rule level_roundtrip TrueI)+

interpretation session_status_text: normal_text_form session_status_display session_status_from_str "\<lambda>_. True"
  by unfold_locales (rule session_status_roundtrip TrueI)+

interpretation span_status_text: normal_text_form span_status_display span_status_from_str "\<lambda>_. True"
  by unfold_locales (rule span_status_roundtrip TrueI)+

interpretation addr_text: normal_text_form addr_display addr_from_str "\<lambda>_. True"
  by unfold_locales (simp_all add: addr_roundtrip)

interpretation organization_id_text: normal_text_form organization_id_display organization_id_from_str "\<lambda>_. True"
proof unfold_locales
  fix i :: organization_id
  have "int (unat i) \<le> int u64_max" using unat_le_u64_max [of i] by (simp only: of_nat_le_iff)
  then have "int (unat i) \<le> 2 ^ 64 - 1" by (simp add: u64_max_def)
  then show "organization_id_from_str (organization_id_display i) = Some i"
    by (simp add: organization_id_from_str_def organization_id_display_def parse_uint_show_nat)
qed simp

interpretation project_id_text:
  normal_text_form project_id_display "\<lambda>s. ok_of (project_id_from_str s)" "\<lambda>p. p \<noteq> []"
  by unfold_locales (auto simp: project_id_display_def project_id_from_str_def ok_of_def split: if_splits)

text \<open>A unit that was read is printed under its one name.\<close>

interpretation unit_text: normal_text_form unit_serialize "\<lambda>s. Some (unit_new s)" "\<lambda>u. u \<in> range unit_new"
  by unfold_locales (auto simp: unit_roundtrip)

text \<open>
  The ids, IP addresses and DSNs rest on a codec or parser of another crate; they are printable where that reads
  what it wrote.
\<close>

interpretation span_id_text: text_form "span_id_display hx" "span_id_from_str hx" "hex_ok hx 8" for hx
  by unfold_locales (simp add: span_id_display_def span_id_from_str_def hex_ok_def)

interpretation trace_id_text: text_form "trace_id_display hx" "trace_id_from_str hx" "hex_ok hx 16" for hx
  by unfold_locales (simp add: trace_id_display_def trace_id_from_str_def hex_ok_def)

interpretation ip_address_text:
  text_form "ip_address_display it" "ip_address_from_str it"
    "\<lambda>a. \<forall>addr. a = IpExact addr \<longrightarrow> ip_parse it (ip_show it addr) = Some addr \<and> ip_show it addr \<noteq> ''{{auto}}''" for it
  by unfold_locales (rule ip_address_roundtrip, blast)

interpretation dsn_text:
  text_form dsn_display "\<lambda>s. ok_of (dsn_from_str parse s)"
    "\<lambda>d. url_parser_ok parse \<and> (\<exists>s. dsn_from_str parse s = Inr d)" for parse
  by unfold_locales (auto simp: ok_of_def dsn_reparse)

section \<open>What the contract gives\<close>

text \<open>
  Levels, statuses, addresses and ids survive the wire, as values and as optional ones, and different values have different texts.
\<close>

lemma texts_survive:
  "str_deserialize level_from_str (str_serialize level_display l) = Some l"
  "str_deserialize session_status_from_str (str_serialize session_status_display st) = Some st"
  "deserialize_display_opt (\<lambda>s. or_error e (organization_id_from_str s)) (serialize_display_opt organization_id_display i) = Inr i"
  "organization_id_display m = organization_id_display n \<longleftrightarrow> m = n"
  "span_status_display x = span_status_display y \<longleftrightarrow> x = y"
  using level_text.on_the_wire [of l] session_status_text.on_the_wire [of st]
    organization_id_text.optional_on_the_wire [of i e] organization_id_text.display_inject [of m n]
    span_status_text.display_inject [of x y]
  by (simp_all add: impl_str_serde_def)

lemma unit_wire: "unit_deserialize (WireStr (unit_serialize (unit_new s))) = unit_deserialize (WireStr s)"
  using unit_text.reread [of s "unit_new s"] by simp

end
