(* ===== verification/Setup.thy ===== *)
theory Setup
  imports HttpClients Logging Actix Init Otel Conversions
begin

text \<open>
  How the parts are put together: the options and constructors of the HTTP transports and the factories
  (\<open>sentry/src/transports/\<close>, \<open>sentry-core/src/transport/mod.rs\<close>), and the builders of the integrations
  (\<open>sentry-contexts\<close>, \<open>sentry-debug-images\<close>, \<open>sentry-panic\<close>, \<open>sentry-log\<close>, \<open>sentry-slog\<close>,
  \<open>sentry-actix\<close>, \<open>sentry-opentelemetry\<close>). A closure that is stored is a function of the model.
\<close>

section \<open>Threads of transports\<close>

record 'f thread_options =
  tho_send_fn :: 'f
  tho_recorder :: recorder

definition thread_options_new :: "'f \<Rightarrow> 'f thread_options" where
  "thread_options_new f = \<lparr>tho_send_fn = f, tho_recorder = None\<rparr>"

definition thread_options_with_recorder :: "recorder \<Rightarrow> 'f thread_options \<Rightarrow> 'f thread_options" where
  "thread_options_with_recorder rec o' = o'\<lparr>tho_recorder := rec\<rparr>"

definition spawn_thread :: "bool \<Rightarrow> 'f thread_options \<Rightarrow> 'f \<times> pipe" where
  "spawn_thread spawned o' = (tho_send_fn o', transport_thread_new spawned (tho_recorder o'))"

definition thread_new :: "bool \<Rightarrow> 'f \<Rightarrow> 'f \<times> pipe" where
  "thread_new spawned f = spawn_thread spawned (thread_options_new f)"

definition tokio_options_new :: "'f \<Rightarrow> 'f thread_options" where
  "tokio_options_new f = \<lparr>tho_send_fn = f, tho_recorder = None\<rparr>"

definition tokio_options_with_recorder :: "recorder \<Rightarrow> 'f thread_options \<Rightarrow> 'f thread_options" where
  "tokio_options_with_recorder rec o' = o'\<lparr>tho_recorder := rec\<rparr>"

definition tokio_spawn_thread :: "bool \<Rightarrow> 'f thread_options \<Rightarrow> 'f \<times> tokio_pipe" where
  "tokio_spawn_thread spawned o' = (tho_send_fn o', tokio_thread_new spawned (tho_recorder o'))"

definition tokio_new :: "bool \<Rightarrow> 'f \<Rightarrow> 'f \<times> tokio_pipe" where
  "tokio_new spawned f = tokio_spawn_thread spawned (tokio_options_new f)"

section \<open>The HTTP transports\<close>

text \<open>The options of each transport: the general ones and a client that may be given.\<close>

record 'c http_options =
  ho_general :: transport_options
  ho_client :: "'c option"

definition ureq_options_from :: "transport_options \<Rightarrow> http_client http_options" where
  "ureq_options_from value = \<lparr>ho_general = value, ho_client = None\<rparr>"

definition ureq_with_agent :: "http_client \<Rightarrow> http_client http_options \<Rightarrow> http_client http_options" where
  "ureq_with_agent agent o' = o'\<lparr>ho_client := Some agent\<rparr>"

definition reqwest_options_from :: "transport_options \<Rightarrow> http_client http_options" where
  "reqwest_options_from value = \<lparr>ho_general = value, ho_client = None\<rparr>"

definition reqwest_with_client :: "http_client \<Rightarrow> http_client http_options \<Rightarrow> http_client http_options" where
  "reqwest_with_client client o' = o'\<lparr>ho_client := Some client\<rparr>"

definition curl_options_from :: "transport_options \<Rightarrow> 'h http_options" where
  "curl_options_from value = \<lparr>ho_general = value, ho_client = None\<rparr>"

definition curl_with_client :: "'h \<Rightarrow> 'h http_options \<Rightarrow> 'h http_options" where
  "curl_with_client client o' = o'\<lparr>ho_client := Some client\<rparr>"

text \<open>
  What is fixed when a transport is made: the client, the header and the URL that every request gets, and the
  recorder of its thread. \<open>None\<close> is the panic of a DSN that makes no URL.
\<close>

record 'c built =
  bt_client :: 'c
  bt_auth :: string
  bt_url :: string
  bt_recorder :: recorder

definition ureq_with_options :: "http_env \<Rightarrow> systime \<Rightarrow> bool \<Rightarrow> http_client http_options \<Rightarrow> http_client built option" where
  "ureq_with_options he now tls o' =
     map_option (\<lambda>url. \<lparr>bt_client = ureq_agent he tls (ho_client o') (ho_general o'),
         bt_auth = transport_auth he now (ho_general o'), bt_url = url,
         bt_recorder = tho_recorder (thread_options_with_recorder (to_recorder (ho_general o')) (thread_options_new ()))\<rparr>)
       (transport_url he (ho_general o'))"

definition reqwest_with_options :: "http_env \<Rightarrow> systime \<Rightarrow> http_client http_options \<Rightarrow> http_client built option" where
  "reqwest_with_options he now o' =
     map_option (\<lambda>url. \<lparr>bt_client = reqwest_client he (ho_client o') (ho_general o'),
         bt_auth = transport_auth he now (ho_general o'), bt_url = url,
         bt_recorder = tho_recorder (tokio_options_with_recorder (to_recorder (ho_general o')) (tokio_options_new ()))\<rparr>)
       (transport_url he (ho_general o'))"

definition curl_with_options :: "http_env \<Rightarrow> systime \<Rightarrow> 'h \<Rightarrow> 'h http_options \<Rightarrow> 'h built option" where
  "curl_with_options he now curl_new o' =
     map_option (\<lambda>url. \<lparr>bt_client = (case ho_client o' of Some c \<Rightarrow> c | None \<Rightarrow> curl_new),
         bt_auth = transport_auth he now (ho_general o'), bt_url = url,
         bt_recorder = tho_recorder (thread_options_with_recorder (to_recorder (ho_general o')) (thread_options_new ()))\<rparr>)
       (transport_url he (ho_general o'))"

definition ureq_build :: "http_env \<Rightarrow> systime \<Rightarrow> bool \<Rightarrow> http_client http_options \<Rightarrow> http_client built option" where
  "ureq_build he now tls o' = ureq_with_options he now tls o'"

definition reqwest_build :: "http_env \<Rightarrow> systime \<Rightarrow> http_client http_options \<Rightarrow> http_client built option" where
  "reqwest_build he now o' = reqwest_with_options he now o'"

definition curl_build :: "http_env \<Rightarrow> systime \<Rightarrow> 'h \<Rightarrow> 'h http_options \<Rightarrow> 'h built option" where
  "curl_build he now curl_new o' = curl_with_options he now curl_new o'"

text \<open>The deprecated constructors: the \<open>expect\<close> on the DSN is a panic too.\<close>

definition ureq_new :: "http_env \<Rightarrow> systime \<Rightarrow> bool \<Rightarrow> client_options \<Rightarrow> http_client built option" where
  "ureq_new he now tls options =
     Option.bind (try_from_client_options options) (\<lambda>g. ureq_build he now tls (ureq_options_from g))"

definition ureq_new_with_agent ::
  "http_env \<Rightarrow> systime \<Rightarrow> bool \<Rightarrow> client_options \<Rightarrow> http_client \<Rightarrow> http_client built option" where
  "ureq_new_with_agent he now tls options agent =
     Option.bind (try_from_client_options options)
       (\<lambda>g. ureq_build he now tls (ureq_with_agent agent (ureq_options_from g)))"

definition reqwest_new :: "http_env \<Rightarrow> systime \<Rightarrow> client_options \<Rightarrow> http_client built option" where
  "reqwest_new he now options =
     Option.bind (try_from_client_options options) (\<lambda>g. reqwest_build he now (reqwest_options_from g))"

definition reqwest_new_with_client ::
  "http_env \<Rightarrow> systime \<Rightarrow> client_options \<Rightarrow> http_client \<Rightarrow> http_client built option" where
  "reqwest_new_with_client he now options client =
     Option.bind (try_from_client_options options)
       (\<lambda>g. reqwest_build he now (reqwest_with_client client (reqwest_options_from g)))"

definition curl_new_transport :: "http_env \<Rightarrow> systime \<Rightarrow> 'h \<Rightarrow> client_options \<Rightarrow> 'h built option" where
  "curl_new_transport he now curl_new options =
     Option.bind (try_from_client_options options) (\<lambda>g. curl_build he now curl_new (curl_options_from g))"

definition curl_new_with_client :: "http_env \<Rightarrow> systime \<Rightarrow> 'h \<Rightarrow> client_options \<Rightarrow> 'h \<Rightarrow> 'h built option" where
  "curl_new_with_client he now curl_new options client =
     Option.bind (try_from_client_options options)
       (\<lambda>g. curl_build he now curl_new (curl_with_client client (curl_options_from g)))"

text \<open>The embedded transport keeps its options, and does without them when there is no DSN.\<close>

definition embedded_new :: "client_options \<Rightarrow> transport_options option" where
  "embedded_new options = try_from_client_options options"

definition embedded_options_from :: "transport_options \<Rightarrow> transport_options" where
  "embedded_options_from value = value"

definition embedded_with_options :: "transport_options \<Rightarrow> transport_options option" where
  "embedded_with_options o' = Some o'"

definition embedded_build :: "transport_options \<Rightarrow> transport_options option" where
  "embedded_build o' = embedded_with_options o'"

section \<open>Factories\<close>

text \<open>The default of \<open>create_transport_with_options\<close>, closures and transports as factories.\<close>

definition default_create_with_options ::
  "(client_options \<Rightarrow> 'w transport) \<Rightarrow> string \<Rightarrow> transport_options \<Rightarrow> 'w transport" where
  "default_create_with_options create default_agent t = create (into_client_options default_agent t)"

definition closure_factory :: "(client_options \<Rightarrow> 'w transport) \<Rightarrow> client_options \<Rightarrow> 'w transport" where
  "closure_factory f options = f options"

definition arc_factory :: "'w transport \<Rightarrow> transport_options \<Rightarrow> 'w transport" where
  "arc_factory t o' = t"

section \<open>Builders of the integrations\<close>

definition context_integration_new :: context_integration where
  "context_integration_new = context_integration_default"

definition ci_set_os :: "bool \<Rightarrow> context_integration \<Rightarrow> context_integration" where
  "ci_set_os add_os ci = ci\<lparr>ci_add_os := add_os\<rparr>"

definition ci_set_rust :: "bool \<Rightarrow> context_integration \<Rightarrow> context_integration" where
  "ci_set_rust add_rust ci = ci\<lparr>ci_add_rust := add_rust\<rparr>"

definition ci_set_device :: "bool \<Rightarrow> context_integration \<Rightarrow> context_integration" where
  "ci_set_device add_device ci = ci\<lparr>ci_add_device := add_device\<rparr>"

text \<open>
  The images are read when the first integration is built; \<open>None\<close> until then. The filter is a function of
  the event.
\<close>

definition force_debug_meta :: "loader \<Rightarrow> debug_meta option \<Rightarrow> debug_meta" where
  "force_debug_meta lo cached =
     (case cached of Some m \<Rightarrow> m | None \<Rightarrow> \<lparr>dm_sdk_info = None, dm_images = debug_images lo\<rparr>)"

definition debug_images_default :: "loader \<Rightarrow> debug_meta option \<Rightarrow> (event \<Rightarrow> bool) \<times> debug_meta option" where
  "debug_images_default lo cached = ((\<lambda>_. True), Some (force_debug_meta lo cached))"

definition debug_images_new :: "loader \<Rightarrow> debug_meta option \<Rightarrow> (event \<Rightarrow> bool) \<times> debug_meta option" where
  "debug_images_new lo cached = debug_images_default lo cached"

definition debug_images_filter :: "(event \<Rightarrow> bool) \<Rightarrow> (event \<Rightarrow> bool) \<Rightarrow> event \<Rightarrow> bool" where
  "debug_images_filter f old = f"

definition panic_integration_new :: "('i \<Rightarrow> event option) list" where
  "panic_integration_new = []"

definition add_extractor :: "('i \<Rightarrow> event option) \<Rightarrow> ('i \<Rightarrow> event option) list \<Rightarrow> ('i \<Rightarrow> event option) list" where
  "add_extractor f extractors = extractors @ [f]"

text \<open>A mapping stands for a list of one.\<close>

definition vec_from_mapping :: "event_mapping \<Rightarrow> event_mapping list" where
  "vec_from_mapping mapping = [mapping]"

definition logger_set_filter :: "(log_record \<Rightarrow> log_filter) \<Rightarrow> 'd sentry_logger \<Rightarrow> 'd sentry_logger" where
  "logger_set_filter f lg = lg\<lparr>lg_filter := f\<rparr>"

definition logger_set_mapper ::
  "('t \<Rightarrow> event_mapping list) \<Rightarrow> (log_record \<Rightarrow> 't) \<Rightarrow> 'd sentry_logger \<Rightarrow> 'd sentry_logger" where
  "logger_set_mapper into mapper lg = lg\<lparr>lg_mapper := Some (\<lambda>record. into (mapper record))\<rparr>"

definition drain_new ::
  "(slog_level \<Rightarrow> bool) \<Rightarrow> (slog_record \<Rightarrow> 'd \<Rightarrow> 'r \<times> 'd) \<Rightarrow> ('d, 'r) sentry_drain" where
  "drain_new enabled log_record =
     \<lparr>dr_drain_enabled = enabled, dr_drain_log = log_record, dr_filter = default_slog_filter, dr_mapper = None\<rparr>"

definition drain_set_filter :: "(slog_level \<Rightarrow> level_filter) \<Rightarrow> ('d, 'r) sentry_drain \<Rightarrow> ('d, 'r) sentry_drain" where
  "drain_set_filter f dr = dr\<lparr>dr_filter := f\<rparr>"

definition drain_set_mapper ::
  "(slog_record \<Rightarrow> event_mapping) \<Rightarrow> ('d, 'r) sentry_drain \<Rightarrow> ('d, 'r) sentry_drain" where
  "drain_set_mapper mapper dr = dr\<lparr>dr_mapper := Some mapper\<rparr>"

section \<open>The actix middleware and the propagator\<close>

record actix_builder =
  ab_middleware :: actix

definition actix_default :: actix where
  "actix_default = actix_new"

definition into_builder :: "actix \<Rightarrow> actix_builder" where
  "into_builder m = \<lparr>ab_middleware = m\<rparr>"

definition actix_builder_new :: actix_builder where
  "actix_builder_new = into_builder actix_new"

definition builder_finish :: "actix_builder \<Rightarrow> actix" where
  "builder_finish b = ab_middleware b"

record 's actix_middleware =
  am_service :: 's
  am_inner :: actix

definition new_transform :: "'s \<Rightarrow> actix \<Rightarrow> 's actix_middleware" where
  "new_transform service m = \<lparr>am_service = service, am_inner = m\<rparr>"

definition actix_poll_ready :: "('s \<Rightarrow> 'p) \<Rightarrow> 's actix_middleware \<Rightarrow> 'p" where
  "actix_poll_ready poll_ready mw = poll_ready (am_service mw)"

text \<open>
  The payload of a request: chunks, and whether an error follows them. Extracting it leaves an empty one in the
  request; only a body that was read to its end is put back.
\<close>

datatype payload = Payload "string list" bool

definition body_from_http :: "payload \<Rightarrow> string option \<times> payload" where
  "body_from_http p =
     (case p of Payload chunks failed \<Rightarrow>
        (if failed then (None, Payload [] False)
         else (Some (concat chunks), Payload [concat chunks] False)))"

definition propagator_fields :: "string list" where
  "propagator_fields = [''sentry-trace'']"

section \<open>The panic hook\<close>

text \<open>
  The hook of the process and whether it was replaced already. \<open>event_of\<close> makes the event from the
  integration that is found.
\<close>

type_synonym 'i hook = "'i \<Rightarrow> hub \<times> world \<Rightarrow> hub \<times> world"

record 'i hooks =
  hk_once :: bool
  hk_hook :: "'i hook"

definition report_panic ::
  "event_env \<Rightarrow> bool \<Rightarrow> (integration \<Rightarrow> nat) \<Rightarrow> nat \<Rightarrow> (integration \<Rightarrow> ('i \<Rightarrow> event option) list) \<Rightarrow>
   ('i \<Rightarrow> panic_payload) \<Rightarrow> stacktrace option \<Rightarrow> 'i hook" where
  "report_panic env answer type_id ty extractors payload current_stacktrace info s =
     snd (api_with_integration type_id ty ()
       (\<lambda>i s. ((), panic_handler env answer
          (event_from_panic_info (extractors i) payload current_stacktrace (ee_event_id env) (ee_now env) info) s)) s)"

definition panic_setup :: "'i hook \<Rightarrow> 'i hooks \<Rightarrow> 'i hooks" where
  "panic_setup report hk =
     (if hk_once hk then hk
      else (let next' = hk_hook hk in
            \<lparr>hk_once = True, hk_hook = (\<lambda>info s. next' info (report info s))\<rparr>))"

section \<open>Lemmas\<close>

text \<open>
  The deprecated constructors panic exactly without a DSN or with one that makes no URL. What they build does
  not record its losses, as the general options that are made from client options name no recorder.
\<close>

lemma options_recorder [simp]: "try_from_client_options options = Some g \<Longrightarrow> to_recorder g = None"
  by (auto simp: try_from_client_options_def)

lemmas http_setup_defs =
  ureq_new_def ureq_new_with_agent_def reqwest_new_def reqwest_new_with_client_def
  curl_new_transport_def curl_new_with_client_def ureq_build_def reqwest_build_def curl_build_def
  ureq_with_options_def reqwest_with_options_def curl_with_options_def
  ureq_options_from_def reqwest_options_from_def curl_options_from_def
  ureq_with_agent_def reqwest_with_client_def curl_with_client_def
  thread_options_with_recorder_def tokio_options_with_recorder_def thread_options_new_def tokio_options_new_def

lemma deprecated_constructor_panics:
  shows "ureq_new he now tls options = None \<longleftrightarrow>
    (case co_dsn options of None \<Rightarrow> True | Some d \<Rightarrow> envelope_api_url (he_parse_url he) d = None)"
    and "reqwest_new he now options = None \<longleftrightarrow>
    (case co_dsn options of None \<Rightarrow> True | Some d \<Rightarrow> envelope_api_url (he_parse_url he) d = None)"
    and "curl_new_transport he now handle options = None \<longleftrightarrow>
    (case co_dsn options of None \<Rightarrow> True | Some d \<Rightarrow> envelope_api_url (he_parse_url he) d = None)"
  by (cases "co_dsn options"; simp add: http_setup_defs try_from_client_options_def transport_url_def)+

lemma deprecated_constructor_records_nothing:
  shows "ureq_new he now tls options = Some b \<Longrightarrow> bt_recorder b = None"
    and "reqwest_new he now options = Some b \<Longrightarrow> bt_recorder b = None"
    and "curl_new_transport he now handle options = Some b' \<Longrightarrow> bt_recorder b' = None"
  by (auto simp: http_setup_defs split: bind_splits)

text \<open>A client that is given is the one that is used; the options' proxies and certificates play no part.\<close>

lemma given_client_used:
  shows "ureq_new_with_agent he now tls options agent = Some b \<Longrightarrow> bt_client b = agent"
    and "reqwest_new_with_client he now options agent = Some b \<Longrightarrow> bt_client b = agent"
    and "curl_new_with_client he now handle options handle' = Some b' \<Longrightarrow> bt_client b' = handle'"
  by (auto simp: http_setup_defs ureq_agent_def reqwest_client_def split: bind_splits)

text \<open>A closure as factory sees the DSN, the agent name and the proxies of the transport options.\<close>

lemma closure_factory_sees_options:
  "\<exists>o'. default_create_with_options (closure_factory f) default_agent t = f o' \<and>
     co_dsn o' = Some (to_dsn t) \<and> co_user_agent o' = to_user_agent t \<and>
     try_from_client_options o' = Some (t\<lparr>to_recorder := None\<rparr>)"
  by (intro exI [of _ "into_client_options default_agent t"])
    (simp add: default_create_with_options_def closure_factory_def into_client_options_def try_from_client_options_def)

text \<open>The images are those that were loaded when the first integration was built.\<close>

lemma debug_images_once:
  "force_debug_meta lo2 (snd (debug_images_new lo1 cached)) = force_debug_meta lo1 cached"
  by (simp add: debug_images_new_def debug_images_default_def force_debug_meta_def)

text \<open>An extractor that is added is asked after those before it.\<close>

lemma first_some_append: "first_some (xs @ ys) = (case first_some xs of Some x \<Rightarrow> Some x | None \<Rightarrow> first_some ys)"
  by (induction xs rule: first_some.induct) simp_all

lemma extractor_order:
  "event_from_panic_info (add_extractor f fs) payload st fresh now info =
     (if first_some (map (\<lambda>g. g info) fs) = None \<and> f info \<noteq> None then the (f info)
      else event_from_panic_info fs payload st fresh now info)"
  by (auto simp: event_from_panic_info_def add_extractor_def first_some_append split: option.split)

text \<open>A mapper decides what is sent, the filter still what is enabled.\<close>

lemma logger_mapper_items:
  "logger_items fresh now (logger_set_filter f (logger_set_mapper into mapper lg)) r = into (mapper r)"
  "logger_enabled (logger_set_mapper into mapper lg) r = logger_enabled lg r"
  by (simp_all add: logger_items_def logger_set_filter_def logger_set_mapper_def logger_enabled_def)

lemma drain_mapper_items:
  "drain_item fresh now (drain_set_filter f (drain_set_mapper mapper dr)) r = mapper r"
  "drain_is_enabled (drain_set_mapper mapper dr) l = drain_is_enabled dr l"
  by (simp_all add: drain_item_def drain_set_filter_def drain_set_mapper_def drain_is_enabled_def)

text \<open>
  A body that was read is seen whole downstream. One that breaks off is captured as the empty text, and
  downstream reads an empty body that ends without an error.
\<close>

lemma body_put_back:
  "body_from_http (Payload chunks False) = (Some body, p) \<Longrightarrow> body_from_http p = (Some body, p) \<and> body = concat chunks"
  by (auto simp: body_from_http_def)

lemma broken_body_lost:
  "case body_from_http (Payload chunks True) of (body, p) \<Rightarrow>
     capture_request_body body = [] \<and> fst (body_from_http p) = Some []"
  by (simp add: body_from_http_def capture_request_body_def)

text \<open>However often the integration is set up, a panic is reported once and then handled as before.\<close>

lemma panic_setup_installed [simp]: "hk_once hk \<Longrightarrow> (panic_setup report ^^ n) hk = hk"
  by (induction n) (simp_all add: panic_setup_def)

lemma panic_reported_once:
  "\<not> hk_once hk \<Longrightarrow> hk_hook ((panic_setup report ^^ Suc n) hk) info s = hk_hook hk info (report info s)"
proof -
  assume first: "\<not> hk_once hk"
  have "(panic_setup report ^^ Suc n) hk = (panic_setup report ^^ n) (panic_setup report hk)"
    by (simp add: funpow_swap1)
  also have "\<dots> = panic_setup report hk"
    using first by (intro panic_setup_installed) (simp add: panic_setup_def Let_def)
  finally show ?thesis
    using first by (simp add: panic_setup_def Let_def)
qed

text \<open>The propagator sets no key but those of its fields.\<close>

lemma injected_field: "inject_context hx t sp sampled = Some (k, v) \<Longrightarrow> k \<in> set propagator_fields"
  by (auto simp: inject_context_def propagator_fields_def split: if_splits)

end
